(* ===== verification/Prelude.thy ===== *)
theory Prelude
  imports Main Complex_Main "HOL-Library.Multiset" "HOL-Library.Char_ord" "HOL-Library.List_Lexorder"
begin

text \<open>
  Shared vocabulary of the Duvycrawl development: the collections of automation facts, the type
  synonyms for Go values, and the generic lemmas on lists that several components use.

  Go strings are byte strings, so \<open>string\<close> (a list of 8-bit \<open>char\<close>) models them exactly.
  A \<open>time.Time\<close> is an integer count of nanoseconds since Go's zero time, so the zero value is
  \<open>0\<close> and \<open>IsZero\<close>, \<open>Before\<close> and \<open>After\<close> are the comparisons of integers; a
  \<open>time.Duration\<close> is an integer count of nanoseconds. A \<open>float64\<close> is a \<open>real\<close>:
  the development idealises rounding away and excludes NaN.
\<close>

named_theorems wf_intros \<open>preservation facts of the component invariants\<close>
named_theorems frame_simps \<open>fields an operation leaves alone\<close>
named_theorems bound_intros \<open>bounds on computed scores and counters\<close>

type_synonym domain = string
type_synonym rawurl = string
type_synonym gotime = int
type_synonym duration = int
type_synonym float64 = real

abbreviation second :: duration where "second \<equiv> 1000000000"
abbreviation millisecond :: duration where "millisecond \<equiv> 1000000"

definition time_zero :: gotime where
  "time_zero = 0"

subsection \<open>Descending lists\<close>

abbreviation sorted_desc :: "('a \<Rightarrow> 'b::linorder) \<Rightarrow> 'a list \<Rightarrow> bool" where
  "sorted_desc f \<equiv> sorted_wrt (\<lambda>x y. f y \<le> f x)"

lemma sorted_desc_nth_mono:
  assumes "sorted_desc f xs" "i \<le> j" "j < length xs"
  shows "f (xs ! j) \<le> f (xs ! i)"
  using assms by (cases "i = j") (auto simp: sorted_wrt_iff_nth_less)

lemma sorted_desc_insert_at:
  assumes "sorted_desc f xs" and "\<forall>x \<in> set (take k xs). f y \<le> f x" and "\<forall>x \<in> set (drop k xs). f x \<le> f y"
  shows "sorted_desc f (take k xs @ y # drop k xs)"
proof -
  have "sorted_desc f (take k xs @ drop k xs)"
    using assms(1) by simp
  then show ?thesis
    using assms(2,3) by (auto simp: sorted_wrt_append simp del: append_take_drop_id)
qed

lemma mset_take_Cons_drop: "mset (take k xs @ y # drop k xs) = add_mset y (mset xs)"
  by (metis append_take_drop_id mset_append mset.simps(2) union_mset_add_mset_right)

lemma distinct_map_insert_at:
  "distinct (map f (take k xs @ y # drop k xs)) \<longleftrightarrow> distinct (map f xs) \<and> f y \<notin> f ` set xs"
proof -
  have "distinct (map f (take k xs @ y # drop k xs)) \<longleftrightarrow> distinct (f y # map f (take k xs @ drop k xs))"
    by (auto simp: image_Un simp del: append_take_drop_id)
  then show ?thesis by auto
qed

lemma length_filter_mono: "(\<And>x. x \<in> set xs \<Longrightarrow> P x \<Longrightarrow> Q x) \<Longrightarrow> length (filter P xs) \<le> length (filter Q xs)"
  by (induction xs) (auto simp: le_SucI)

subsection \<open>Finite maps given by their keys\<close>

definition keys_listed :: "'a list \<Rightarrow> ('a \<rightharpoonup> 'b) \<Rightarrow> bool" where
  "keys_listed ks m \<longleftrightarrow> distinct ks \<and> set ks = dom m"

lemma keys_listed_length: "keys_listed ks m \<Longrightarrow> length ks = card (dom m)"
  by (metis distinct_card keys_listed_def)

lemma keys_listed_empty [simp]: "keys_listed [] m \<longleftrightarrow> m = Map.empty"
  by (auto simp: keys_listed_def)

end
