(* ===== verification/GoStrings.thy ===== *)
theory GoStrings
  imports Prelude
begin

text \<open>
  What the code uses of Go's \<open>strings\<close>, \<open>bytes\<close>, \<open>path\<close>, \<open>unicode\<close> and \<open>utf8\<close>
  packages, on byte strings. Functions that need no Unicode tables are exact. The tables
  themselves (case mapping of non-ASCII letters, letter and digit classes of non-ASCII runes) and the
  IPv6 literal grammar of \<open>net/netip\<close> are the fields of a record \<open>stdlib\<close> that every
  definition that needs one takes as its first argument; on ASCII text no field is consulted.
\<close>

record stdlib =
  sl_lower :: "string \<Rightarrow> string"
  sl_letter :: "nat \<Rightarrow> bool"
  sl_digit :: "nat \<Rightarrow> bool"
  sl_ip6 :: "string \<Rightarrow> bool"

text \<open>Tables that know only ASCII, for evaluating the model on ASCII text.\<close>

definition ascii_stdlib :: stdlib where
  "ascii_stdlib = \<lparr>sl_lower = (\<lambda>s. s), sl_letter = (\<lambda>_. False), sl_digit = (\<lambda>_. False), sl_ip6 = (\<lambda>_. False)\<rparr>"

abbreviation byte :: "char \<Rightarrow> nat" where "byte c \<equiv> of_char c"

definition is_ascii :: "string \<Rightarrow> bool" where
  "is_ascii s \<longleftrightarrow> list_all (\<lambda>c. byte c < 128) s"

definition ascii_upper :: "char \<Rightarrow> bool" where
  "ascii_upper c \<longleftrightarrow> 65 \<le> byte c \<and> byte c \<le> 90"

definition ascii_lower :: "char \<Rightarrow> bool" where
  "ascii_lower c \<longleftrightarrow> 97 \<le> byte c \<and> byte c \<le> 122"

definition ascii_digit :: "char \<Rightarrow> bool" where
  "ascii_digit c \<longleftrightarrow> 48 \<le> byte c \<and> byte c \<le> 57"

definition lower_char :: "char \<Rightarrow> char" where
  "lower_char c = (if ascii_upper c then char_of (byte c + 32) else c)"

definition to_lower :: "stdlib \<Rightarrow> string \<Rightarrow> string" where
  "to_lower E s = (if is_ascii s then map lower_char s else sl_lower E s)"

definition has_prefix :: "string \<Rightarrow> string \<Rightarrow> bool" where
  "has_prefix s p \<longleftrightarrow> take (length p) s = p"

definition has_suffix :: "string \<Rightarrow> string \<Rightarrow> bool" where
  "has_suffix s p \<longleftrightarrow> length p \<le> length s \<and> drop (length s - length p) s = p"

definition trim_prefix :: "string \<Rightarrow> string \<Rightarrow> string" where
  "trim_prefix s p = (if has_prefix s p then drop (length p) s else s)"

fun str_contains :: "string \<Rightarrow> string \<Rightarrow> bool" where
  "str_contains [] t = (t = [])"
| "str_contains (c # s) t = (has_prefix (c # s) t \<or> str_contains s t)"

text \<open>\<open>strings.IndexByte\<close>; the Go function's \<open>-1\<close> is \<open>None\<close>.\<close>

fun index_byte :: "string \<Rightarrow> char \<Rightarrow> nat option" where
  "index_byte [] c = None"
| "index_byte (x # s) c = (if x = c then Some 0 else map_option Suc (index_byte s c))"

fun last_index_byte :: "string \<Rightarrow> char \<Rightarrow> nat option" where
  "last_index_byte [] c = None"
| "last_index_byte (x # s) c =
     (case last_index_byte s c of Some i \<Rightarrow> Some (Suc i) | None \<Rightarrow> if x = c then Some 0 else None)"

text \<open>\<open>strings.Cut\<close> at one byte: text before, text after, found.\<close>

definition cut_byte :: "string \<Rightarrow> char \<Rightarrow> string \<times> string \<times> bool" where
  "cut_byte s c = (case index_byte s c of Some i \<Rightarrow> (take i s, drop (Suc i) s, True) | None \<Rightarrow> (s, [], False))"

fun split_byte :: "string \<Rightarrow> char \<Rightarrow> string list" where
  "split_byte [] c = [[]]"
| "split_byte (x # s) c =
     (if x = c then [] # split_byte s c
      else (case split_byte s c of [] \<Rightarrow> [[x]] | h # t \<Rightarrow> (x # h) # t))"

fun str_join :: "string list \<Rightarrow> string \<Rightarrow> string" where
  "str_join [] sep = []"
| "str_join [s] sep = s"
| "str_join (s # t # ts) sep = s @ sep @ str_join (t # ts) sep"

definition trim_left_set :: "string \<Rightarrow> string \<Rightarrow> string" where
  "trim_left_set s cs = dropWhile (\<lambda>c. c \<in> set cs) s"

definition trim_right_set :: "string \<Rightarrow> string \<Rightarrow> string" where
  "trim_right_set s cs = rev (dropWhile (\<lambda>c. c \<in> set cs) (rev s))"

definition trim_set :: "string \<Rightarrow> string \<Rightarrow> string" where
  "trim_set s cs = trim_right_set (trim_left_set s cs) cs"

subsection \<open>White space\<close>

definition ascii_space :: "char \<Rightarrow> bool" where
  "ascii_space c \<longleftrightarrow> byte c \<in> {9, 10, 11, 12, 13, 32}"

text \<open>The UTF-8 encodings of the non-ASCII runes for which \<open>unicode.IsSpace\<close> holds.\<close>

definition wide_spaces :: "string list" where
  "wide_spaces = map (map char_of)
     ([[194::nat, 133], [194, 160], [225, 154, 128]] @ map (\<lambda>k. [226, 128, k]) [128..<139]
      @ [[226, 128, 168], [226, 128, 169], [226, 128, 175], [226, 129, 159], [227, 128, 128]])"

text \<open>The length of the white-space rune a string starts with, \<open>0\<close> for none.\<close>

definition space_prefix :: "string \<Rightarrow> nat" where
  "space_prefix s =
     (case s of [] \<Rightarrow> 0
      | c # _ \<Rightarrow> if ascii_space c then 1
                else if byte c < 128 then 0
                else (case find (has_prefix s) wide_spaces of Some w \<Rightarrow> length w | None \<Rightarrow> 0))"

definition space_suffix :: "string \<Rightarrow> nat" where
  "space_suffix s =
     (if s = [] then 0
      else if ascii_space (last s) then 1
      else if byte (last s) < 128 then 0
      else (case find (has_suffix s) wide_spaces of Some w \<Rightarrow> length w | None \<Rightarrow> 0))"

function trim_space_left :: "string \<Rightarrow> string" where
  "trim_space_left s = (if space_prefix s = 0 then s else trim_space_left (drop (space_prefix s) s))"
  by pat_completeness auto
termination
  by (relation "measure length") (auto simp: space_prefix_def split: list.splits)

function trim_space_right :: "string \<Rightarrow> string" where
  "trim_space_right s =
     (if space_suffix s = 0 then s else trim_space_right (take (length s - space_suffix s) s))"
  by pat_completeness auto
termination
  by (relation "measure length") (auto simp: space_suffix_def split: if_splits)

declare trim_space_left.simps [simp del] trim_space_right.simps [simp del]

definition trim_space :: "string \<Rightarrow> string" where
  "trim_space s = trim_space_right (trim_space_left s)"


subsection \<open>UTF-8\<close>

text \<open>
  The rune at the start of a non-empty string and its width in bytes; an invalid encoding is one byte
  of \<open>RuneError\<close>, U+FFFD.
\<close>

definition decode_rune :: "string \<Rightarrow> nat \<times> nat" where
  "decode_rune s =
     (case map byte (take 4 s) of
        b0 # rest \<Rightarrow>
          if b0 < 128 then (b0, 1)
          else if 194 \<le> b0 \<and> b0 \<le> 223 then
            (case rest of b1 # _ \<Rightarrow> if 128 \<le> b1 \<and> b1 \<le> 191 then ((b0 - 192) * 64 + (b1 - 128), 2) else (65533, 1)
             | _ \<Rightarrow> (65533, 1))
          else if 224 \<le> b0 \<and> b0 \<le> 239 then
            (case rest of b1 # b2 # _ \<Rightarrow>
               if (if b0 = 224 then 160 else 128) \<le> b1 \<and> b1 \<le> (if b0 = 237 then 159 else 191) \<and> 128 \<le> b2 \<and> b2 \<le> 191
               then ((b0 - 224) * 4096 + (b1 - 128) * 64 + (b2 - 128), 3) else (65533, 1)
             | _ \<Rightarrow> (65533, 1))
          else if 240 \<le> b0 \<and> b0 \<le> 244 then
            (case rest of b1 # b2 # b3 # _ \<Rightarrow>
               if (if b0 = 240 then 144 else 128) \<le> b1 \<and> b1 \<le> (if b0 = 244 then 143 else 191)
                  \<and> 128 \<le> b2 \<and> b2 \<le> 191 \<and> 128 \<le> b3 \<and> b3 \<le> 191
               then ((b0 - 240) * 262144 + (b1 - 128) * 4096 + (b2 - 128) * 64 + (b3 - 128), 4) else (65533, 1)
             | _ \<Rightarrow> (65533, 1))
          else (65533, 1)
      | [] \<Rightarrow> (65533, 1))"

lemma decode_rune_width: "1 \<le> snd (decode_rune s)"
  by (auto simp: decode_rune_def split: list.splits)

text \<open>The loop \<open>for _, r := range s\<close>: the runes of a string, each with the bytes it was read from.\<close>

function runes :: "string \<Rightarrow> (nat \<times> string) list" where
  "runes [] = []"
| "runes (c # s) =
     (fst (decode_rune (c # s)), take (snd (decode_rune (c # s))) (c # s)) # runes (drop (snd (decode_rune (c # s))) (c # s))"
  by pat_completeness auto
termination
  by (relation "measure length") (use decode_rune_width in \<open>auto simp: not_less_eq_eq Suc_le_eq diff_less\<close>)

definition is_letter :: "stdlib \<Rightarrow> nat \<Rightarrow> bool" where
  "is_letter E r = (if r < 128 then 65 \<le> r \<and> r \<le> 90 \<or> 97 \<le> r \<and> r \<le> 122 else sl_letter E r)"

definition is_digit :: "stdlib \<Rightarrow> nat \<Rightarrow> bool" where
  "is_digit E r = (if r < 128 then 48 \<le> r \<and> r \<le> 57 else sl_digit E r)"


text \<open>The UTF-8 encoding of a rune, for the conversion \<open>string(runes)\<close>.\<close>

definition encode_rune :: "nat \<Rightarrow> string" where
  "encode_rune r =
     map char_of
       (if r < 128 then [r]
        else if r < 2048 then [192 + r div 64, 128 + r mod 64]
        else if r < 65536 then [224 + r div 4096, 128 + r div 64 mod 64, 128 + r mod 64]
        else [240 + r div 262144, 128 + r div 4096 mod 64, 128 + r div 64 mod 64, 128 + r mod 64])"

definition runes_string :: "nat list \<Rightarrow> string" where
  "runes_string rs = concat (map encode_rune rs)"

end
