(* ===== verification/Queue.thy ===== *)
theory Queue
  imports GoStrings "HOL-Library.Word" "HOL-Library.Signed_Division"
begin

text \<open>
  The in-memory priority queue of \<open>internal/queue/queue.go\<close>: one list of jobs per domain, in
  descending score order, with a Bloom filter for deduplication and round-robin between domains.

  The Bloom filter is the third-party package \<open>bits-and-blooms\<close>: its state is the type
  variable \<open>'b\<close> and its two operations \<open>bt\<close> (\<open>TestString\<close>) and \<open>ba\<close> (\<open>AddString\<close>)
  are arguments. Go's \<open>range\<close> over a map visits the keys in an unspecified order: operations
  that iterate take that order as a list \<open>ks\<close>. The readiness callback of a dequeue may change the
  caller's state (it reserves a rate-limit slot), so it is a state transformer.
\<close>

subsection \<open>Data\<close>

record job =
  j_id :: int
  j_url :: string
  j_domain :: domain
  j_depth :: int
  j_score :: float64
  j_base :: float64
  j_fp :: string
  j_retries :: int
  j_anchor :: string
  j_title :: string
  j_schema :: string
  j_lang :: string

record 'b queue =
  q_domains :: "domain \<rightharpoonup> job list"
  q_bloom :: 'b
  q_next :: int
  q_round :: "64 word"
  q_waiters :: int
  q_bcasts :: nat
  q_enq :: int
  q_deq :: int

text \<open>
  \<open>q_bcasts\<close> counts the calls of \<open>cond.Broadcast\<close>; the reused \<open>candidateBuf\<close> is a
  buffer that every dequeue empties first and is not part of the state.
\<close>

definition new_queue :: "'b \<Rightarrow> 'b queue" where
  "new_queue b = \<lparr>q_domains = Map.empty, q_bloom = b, q_next = 0, q_round = 0, q_waiters = 0,
     q_bcasts = 0, q_enq = 0, q_deq = 0\<rparr>"

definition dedup_key :: "job \<Rightarrow> string" where
  "dedup_key j = (if j_fp j \<noteq> [] then j_fp j else j_url j)"

subsection \<open>Insertion in score order\<close>

text \<open>\<open>sort.Search\<close>: binary search for the first index in \<open>[i, j)\<close> where \<open>f\<close> holds.\<close>

function sort_search :: "(nat \<Rightarrow> bool) \<Rightarrow> nat \<Rightarrow> nat \<Rightarrow> nat" where
  "sort_search f i j =
     (if i < j then (let h = (i + j) div 2 in if \<not> f h then sort_search f (h + 1) j else sort_search f i h)
      else i)"
  by pat_completeness auto
termination
  by (relation "measure (\<lambda>(f, i, j). j - i)") auto

declare sort_search.simps [simp del]

definition insert_sorted :: "job list \<Rightarrow> job \<Rightarrow> job list" where
  "insert_sorted jobs job =
     (let i = sort_search (\<lambda>i. j_score (jobs ! i) < j_score job) 0 (length jobs)
      in take i jobs @ job # drop i jobs)"

definition jobs_of :: "'b queue \<Rightarrow> domain \<Rightarrow> job list" where
  "jobs_of q d = (case q_domains q d of None \<Rightarrow> [] | Some js \<Rightarrow> js)"

text \<open>The two lines every enqueue shares: a fresh identifier, and the insertion.\<close>

definition push_job :: "job \<Rightarrow> 'b queue \<Rightarrow> 'b queue" where
  "push_job job q =
     (let job' = job\<lparr>j_id := q_next q + 1\<rparr>; d = j_domain job
      in q\<lparr>q_next := q_next q + 1, q_domains := (q_domains q)(d \<mapsto> insert_sorted (jobs_of q d) job')\<rparr>)"

definition wake_waiters :: "'b queue \<Rightarrow> 'b queue" where
  "wake_waiters q = (if 0 < q_waiters q then q\<lparr>q_bcasts := q_bcasts q + 1\<rparr> else q)"

definition enqueue :: "('b \<Rightarrow> string \<Rightarrow> bool) \<Rightarrow> ('b \<Rightarrow> string \<Rightarrow> 'b) \<Rightarrow> job \<Rightarrow> 'b queue \<Rightarrow> bool \<times> 'b queue" where
  "enqueue bt ba job q =
     (let key = dedup_key job
      in if bt (q_bloom q) key then (False, q)
         else (let q1 = push_job job (q\<lparr>q_bloom := ba (q_bloom q) key\<rparr>);
                   q2 = q1\<lparr>q_enq := q_enq q1 + 1\<rparr>
               in (True, wake_waiters q2)))"

fun batch_loop :: "('b \<Rightarrow> string \<Rightarrow> bool) \<Rightarrow> ('b \<Rightarrow> string \<Rightarrow> 'b) \<Rightarrow> job list \<Rightarrow> int \<Rightarrow> 'b queue \<Rightarrow> int \<times> 'b queue" where
  "batch_loop bt ba [] added q = (added, q)"
| "batch_loop bt ba (job # jobs) added q =
     (let key = dedup_key job
      in if bt (q_bloom q) key then batch_loop bt ba jobs added q
         else batch_loop bt ba jobs (added + 1) (push_job job (q\<lparr>q_bloom := ba (q_bloom q) key\<rparr>)))"

definition finish_batch :: "int \<Rightarrow> 'b queue \<Rightarrow> int \<times> 'b queue" where
  "finish_batch added q =
     (let q1 = q\<lparr>q_enq := q_enq q + added\<rparr> in (added, if 0 < added then wake_waiters q1 else q1))"

definition enqueue_batch :: "('b \<Rightarrow> string \<Rightarrow> bool) \<Rightarrow> ('b \<Rightarrow> string \<Rightarrow> 'b) \<Rightarrow> job list \<Rightarrow> 'b queue \<Rightarrow> int \<times> 'b queue" where
  "enqueue_batch bt ba jobs q = (case batch_loop bt ba jobs 0 q of (added, q1) \<Rightarrow> finish_batch added q1)"

definition enqueue_retry :: "job \<Rightarrow> 'b queue \<Rightarrow> bool \<times> 'b queue" where
  "enqueue_retry job q = (let q1 = push_job job q in (True, wake_waiters (q1\<lparr>q_enq := q_enq q1 + 1\<rparr>)))"

fun direct_loop :: "job list \<Rightarrow> int \<Rightarrow> 'b queue \<Rightarrow> int \<times> 'b queue" where
  "direct_loop [] added q = (added, q)"
| "direct_loop (job # jobs) added q = direct_loop jobs (added + 1) (push_job job q)"

definition enqueue_batch_direct :: "job list \<Rightarrow> 'b queue \<Rightarrow> int \<times> 'b queue" where
  "enqueue_batch_direct jobs q = (case direct_loop jobs 0 q of (added, q1) \<Rightarrow> finish_batch added q1)"

subsection \<open>Dequeue\<close>

text \<open>\<open>popJob\<close>; indexing an empty slice panics, which is \<open>None\<close>.\<close>

definition pop_job :: "domain \<Rightarrow> 'b queue \<Rightarrow> (job \<times> 'b queue) option" where
  "pop_job d q =
     (case jobs_of q d of
        [] \<Rightarrow> None
      | job # rest \<Rightarrow>
          Some (job, q\<lparr>q_domains := (if rest = [] then (q_domains q)(d := None) else (q_domains q)(d \<mapsto> rest)),
                       q_deq := q_deq q + 1\<rparr>))"

datatype dequeued = DqPanic | DqNone | DqJob job

type_synonym 's ready_fn = "domain \<Rightarrow> 's \<Rightarrow> bool \<times> 's"

definition candidates :: "domain list \<Rightarrow> 'b queue \<Rightarrow> (domain \<times> float64) list" where
  "candidates ks q = map (\<lambda>d. (d, j_score (hd (jobs_of q d)))) (filter (\<lambda>d. jobs_of q d \<noteq> []) ks)"

text \<open>The scan of the candidates, one recursive call per loop iteration \<open>i\<close>.\<close>

fun scan_ready :: "'s ready_fn \<Rightarrow> (domain \<times> float64) list \<Rightarrow> int \<Rightarrow> nat list \<Rightarrow> 's \<Rightarrow> 'b queue \<Rightarrow> dequeued \<times> 's \<times> 'b queue" where
  "scan_ready rdy cs off [] s q = (DqNone, s, q)"
| "scan_ready rdy cs off (i # is) s q =
     (let k = (off + int i) smod int (length cs)
      in if k < 0 \<or> int (length cs) \<le> k then (DqPanic, s, q)
         else (case rdy (fst (cs ! nat k)) s of
                 (True, s') \<Rightarrow> (case pop_job (fst (cs ! nat k)) q of
                                 None \<Rightarrow> (DqPanic, s', q)
                               | Some (job, q') \<Rightarrow> (DqJob job, s', q'))
               | (False, s') \<Rightarrow> scan_ready rdy cs off is s' q))"

definition dequeue_locked :: "domain list \<Rightarrow> 's ready_fn \<Rightarrow> 's \<Rightarrow> 'b queue \<Rightarrow> dequeued \<times> 's \<times> 'b queue" where
  "dequeue_locked ks rdy s q =
     (if length ks = 0 then (DqNone, s, q)
      else (let cs = candidates ks q
            in if length cs = 0 then (DqNone, s, q)
               else (let q1 = q\<lparr>q_round := q_round q + 1\<rparr>;
                         off = sint (q_round q1) smod int (length cs)
                     in scan_ready rdy cs off [0..<length cs] s q1)))"

definition mark_seen :: "('b \<Rightarrow> string \<Rightarrow> 'b) \<Rightarrow> string \<Rightarrow> 'b queue \<Rightarrow> 'b queue" where
  "mark_seen ba key q = q\<lparr>q_bloom := ba (q_bloom q) key\<rparr>"

definition has_seen :: "('b \<Rightarrow> string \<Rightarrow> bool) \<Rightarrow> string \<Rightarrow> 'b queue \<Rightarrow> bool" where
  "has_seen bt key q = bt (q_bloom q) key"

definition queue_len :: "domain list \<Rightarrow> 'b queue \<Rightarrow> nat" where
  "queue_len ks q = sum_list (map (\<lambda>d. length (jobs_of q d)) ks)"

record queue_stats =
  qs_pending :: nat
  qs_domains :: nat
  qs_enqueued :: int
  qs_dequeued :: int

definition queue_stats_of :: "domain list \<Rightarrow> 'b queue \<Rightarrow> queue_stats" where
  "queue_stats_of ks q =
     \<lparr>qs_pending = queue_len ks q, qs_domains = length ks, qs_enqueued = q_enq q, qs_dequeued = q_deq q\<rparr>"

record domain_count =
  dc_domain :: domain
  dc_pending :: nat

text \<open>\<open>sort.Slice\<close> is not stable; since the order \<open>ks\<close> is arbitrary, so is the order of ties here.\<close>

definition domain_breakdown :: "domain list \<Rightarrow> 'b queue \<Rightarrow> domain_count list" where
  "domain_breakdown ks q =
     sort_key (\<lambda>c. - int (dc_pending c))
       (map (\<lambda>d. \<lparr>dc_domain = d, dc_pending = length (jobs_of q d)\<rparr>) (filter (\<lambda>d. 0 < length (jobs_of q d)) ks))"

lemma ball_set_take: "k \<le> length xs \<Longrightarrow> (\<And>i. i < k \<Longrightarrow> P (xs ! i)) \<Longrightarrow> \<forall>x \<in> set (take k xs). P x"
  by (simp add: list_all_length flip: list_all_iff)

lemma ball_set_drop: "(\<And>i. k \<le> i \<Longrightarrow> i < length xs \<Longrightarrow> P (xs ! i)) \<Longrightarrow> \<forall>x \<in> set (drop k xs). P x"
  by (simp add: list_all_length flip: list_all_iff)

subsection \<open>Insertion: binary search, order, contents\<close>

lemma sort_search_spec:
  assumes "i \<le> j" and "\<And>a b. i \<le> a \<Longrightarrow> a \<le> b \<Longrightarrow> b < j \<Longrightarrow> f a \<Longrightarrow> f b"
  shows "i \<le> sort_search f i j \<and> sort_search f i j \<le> j
    \<and> (\<forall>k. i \<le> k \<and> k < sort_search f i j \<longrightarrow> \<not> f k)
    \<and> (\<forall>k. sort_search f i j \<le> k \<and> k < j \<longrightarrow> f k)"
  using assms
proof (induction f i j rule: sort_search.induct)
  case (1 f i j)
  show ?case
  proof (cases "i < j")
    case False
    then have "sort_search f i j = i" by (simp add: sort_search.simps [of f i j])
    with False "1.prems"(1) show ?thesis by auto
  next
    case lt: True
    define h where "h = (i + j) div 2"
    have h: "i \<le> h" "h < j" using lt by (auto simp: h_def)
    show ?thesis
    proof (cases "f h")
      case True
      have eq: "sort_search f i j = sort_search f i h"
        using lt True by (simp add: sort_search.simps [of f i j] Let_def h_def)
      have "i \<le> sort_search f i h \<and> sort_search f i h \<le> h
        \<and> (\<forall>k. i \<le> k \<and> k < sort_search f i h \<longrightarrow> \<not> f k)
        \<and> (\<forall>k. sort_search f i h \<le> k \<and> k < h \<longrightarrow> f k)"
        by (rule "1.IH"(2) [OF lt h_def]) (use True h in \<open>simp_all, meson "1.prems"(2) less_trans\<close>)
      note ih = this
      have above: "f k" if "h \<le> k" "k < j" for k
        using "1.prems"(2) [of h k] h True that by simp
      have "f k" if "sort_search f i h \<le> k" "k < j" for k
        using ih above [of k] that by (cases "k < h") simp_all
      with ih h show ?thesis unfolding eq by simp
    next
      case False
      have eq: "sort_search f i j = sort_search f (h + 1) j"
        using lt False by (simp add: sort_search.simps [of f i j] Let_def h_def)
      have "h + 1 \<le> sort_search f (h + 1) j \<and> sort_search f (h + 1) j \<le> j
        \<and> (\<forall>k. h + 1 \<le> k \<and> k < sort_search f (h + 1) j \<longrightarrow> \<not> f k)
        \<and> (\<forall>k. sort_search f (h + 1) j \<le> k \<and> k < j \<longrightarrow> f k)"
        by (rule "1.IH"(1) [OF lt h_def]) (use False h in \<open>simp_all, meson "1.prems"(2) Suc_leD le_trans\<close>)
      note ih = this
      have below: "\<not> f k" if "i \<le> k" "k \<le> h" for k
        using "1.prems"(2) [of k h] h False that by blast
      have "\<not> f k" if "i \<le> k" "k < sort_search f (h + 1) j" for k
        using ih below [of k] that by (cases "k \<le> h") simp_all
      with ih h show ?thesis unfolding eq by simp
    qed
  qed
qed

lemma insert_position:
  fixes jobs :: "job list" and job :: job
  defines "k \<equiv> sort_search (\<lambda>i. j_score (jobs ! i) < j_score job) 0 (length jobs)"
  assumes "sorted_desc j_score jobs"
  shows "k \<le> length jobs" and "\<forall>x \<in> set (take k jobs). j_score job \<le> j_score x"
    and "\<forall>x \<in> set (drop k jobs). j_score x < j_score job"
proof -
  define f where "f i \<longleftrightarrow> j_score (jobs ! i) < j_score job" for i
  have mono: "f b" if "0 \<le> a" "a \<le> b" "b < length jobs" "f a" for a b
    using sorted_desc_nth_mono [OF assms(2) that(2,3)] that(4) unfolding f_def by simp
  have k: "k = sort_search f 0 (length jobs)" unfolding k_def f_def ..
  have spec: "0 \<le> k \<and> k \<le> length jobs \<and> (\<forall>i. 0 \<le> i \<and> i < k \<longrightarrow> \<not> f i) \<and> (\<forall>i. k \<le> i \<and> i < length jobs \<longrightarrow> f i)"
    unfolding k by (rule sort_search_spec [OF le0]) (rule mono)
  have s: "k \<le> length jobs" "\<forall>i. 0 \<le> i \<and> i < k \<longrightarrow> \<not> f i" "\<forall>i. k \<le> i \<and> i < length jobs \<longrightarrow> f i"
    using spec by blast+
  show "k \<le> length jobs" using s by blast
  show "\<forall>x \<in> set (take k jobs). j_score job \<le> j_score x"
    by (rule ball_set_take) (use s in \<open>auto simp: f_def not_less\<close>)
  show "\<forall>x \<in> set (drop k jobs). j_score x < j_score job"
    by (rule ball_set_drop) (use s in \<open>auto simp: f_def\<close>)
qed

lemma mset_insert_sorted [simp]: "mset (insert_sorted jobs job) = add_mset job (mset jobs)"
  unfolding insert_sorted_def Let_def by (rule mset_take_Cons_drop)

lemma set_insert_sorted [simp]: "set (insert_sorted jobs job) = insert job (set jobs)"
  by (metis mset_insert_sorted set_mset_add_mset_insert set_mset_mset)

lemma length_insert_sorted [simp]: "length (insert_sorted jobs job) = Suc (length jobs)"
  by (metis mset_insert_sorted size_add_mset size_mset)

lemma insert_sorted_nonempty [simp]: "insert_sorted jobs job \<noteq> []"
  by (simp add: insert_sorted_def Let_def)

lemma insert_sorted_desc: "sorted_desc j_score jobs \<Longrightarrow> sorted_desc j_score (insert_sorted jobs job)"
  unfolding insert_sorted_def Let_def
  by (rule sorted_desc_insert_at) (blast dest: insert_position less_imp_le)+

lemma distinct_ids_insert_sorted:
  "distinct (map j_id (insert_sorted jobs job)) \<longleftrightarrow> distinct (map j_id jobs) \<and> j_id job \<notin> j_id ` set jobs"
  by (simp only: insert_sorted_def Let_def distinct_map_insert_at)

lemma filter_take_drop_split:
  assumes "\<forall>x \<in> set (take k xs). P x" and "\<forall>x \<in> set (drop k xs). \<not> P x"
  shows "filter P xs = take k xs" and "filter (\<lambda>x. \<not> P x) xs = drop k xs"
proof -
  have "filter P (take k xs @ drop k xs) = take k xs" "filter (\<lambda>x. \<not> P x) (take k xs @ drop k xs) = drop k xs"
    using assms by (simp_all only: filter_append) (simp_all add: filter_empty_conv filter_id_conv)
  then show "filter P xs = take k xs" "filter (\<lambda>x. \<not> P x) xs = drop k xs" by simp_all
qed

lemma insert_sorted_split:
  assumes "sorted_desc j_score jobs"
  shows "insert_sorted jobs job =
    filter (\<lambda>x. j_score job \<le> j_score x) jobs @ job # filter (\<lambda>x. \<not> j_score job \<le> j_score x) jobs"
proof -
  define k where "k = sort_search (\<lambda>i. j_score (jobs ! i) < j_score job) 0 (length jobs)"
  have "\<forall>x \<in> set (take k jobs). j_score job \<le> j_score x" "\<forall>x \<in> set (drop k jobs). \<not> j_score job \<le> j_score x"
    using insert_position [OF assms, of job] unfolding k_def not_le by blast+
  note split = filter_take_drop_split [OF this]
  show ?thesis unfolding split by (simp add: insert_sorted_def Let_def k_def)
qed

subsection \<open>The queue as a bag of pending jobs\<close>

text \<open>
  \<open>pending q\<close> is the multiset of the jobs the per-domain lists hold: the abstract state that
  every operation is specified by. \<open>queue_wf\<close> is the representation invariant.
\<close>

definition pending :: "'b queue \<Rightarrow> job multiset" where
  "pending q = (\<Sum>d \<in> dom (q_domains q). mset (jobs_of q d))"

definition list_ok :: "int \<Rightarrow> domain \<Rightarrow> job list \<Rightarrow> bool" where
  "list_ok n d js \<longleftrightarrow> js \<noteq> [] \<and> sorted_desc j_score js \<and> distinct (map j_id js)
     \<and> (\<forall>j \<in> set js. j_domain j = d \<and> j_id j \<le> n)"

definition queue_wf :: "'b queue \<Rightarrow> bool" where
  "queue_wf q \<longleftrightarrow> finite (dom (q_domains q))
     \<and> (\<forall>d js. q_domains q d = Some js \<longrightarrow> list_ok (q_next q) d js)
     \<and> q_enq q - q_deq q = int (size (pending q))"

lemma jobs_of_Some [simp]: "q_domains q d = Some js \<Longrightarrow> jobs_of q d = js"
  by (simp add: jobs_of_def)

lemma jobs_of_None [simp]: "q_domains q d = None \<Longrightarrow> jobs_of q d = []"
  by (simp add: jobs_of_def)

lemma jobs_of_frame [frame_simps]:
  "jobs_of (q\<lparr>q_bloom := b\<rparr>) = jobs_of q" "jobs_of (q\<lparr>q_round := r\<rparr>) = jobs_of q"
  "jobs_of (q\<lparr>q_waiters := w\<rparr>) = jobs_of q" "jobs_of (q\<lparr>q_bcasts := c\<rparr>) = jobs_of q"
  "jobs_of (q\<lparr>q_enq := e\<rparr>) = jobs_of q" "jobs_of (q\<lparr>q_deq := e\<rparr>) = jobs_of q" "jobs_of (q\<lparr>q_next := e\<rparr>) = jobs_of q"
  by (auto simp: jobs_of_def fun_eq_iff)

lemma pending_frame [frame_simps]:
  "pending (q\<lparr>q_bloom := b\<rparr>) = pending q" "pending (q\<lparr>q_round := r\<rparr>) = pending q"
  "pending (q\<lparr>q_waiters := w\<rparr>) = pending q" "pending (q\<lparr>q_bcasts := c\<rparr>) = pending q"
  "pending (q\<lparr>q_enq := e\<rparr>) = pending q" "pending (q\<lparr>q_deq := e\<rparr>) = pending q" "pending (q\<lparr>q_next := e\<rparr>) = pending q"
  by (simp_all add: pending_def frame_simps)

lemma pending_update:
  assumes "finite (dom (q_domains q))"
  shows "pending (q\<lparr>q_domains := (q_domains q)(d \<mapsto> js)\<rparr>) + mset (jobs_of q d) = pending q + mset js"
proof -
  let ?q' = "q\<lparr>q_domains := (q_domains q)(d \<mapsto> js)\<rparr>" and ?A = "dom (q_domains q) - {d}"
  have same: "(\<Sum>x \<in> ?A. mset (jobs_of ?q' x)) = (\<Sum>x \<in> ?A. mset (jobs_of q x))"
    by (rule sum.cong) (auto simp: jobs_of_def)
  have "pending ?q' = mset js + (\<Sum>x \<in> ?A. mset (jobs_of ?q' x))"
    unfolding pending_def using assms by (simp add: sum.insert_remove)
  moreover have "pending q = mset (jobs_of q d) + (\<Sum>x \<in> ?A. mset (jobs_of q x))"
    unfolding pending_def using assms
    by (cases "d \<in> dom (q_domains q)") (auto simp: sum.remove jobs_of_def domIff)
  ultimately show ?thesis using same by simp
qed

lemma pending_delete:
  assumes "finite (dom (q_domains q))"
  shows "pending (q\<lparr>q_domains := (q_domains q)(d := None)\<rparr>) + mset (jobs_of q d) = pending q"
proof -
  let ?q' = "q\<lparr>q_domains := (q_domains q)(d := None)\<rparr>" and ?A = "dom (q_domains q) - {d}"
  have same: "(\<Sum>x \<in> ?A. mset (jobs_of ?q' x)) = (\<Sum>x \<in> ?A. mset (jobs_of q x))"
    by (rule sum.cong) (auto simp: jobs_of_def)
  have "pending ?q' = (\<Sum>x \<in> ?A. mset (jobs_of ?q' x))"
    unfolding pending_def by (simp add: dom_fun_upd)
  moreover have "pending q = mset (jobs_of q d) + (\<Sum>x \<in> ?A. mset (jobs_of q x))"
    unfolding pending_def using assms
    by (cases "d \<in> dom (q_domains q)") (auto simp: sum.remove jobs_of_def domIff)
  ultimately show ?thesis using same by simp
qed

lemma mset_jobs_of_subset: "finite (dom (q_domains q)) \<Longrightarrow> mset (jobs_of q d) \<subseteq># pending q"
  by (metis mset_subset_eq_add_right pending_delete)

lemma in_pending_iff:
  "finite (dom (q_domains q)) \<Longrightarrow> j \<in># pending q \<longleftrightarrow> (\<exists>d. j \<in> set (jobs_of q d))"
  unfolding pending_def by (auto simp: set_mset_sum) (metis domIff empty_iff jobs_of_None list.set(1))

subsection \<open>Enqueueing preserves the invariant\<close>

definition stamped :: "job \<Rightarrow> 'b queue \<Rightarrow> job" where
  "stamped job q = job\<lparr>j_id := q_next q + 1\<rparr>"

lemma push_job_frame [frame_simps]:
  "q_bloom (push_job job q) = q_bloom q" "q_next (push_job job q) = q_next q + 1"
  "q_round (push_job job q) = q_round q" "q_waiters (push_job job q) = q_waiters q"
  "q_bcasts (push_job job q) = q_bcasts q" "q_enq (push_job job q) = q_enq q" "q_deq (push_job job q) = q_deq q"
  by (simp_all add: push_job_def Let_def)

lemma push_job_domains:
  "q_domains (push_job job q) = (q_domains q)(j_domain job \<mapsto> insert_sorted (jobs_of q (j_domain job)) (stamped job q))"
  by (simp add: push_job_def Let_def stamped_def)

lemma pending_push:
  assumes "finite (dom (q_domains q))"
  shows "pending (push_job job q) = add_mset (stamped job q) (pending q)"
proof -
  have "push_job job q =
    q\<lparr>q_domains := (q_domains q)(j_domain job \<mapsto> insert_sorted (jobs_of q (j_domain job)) (stamped job q))\<rparr>\<lparr>q_next := q_next q + 1\<rparr>"
    by (simp add: push_job_def Let_def stamped_def)
  then show ?thesis
    using pending_update [OF assms, of "j_domain job" "insert_sorted (jobs_of q (j_domain job)) (stamped job q)"]
    by (simp add: frame_simps)
qed

lemma wake_waiters_frame [frame_simps]:
  "q_domains (wake_waiters q) = q_domains q" "q_bloom (wake_waiters q) = q_bloom q" "q_next (wake_waiters q) = q_next q"
  "q_enq (wake_waiters q) = q_enq q" "q_deq (wake_waiters q) = q_deq q" "q_round (wake_waiters q) = q_round q"
  "q_waiters (wake_waiters q) = q_waiters q" "pending (wake_waiters q) = pending q"
  by (simp_all add: wake_waiters_def frame_simps)

text \<open>The invariant without its counter clause: what holds between the two halves of a batch.\<close>

definition lists_wf :: "'b queue \<Rightarrow> bool" where
  "lists_wf q \<longleftrightarrow> finite (dom (q_domains q))
     \<and> (\<forall>d js. q_domains q d = Some js \<longrightarrow> list_ok (q_next q) d js)"

lemma queue_wf_lists: "queue_wf q \<longleftrightarrow> lists_wf q \<and> q_enq q - q_deq q = int (size (pending q))"
  by (auto simp: queue_wf_def lists_wf_def)

lemma lists_wf_finite [simp]: "lists_wf q \<Longrightarrow> finite (dom (q_domains q))"
  by (simp add: lists_wf_def)

lemma lists_wf_cong: "q_domains q' = q_domains q \<Longrightarrow> q_next q' = q_next q \<Longrightarrow> lists_wf q' \<longleftrightarrow> lists_wf q"
  by (simp add: lists_wf_def)

lemma list_ok_mono: "list_ok n d js \<Longrightarrow> n \<le> m \<Longrightarrow> list_ok m d js"
  unfolding list_ok_def by (meson order_trans)

lemma lists_wf_jobs: "lists_wf q \<Longrightarrow> jobs_of q d = [] \<or> list_ok (q_next q) d (jobs_of q d)"
  unfolding lists_wf_def by (cases "q_domains q d") simp_all

lemma list_ok_insert:
  assumes "js = [] \<or> list_ok n d js" and "j_domain job = d" and "n < j_id job"
  shows "list_ok (j_id job) d (insert_sorted js job)"
proof -
  have js: "sorted_desc j_score js" "distinct (map j_id js)" "\<forall>j \<in> set js. j_domain j = d \<and> j_id j \<le> n"
    using assms(1) by (auto simp: list_ok_def)
  have "j_id job \<notin> j_id ` set js"
    using js(3) assms(3) by force
  with js(2) have dist: "distinct (map j_id (insert_sorted js job))"
    unfolding distinct_ids_insert_sorted by blast
  have "\<forall>j \<in> set (insert_sorted js job). j_domain j = d \<and> j_id j \<le> j_id job"
    using js(3) assms(2,3) by force
  with dist insert_sorted_desc [OF js(1), of job] show ?thesis
    unfolding list_ok_def by (intro conjI insert_sorted_nonempty)
qed

lemma lists_wf_push [wf_intros]:
  assumes "lists_wf q"
  shows "lists_wf (push_job job q)"
proof -
  have "list_ok (q_next q + 1) (j_domain job) (insert_sorted (jobs_of q (j_domain job)) (stamped job q))"
    using list_ok_insert [OF lists_wf_jobs [OF assms], of "stamped job q"] by (simp add: stamped_def)
  then show ?thesis
    using assms unfolding lists_wf_def push_job_domains frame_simps
    by (auto intro: list_ok_mono [of "q_next q"])
qed

lemma lists_wf_frame [frame_simps]:
  "lists_wf (q\<lparr>q_bloom := b\<rparr>) = lists_wf q" "lists_wf (q\<lparr>q_round := r\<rparr>) = lists_wf q"
  "lists_wf (q\<lparr>q_waiters := w\<rparr>) = lists_wf q" "lists_wf (q\<lparr>q_bcasts := c\<rparr>) = lists_wf q"
  "lists_wf (q\<lparr>q_enq := e\<rparr>) = lists_wf q" "lists_wf (q\<lparr>q_deq := e\<rparr>) = lists_wf q"
  "lists_wf (wake_waiters q) = lists_wf q"
  by (simp_all add: lists_wf_def frame_simps)

text \<open>Progress of a loop that has stored \<open>n\<close> jobs: what every enqueuing operation establishes.\<close>

definition stored :: "'b queue \<Rightarrow> int \<Rightarrow> 'b queue \<Rightarrow> bool" where
  "stored q n q' \<longleftrightarrow> lists_wf q' \<and> 0 \<le> n \<and> int (size (pending q')) = int (size (pending q)) + n
     \<and> q_enq q' = q_enq q \<and> q_deq q' = q_deq q \<and> q_next q' = q_next q + n \<and> q_waiters q' = q_waiters q \<and> q_bcasts q' = q_bcasts q"

lemma stored_refl: "lists_wf q \<Longrightarrow> stored q 0 q"
  by (simp add: stored_def)

lemma stored_push: "stored q n q' \<Longrightarrow> stored q (n + 1) (push_job job q')"
  by (simp add: stored_def frame_simps pending_push lists_wf_push)

lemma stored_bloom: "stored q n (q'\<lparr>q_bloom := b\<rparr>) = stored q n q'"
  by (simp add: stored_def frame_simps)

lemma stored_batch_loop: "stored q0 n q \<Longrightarrow> batch_loop bt ba jobs n q = (m, q') \<Longrightarrow> stored q0 m q'"
  by (induction jobs arbitrary: n q) (auto simp: Let_def split: if_splits, metis stored_bloom stored_push)

lemma stored_direct_loop: "stored q0 n q \<Longrightarrow> direct_loop jobs n q = (m, q') \<Longrightarrow> stored q0 m q'"
  by (induction jobs arbitrary: n q) (auto, metis stored_push)

lemma wf_finish_batch:
  assumes "queue_wf q" and "stored q n q'" and "finish_batch n q' = (m, q'')"
  shows "queue_wf q''" and "m = n" and "q_enq q'' = q_enq q + n"
  using assms by (auto simp: queue_wf_lists stored_def finish_batch_def Let_def frame_simps split: if_splits)

lemma wf_enqueue [wf_intros]: "queue_wf q \<Longrightarrow> queue_wf (snd (enqueue bt ba job q))"
  by (simp add: enqueue_def Let_def queue_wf_lists frame_simps pending_push lists_wf_push)

lemma wf_enqueue_retry [wf_intros]: "queue_wf q \<Longrightarrow> queue_wf (snd (enqueue_retry job q))"
  by (simp add: enqueue_retry_def Let_def queue_wf_lists frame_simps pending_push lists_wf_push)

lemma wf_enqueue_batch [wf_intros]: "queue_wf q \<Longrightarrow> queue_wf (snd (enqueue_batch bt ba jobs q))"
  by (cases "batch_loop bt ba jobs 0 q"; cases "enqueue_batch bt ba jobs q")
    (auto simp: enqueue_batch_def queue_wf_lists
      dest: stored_batch_loop [OF stored_refl] wf_finish_batch(1) [rotated 2])

lemma wf_enqueue_batch_direct [wf_intros]: "queue_wf q \<Longrightarrow> queue_wf (snd (enqueue_batch_direct jobs q))"
  by (cases "direct_loop jobs 0 q"; cases "enqueue_batch_direct jobs q")
    (auto simp: enqueue_batch_direct_def queue_wf_lists
      dest: stored_direct_loop [OF stored_refl] wf_finish_batch(1) [rotated 2])

lemma wf_mark_seen [wf_intros]: "queue_wf q \<Longrightarrow> queue_wf (mark_seen ba key q)"
  by (simp add: mark_seen_def queue_wf_lists frame_simps)

lemma wf_new_queue [wf_intros]: "queue_wf (new_queue b)"
  by (simp add: new_queue_def queue_wf_def pending_def)

subsection \<open>Dequeueing\<close>

lemma pop_job_spec:
  assumes "queue_wf q" and "pop_job d q = Some (job, q')"
  shows "queue_wf q'" and "pending q = add_mset job (pending q')" and "hd (jobs_of q d) = job"
    and "job \<in> set (jobs_of q d)" and "\<forall>x \<in> set (jobs_of q d). j_score x \<le> j_score job"
proof -
  from assms(2) obtain rest where js: "jobs_of q d = job # rest"
    and q': "q' = q\<lparr>q_domains := (if rest = [] then (q_domains q)(d := None) else (q_domains q)(d \<mapsto> rest)), q_deq := q_deq q + 1\<rparr>"
    by (auto simp: pop_job_def split: list.splits)
  have fin: "finite (dom (q_domains q))" and wf: "lists_wf q" using assms(1) by (simp_all add: queue_wf_lists)
  have ok: "list_ok (q_next q) d (job # rest)" using lists_wf_jobs [OF wf, of d] by (simp add: js)
  show pend: "pending q = add_mset job (pending q')"
    using pending_delete [OF fin, of d] pending_update [OF fin, of d rest]
    by (auto simp: q' js frame_simps)
  show "queue_wf q'"
    using assms(1) pend ok by (auto simp: queue_wf_def q' list_ok_def)
  show "hd (jobs_of q d) = job" "job \<in> set (jobs_of q d)" "\<forall>x \<in> set (jobs_of q d). j_score x \<le> j_score job"
    using ok by (auto simp: js list_ok_def)
qed

lemma pop_job_ready: "jobs_of q d \<noteq> [] \<Longrightarrow> \<exists>job q'. pop_job d q = Some (job, q')"
  by (auto simp: pop_job_def split: list.splits)

lemma candidates_jobs: "(d, x) \<in> set (candidates ks q) \<Longrightarrow> jobs_of q d \<noteq> [] \<and> d \<in> set ks"
  by (auto simp: candidates_def)

text \<open>
  The readiness callback as the scan uses it: the domains it was asked about, in order, with the
  state it was left in after refusing each of them.
\<close>

fun refuse_all :: "'s ready_fn \<Rightarrow> domain list \<Rightarrow> 's \<Rightarrow> 's option" where
  "refuse_all rdy [] s = Some s"
| "refuse_all rdy (d # ds) s = (case rdy d s of (True, _) \<Rightarrow> None | (False, s') \<Rightarrow> refuse_all rdy ds s')"

definition rotated_domain :: "(domain \<times> float64) list \<Rightarrow> int \<Rightarrow> nat \<Rightarrow> domain" where
  "rotated_domain cs off i = fst (cs ! nat ((off + int i) mod int (length cs)))"

lemma scan_ready_spec:
  assumes "0 \<le> off" and "cs \<noteq> []" and "\<forall>c \<in> set cs. jobs_of q (fst c) \<noteq> []"
  shows "(\<exists>s'. scan_ready rdy cs off is s q = (DqNone, s', q) \<and> refuse_all rdy (map (rotated_domain cs off) is) s = Some s')
    \<or> (\<exists>pre i post s1 s2 job q'. is = pre @ i # post
        \<and> refuse_all rdy (map (rotated_domain cs off) pre) s = Some s1
        \<and> rdy (rotated_domain cs off i) s1 = (True, s2)
        \<and> pop_job (rotated_domain cs off i) q = Some (job, q')
        \<and> scan_ready rdy cs off is s q = (DqJob job, s2, q'))"
proof (induction "is" arbitrary: s)
  case Nil
  then show ?case by simp
next
  case (Cons i "is")
  let ?k = "(off + int i) smod int (length cs)" and ?d = "rotated_domain cs off i"
  have k: "?k = (off + int i) mod int (length cs)"
    using assms(1) by (cases "off + int i = 0") (auto simp: signed_modulo_int_def sgn_if)
  have bnd: "0 \<le> ?k" "?k < int (length cs)"
    using assms(2) unfolding k by simp_all
  note k = k bnd
  then have nth: "fst (cs ! nat ?k) = ?d" "cs ! nat ?k \<in> set cs"
    by (simp_all add: rotated_domain_def)
  obtain job q' where pop: "pop_job ?d q = Some (job, q')"
    using pop_job_ready assms(3) nth by metis
  obtain ok s1 where r: "rdy ?d s = (ok, s1)" by force
  show ?case
  proof (cases ok)
    case True
    have "scan_ready rdy cs off (i # is) s q = (DqJob job, s1, q')"
      using k nth pop r True by (simp add: Let_def)
    then show ?thesis
      using pop r True by (intro disjI2 exI [of _ "[]"]) auto
  next
    case False
    have eq: "scan_ready rdy cs off (i # is) s q = scan_ready rdy cs off is s1 q"
      using k nth r False by (simp add: Let_def)
    have refuse: "refuse_all rdy (map (rotated_domain cs off) (i # l)) s = refuse_all rdy (map (rotated_domain cs off) l) s1" for l
      using r False by simp
    from Cons [of s1] show ?thesis
    proof (elim disjE exE conjE)
      fix s' assume "scan_ready rdy cs off is s1 q = (DqNone, s', q)" "refuse_all rdy (map (rotated_domain cs off) is) s1 = Some s'"
      then show ?thesis unfolding eq refuse by blast
    next
      fix pre i' post s2 s3 job q'
      assume "is = pre @ i' # post" "refuse_all rdy (map (rotated_domain cs off) pre) s1 = Some s2"
        "rdy (rotated_domain cs off i') s2 = (True, s3)" "pop_job (rotated_domain cs off i') q = Some (job, q')"
        "scan_ready rdy cs off is s1 q = (DqJob job, s3, q')"
      then show ?thesis unfolding eq
        by (intro disjI2 exI [of _ "i # pre"] exI [of _ i'] exI [of _ post] exI [of _ s2] exI [of _ s3] exI [of _ job] exI [of _ q'])
          (simp add: refuse [simplified])
    qed
  qed
qed

lemma round_offset:
  assumes "sint (r :: 64 word) < 2 ^ 63 - 1" "0 \<le> sint r"
  shows "0 \<le> sint (r + 1)"
proof -
  have "sint (r + 1) = sint r + 1"
    using assms by (simp add: sint_word_ariths(1) signed_take_bit_int_eq_self)
  then show ?thesis using assms(2) by simp
qed

lemma scan_order:
  assumes "0 \<le> off" and "cs \<noteq> []"
  shows "map (rotated_domain cs off) [0..<length cs] = rotate (nat off) (map fst cs)"
proof (rule nth_equalityI)
  fix i assume "i < length (map (rotated_domain cs off) [0..<length cs])"
  then have i: "i < length cs" by simp
  have "nat ((off + int i) mod int (length cs)) = (nat off + i) mod length cs"
    using assms by (metis int_nat_eq nat_int of_nat_add zmod_int)
  then show "map (rotated_domain cs off) [0..<length cs] ! i = rotate (nat off) (map fst cs) ! i"
    using i assms by (simp add: rotated_domain_def nth_rotate)
qed simp

lemma candidates_wf:
  assumes "queue_wf q" and "keys_listed ks (q_domains q)"
  shows "map fst (candidates ks q) = ks"
proof -
  have "jobs_of q d \<noteq> []" if "d \<in> set ks" for d
    using that assms by (auto simp: keys_listed_def queue_wf_def list_ok_def)
  then show ?thesis
    by (simp add: candidates_def o_def filter_id_conv)
qed

lemma queue_wf_round [frame_simps]: "queue_wf (q\<lparr>q_round := r\<rparr>) = queue_wf q"
  by (simp add: queue_wf_lists frame_simps)

lemma pop_job_domain:
  assumes "queue_wf q" and "pop_job d q = Some (job, q')"
  shows "j_domain job = d"
proof -
  have "list_ok (q_next q) d (jobs_of q d)"
    using assms lists_wf_jobs [of q d] by (auto simp: queue_wf_lists pop_job_def)
  then show ?thesis
    using pop_job_spec(4) [OF assms] by (simp add: list_ok_def)
qed

text \<open>The order in which a dequeue asks the domains: the map order, rotated by the round counter.\<close>

definition ask_order :: "domain list \<Rightarrow> 'b queue \<Rightarrow> domain list" where
  "ask_order ks q = rotate (nat (sint (q_round q + 1) mod int (length ks))) ks"

lemma dequeue_locked_cases:
  assumes "queue_wf q" and "keys_listed ks (q_domains q)" and "0 \<le> sint (q_round q)" "sint (q_round q) < 2 ^ 63 - 1"
    and "dequeue_locked ks rdy s q = (res, s', q')"
  shows "(res = DqNone \<and> pending q' = pending q \<and> queue_wf q' \<and> refuse_all rdy (ask_order ks q) s = Some s')
    \<or> (\<exists>job pre post s1. res = DqJob job \<and> queue_wf q' \<and> pending q = add_mset job (pending q')
        \<and> ask_order ks q = pre @ j_domain job # post
        \<and> refuse_all rdy pre s = Some s1 \<and> rdy (j_domain job) s1 = (True, s')
        \<and> (\<forall>x \<in> set (jobs_of q (j_domain job)). j_score x \<le> j_score job))"
proof (cases "ks = []")
  case True
  then show ?thesis using assms(1,5) by (simp add: dequeue_locked_def ask_order_def)
next
  case False
  define cs where "cs = candidates ks q"
  define q1 where "q1 = q\<lparr>q_round := q_round q + 1\<rparr>"
  define off where "off = sint (q_round q1) smod int (length cs)"
  have fst_cs: "map fst cs = ks" unfolding cs_def by (rule candidates_wf [OF assms(1,2)])
  then have len: "length cs = length ks" by (metis length_map)
  with False have ne: "cs \<noteq> []" by auto
  have r: "0 \<le> sint (q_round q1)" using round_offset [OF assms(4,3)] by (simp add: q1_def)
  have off: "off = sint (q_round q + 1) mod int (length ks)" "0 \<le> off"
    using r ne unfolding off_def len [symmetric]
    by (auto simp: signed_modulo_int_def sgn_if q1_def)
  have order: "map (rotated_domain cs off) [0..<length cs] = ask_order ks q"
    using scan_order [OF off(2) ne] by (simp add: fst_cs ask_order_def off(1))
  have wf1: "queue_wf q1" and pend1: "pending q1 = pending q" and jobs1: "jobs_of q1 = jobs_of q"
    using assms(1) by (simp_all add: q1_def frame_simps)
  have run: "scan_ready rdy cs off [0..<length cs] s q1 = (res, s', q')"
    using assms(5) False ne
    by (simp add: dequeue_locked_def Let_def cs_def [symmetric] q1_def [symmetric] off_def [symmetric])
  have "\<forall>c \<in> set cs. jobs_of q1 (fst c) \<noteq> []"
    by (auto simp: cs_def jobs1 dest: candidates_jobs)
  from scan_ready_spec [OF off(2) ne this, of rdy "[0..<length cs]" s] show ?thesis
  proof (elim disjE exE conjE)
    fix t assume "scan_ready rdy cs off [0..<length cs] s q1 = (DqNone, t, q1)"
      and "refuse_all rdy (map (rotated_domain cs off) [0..<length cs]) s = Some t"
    then show ?thesis using run wf1 pend1 order by auto
  next
    fix pre i post s1 s2 job q2
    assume split: "[0..<length cs] = pre @ i # post"
      and ref: "refuse_all rdy (map (rotated_domain cs off) pre) s = Some s1"
      and ok: "rdy (rotated_domain cs off i) s1 = (True, s2)"
      and pop: "pop_job (rotated_domain cs off i) q1 = Some (job, q2)"
      and eq: "scan_ready rdy cs off [0..<length cs] s q1 = (DqJob job, s2, q2)"
    have dom: "j_domain job = rotated_domain cs off i" by (rule pop_job_domain [OF wf1 pop])
    have "ask_order ks q = map (rotated_domain cs off) pre @ j_domain job # map (rotated_domain cs off) post"
      unfolding order [symmetric] split dom by simp
    with ref ok eq run pop_job_spec [OF wf1 pop] dom pend1 jobs1 show ?thesis by auto
  qed
qed

subsection \<open>Reachable queues\<close>

text \<open>Everything a client can do to a queue, one operation per rule; \<open>queue_run\<close> lists the operations in order.\<close>

inductive queue_step :: "('b \<Rightarrow> string \<Rightarrow> bool) \<Rightarrow> ('b \<Rightarrow> string \<Rightarrow> 'b) \<Rightarrow> 's ready_fn \<Rightarrow> 'b queue \<Rightarrow> 'b queue \<Rightarrow> bool"
  for bt ba rdy where
  step_enqueue: "queue_step bt ba rdy q (snd (enqueue bt ba job q))"
| step_batch: "queue_step bt ba rdy q (snd (enqueue_batch bt ba jobs q))"
| step_retry: "queue_step bt ba rdy q (snd (enqueue_retry job q))"
| step_direct: "queue_step bt ba rdy q (snd (enqueue_batch_direct jobs q))"
| step_mark: "queue_step bt ba rdy q (mark_seen ba key q)"
| step_dequeue: "keys_listed ks (q_domains q) \<Longrightarrow> queue_step bt ba rdy q (snd (snd (dequeue_locked ks rdy s q)))"

inductive queue_reachable :: "('b \<Rightarrow> string \<Rightarrow> bool) \<Rightarrow> ('b \<Rightarrow> string \<Rightarrow> 'b) \<Rightarrow> 's ready_fn \<Rightarrow> 'b \<Rightarrow> 'b queue \<Rightarrow> bool"
  for bt ba rdy b0 where
  reach_new: "queue_reachable bt ba rdy b0 (new_queue b0)"
| reach_step: "queue_reachable bt ba rdy b0 q \<Longrightarrow> queue_step bt ba rdy q q' \<Longrightarrow> queue_reachable bt ba rdy b0 q'"

lemma scan_ready_wf: "queue_wf q \<Longrightarrow> queue_wf (snd (snd (scan_ready rdy cs off is s q)))"
  by (induction "is" arbitrary: s) (auto simp: Let_def split: prod.splits bool.splits option.splits dest: pop_job_spec(1))

lemma wf_dequeue [wf_intros]: "queue_wf q \<Longrightarrow> queue_wf (snd (snd (dequeue_locked ks rdy s q)))"
  by (simp add: dequeue_locked_def Let_def scan_ready_wf frame_simps)

lemma queue_step_wf: "queue_step bt ba rdy q q' \<Longrightarrow> queue_wf q \<Longrightarrow> queue_wf q'"
  by (induction rule: queue_step.induct) (auto intro: wf_intros)

lemma queue_reachable_wf: "queue_reachable bt ba rdy b0 q \<Longrightarrow> queue_wf q"
  by (induction rule: queue_reachable.induct) (auto intro: wf_intros queue_step_wf)

lemma queue_len_pending:
  assumes "queue_wf q" and "keys_listed ks (q_domains q)"
  shows "queue_len ks q = size (pending q)"
proof -
  have "size (pending q) = (\<Sum>d \<in> dom (q_domains q). length (jobs_of q d))"
    unfolding pending_def by (simp add: size_multiset_sum)
  also have "\<dots> = queue_len ks q"
    using assms(2) unfolding queue_len_def keys_listed_def by (metis sum.distinct_set_conv_list)
  finally show ?thesis ..
qed

subsection \<open>Deduplication\<close>

text \<open>
  What the queue needs of a membership filter: a key that was added is found from then on. A Bloom
  filter promises this, whatever its rate of false positives.
\<close>

locale seen_filter =
  fixes mem :: "'f \<Rightarrow> string \<Rightarrow> bool" and ins :: "'f \<Rightarrow> string \<Rightarrow> 'f"
  assumes added: "mem (ins f k) k"
    and kept: "mem f k \<Longrightarrow> mem (ins f k') k"
begin

lemma batch_loop_kept: "mem (q_bloom q) k \<Longrightarrow> mem (q_bloom (snd (batch_loop mem ins jobs n q))) k"
  by (induction jobs arbitrary: n q) (simp_all add: Let_def kept frame_simps)

lemma direct_loop_bloom: "q_bloom (snd (direct_loop jobs n q)) = q_bloom q"
  by (induction jobs arbitrary: n q) (simp_all add: frame_simps)

lemma pop_job_bloom: "pop_job d q = Some (job, q') \<Longrightarrow> q_bloom q' = q_bloom q"
  by (auto simp: pop_job_def split: list.splits)

lemma scan_ready_bloom: "q_bloom (snd (snd (scan_ready rdy cs off is s q))) = q_bloom q"
  by (induction "is" arbitrary: s) (auto simp: Let_def split: prod.splits bool.splits option.splits dest: pop_job_bloom)

lemma finish_batch_bloom: "q_bloom (snd (finish_batch n q)) = q_bloom q"
  by (simp add: finish_batch_def Let_def frame_simps)

lemma step_kept: "queue_step mem ins rdy q q' \<Longrightarrow> mem (q_bloom q) k \<Longrightarrow> mem (q_bloom q') k"
proof (induction rule: queue_step.induct)
  case (step_batch q jobs)
  then show ?case
    using batch_loop_kept [of q k jobs 0]
    by (cases "batch_loop mem ins jobs 0 q") (simp add: enqueue_batch_def finish_batch_bloom)
next
  case (step_direct q jobs)
  then show ?case
    using direct_loop_bloom [of jobs 0 q]
    by (cases "direct_loop jobs 0 q") (simp add: enqueue_batch_direct_def finish_batch_bloom)
qed (simp_all add: enqueue_def enqueue_retry_def mark_seen_def dequeue_locked_def Let_def frame_simps kept scan_ready_bloom)

lemma steps_kept: "(queue_step mem ins rdy)\<^sup>*\<^sup>* q q' \<Longrightarrow> mem (q_bloom q) k \<Longrightarrow> mem (q_bloom q') k"
  by (induction rule: rtranclp_induct) (auto intro: step_kept)

lemma enqueue_marks: "mem (q_bloom (snd (enqueue mem ins job q))) (dedup_key job)"
  by (simp add: enqueue_def Let_def frame_simps added)

lemma enqueue_seen: "mem (q_bloom q) (dedup_key job) \<Longrightarrow> enqueue mem ins job q = (False, q)"
  by (simp add: enqueue_def Let_def)

lemma accepted_once:
  assumes "(queue_step mem ins rdy)\<^sup>*\<^sup>* (snd (enqueue mem ins job q)) q'" and "dedup_key job' = dedup_key job"
  shows "enqueue mem ins job' q' = (False, q')"
  using enqueue_seen steps_kept [OF assms(1) enqueue_marks] assms(2) by simp

lemma marked_never_accepted:
  assumes "(queue_step mem ins rdy)\<^sup>*\<^sup>* (mark_seen ins (dedup_key job) q) q'"
  shows "enqueue mem ins job q' = (False, q')"
  by (rule enqueue_seen, rule steps_kept [OF assms]) (simp add: mark_seen_def added)

end

subsection \<open>The readiness callback\<close>

text \<open>
  \<open>DomainReadyFunc\<close> both asks and reserves: when it accepts a domain it takes one slot of it, when it
  refuses it takes none. \<open>used\<close> counts the reservations of a domain and \<open>cap\<close> bounds them.
\<close>

locale ready_gate =
  fixes rdy :: "'s ready_fn" and used :: "'s \<Rightarrow> domain \<Rightarrow> nat" and cap :: "'s \<Rightarrow> int"
  assumes reserves: "rdy d s = (True, s') \<Longrightarrow> used s' = (used s)(d := used s d + 1) \<and> int (used s' d) \<le> cap s'"
    and refuses: "rdy d s = (False, s') \<Longrightarrow> used s' = used s \<and> cap s \<le> cap s'"
begin

lemma refuse_all_used: "refuse_all rdy ds s = Some s' \<Longrightarrow> used s' = used s"
  by (induction ds arbitrary: s) (auto split: prod.splits bool.splits dest: refuses)

lemma dequeue_reserves:
  assumes "queue_wf q" and "keys_listed ks (q_domains q)" and "0 \<le> sint (q_round q)" "sint (q_round q) < 2 ^ 63 - 1"
    and "dequeue_locked ks rdy s q = (res, s', q')"
  shows "(res = DqNone \<and> used s' = used s)
    \<or> (\<exists>job. res = DqJob job \<and> used s' = (used s)(j_domain job := used s (j_domain job) + 1)
        \<and> int (used s' (j_domain job)) \<le> cap s')"
  using dequeue_locked_cases [OF assms]
proof (elim disjE exE conjE)
  fix job pre post s1
  assume "refuse_all rdy pre s = Some s1" "rdy (j_domain job) s1 = (True, s')" "res = DqJob job"
  moreover from this(2) have "used s' = (used s1)(j_domain job := used s1 (j_domain job) + 1)" "int (used s' (j_domain job)) \<le> cap s'"
    using reserves by blast+
  ultimately show ?thesis using refuse_all_used [of pre s s1] by simp
qed (auto dest: refuse_all_used)

end

subsection \<open>Properties\<close>


text \<open>A queue with two domains, for the witnesses.\<close>

definition sample_job :: "string \<Rightarrow> float64 \<Rightarrow> job" where
  "sample_job d x = \<lparr>j_id = 0, j_url = ''http://'' @ d, j_domain = d, j_depth = 0, j_score = x, j_base = x, j_fp = [],
     j_retries = 0, j_anchor = [], j_title = [], j_schema = [], j_lang = []\<rparr>"

definition sample_queue :: "unit queue" where
  "sample_queue = push_job (sample_job ''a'' 1) (push_job (sample_job ''b'' 2) (new_queue ()))\<lparr>q_enq := 2\<rparr>"

lemma sample_queue_wf: "queue_wf sample_queue"
proof -
  have w0: "lists_wf (new_queue ())" using wf_new_queue [of "()"] unfolding queue_wf_lists by (rule conjunct1)
  define q1 where "q1 = push_job (sample_job ''b'' 2) (new_queue ())"
  have w1: "lists_wf q1" unfolding q1_def by (rule lists_wf_push [OF w0])
  have "pending (new_queue ()) = {#}" by (simp add: new_queue_def pending_def)
  then have "size (pending (push_job (sample_job ''a'' 1) q1)) = 2"
    using pending_push [OF lists_wf_finite [OF w0], of "sample_job ''b'' 2", folded q1_def]
      pending_push [OF lists_wf_finite [OF w1], of "sample_job ''a'' 1"] by simp
  moreover have "lists_wf (push_job (sample_job ''a'' 1) q1)" by (rule lists_wf_push [OF w1])
  moreover have "q_deq q1 = 0" by (simp add: q1_def push_job_frame new_queue_def)
  ultimately show ?thesis
    by (simp add: queue_wf_lists sample_queue_def q1_def [symmetric] lists_wf_frame pending_frame push_job_frame)
qed

lemma sample_queue_keys: "keys_listed [''a'', ''b''] (q_domains sample_queue)"
  by (auto simp: keys_listed_def sample_queue_def push_job_domains frame_simps new_queue_def sample_job_def)


text \<open>
  C2. In every queue a client can reach, each per-domain list is non-empty, in descending score order,
  holds only that domain's jobs and no identifier twice, the counters balance
  (\<open>enqueued - dequeued\<close> is the number of pending jobs) and \<open>Len\<close> returns that number.
\<close>

theorem reachable_queue_consistent:
  assumes "queue_reachable bt ba rdy b0 q" and "keys_listed ks (q_domains q)"
  shows "(\<forall>d js. q_domains q d = Some js \<longrightarrow> js \<noteq> [] \<and> sorted_desc j_score js \<and> distinct (map j_id js)
            \<and> (\<forall>j \<in> set js. j_domain j = d \<and> j_id j \<le> q_next q))
    \<and> q_enq q - q_deq q = int (queue_len ks q)"
  using queue_reachable_wf [OF assms(1)] queue_len_pending [OF _ assms(2)] by (simp add: queue_wf_def list_ok_def)

theorem reachable_queue_consistent_witness:
  "let q = snd (enqueue (\<lambda>_ _. False) (\<lambda>b _. b) (sample_job ''a'' 1) (new_queue ()))
   in q_enq q - q_deq q = int (queue_len [''a''] q)"
proof -
  let ?q = "snd (enqueue (\<lambda>_ _. False) (\<lambda>b _. b) (sample_job ''a'' 1) (new_queue ()))"
  have "queue_reachable (\<lambda>_ _. False) (\<lambda>b _. b) (\<lambda>_ s. (True, s :: unit)) () ?q"
    by (rule reach_step [OF reach_new step_enqueue])
  note reach = this
  have "keys_listed [''a''] (q_domains ?q)"
    by (auto simp: keys_listed_def enqueue_def Let_def frame_simps push_job_domains new_queue_def sample_job_def)
  from reachable_queue_consistent [OF reach this] show ?thesis unfolding Let_def by blast
qed

text \<open>
  The queue accepts each deduplication key at most once: after \<open>Enqueue\<close> has returned for a job
  (with either answer), every later \<open>Enqueue\<close> of a job with the same key returns false and changes
  nothing, whatever operations came between, provided the Bloom filter has no false negatives.
\<close>

theorem accepted_at_most_once:
  assumes "seen_filter bt ba" and "(queue_step bt ba rdy)\<^sup>*\<^sup>* (snd (enqueue bt ba job q)) q'"
    and "dedup_key job' = dedup_key job"
  shows "enqueue bt ba job' q' = (False, q')"
  using seen_filter.accepted_once [OF assms(1)] assms(2,3) by blast

theorem accepted_at_most_once_witness:
  "let bt = (\<lambda>b k. k \<in> b); ba = (\<lambda>b k. insert k b); q1 = snd (enqueue bt ba (sample_job ''a'' 1) (new_queue {}))
   in fst (enqueue bt ba (sample_job ''a'' 1) (new_queue {})) \<and> \<not> fst (enqueue bt ba (sample_job ''a'' 5) q1)"
proof -
  let ?bt = "\<lambda>b k. k \<in> b" and ?ba = "\<lambda>b k. insert k b"
  let ?q1 = "snd (enqueue ?bt ?ba (sample_job ''a'' 1) (new_queue {}))"
  have filter: "seen_filter ?bt ?ba" by unfold_locales auto
  have key: "dedup_key (sample_job ''a'' 5) = dedup_key (sample_job ''a'' 1)" by (simp add: dedup_key_def sample_job_def)
  have "(queue_step ?bt ?ba (\<lambda>_ s. (True, s :: unit)))\<^sup>*\<^sup>* ?q1 ?q1" by simp
  from accepted_at_most_once [OF filter this key] have "\<not> fst (enqueue ?bt ?ba (sample_job ''a'' 5) ?q1)" by simp
  moreover have "fst (enqueue ?bt ?ba (sample_job ''a'' 1) (new_queue {}))" by (simp add: enqueue_def new_queue_def Let_def)
  ultimately show ?thesis unfolding Let_def by blast
qed

text \<open>
  \<open>insertSorted\<close> places a job after every job with at least its score and before every job with
  a lower one, so the list stays in descending order and equal scores stay first come, first served.
\<close>

theorem insert_sorted_stable:
  assumes "sorted_desc j_score jobs"
  shows "insert_sorted jobs job =
      filter (\<lambda>x. j_score job \<le> j_score x) jobs @ job # filter (\<lambda>x. \<not> j_score job \<le> j_score x) jobs
    \<and> sorted_desc j_score (insert_sorted jobs job)"
  using insert_sorted_split [OF assms] insert_sorted_desc [OF assms] by blast

theorem insert_sorted_stable_witness:
  "sorted_desc j_score (insert_sorted [sample_job ''a'' 3, sample_job ''a'' 1] (sample_job ''a'' 2))"
  using insert_sorted_stable [of "[sample_job ''a'' 3, sample_job ''a'' 1]" "sample_job ''a'' 2"] by (simp add: sample_job_def)

end
