(* ===== verification/Workers.thy ===== *)
theory Workers
  imports Queue
begin

text \<open>
  The goroutines that share one queue (\<open>DequeueWithWait\<close> and \<open>StartPeriodicWake\<close> of
  \<open>internal/queue/queue.go\<close>): workers that block on the condition variable, the producers that
  broadcast to them, the periodic waker and the cancellation of the context. One rule of \<open>pool_step\<close>
  is one critical section or one access to the context; the scheduler interleaves them freely.
\<close>

text \<open>
  Where a worker is in the loop of \<open>DequeueWithWait\<close>: before the context check, between the check
  and the lock, suspended in \<open>cond.Wait\<close>, woken but not yet holding the lock again, or returned.
\<close>

datatype wstate = AtCheck | AtLock | Waiting | Woken | Returned "job option"

datatype waker = WakerRunning | WakerStopped

record ('b, 's) pool =
  p_queue :: "'b queue"
  p_ready :: 's
  p_workers :: "wstate list"
  p_cancelled :: bool
  p_waker :: waker

definition wake :: "wstate \<Rightarrow> wstate" where
  "wake w = (if w = Waiting then Woken else w)"

text \<open>\<open>cond.Broadcast\<close>: every suspended worker becomes runnable.\<close>

definition broadcast :: "wstate list \<Rightarrow> wstate list" where
  "broadcast ws = map wake ws"

text \<open>A producer's operation on the queue, with the broadcast it may contain.\<close>

definition produce :: "'b queue \<Rightarrow> ('b, 's) pool \<Rightarrow> ('b, 's) pool" where
  "produce q' p = p\<lparr>p_queue := q',
     p_workers := (if q_bcasts (p_queue p) < q_bcasts q' then broadcast (p_workers p) else p_workers p)\<rparr>"

definition set_worker :: "nat \<Rightarrow> wstate \<Rightarrow> ('b, 's) pool \<Rightarrow> ('b, 's) pool" where
  "set_worker i w p = p\<lparr>p_workers := (p_workers p)[i := w]\<rparr>"

definition add_waiters :: "int \<Rightarrow> ('b, 's) pool \<Rightarrow> ('b, 's) pool" where
  "add_waiters n p = p\<lparr>p_queue := (p_queue p)\<lparr>q_waiters := q_waiters (p_queue p) + n\<rparr>\<rparr>"

text \<open>The first half of the loop body: \<open>dequeueLocked\<close>, then return or suspend.\<close>

definition try_dequeue :: "domain list \<Rightarrow> 's ready_fn \<Rightarrow> nat \<Rightarrow> ('b, 's) pool \<Rightarrow> ('b, 's) pool option" where
  "try_dequeue ks rdy i p =
     (case dequeue_locked ks rdy (p_ready p) (p_queue p) of
        (DqPanic, _) \<Rightarrow> None
      | (DqJob job, s', q') \<Rightarrow> Some (set_worker i (Returned (Some job)) (p\<lparr>p_queue := q', p_ready := s'\<rparr>))
      | (DqNone, s', q') \<Rightarrow> Some (set_worker i Waiting (add_waiters 1 (p\<lparr>p_queue := q', p_ready := s'\<rparr>))))"

inductive producer :: "('b \<Rightarrow> string \<Rightarrow> bool) \<Rightarrow> ('b \<Rightarrow> string \<Rightarrow> 'b) \<Rightarrow> 'b queue \<Rightarrow> 'b queue \<Rightarrow> bool"
  for bt ba where
  produce_one: "producer bt ba q (snd (enqueue bt ba job q))"
| produce_batch: "producer bt ba q (snd (enqueue_batch bt ba jobs q))"
| produce_retry: "producer bt ba q (snd (enqueue_retry job q))"
| produce_direct: "producer bt ba q (snd (enqueue_batch_direct jobs q))"

inductive pool_step :: "('b \<Rightarrow> string \<Rightarrow> bool) \<Rightarrow> ('b \<Rightarrow> string \<Rightarrow> 'b) \<Rightarrow> 's ready_fn \<Rightarrow> ('b, 's) pool \<Rightarrow> ('b, 's) pool \<Rightarrow> bool"
  for bt ba rdy where
  check_cancelled: "i < length (p_workers p) \<Longrightarrow> p_workers p ! i = AtCheck \<Longrightarrow> p_cancelled p
    \<Longrightarrow> pool_step bt ba rdy p (set_worker i (Returned None) p)"
| check_live: "i < length (p_workers p) \<Longrightarrow> p_workers p ! i = AtCheck \<Longrightarrow> \<not> p_cancelled p
    \<Longrightarrow> pool_step bt ba rdy p (set_worker i AtLock p)"
| locked: "i < length (p_workers p) \<Longrightarrow> p_workers p ! i = AtLock \<Longrightarrow> keys_listed ks (q_domains (p_queue p))
    \<Longrightarrow> try_dequeue ks rdy i p = Some p' \<Longrightarrow> pool_step bt ba rdy p p'"
| resume: "i < length (p_workers p) \<Longrightarrow> p_workers p ! i = Woken
    \<Longrightarrow> pool_step bt ba rdy p (set_worker i AtCheck (add_waiters (- 1) p))"
| call_again: "i < length (p_workers p) \<Longrightarrow> p_workers p ! i = Returned (Some job)
    \<Longrightarrow> pool_step bt ba rdy p (set_worker i AtCheck p)"
| produce: "producer bt ba (p_queue p) q' \<Longrightarrow> pool_step bt ba rdy p (produce q' p)"
| environment: "pool_step bt ba rdy p (p\<lparr>p_ready := s\<rparr>)"
| cancel: "pool_step bt ba rdy p (p\<lparr>p_cancelled := True\<rparr>)"
| tick: "p_waker p = WakerRunning \<Longrightarrow> pool_step bt ba rdy p (p\<lparr>p_workers := broadcast (p_workers p)\<rparr>)"
| waker_exit: "p_waker p = WakerRunning \<Longrightarrow> p_cancelled p
    \<Longrightarrow> pool_step bt ba rdy p (p\<lparr>p_workers := broadcast (p_workers p), p_waker := WakerStopped\<rparr>)"

definition pool_start :: "nat \<Rightarrow> 'b \<Rightarrow> 's \<Rightarrow> ('b, 's) pool" where
  "pool_start n b s = \<lparr>p_queue = new_queue b, p_ready = s, p_workers = replicate n AtCheck,
     p_cancelled = False, p_waker = WakerRunning\<rparr>"

inductive_cases pool_stepE: "pool_step bt ba rdy p p'"

subsection \<open>Counting the blocked workers\<close>

definition blocked :: "wstate list \<Rightarrow> int" where
  "blocked ws = int (length (filter (\<lambda>w. w = Waiting \<or> w = Woken) ws))"

lemma blocked_Cons: "blocked (w # ws) = (if w = Waiting \<or> w = Woken then 1 else 0) + blocked ws"
  by (simp add: blocked_def)

lemma blocked_append: "blocked (us @ ws) = blocked us + blocked ws"
  by (simp add: blocked_def)

lemma blocked_broadcast [simp]: "blocked (broadcast ws) = blocked ws"
  by (induction ws) (auto simp: blocked_def broadcast_def wake_def)

lemma Waiting_broadcast [simp]: "Waiting \<notin> set (broadcast ws)"
  by (auto simp: broadcast_def wake_def)

lemma blocked_update:
  assumes "i < length ws"
  shows "blocked (ws[i := w]) =
    blocked ws - (if ws ! i = Waiting \<or> ws ! i = Woken then 1 else 0) + (if w = Waiting \<or> w = Woken then 1 else 0)"
proof -
  have "blocked ws = blocked (take i ws @ ws ! i # drop (Suc i) ws)"
    using id_take_nth_drop [OF assms] by simp
  then show ?thesis
    by (simp only: upd_conv_take_nth_drop [OF assms] blocked_append blocked_Cons)
qed

text \<open>
  The invariant of the pool: \<open>workerWaiters\<close> is exactly the number of workers between the increment
  and the decrement around \<open>cond.Wait\<close>, so a producer's test \<open>workerWaiters > 0\<close> sees every
  suspended worker.
\<close>

definition pool_ok :: "('b, 's) pool \<Rightarrow> bool" where
  "pool_ok p \<longleftrightarrow> queue_wf (p_queue p) \<and> q_waiters (p_queue p) = blocked (p_workers p)"

lemma scan_ready_waiters: "scan_ready rdy cs off is s q = (r, s', q') \<Longrightarrow> q_waiters q' = q_waiters q \<and> q_enq q' = q_enq q"
  by (induction "is" arbitrary: s) (auto simp: Let_def pop_job_def split: if_splits prod.splits bool.splits option.splits list.splits)

lemma dequeue_waiters:
  "dequeue_locked ks rdy s q = (r, s', q') \<Longrightarrow> q_waiters q' = q_waiters q \<and> q_enq q' = q_enq q"
  by (auto simp: dequeue_locked_def Let_def split: if_splits dest: scan_ready_waiters)

text \<open>What a producer's operation does to the counters: \<open>waking q q'\<close> relates before and after.\<close>

definition waking :: "'b queue \<Rightarrow> 'b queue \<Rightarrow> bool" where
  "waking q q' \<longleftrightarrow> queue_wf q' \<and> q_waiters q' = q_waiters q
     \<and> (q_bcasts q < q_bcasts q' \<longrightarrow> q_enq q < q_enq q') \<and> q_enq q \<le> q_enq q'
     \<and> (size (pending q) < size (pending q') \<and> 0 < q_waiters q \<longrightarrow> q_bcasts q < q_bcasts q')"

lemma finish_batch_waking:
  assumes "queue_wf q" and "stored q n q1" and "finish_batch n q1 = (m, q')"
  shows "waking q q'"
  using wf_finish_batch(1) [OF assms] assms(2,3)
  by (auto simp: waking_def finish_batch_def stored_def Let_def frame_simps wake_waiters_def split: if_splits)

lemma waking_enqueue: "queue_wf q \<Longrightarrow> waking q (snd (enqueue bt ba job q))"
  using wf_enqueue [of q bt ba job] by (auto simp: waking_def enqueue_def Let_def frame_simps wake_waiters_def)

lemma waking_retry: "queue_wf q \<Longrightarrow> waking q (snd (enqueue_retry job q))"
  using wf_enqueue_retry [of q job] by (auto simp: waking_def enqueue_retry_def Let_def frame_simps wake_waiters_def)

lemma waking_batch: "queue_wf q \<Longrightarrow> waking q (snd (enqueue_batch bt ba jobs q))"
  by (cases "batch_loop bt ba jobs 0 q"; cases "enqueue_batch bt ba jobs q")
    (auto simp: enqueue_batch_def queue_wf_lists
      dest: stored_batch_loop [OF stored_refl] finish_batch_waking [rotated 2])

lemma waking_direct: "queue_wf q \<Longrightarrow> waking q (snd (enqueue_batch_direct jobs q))"
  by (cases "direct_loop jobs 0 q"; cases "enqueue_batch_direct jobs q")
    (auto simp: enqueue_batch_direct_def queue_wf_lists
      dest: stored_direct_loop [OF stored_refl] finish_batch_waking [rotated 2])

lemma producer_waking: "producer bt ba q q' \<Longrightarrow> queue_wf q \<Longrightarrow> waking q q'"
  by (induction rule: producer.induct) (rule waking_enqueue waking_batch waking_retry waking_direct, assumption)+

lemma produce_ok: "pool_ok p \<Longrightarrow> waking (p_queue p) q' \<Longrightarrow> pool_ok (produce q' p)"
  by (simp add: pool_ok_def waking_def produce_def)

lemma queue_wf_waiters [frame_simps]: "queue_wf (q\<lparr>q_waiters := n\<rparr>) = queue_wf q"
  by (simp add: queue_wf_lists frame_simps)

lemma try_dequeue_ok:
  assumes "pool_ok p" and "i < length (p_workers p)" and "p_workers p ! i = AtLock" and "try_dequeue ks rdy i p = Some p'"
  shows "pool_ok p'"
proof -
  obtain r s' q' where d: "dequeue_locked ks rdy (p_ready p) (p_queue p) = (r, s', q')"
    by (metis surj_pair)
  have "queue_wf q'"
    using wf_dequeue [of "p_queue p" ks rdy "p_ready p"] assms(1) by (simp add: d pool_ok_def)
  with assms dequeue_waiters [OF d] show ?thesis
    by (auto simp: try_dequeue_def d pool_ok_def set_worker_def add_waiters_def blocked_update frame_simps split: dequeued.splits)
qed

lemma pool_step_ok: "pool_step bt ba rdy p p' \<Longrightarrow> pool_ok p \<Longrightarrow> pool_ok p'"
proof (induction rule: pool_step.induct)
  case (locked i p ks p')
  then show ?case using try_dequeue_ok by blast
next
  case (produce p q')
  then have "waking (p_queue p) q'" using producer_waking by (auto simp: pool_ok_def)
  with produce show ?case by (intro produce_ok)
qed (auto simp: pool_ok_def set_worker_def add_waiters_def blocked_update frame_simps)

inductive pool_reachable for bt ba rdy n b0 s0 where
  pool_init: "pool_reachable bt ba rdy n b0 s0 (pool_start n b0 s0)"
| pool_next: "pool_reachable bt ba rdy n b0 s0 p \<Longrightarrow> pool_step bt ba rdy p p' \<Longrightarrow> pool_reachable bt ba rdy n b0 s0 p'"

lemma pool_start_ok: "pool_ok (pool_start n b s)"
  using wf_new_queue [of b] by (simp add: pool_ok_def pool_start_def blocked_def new_queue_def)

lemma pool_reachable_ok: "pool_reachable bt ba rdy n b0 s0 p \<Longrightarrow> pool_ok p"
  by (induction rule: pool_reachable.induct) (auto intro: pool_start_ok pool_step_ok)

lemma blocked_pos: "Waiting \<in> set ws \<Longrightarrow> 0 < blocked ws"
  by (auto simp: blocked_def filter_empty_conv)

lemma produce_wakes:
  assumes "pool_ok p" and "waking (p_queue p) q'" and "size (pending (p_queue p)) < size (pending q')"
  shows "Waiting \<notin> set (p_workers (produce q' p))"
  using assms blocked_pos [of "p_workers p"] by (auto simp: produce_def waking_def pool_ok_def)


text \<open>Dequeues never add a job, so a step that does is a producer's.\<close>

lemma scan_ready_shrinks: "queue_wf q \<Longrightarrow> scan_ready rdy cs off is s q = (r, s', q') \<Longrightarrow> size (pending q') \<le> size (pending q)"
  by (induction "is" arbitrary: s) (auto simp: Let_def split: if_splits prod.splits bool.splits option.splits dest: pop_job_spec(2))

lemma dequeue_shrinks: "queue_wf q \<Longrightarrow> dequeue_locked ks rdy s q = (r, s', q') \<Longrightarrow> size (pending q') \<le> size (pending q)"
  by (auto simp: dequeue_locked_def Let_def frame_simps split: if_splits dest: scan_ready_shrinks [rotated])

lemma pool_step_new_work:
  assumes "pool_step bt ba rdy p p'" and "pool_ok p" and "size (pending (p_queue p)) < size (pending (p_queue p'))"
  shows "Waiting \<notin> set (p_workers p')"
  using assms
proof (induction rule: pool_step.induct)
  case (locked i p ks p')
  obtain r s' q' where d: "dequeue_locked ks rdy (p_ready p) (p_queue p) = (r, s', q')"
    by (metis surj_pair)
  then have "pending (p_queue p') = pending q'"
    using locked(4) by (auto simp: try_dequeue_def set_worker_def add_waiters_def frame_simps split: dequeued.splits)
  with locked(5,6) dequeue_shrinks [OF _ d] show ?case by (simp add: pool_ok_def)
next
  case (produce p q')
  then have w: "waking (p_queue p) q'" using producer_waking by (auto simp: pool_ok_def)
  show ?case by (rule produce_wakes [OF produce(2) w]) (use produce(3) in \<open>simp add: produce_def\<close>)
qed (auto simp: set_worker_def add_waiters_def frame_simps)

subsection \<open>Shutdown\<close>

lemma waking_mono: "waking q q' \<Longrightarrow> q_enq q \<le> q_enq q' \<and> (q_bcasts q < q_bcasts q' \<longrightarrow> q_enq q < q_enq q')"
  by (simp add: waking_def)

lemma try_dequeue_enq: "try_dequeue ks rdy i p = Some p' \<Longrightarrow> q_enq (p_queue p') = q_enq (p_queue p) \<and> p_waker p' = p_waker p
    \<and> (\<forall>k. k \<noteq> i \<longrightarrow> p_workers p' ! k = p_workers p ! k)"
  by (auto simp: try_dequeue_def set_worker_def add_waiters_def split: prod.splits dequeued.splits dest: dequeue_waiters)

lemma pool_step_mono:
  assumes "pool_step bt ba rdy p p'" and "pool_ok p" and "p_waker p = WakerStopped"
  shows "q_enq (p_queue p) \<le> q_enq (p_queue p') \<and> p_waker p' = WakerStopped"
  using assms
proof (induction rule: pool_step.induct)
  case (locked i p ks p')
  with try_dequeue_enq [OF locked(4)] show ?case by simp
next
  case (produce p q')
  then have "waking (p_queue p) q'" using producer_waking by (auto simp: pool_ok_def)
  with produce waking_mono show ?case by (auto simp: produce_def)
qed (auto simp: set_worker_def add_waiters_def)

lemma pool_step_stuck:
  assumes "pool_step bt ba rdy p p'" and "pool_ok p" and "p_waker p = WakerStopped" and "p_workers p ! k = Waiting"
  shows "q_enq (p_queue p') = q_enq (p_queue p) \<longrightarrow> p_workers p' ! k = Waiting"
  using assms
proof (induction rule: pool_step.induct)
  case (locked i p ks p')
  then have "i \<noteq> k" by auto
  with locked try_dequeue_enq [OF locked(4)] show ?case by auto
next
  case (produce p q')
  then have "waking (p_queue p) q'" using producer_waking by (auto simp: pool_ok_def)
  from waking_mono [OF this] produce(4) show ?case by (auto simp: produce_def)
qed (auto simp: set_worker_def add_waiters_def nth_list_update)

lemma pool_steps_stuck:
  assumes "(pool_step bt ba rdy)\<^sup>*\<^sup>* p p'" and "pool_ok p" and "p_waker p = WakerStopped" and "p_workers p ! k = Waiting"
  shows "pool_ok p' \<and> q_enq (p_queue p) \<le> q_enq (p_queue p') \<and> p_waker p' = WakerStopped
    \<and> (q_enq (p_queue p') = q_enq (p_queue p) \<longrightarrow> p_workers p' ! k = Waiting)"
  using assms
proof (induction rule: rtranclp_induct)
  case (step p1 p2)
  then have 1: "pool_ok p1" "q_enq (p_queue p) \<le> q_enq (p_queue p1)" "p_waker p1 = WakerStopped"
    "q_enq (p_queue p1) = q_enq (p_queue p) \<Longrightarrow> p_workers p1 ! k = Waiting" by auto
  have 2: "pool_ok p2" "q_enq (p_queue p1) \<le> q_enq (p_queue p2)" "p_waker p2 = WakerStopped"
    using pool_step_ok [OF step(2) 1(1)] pool_step_mono [OF step(2) 1(1,3)] by auto
  have "p_workers p2 ! k = Waiting" if "q_enq (p_queue p2) = q_enq (p_queue p)"
    using pool_step_stuck [OF step(2) 1(1,3) 1(4)] that 1(2) 2(2) by simp
  with 1 2 show ?case by simp
qed auto

lemma empty_dequeue:
  "dequeue_locked [] rdy s q = (DqNone, s, q)"
  by (simp add: dequeue_locked_def)

text \<open>The schedule that loses the shutdown wake-up: the check, the cancellation, the last broadcast, the wait.\<close>

definition stranded :: "nat \<Rightarrow> 'b \<Rightarrow> 's \<Rightarrow> ('b, 's) pool" where
  "stranded m b s = \<lparr>p_queue = (new_queue b)\<lparr>q_waiters := 1\<rparr>, p_ready = s, p_workers = Waiting # replicate m AtCheck,
     p_cancelled = True, p_waker = WakerStopped\<rparr>"

lemma stranded_reachable: "pool_reachable bt ba rdy (Suc m) b s (stranded m b s)"
proof -
  let ?p0 = "pool_start (Suc m) b s"
  let ?p1 = "set_worker 0 AtLock ?p0"
  let ?p2 = "?p1\<lparr>p_cancelled := True\<rparr>"
  let ?p3 = "?p2\<lparr>p_workers := broadcast (p_workers ?p2), p_waker := WakerStopped\<rparr>"
  have "pool_reachable bt ba rdy (Suc m) b s ?p1"
    by (rule pool_next [OF pool_init check_live]) (simp_all add: pool_start_def)
  then have "pool_reachable bt ba rdy (Suc m) b s ?p2"
    by (rule pool_next) (rule cancel)
  then have r3: "pool_reachable bt ba rdy (Suc m) b s ?p3"
    by (rule pool_next) (rule waker_exit, simp_all add: pool_start_def set_worker_def)
  have "try_dequeue [] rdy 0 ?p3 = Some (stranded m b s)"
    by (simp add: try_dequeue_def pool_start_def set_worker_def empty_dequeue add_waiters_def stranded_def
        broadcast_def wake_def new_queue_def)
  then show ?thesis
    by (intro pool_next [OF r3] locked [where i = 0 and ks = "[]"])
      (simp_all add: pool_start_def set_worker_def broadcast_def wake_def new_queue_def)
qed

text \<open>
  C3. No wake-up of new work is lost: in every reachable pool, a step after which the queue holds more
  jobs leaves no worker suspended in \<open>cond.Wait\<close>, because \<open>workerWaiters\<close> counts exactly the
  blocked workers and every enqueue that stores a job tests it before broadcasting.
\<close>

theorem new_work_wakes_workers:
  assumes "pool_reachable bt ba rdy n b0 s0 p" and "pool_step bt ba rdy p p'"
    and "size (pending (p_queue p)) < size (pending (p_queue p'))"
  shows "Waiting \<notin> set (p_workers p') \<and> q_waiters (p_queue p) = blocked (p_workers p)"
  using pool_step_new_work [OF assms(2) pool_reachable_ok [OF assms(1)] assms(3)] pool_reachable_ok [OF assms(1)]
  by (simp add: pool_ok_def)

theorem new_work_wakes_workers_witness:
  "let p = stranded 0 () (); q' = snd (enqueue (\<lambda>_ _. False) (\<lambda>b _. b) (sample_job ''a.org'' 1) (p_queue p))
   in Waiting \<in> set (p_workers p) \<and> Waiting \<notin> set (p_workers (produce q' p))"
proof -
  let ?bt = "\<lambda>_ _. False" and ?ba = "\<lambda>b _. b" and ?rdy = "\<lambda>_ s. (True, s)" and ?p = "stranded 0 () ()"
  let ?q' = "snd (enqueue ?bt ?ba (sample_job ''a.org'' 1) (p_queue ?p))"
  have "pool_step ?bt ?ba ?rdy ?p (produce ?q' ?p)"
    by (rule pool_step.produce) (rule produce_one)
  note step = this
  have more: "size (pending (p_queue ?p)) < size (pending (p_queue (produce ?q' ?p)))"
    by (simp add: produce_def enqueue_def Let_def frame_simps pending_push stranded_def new_queue_def pending_def
        lists_wf_def push_job_domains)
  have "Waiting \<notin> set (p_workers (produce ?q' ?p))"
    using new_work_wakes_workers [OF stranded_reachable step more] by blast
  moreover have "Waiting \<in> set (p_workers ?p)" by (simp add: stranded_def)
  ultimately show ?thesis unfolding Let_def by blast
qed

text \<open>
  The wake-up of a shutdown can be lost. \<open>StartPeriodicWake\<close> broadcasts once when the context is
  cancelled and returns, without holding the queue's mutex, while \<open>DequeueWithWait\<close> checks the
  context before it takes the mutex. There is a reachable pool in which the context is cancelled, the
  waker has gone and a worker is suspended, and it stays suspended in every continuation in which
  nobody enqueues.
\<close>

theorem shutdown_wakeup_can_be_lost:
  "\<exists>p. pool_reachable bt ba rdy (Suc m) b0 s0 p \<and> p_cancelled p \<and> p_workers p ! 0 = Waiting
     \<and> (\<forall>p'. (pool_step bt ba rdy)\<^sup>*\<^sup>* p p' \<and> q_enq (p_queue p') = q_enq (p_queue p) \<longrightarrow> p_workers p' ! 0 = Waiting)"
proof (intro exI [of _ "stranded m b0 s0"] conjI allI impI)
  show r: "pool_reachable bt ba rdy (Suc m) b0 s0 (stranded m b0 s0)" by (rule stranded_reachable)
  fix p' assume "(pool_step bt ba rdy)\<^sup>*\<^sup>* (stranded m b0 s0) p' \<and> q_enq (p_queue p') = q_enq (p_queue (stranded m b0 s0))"
  then show "p_workers p' ! 0 = Waiting"
    using pool_steps_stuck [of bt ba rdy "stranded m b0 s0" p' 0] pool_reachable_ok [OF r] by (auto simp: stranded_def)
qed (simp_all add: stranded_def)

theorem shutdown_wakeup_can_be_lost_witness:
  "\<exists>p :: (unit, unit) pool. p_cancelled p \<and> p_workers p ! 0 = Waiting
     \<and> pool_reachable (\<lambda>_ _. False) (\<lambda>b _. b) (\<lambda>_ s. (True, s)) 3 () () p"
  using shutdown_wakeup_can_be_lost [of "\<lambda>_ _. False" "\<lambda>b _. b" "\<lambda>_ s. (True, s)" 2 "()" "()"] by auto
end
