(* ===== verification/RateLimit.thy ===== *)
theory RateLimit
  imports Queue
begin

text \<open>
  The per-domain rate limiter of \<open>internal/ratelimit/ratelimit.go\<close>. A domain's semaphore is the list
  of the times at which its occupied slots are due to be released: a slot is taken by a send on the
  buffered channel and given back by the goroutine that sleeps until that time. The clock \<open>now\<close> and
  the jitter drawn by \<open>rand.Int63n\<close> are arguments. The ticker of the (empty) cleanup is not modelled.
\<close>

record domain_state =
  ds_slots :: "gotime list"
  ds_throttled :: gotime

record limiter =
  l_domains :: "domain \<rightharpoonup> domain_state"
  l_delay :: duration
  l_random :: duration
  l_par :: int

definition default_throttle_cooldown :: duration where
  "default_throttle_cooldown = 30 * second"

definition max_int :: "int \<Rightarrow> int \<Rightarrow> int" where
  "max_int a b = (if a > b then a else b)"

definition new_domain_limiter :: "duration \<Rightarrow> duration \<Rightarrow> int \<Rightarrow> limiter" where
  "new_domain_limiter delay rd par =
     \<lparr>l_domains = Map.empty, l_delay = delay, l_random = rd, l_par = max_int par 1\<rparr>"

definition get_or_create_domain :: "domain \<Rightarrow> limiter \<Rightarrow> domain_state \<times> limiter" where
  "get_or_create_domain d l =
     (case l_domains l d of
        Some ds \<Rightarrow> (ds, l)
      | None \<Rightarrow> (let ds = \<lparr>ds_slots = [], ds_throttled = time_zero\<rparr>
                 in (ds, l\<lparr>l_domains := (l_domains l)(d \<mapsto> ds)\<rparr>)))"

definition put_domain :: "domain \<Rightarrow> domain_state \<Rightarrow> limiter \<Rightarrow> limiter" where
  "put_domain d ds l = l\<lparr>l_domains := (l_domains l)(d \<mapsto> ds)\<rparr>"

text \<open>The delay of a reservation; \<open>jit\<close> stands for the value of \<open>rand.Int63n(randomDelay)\<close>.\<close>

definition total_delay :: "duration \<Rightarrow> limiter \<Rightarrow> duration" where
  "total_delay jit l = (if 0 < l_random l then l_delay l + jit else l_delay l)"

text \<open>The send on the semaphore; \<open>None\<close> when the channel is full.\<close>

definition acquire :: "gotime \<Rightarrow> duration \<Rightarrow> domain \<Rightarrow> limiter \<Rightarrow> limiter option" where
  "acquire now jit d l =
     (case get_or_create_domain d l of (ds, l1) \<Rightarrow>
        if int (length (ds_slots ds)) < l_par l
        then Some (put_domain d (ds\<lparr>ds_slots := (now + total_delay jit l) # ds_slots ds\<rparr>) l1)
        else None)"

text \<open>\<open>Wait\<close> blocks while \<open>acquire\<close> fails; \<open>TryWait\<close> first looks at the cooldown.\<close>

definition cooldown_check :: "gotime \<Rightarrow> domain \<Rightarrow> limiter \<Rightarrow> bool \<times> limiter" where
  "cooldown_check now d l =
     (case get_or_create_domain d l of (ds, l1) \<Rightarrow>
        if ds_throttled ds \<noteq> time_zero \<and> now < ds_throttled ds then (False, l1)
        else if ds_throttled ds \<noteq> time_zero then (True, put_domain d (ds\<lparr>ds_throttled := time_zero\<rparr>) l1)
        else (True, l1))"

definition try_wait :: "gotime \<Rightarrow> duration \<Rightarrow> domain \<Rightarrow> limiter \<Rightarrow> bool \<times> limiter" where
  "try_wait now jit d l =
     (case cooldown_check now d l of
        (False, l1) \<Rightarrow> (False, l1)
      | (True, l1) \<Rightarrow> (case acquire now jit d l1 of Some l2 \<Rightarrow> (True, l2) | None \<Rightarrow> (False, l1)))"

definition mark_throttled_for :: "gotime \<Rightarrow> domain \<Rightarrow> duration \<Rightarrow> limiter \<Rightarrow> limiter" where
  "mark_throttled_for now d cooldown l =
     (case get_or_create_domain d l of (ds, l1) \<Rightarrow> put_domain d (ds\<lparr>ds_throttled := now + cooldown\<rparr>) l1)"

definition mark_throttled :: "gotime \<Rightarrow> domain \<Rightarrow> limiter \<Rightarrow> limiter" where
  "mark_throttled now d l = mark_throttled_for now d default_throttle_cooldown l"

definition is_cooling_down :: "gotime \<Rightarrow> domain \<Rightarrow> limiter \<Rightarrow> bool \<times> limiter" where
  "is_cooling_down now d l =
     (case get_or_create_domain d l of (ds, l1) \<Rightarrow>
        if ds_throttled ds = time_zero then (False, l1)
        else if now < ds_throttled ds then (True, l1)
        else (False, put_domain d (ds\<lparr>ds_throttled := time_zero\<rparr>) l1))"

text \<open>The receive at the end of a release goroutine whose sleep ended at \<open>due\<close>.\<close>

definition release :: "gotime \<Rightarrow> domain \<Rightarrow> limiter \<Rightarrow> limiter" where
  "release due d l =
     (case get_or_create_domain d l of (ds, l1) \<Rightarrow> put_domain d (ds\<lparr>ds_slots := remove1 due (ds_slots ds)\<rparr>) l1)"

definition limiter_cleanup :: "limiter \<Rightarrow> limiter" where
  "limiter_cleanup l = l"

subsection \<open>Observations\<close>

definition slots_of :: "limiter \<Rightarrow> domain \<Rightarrow> gotime list" where
  "slots_of l d = (case l_domains l d of None \<Rightarrow> [] | Some ds \<Rightarrow> ds_slots ds)"

definition throttled_of :: "limiter \<Rightarrow> domain \<Rightarrow> gotime" where
  "throttled_of l d = (case l_domains l d of None \<Rightarrow> time_zero | Some ds \<Rightarrow> ds_throttled ds)"

lemma get_or_create_domain_eq:
  "get_or_create_domain d l = (\<lparr>ds_slots = slots_of l d, ds_throttled = throttled_of l d\<rparr>, put_domain d \<lparr>ds_slots = slots_of l d, ds_throttled = throttled_of l d\<rparr> l)"
  by (auto simp: get_or_create_domain_def slots_of_def throttled_of_def put_domain_def Let_def fun_upd_idem split: option.splits)

lemma put_domain_obs [simp]:
  "slots_of (put_domain d ds l) = (slots_of l)(d := ds_slots ds)"
  "throttled_of (put_domain d ds l) = (throttled_of l)(d := ds_throttled ds)"
  "l_par (put_domain d ds l) = l_par l" "l_delay (put_domain d ds l) = l_delay l" "l_random (put_domain d ds l) = l_random l"
  by (auto simp: slots_of_def throttled_of_def put_domain_def)

lemma cooldown_check_obs:
  assumes "cooldown_check now d l = (b, l')"
  shows "b \<longleftrightarrow> throttled_of l d = time_zero \<or> throttled_of l d \<le> now"
    and "slots_of l' = slots_of l" and "throttled_of l' = (if b then (throttled_of l)(d := time_zero) else throttled_of l)"
    and "l_par l' = l_par l" and "l_delay l' = l_delay l" and "l_random l' = l_random l"
  using assms by (auto simp: cooldown_check_def get_or_create_domain_eq split: if_splits)

lemma acquire_obs:
  assumes "acquire now jit d l = Some l'"
  shows "slots_of l' = (slots_of l)(d := (now + total_delay jit l) # slots_of l d)" and "int (length (slots_of l d)) < l_par l"
    and "throttled_of l' = throttled_of l" and "l_par l' = l_par l" and "l_delay l' = l_delay l" and "l_random l' = l_random l"
  using assms by (auto simp: acquire_def get_or_create_domain_eq split: if_splits)

lemma acquire_None: "acquire now jit d l = None \<longleftrightarrow> l_par l \<le> int (length (slots_of l d))"
  by (auto simp: acquire_def get_or_create_domain_eq)

lemma release_obs [simp]:
  "slots_of (release due d l) = (slots_of l)(d := remove1 due (slots_of l d))" "throttled_of (release due d l) = throttled_of l"
  "l_par (release due d l) = l_par l" "l_delay (release due d l) = l_delay l" "l_random (release due d l) = l_random l"
  by (simp_all add: release_def get_or_create_domain_eq)

lemma mark_throttled_obs [simp]:
  "slots_of (mark_throttled_for now d c l) = slots_of l"
  "throttled_of (mark_throttled_for now d c l) = (throttled_of l)(d := now + c)"
  "l_par (mark_throttled_for now d c l) = l_par l" "l_delay (mark_throttled_for now d c l) = l_delay l"
  "l_random (mark_throttled_for now d c l) = l_random l"
  by (simp_all add: mark_throttled_for_def get_or_create_domain_eq)

lemma is_cooling_down_obs:
  "is_cooling_down now d l = (b, l') \<Longrightarrow>
     b = (throttled_of l d \<noteq> time_zero \<and> now < throttled_of l d) \<and> slots_of l' = slots_of l
     \<and> l_par l' = l_par l \<and> l_delay l' = l_delay l \<and> l_random l' = l_random l"
  by (auto simp: is_cooling_down_def get_or_create_domain_eq split: if_splits)

lemma try_wait_obs:
  assumes "try_wait now jit d l = (b, l')"
  shows "slots_of l' = (if b then (slots_of l)(d := (now + total_delay jit l) # slots_of l d) else slots_of l)"
    and "b \<longleftrightarrow> (throttled_of l d = time_zero \<or> throttled_of l d \<le> now) \<and> int (length (slots_of l d)) < l_par l"
    and "l_par l' = l_par l"
proof -
  obtain c l1 where c: "cooldown_check now d l = (c, l1)" by force
  note obs = cooldown_check_obs [OF c]
  have delay: "total_delay jit l1 = total_delay jit l" using obs by (simp add: total_delay_def)
  have "slots_of l' = (if b then (slots_of l)(d := (now + total_delay jit l) # slots_of l d) else slots_of l)
    \<and> (b \<longleftrightarrow> (throttled_of l d = time_zero \<or> throttled_of l d \<le> now) \<and> int (length (slots_of l d)) < l_par l)
    \<and> l_par l' = l_par l"
  proof (cases "c \<and> acquire now jit d l1 \<noteq> None")
    case True
    then obtain l2 where a: "acquire now jit d l1 = Some l2" by blast
    with assms c True have "b" "l' = l2" by (simp_all add: try_wait_def)
    with acquire_obs(1,2,4) [OF a] obs True delay show ?thesis by simp
  next
    case False
    with assms c have "\<not> b" "l' = l1" by (auto simp: try_wait_def split: bool.splits)
    with False obs acquire_None [of now jit d l1] show ?thesis by auto
  qed
  then show "slots_of l' = (if b then (slots_of l)(d := (now + total_delay jit l) # slots_of l d) else slots_of l)"
    "b \<longleftrightarrow> (throttled_of l d = time_zero \<or> throttled_of l d \<le> now) \<and> int (length (slots_of l d)) < l_par l"
    "l_par l' = l_par l" by blast+
qed

subsection \<open>Runs of the limiter\<close>

text \<open>
  The clock advances, domains are throttled, slots are granted (by \<open>TryWait\<close> or by a \<open>Wait\<close> that
  stops blocking) and released once due. \<open>rn_log\<close> is a history variable: the grants so far.
  The cooldown test and the send of a \<open>TryWait\<close> are two steps, as they are two critical sections.
\<close>

record limiter_run =
  rn_limiter :: limiter
  rn_now :: gotime
  rn_log :: "(domain \<times> gotime) list"

inductive limiter_step :: "limiter_run \<Rightarrow> limiter_run \<Rightarrow> bool" where
  time_passes: "rn_now r \<le> t \<Longrightarrow> limiter_step r (r\<lparr>rn_now := t\<rparr>)"
| checks: "cooldown_check (rn_now r) d (rn_limiter r) = (b, l') \<Longrightarrow> limiter_step r (r\<lparr>rn_limiter := l'\<rparr>)"
| grants: "acquire (rn_now r) jit d (rn_limiter r) = Some l' \<Longrightarrow> 0 \<le> jit
    \<Longrightarrow> limiter_step r (r\<lparr>rn_limiter := l', rn_log := (d, rn_now r) # rn_log r\<rparr>)"
| releases: "due \<le> rn_now r \<Longrightarrow> limiter_step r (r\<lparr>rn_limiter := release due d (rn_limiter r)\<rparr>)"
| throttles: "limiter_step r (r\<lparr>rn_limiter := mark_throttled_for (rn_now r) d c (rn_limiter r)\<rparr>)"
| asks: "is_cooling_down (rn_now r) d (rn_limiter r) = (b, l') \<Longrightarrow> limiter_step r (r\<lparr>rn_limiter := l'\<rparr>)"
| cleans: "limiter_step r (r\<lparr>rn_limiter := limiter_cleanup (rn_limiter r)\<rparr>)"

inductive limiter_reachable :: "duration \<Rightarrow> duration \<Rightarrow> int \<Rightarrow> limiter_run \<Rightarrow> bool" for delay rd par where
  limiter_init: "limiter_reachable delay rd par \<lparr>rn_limiter = new_domain_limiter delay rd par, rn_now = t, rn_log = []\<rparr>"
| limiter_next: "limiter_reachable delay rd par r \<Longrightarrow> limiter_step r r' \<Longrightarrow> limiter_reachable delay rd par r'"

definition grants_in :: "limiter_run \<Rightarrow> domain \<Rightarrow> gotime \<Rightarrow> gotime \<Rightarrow> nat" where
  "grants_in r d a b = length (filter (\<lambda>(d', t). d' = d \<and> a \<le> t \<and> t < b) (rn_log r))"

definition unexpired :: "gotime list \<Rightarrow> gotime \<Rightarrow> nat" where
  "unexpired slots n = length (filter (\<lambda>x. n < x) slots)"

definition run_ok :: "duration \<Rightarrow> int \<Rightarrow> limiter_run \<Rightarrow> bool" where
  "run_ok delay par r \<longleftrightarrow> l_par (rn_limiter r) = max_int par 1 \<and> l_delay (rn_limiter r) = delay
     \<and> (\<forall>d. int (length (slots_of (rn_limiter r) d)) \<le> max_int par 1)
     \<and> (\<forall>e \<in> set (rn_log r). snd e \<le> rn_now r)
     \<and> (\<forall>d n. rn_now r \<le> n \<longrightarrow> grants_in r d (n - delay + 1) (n + 1) \<le> unexpired (slots_of (rn_limiter r) d) n)
     \<and> (\<forall>d a. int (grants_in r d a (a + delay)) \<le> max_int par 1)"

lemma grants_in_frame [simp]: "grants_in (r\<lparr>rn_limiter := l\<rparr>) d a b = grants_in r d a b"
  "grants_in (r\<lparr>rn_now := t\<rparr>) d a b = grants_in r d a b"
  by (simp_all add: grants_in_def)

lemma grants_in_grant:
  "grants_in (r\<lparr>rn_limiter := l, rn_log := (d', t) # rn_log r\<rparr>) d a b =
     (if d' = d \<and> a \<le> t \<and> t < b then 1 else 0) + grants_in r d a b"
  by (simp add: grants_in_def)

lemma unexpired_le: "unexpired slots n \<le> length slots"
  by (simp add: unexpired_def)

lemma unexpired_remove: "x \<le> n \<Longrightarrow> unexpired (remove1 x slots) n = unexpired slots n"
  by (simp add: unexpired_def filter_remove1 remove1_idem)

lemma grants_window_mono:
  assumes "\<forall>e \<in> set (rn_log r). snd e \<le> n" and "n - delay + 1 \<le> a"
  shows "grants_in r d a b \<le> grants_in r d (n - delay + 1) (n + 1)"
  unfolding grants_in_def using assms by (intro length_filter_mono) (auto split: prod.splits)

lemma total_delay_ge: "0 \<le> jit \<Longrightarrow> l_delay l \<le> total_delay jit l"
  by (simp add: total_delay_def)

lemma run_ok_grant:
  assumes ok: "run_ok delay par r" and acq: "acquire (rn_now r) jit d (rn_limiter r) = Some l'" and jit: "0 \<le> jit"
  shows "run_ok delay par (r\<lparr>rn_limiter := l', rn_log := (d, rn_now r) # rn_log r\<rparr>)" (is "run_ok _ _ ?r'")
proof -
  let ?l = "rn_limiter r" and ?now = "rn_now r" and ?P = "max_int par 1"
  note obs = acquire_obs [OF acq]
  have P: "l_par ?l = ?P" and dl: "l_delay ?l = delay" and past: "\<forall>e \<in> set (rn_log r). snd e \<le> ?now"
    and full: "\<And>x. int (length (slots_of ?l x)) \<le> ?P"
    and live: "\<And>x n. ?now \<le> n \<Longrightarrow> grants_in r x (n - delay + 1) (n + 1) \<le> unexpired (slots_of ?l x) n"
    and win: "\<And>x a. int (grants_in r x a (a + delay)) \<le> ?P"
    using ok by (auto simp: run_ok_def)
  have due: "?now + delay \<le> ?now + total_delay jit ?l" using total_delay_ge [OF jit, of ?l] dl by simp
  have live': "grants_in ?r' x (n - delay + 1) (n + 1) \<le> unexpired (slots_of l' x) n" if "?now \<le> n" for x n
    using live [OF that, of x] due that by (auto simp: grants_in_grant obs(1) unexpired_def)
  have win': "int (grants_in ?r' x a (a + delay)) \<le> ?P" for x a
  proof (cases "d = x \<and> a \<le> ?now \<and> ?now < a + delay")
    case True
    have "grants_in r x a (a + delay) \<le> grants_in r x (?now - delay + 1) (?now + 1)"
      using True by (intro grants_window_mono [OF past]) simp
    also have "\<dots> \<le> unexpired (slots_of ?l x) ?now" by (rule live) simp
    also have "\<dots> \<le> length (slots_of ?l x)" by (rule unexpired_le)
    finally show ?thesis using True obs(2) P by (simp add: grants_in_grant)
  next
    case False
    then show ?thesis using win [of x a] by (auto simp: grants_in_grant)
  qed
  have full': "int (length (slots_of l' x)) \<le> ?P" for x
    using full [of x] obs(1,2) P by auto
  show ?thesis
    unfolding run_ok_def using live' win' full' past obs P dl by simp
qed

lemma run_ok_frame:
  assumes "run_ok delay par r" and "slots_of l' = slots_of (rn_limiter r)" and "l_par l' = l_par (rn_limiter r)"
    and "l_delay l' = l_delay (rn_limiter r)"
  shows "run_ok delay par (r\<lparr>rn_limiter := l'\<rparr>)"
  using assms by (simp add: run_ok_def)

lemma limiter_step_ok: "limiter_step r r' \<Longrightarrow> run_ok delay par r \<Longrightarrow> run_ok delay par r'"
proof (induction rule: limiter_step.induct)
  case (time_passes r t)
  then show ?case by (fastforce simp: run_ok_def)
next
  case (checks r d b l')
  then show ?case using cooldown_check_obs [OF checks(1)] by (intro run_ok_frame) simp_all
next
  case (grants r jit d l')
  then show ?case by (intro run_ok_grant)
next
  case (releases due r d)
  have "length (remove1 due xs) \<le> length xs" for xs :: "gotime list" by (simp add: length_remove1)
  then have "int (length (remove1 due (slots_of (rn_limiter r) d))) \<le> max_int par 1"
    using releases(2) unfolding run_ok_def by (metis of_nat_mono order_trans)
  then show ?case using releases by (auto simp: run_ok_def unexpired_remove)
next
  case (throttles r d c)
  then show ?case by (intro run_ok_frame) simp_all
next
  case (asks r d b l')
  then show ?case using is_cooling_down_obs [OF asks(1)] by (intro run_ok_frame) simp_all
next
  case (cleans r)
  then show ?case by (simp add: limiter_cleanup_def)
qed

lemma limiter_reachable_ok: "limiter_reachable delay rd par r \<Longrightarrow> run_ok delay par r"
proof (induction rule: limiter_reachable.induct)
  case (limiter_init t)
  show ?case by (simp add: run_ok_def new_domain_limiter_def slots_of_def grants_in_def max_int_def)
next
  case (limiter_next r r')
  then show ?case using limiter_step_ok by blast
qed

subsection \<open>The limiter as the queue's readiness callback\<close>

interpretation gate: ready_gate "try_wait now jit" "\<lambda>l d. length (slots_of l d)" l_par for now jit
proof unfold_locales
  fix d l l' assume t: "try_wait now jit d l = (True, l')"
  show "(\<lambda>d. length (slots_of l' d)) = (\<lambda>d. length (slots_of l d))(d := length (slots_of l d) + 1) \<and> int (length (slots_of l' d)) \<le> l_par l'"
    using try_wait_obs [OF t] by (auto simp: fun_eq_iff)
next
  fix d l l' assume t: "try_wait now jit d l = (False, l')"
  show "(\<lambda>d. length (slots_of l' d)) = (\<lambda>d. length (slots_of l d)) \<and> l_par l \<le> l_par l'"
    using try_wait_obs [OF t] by simp
qed

text \<open>
  C4. Politeness: in every run of the limiter, a domain is granted at most \<open>max(parallelism, 1)\<close>
  requests in any time window as long as the politeness delay, and never holds more slots than that,
  whatever the interleaving of cooldown checks, sends, releases and throttling.
\<close>

theorem grants_rate_limited:
  assumes "limiter_reachable delay rd par r"
  shows "int (grants_in r d a (a + delay)) \<le> max_int par 1 \<and> int (length (slots_of (rn_limiter r) d)) \<le> max_int par 1"
  using limiter_reachable_ok [OF assms] by (simp add: run_ok_def)

theorem grants_rate_limited_witness:
  "let l = new_domain_limiter second 0 2; l1 = the (acquire 5 0 ''a'' l)
   in int (grants_in \<lparr>rn_limiter = l1, rn_now = 5, rn_log = [(''a'', 5)]\<rparr> ''a'' 5 (5 + second)) \<le> max_int 2 1"
proof -
  let ?l = "new_domain_limiter second 0 2"
  have "acquire 5 0 ''a'' ?l \<noteq> None" by (simp add: acquire_None new_domain_limiter_def slots_of_def max_int_def)
  then obtain l1 where l1: "acquire 5 0 ''a'' ?l = Some l1" by blast
  let ?r = "\<lparr>rn_limiter = ?l, rn_now = 5, rn_log = []\<rparr>"
  have "limiter_step ?r \<lparr>rn_limiter = l1, rn_now = 5, rn_log = [(''a'', 5)]\<rparr>"
    using grants [of ?r 0 "''a''" l1] l1 by simp
  from conjunct1 [OF grants_rate_limited [OF limiter_next [OF limiter_init this]]] show ?thesis
    unfolding l1 Let_def option.sel .
qed

text \<open>
  C29. A throttled domain is refused for the whole cooldown: after \<open>MarkThrottledFor\<close>, \<open>TryWait\<close>
  returns false and takes no slot at every later time before the cooldown ends, and from its end on
  it grants exactly when the semaphore has room.
\<close>

theorem throttled_domain_refused:
  assumes "now + cooldown \<noteq> time_zero" and "try_wait t jit d (mark_throttled_for now d cooldown l) = (granted, l')"
  shows "(granted \<longleftrightarrow> now + cooldown \<le> t \<and> int (length (slots_of l d)) < l_par l)
    \<and> slots_of l' = (if granted then (slots_of l)(d := (t + total_delay jit l) # slots_of l d) else slots_of l)"
  using try_wait_obs [OF assms(2)] assms(1) by (auto simp: total_delay_def)

theorem throttled_domain_refused_witness:
  "\<not> fst (try_wait (5 + 29 * second) 0 ''a'' (mark_throttled 5 ''a'' (new_domain_limiter second 0 2)))"
proof -
  let ?l = "new_domain_limiter second 0 2"
  obtain g l' where t: "try_wait (5 + 29 * second) 0 ''a'' (mark_throttled_for 5 ''a'' default_throttle_cooldown ?l) = (g, l')"
    by force
  have "5 + default_throttle_cooldown \<noteq> time_zero" by (simp add: default_throttle_cooldown_def time_zero_def)
  from throttled_domain_refused [OF this t] show ?thesis
    using t by (simp add: mark_throttled_def default_throttle_cooldown_def)
qed

text \<open>
  A worker that dequeues through the limiter reserves no slot in vain: a dequeue that returns a
  job takes exactly one slot, of that job's domain and within the parallelism limit, and a dequeue
  that returns none takes no slot of any domain.
\<close>

theorem dequeue_reserves_one_slot:
  assumes "queue_wf q" and "keys_listed ks (q_domains q)" and "0 \<le> sint (q_round q)" "sint (q_round q) < 2 ^ 63 - 1"
    and "dequeue_locked ks (try_wait now jit) l q = (res, l', q')"
  shows "(res = DqNone \<and> (\<forall>d. length (slots_of l' d) = length (slots_of l d)))
    \<or> (\<exists>job. res = DqJob job \<and> length (slots_of l' (j_domain job)) = length (slots_of l (j_domain job)) + 1
        \<and> int (length (slots_of l' (j_domain job))) \<le> l_par l'
        \<and> (\<forall>d. d \<noteq> j_domain job \<longrightarrow> length (slots_of l' d) = length (slots_of l d)))"
  using gate.dequeue_reserves [OF assms] by (auto simp: fun_eq_iff)

theorem dequeue_reserves_one_slot_witness:
  "\<exists>res l' q'. dequeue_locked [''a'', ''b''] (try_wait 5 0) (new_domain_limiter second 0 1) sample_queue = (res, l', q')
     \<and> (res = DqNone \<longrightarrow> slots_of l' ''a'' = [])"
proof -
  obtain res l' q' where d: "dequeue_locked [''a'', ''b''] (try_wait 5 0) (new_domain_limiter second 0 1) sample_queue = (res, l', q')"
    by (metis surj_pair)
  have r: "0 \<le> sint (q_round sample_queue)" "sint (q_round sample_queue) < 2 ^ 63 - 1"
    by (simp_all add: sample_queue_def frame_simps new_queue_def)
  from dequeue_reserves_one_slot [OF sample_queue_wf sample_queue_keys r d] d show ?thesis
    by (auto simp: new_domain_limiter_def slots_of_def)
qed

end
