(* ===== verification/Config.thy ===== *)
theory Config
  imports GoStrings
begin

text \<open>
  The configuration of \<open>internal/config/config.go\<close>: its structures, the defaults, the validation and
  the loader. The YAML decoder is the third-party package \<open>yaml.v3\<close> and an argument of the loader, as
  are the files. A validation error is the message up to the values it prints.
\<close>

abbreviation minute :: duration where "minute \<equiv> 60 * second"
abbreviation hour :: duration where "hour \<equiv> 3600 * second"

record seed_url_config =
  su_url :: rawurl
  su_recrawl :: duration

record scheduler_config =
  sch_tick :: duration
  sch_seed_recrawl :: duration
  sch_domain_recrawl :: duration
  sch_min_pages :: int
  sch_batch_limit :: int
  sch_depth :: int

record interest_config =
  ic_term :: string
  ic_weight :: float64

record adaptive_config =
  ad_min_queries :: int
  ad_depth_k :: float64
  ad_refresh :: duration
  ad_seed_bonus :: float64
  ad_anchor_w :: float64
  ad_path_w :: float64
  ad_title_w :: float64
  ad_rep_w :: float64
  ad_lang_bonus :: float64
  ad_interests :: "interest_config list"

record crawler_config =
  cr_workers :: int
  cr_max_depth :: int
  cr_api_max_depth :: int
  cr_request_timeout :: duration
  cr_politeness :: duration
  cr_random_delay :: duration
  cr_max_retries :: int
  cr_user_agent :: string
  cr_max_page_kb :: int
  cr_respect_robots :: bool
  cr_parallelism :: int
  cr_disable_cookies :: bool
  cr_max_idle :: int
  cr_proxy_urls :: "string list"
  cr_proxy_check :: duration
  cr_stats_flush :: duration
  cr_auto_start :: bool
  cr_no_follow :: "string list"
  cr_blacklist :: "string list"
  cr_strategy :: string
  cr_adaptive :: adaptive_config
  cr_max_per_fp :: int
  cr_scheduler :: scheduler_config

record rendering_config =
  re_enabled :: bool
  re_mode :: string
  re_ws_url :: string
  re_exec_path :: string
  re_max_conc :: int
  re_acquire_timeout :: duration
  re_timeout :: duration
  re_busy_attempts :: int
  re_busy_base :: duration
  re_busy_max :: duration
  re_wait :: duration
  re_max_html_kb :: int
  re_min_text :: int
  re_min_links :: int
  re_status_codes :: "int list"
  re_block_images :: bool

record storage_config =
  st_db_path :: string

record api_config =
  api_host :: string
  api_port :: int

record logging_config =
  lg_level :: string
  lg_format :: string

record search_intents_config =
  si_site_types :: "string list"
  si_platforms :: "string list"

record scoring_config =
  sc_lang_boost :: float64
  sc_secondary_boost :: float64
  sc_secondary :: string

record config =
  c_crawler :: crawler_config
  c_rendering :: rendering_config
  c_scoring :: scoring_config
  c_storage :: storage_config
  c_api :: api_config
  c_logging :: logging_config
  c_seeds :: "seed_url_config list"
  c_intents :: search_intents_config

subsection \<open>Defaults\<close>

definition default_adaptive :: adaptive_config where
  "default_adaptive = \<lparr>ad_min_queries = 3, ad_depth_k = 12, ad_refresh = 60 * second, ad_seed_bonus = 50, ad_anchor_w = 40,
     ad_path_w = 30, ad_title_w = 20, ad_rep_w = 15, ad_lang_bonus = 35, ad_interests = []\<rparr>"

definition default_scheduler :: scheduler_config where
  "default_scheduler = \<lparr>sch_tick = 10 * minute, sch_seed_recrawl = 24 * hour, sch_domain_recrawl = 72 * hour,
     sch_min_pages = 10, sch_batch_limit = 50, sch_depth = 2\<rparr>"

definition default_crawler :: crawler_config where
  "default_crawler = \<lparr>cr_workers = 100, cr_max_depth = 3, cr_api_max_depth = 2, cr_request_timeout = 15 * second,
     cr_politeness = 1 * second, cr_random_delay = 0, cr_max_retries = 3,
     cr_user_agent = ''Mozilla/5.0 (Windows NT 10.0; Win64; x64) AppleWebKit/537.36 (KHTML, like Gecko) Chrome/148.0.0.0 Safari/537.36'',
     cr_max_page_kb = 512, cr_respect_robots = False, cr_parallelism = 4, cr_disable_cookies = False, cr_max_idle = 100,
     cr_proxy_urls = [], cr_proxy_check = 60 * second, cr_stats_flush = 30 * second, cr_auto_start = True,
     cr_no_follow = [''wikipedia.org''], cr_blacklist = [], cr_strategy = ''adaptive'', cr_adaptive = default_adaptive,
     cr_max_per_fp = 10000, cr_scheduler = default_scheduler\<rparr>"

definition default_rendering :: rendering_config where
  "default_rendering = \<lparr>re_enabled = False, re_mode = ''auto'', re_ws_url = [], re_exec_path = [], re_max_conc = 2,
     re_acquire_timeout = 500 * millisecond, re_timeout = 20 * second, re_busy_attempts = 3, re_busy_base = 2 * second,
     re_busy_max = 15 * second, re_wait = 1200 * millisecond, re_max_html_kb = 2048, re_min_text = 200, re_min_links = 1,
     re_status_codes = [403, 503], re_block_images = True\<rparr>"

definition default_intents :: search_intents_config where
  "default_intents = \<lparr>si_site_types =
      [''wiki'', ''blog'', ''docs'', ''forum'', ''forums'', ''foro'', ''tienda'', ''store'',
       ''info'', ''guia'', ''guias'', ''guide'', ''guides'', ''noticias'', ''news'',
       ''comunidad'', ''community'', ''api'', ''documentacion'', ''documentation'',
       ''soporte'', ''support'', ''ayuda'', ''help'', ''portal'', ''hub'', ''status''],
     si_platforms =
      [''reddit'', ''youtube'', ''github'', ''twitter'', ''x'', ''facebook'', ''instagram'',
       ''tiktok'', ''linkedin'', ''pinterest'', ''twitch'', ''discord'', ''netflix'',
       ''spotify'', ''steam'', ''epicgames'', ''medium'', ''substack'', ''patreon'',
       ''kickstarter'', ''indiegogo'', ''vimeo'', ''dailymotion'', ''tumblr'', ''quora'',
       ''stackexchange'', ''stackoverflow'', ''gitlab'', ''bitbucket'', ''sourceforge'',
       ''itchio'', ''deviantart'', ''artstation'', ''behance'', ''dribbble'', ''soundcloud'',
       ''bandcamp'', ''mixcloud'', ''audiomack'', ''goodreads'', ''wattpad'', ''fanfiction'',
       ''ao3'', ''imgur'', ''gfycat'', ''tenor'', ''giphy'', ''pastebin'', ''hastebin'',
       ''jsfiddle'', ''codepen'', ''replit'', ''glitch'', ''heroku'', ''vercel'', ''netlify'',
       ''wordpress'', ''blogger'', ''wix'', ''squarespace'', ''weebly'', ''shopify'',
       ''etsy'', ''amazon'', ''aliexpress'', ''ebay'', ''mercadolibre'', ''newegg'',
       ''bestbuy'', ''walmart'', ''target'',
       ''wikipedia'', ''npm'', ''pypi'', ''docker'', ''nuget'']\<rparr>"

definition default_config :: config where
  "default_config = \<lparr>c_crawler = default_crawler, c_rendering = default_rendering,
     c_scoring = \<lparr>sc_lang_boost = 3000, sc_secondary_boost = 1500, sc_secondary = ''en''\<rparr>,
     c_storage = \<lparr>st_db_path = ''./data/duvycrawl.db''\<rparr>, c_api = \<lparr>api_host = ''0.0.0.0'', api_port = 8080\<rparr>,
     c_logging = \<lparr>lg_level = ''info'', lg_format = ''text''\<rparr>, c_seeds = [], c_intents = default_intents\<rparr>"

subsection \<open>Validation\<close>

text \<open>
  The body of \<open>validate\<close> is a sequence of guards; the first whose condition holds returns its error.
\<close>

type_synonym guard = "bool \<times> string"

definition first_failure :: "guard list \<Rightarrow> string option" where
  "first_failure gs = map_option snd (find fst gs)"

definition crawler_guards :: "crawler_config \<Rightarrow> guard list" where
  "crawler_guards c =
    [(cr_workers c < 1, ''crawler.workers must be >= 1''),
     (cr_workers c > 10000, ''crawler.workers must be <= 10000''),
     (cr_max_depth c < 0, ''crawler.max_depth must be >= 0''),
     (cr_api_max_depth c < 0, ''crawler.api_max_depth must be >= 0''),
     (cr_request_timeout c < 1 * second, ''crawler.request_timeout must be >= 1s''),
     (cr_politeness c < 100 * millisecond, ''crawler.politeness_delay must be >= 100ms''),
     (cr_max_retries c < 0, ''crawler.max_retries must be >= 0''),
     (cr_user_agent c = [], ''crawler.user_agent must not be empty''),
     (cr_max_page_kb c < 1, ''crawler.max_page_size_kb must be >= 1''),
     (cr_parallelism c < 1, ''crawler.parallelism_per_domain must be >= 1''),
     (cr_max_idle c < 1, ''crawler.max_idle_conns_per_host must be >= 1''),
     (0 < length (cr_proxy_urls c) \<and> cr_proxy_check c < 1 * second, ''crawler.proxy_check_interval must be >= 1s'')]"

definition rendering_guards :: "rendering_config \<Rightarrow> guard list" where
  "rendering_guards r =
    [(re_mode r \<notin> set [''auto'', ''force'', ''disabled''], ''rendering.mode must be one of [auto, force, disabled]''),
     (re_max_conc r < 1, ''rendering.max_concurrency must be >= 1''),
     (re_acquire_timeout r < 0, ''rendering.acquire_timeout must be >= 0''),
     (re_timeout r < second, ''rendering.timeout must be >= 1s''),
     (re_busy_attempts r < 0, ''rendering.busy_retry_max_attempts must be >= 0''),
     (re_busy_base r < 0, ''rendering.busy_retry_base_delay must be >= 0''),
     (re_busy_max r < 0, ''rendering.busy_retry_max_delay must be >= 0''),
     (re_busy_attempts r > 0 \<and> re_busy_base r = 0, ''rendering.busy_retry_base_delay must be > 0 when busy_retry_max_attempts > 0''),
     (re_busy_attempts r > 0 \<and> re_busy_max r = 0, ''rendering.busy_retry_max_delay must be > 0 when busy_retry_max_attempts > 0''),
     (re_wait r < 0, ''rendering.wait_after_load must be >= 0''),
     (re_max_html_kb r < 1, ''rendering.max_html_size_kb must be >= 1''),
     (re_min_text r < 0, ''rendering.min_text_chars must be >= 0''),
     (re_min_links r < 0, ''rendering.min_links must be >= 0'')]
    @ map (\<lambda>code. (code < 100 \<or> code > 599, ''rendering.render_on_status_codes contains invalid HTTP status'')) (re_status_codes r)"

definition interest_guards :: "interest_config \<Rightarrow> guard list" where
  "interest_guards ic =
    [(trim_space (ic_term ic) = [], ''crawler.adaptive.interests term must not be empty''),
     (ic_weight ic \<le> 0, ''crawler.adaptive.interests weight must be > 0'')]"

definition scheduler_guards :: "scheduler_config \<Rightarrow> guard list" where
  "scheduler_guards s =
    [(sch_tick s < 1 * minute, ''crawler.scheduler.tick_interval must be >= 1m''),
     (sch_seed_recrawl s < 1 * minute, ''crawler.scheduler.seed_recrawl_interval must be >= 1m''),
     (sch_domain_recrawl s < 0, ''crawler.scheduler.domain_recrawl_interval must be >= 0''),
     (sch_domain_recrawl s > 0 \<and> sch_domain_recrawl s < 1 * hour, ''crawler.scheduler.domain_recrawl_interval must be >= 1h when enabled''),
     (sch_min_pages s < 0, ''crawler.scheduler.domain_recrawl_min_pages must be >= 0''),
     (sch_batch_limit s < 0, ''crawler.scheduler.domain_recrawl_batch_limit must be >= 0''),
     (sch_depth s < 0, ''crawler.scheduler.domain_recrawl_depth must be >= 0'')]"

definition seed_guards :: "seed_url_config \<Rightarrow> guard list" where
  "seed_guards s =
    [(trim_space (su_url s) = [], ''seeds url must not be empty''),
     (su_recrawl s < 0, ''seeds recrawl_interval must be >= 0'')]"

definition other_guards :: "config \<Rightarrow> guard list" where
  "other_guards c =
    [(st_db_path (c_storage c) = [], ''storage.db_path must not be empty''),
     (api_port (c_api c) < 1 \<or> api_port (c_api c) > 65535, ''api.port must be between 1 and 65535''),
     (lg_level (c_logging c) \<notin> set [''debug'', ''info'', ''warn'', ''error''], ''logging.level must be one of [debug, info, warn, error]''),
     (lg_format (c_logging c) \<notin> set [''text'', ''json''], ''logging.format must be one of [text, json]'')]"

definition config_guards :: "config \<Rightarrow> guard list" where
  "config_guards c =
     crawler_guards (c_crawler c) @ rendering_guards (c_rendering c) @ other_guards c
     @ concat (map interest_guards (ad_interests (cr_adaptive (c_crawler c))))
     @ scheduler_guards (cr_scheduler (c_crawler c))
     @ [(cr_max_per_fp (c_crawler c) < 0, ''crawler.max_pages_per_fingerprint must be >= 0'')]
     @ concat (map seed_guards (c_seeds c))"

definition validate :: "config \<Rightarrow> string option" where
  "validate c = first_failure (config_guards c)"

subsection \<open>Loading\<close>

text \<open>
  The file system as the loader sees it: the content of a file, the entries of a directory with whether
  each is a directory itself (\<open>None\<close> when it is missing, no directory or unreadable).
\<close>

record config_env =
  env_file :: "string \<Rightarrow> string option"
  env_dir :: "string \<Rightarrow> (string \<times> bool) list option"
  env_join :: "string \<Rightarrow> string \<Rightarrow> string"
  env_dirname :: "string \<Rightarrow> string"
  env_yaml :: "string \<Rightarrow> config \<Rightarrow> config option"
  env_yaml_seeds :: "string \<Rightarrow> seed_url_config list option"

datatype load_error = ReadError | ParseError | InvalidConfig string

definition seed_file :: "string \<times> bool \<Rightarrow> bool" where
  "seed_file f \<longleftrightarrow> \<not> (snd f \<or> (\<not> has_suffix (fst f) ''.yaml'' \<and> \<not> has_suffix (fst f) ''.yml''))"

definition extra_seeds :: "config_env \<Rightarrow> string \<Rightarrow> string \<times> bool \<Rightarrow> seed_url_config list" where
  "extra_seeds env dir f =
     (if \<not> seed_file f then []
      else (case env_file env (env_join env dir (fst f)) of
              None \<Rightarrow> []
            | Some data \<Rightarrow> (case env_yaml_seeds env data of None \<Rightarrow> [] | Some ss \<Rightarrow> ss)))"

definition load :: "config_env \<Rightarrow> string \<Rightarrow> load_error + config" where
  "load env path =
     (case env_file env path of
        None \<Rightarrow> Inl ReadError
      | Some data \<Rightarrow>
          (case env_yaml env data default_config of
             None \<Rightarrow> Inl ParseError
           | Some cfg \<Rightarrow>
               (let dir = env_join env (env_dirname env path) ''seeds'';
                    cfg1 = (case env_dir env dir of
                              None \<Rightarrow> cfg
                            | Some files \<Rightarrow> cfg\<lparr>c_seeds := c_seeds cfg @ concat (map (extra_seeds env dir) files)\<rparr>)
                in case validate cfg1 of Some e \<Rightarrow> Inl (InvalidConfig e) | None \<Rightarrow> Inr cfg1)))"


subsection \<open>What validation guarantees\<close>

lemma first_failure_None: "first_failure gs = None \<longleftrightarrow> (\<forall>g \<in> set gs. \<not> fst g)"
  by (auto simp: first_failure_def find_None_iff)

text \<open>The documented ranges, read positively.\<close>

definition crawler_in_range :: "crawler_config \<Rightarrow> bool" where
  "crawler_in_range c \<longleftrightarrow> 1 \<le> cr_workers c \<and> cr_workers c \<le> 10000 \<and> 0 \<le> cr_max_depth c \<and> 0 \<le> cr_api_max_depth c
     \<and> second \<le> cr_request_timeout c \<and> 100 * millisecond \<le> cr_politeness c \<and> 0 \<le> cr_max_retries c \<and> cr_user_agent c \<noteq> []
     \<and> 1 \<le> cr_max_page_kb c \<and> 1 \<le> cr_parallelism c \<and> 1 \<le> cr_max_idle c
     \<and> (cr_proxy_urls c = [] \<or> second \<le> cr_proxy_check c)"

definition rendering_in_range :: "rendering_config \<Rightarrow> bool" where
  "rendering_in_range r \<longleftrightarrow> re_mode r \<in> {''auto'', ''force'', ''disabled''} \<and> 1 \<le> re_max_conc r \<and> 0 \<le> re_acquire_timeout r
     \<and> second \<le> re_timeout r \<and> 0 \<le> re_busy_attempts r \<and> 0 \<le> re_busy_base r \<and> 0 \<le> re_busy_max r
     \<and> (re_busy_attempts r = 0 \<or> 0 < re_busy_base r \<and> 0 < re_busy_max r)
     \<and> 0 \<le> re_wait r \<and> 1 \<le> re_max_html_kb r \<and> 0 \<le> re_min_text r \<and> 0 \<le> re_min_links r
     \<and> set (re_status_codes r) \<subseteq> {100..599}"

definition scheduler_in_range :: "scheduler_config \<Rightarrow> bool" where
  "scheduler_in_range s \<longleftrightarrow> minute \<le> sch_tick s \<and> minute \<le> sch_seed_recrawl s
     \<and> (sch_domain_recrawl s = 0 \<or> hour \<le> sch_domain_recrawl s)
     \<and> 0 \<le> sch_min_pages s \<and> 0 \<le> sch_batch_limit s \<and> 0 \<le> sch_depth s"

definition config_in_range :: "config \<Rightarrow> bool" where
  "config_in_range c \<longleftrightarrow> crawler_in_range (c_crawler c) \<and> rendering_in_range (c_rendering c)
     \<and> st_db_path (c_storage c) \<noteq> [] \<and> 1 \<le> api_port (c_api c) \<and> api_port (c_api c) \<le> 65535
     \<and> lg_level (c_logging c) \<in> {''debug'', ''info'', ''warn'', ''error''} \<and> lg_format (c_logging c) \<in> {''text'', ''json''}
     \<and> (\<forall>ic \<in> set (ad_interests (cr_adaptive (c_crawler c))). trim_space (ic_term ic) \<noteq> [] \<and> 0 < ic_weight ic)
     \<and> scheduler_in_range (cr_scheduler (c_crawler c)) \<and> 0 \<le> cr_max_per_fp (c_crawler c)
     \<and> (\<forall>s \<in> set (c_seeds c). trim_space (su_url s) \<noteq> [] \<and> 0 \<le> su_recrawl s)"

lemma crawler_guards_ok: "(\<forall>g \<in> set (crawler_guards c). \<not> fst g) \<longleftrightarrow> crawler_in_range c"
  by (auto simp: crawler_guards_def crawler_in_range_def not_less)

lemma rendering_guards_ok: "(\<forall>g \<in> set (rendering_guards r). \<not> fst g) \<longleftrightarrow> rendering_in_range r"
  by (auto simp: rendering_guards_def rendering_in_range_def not_less subset_iff)

lemma scheduler_guards_ok: "(\<forall>g \<in> set (scheduler_guards s). \<not> fst g) \<longleftrightarrow> scheduler_in_range s"
  by (auto simp: scheduler_guards_def scheduler_in_range_def not_less)

lemma validate_None_iff: "validate c = None \<longleftrightarrow> config_in_range c"
  unfolding validate_def first_failure_None config_guards_def config_in_range_def
  by (simp only: set_append ball_Un crawler_guards_ok rendering_guards_ok scheduler_guards_ok)
    (auto simp: other_guards_def interest_guards_def seed_guards_def not_less)

lemma default_in_range: "config_in_range default_config"
  by (simp add: config_in_range_def default_config_def crawler_in_range_def default_crawler_def rendering_in_range_def
      default_rendering_def scheduler_in_range_def default_scheduler_def default_adaptive_def)

text \<open>
  \<open>validate\<close> accepts exactly the configurations in the documented ranges, and it accepts the
  defaults.
\<close>

theorem validate_exact:
  "(validate c = None \<longleftrightarrow> config_in_range c) \<and> validate default_config = None"
  using validate_None_iff default_in_range by blast

text \<open>
  \<open>Load\<close> returns a configuration only if it is in range, and its seeds are those of the main
  file followed by those of the YAML files of the seeds directory in directory order; unreadable or
  malformed seed files contribute nothing and are never an error.
\<close>

theorem load_result:
  "case load env path of
     Inl ReadError \<Rightarrow> env_file env path = None
   | Inl ParseError \<Rightarrow> \<exists>data. env_file env path = Some data \<and> env_yaml env data default_config = None
   | Inl (InvalidConfig e) \<Rightarrow> \<exists>cfg. validate cfg = Some e
   | Inr cfg \<Rightarrow> config_in_range cfg \<and>
       (\<exists>data main. env_file env path = Some data \<and> env_yaml env data default_config = Some main
          \<and> cfg\<lparr>c_seeds := c_seeds main\<rparr> = main
          \<and> c_seeds cfg = c_seeds main @ concat (map (extra_seeds env (env_join env (env_dirname env path) ''seeds''))
              (case env_dir env (env_join env (env_dirname env path) ''seeds'') of None \<Rightarrow> [] | Some fs \<Rightarrow> fs)))"
proof (cases "load env path")
  case (Inl e)
  then show ?thesis by (cases e) (auto simp: load_def Let_def split: option.splits)
next
  case (Inr cfg)
  then have "validate cfg = None" by (auto simp: load_def Let_def split: option.splits)
  then have "config_in_range cfg" using validate_None_iff by blast
  with Inr show ?thesis by (auto simp: load_def Let_def split: option.splits)
qed

end
