(* ===== verification/Scorer.thy ===== *)
theory Scorer
  imports Queue Config
begin

text \<open>
  The scoring strategies of \<open>internal/scorer\<close>: the static one and the adaptive one with its interest
  profile. Scores are real numbers. \<open>math.Log1p(depth)\<close> is \<open>ln (1 + depth)\<close>, which is what it computes
  for the depths of the crawler (a depth is never negative). The store is a record of query results;
  the order in which Go visits the map of profile terms is an argument.
\<close>

definition log1p :: "int \<Rightarrow> float64" where
  "log1p d = ln (1 + real_of_int d)"

definition clamp0 :: "float64 \<Rightarrow> float64" where
  "clamp0 x = (if x < 0 then 0 else x)"

subsection \<open>Static scoring\<close>

record static_scorer =
  ss_seed_bonus :: float64
  ss_normal :: float64
  ss_recrawl :: float64
  ss_depth_k :: float64

definition new_static :: "float64 \<Rightarrow> float64 \<Rightarrow> float64 \<Rightarrow> float64 \<Rightarrow> static_scorer" where
  "new_static seed_bonus normal recrawl k =
     \<lparr>ss_seed_bonus = seed_bonus, ss_normal = normal, ss_recrawl = recrawl, ss_depth_k = k\<rparr>"

definition static_score :: "static_scorer \<Rightarrow> job \<Rightarrow> float64" where
  "static_score s job =
     (let base = (if j_base job = 0 then ss_normal s else j_base job);
          penalty = ss_depth_k s * log1p (j_depth job)
      in clamp0 (base - penalty))"

subsection \<open>Tokens\<close>

text \<open>The loop of \<open>normalizeTokens\<close>: the token being built and the tokens completed so far.\<close>

fun token_loop :: "stdlib \<Rightarrow> (nat \<times> string) list \<Rightarrow> string \<Rightarrow> string list \<Rightarrow> string list" where
  "token_loop E [] b out = (if 2 < length b then out @ [b] else out)"
| "token_loop E ((r, bytes) # rs) b out =
     (if is_letter E r \<or> is_digit E r then token_loop E rs (b @ bytes) out
      else token_loop E rs [] (if 2 < length b then out @ [b] else out))"

definition normalize_tokens :: "stdlib \<Rightarrow> string \<Rightarrow> string list" where
  "normalize_tokens E s = token_loop E (runes (to_lower E s)) [] []"

subsection \<open>Adaptive scoring\<close>

record interest_profile =
  ip_terms :: "string \<rightharpoonup> float64"
  ip_domains :: "domain \<rightharpoonup> float64"
  ip_languages :: "string \<rightharpoonup> float64"
  ip_queries :: int

record adaptive_scorer =
  as_cfg :: adaptive_config
  as_profile :: "interest_profile option"

definition new_adaptive :: "adaptive_config \<Rightarrow> adaptive_scorer" where
  "new_adaptive cfg = \<lparr>as_cfg = cfg, as_profile = None\<rparr>"

text \<open>The queries a refresh makes; \<open>None\<close> is an error of the store.\<close>

record profile_store =
  ps_terms :: "(string \<rightharpoonup> float64) option"
  ps_domains :: "(domain \<rightharpoonup> float64) option"
  ps_count :: "int option"
  ps_manual :: "string list option"

definition refresh :: "profile_store \<Rightarrow> adaptive_scorer \<Rightarrow> bool \<times> adaptive_scorer" where
  "refresh st a =
     (case (ps_terms st, ps_domains st, ps_count st) of
        (Some terms, Some doms, Some n) \<Rightarrow>
          (True, a\<lparr>as_profile := Some \<lparr>ip_terms = terms, ip_domains = doms, ip_languages = Map.empty,
             ip_queries = n + int (length (case ps_manual st of None \<Rightarrow> [] | Some m \<Rightarrow> m))\<rparr>\<rparr>)
      | _ \<Rightarrow> (False, a))"

text \<open>\<open>SeedInterestsFromConfig\<close>: the calls of \<open>SetInterestTerm\<close> it makes (a failed one is only logged).\<close>

definition seed_interests :: "stdlib \<Rightarrow> interest_config list \<Rightarrow> (string \<times> float64) list" where
  "seed_interests E ics = concat (map (\<lambda>ic. map (\<lambda>tok. (tok, ic_weight ic)) (normalize_tokens E (ic_term ic))) ics)"

text \<open>\<open>time.NewTicker\<close> panics on a duration that is not positive.\<close>

datatype ticker_start = TickerPanic | TickerRunning

definition new_ticker :: "duration \<Rightarrow> ticker_start" where
  "new_ticker d = (if d \<le> 0 then TickerPanic else TickerRunning)"

definition start_refresh_loop :: "profile_store \<Rightarrow> adaptive_scorer \<Rightarrow> ticker_start \<times> adaptive_scorer" where
  "start_refresh_loop st a = (case refresh st a of (_, a') \<Rightarrow> (new_ticker (ad_refresh (as_cfg a')), a'))"

text \<open>One token against the profile; \<open>ts\<close> lists the terms in the order the partial match visits them.\<close>

definition token_score :: "string list \<Rightarrow> (string \<rightharpoonup> float64) \<Rightarrow> float64 \<Rightarrow> string \<Rightarrow> float64" where
  "token_score ts terms weight tok =
     (case terms tok of
        Some w \<Rightarrow> w * weight
      | None \<Rightarrow> (case find (\<lambda>term. str_contains tok term \<or> str_contains term tok) ts of
                   Some term \<Rightarrow> the (terms term) * weight * (1 / 2)
                 | None \<Rightarrow> 0))"

definition text_score :: "stdlib \<Rightarrow> string list \<Rightarrow> (string \<rightharpoonup> float64) \<Rightarrow> string \<times> float64 \<Rightarrow> float64" where
  "text_score E ts terms t =
     (if fst t = [] then 0 else sum_list (map (token_score ts terms (snd t)) (normalize_tokens E (fst t))))"

definition relevance_score :: "stdlib \<Rightarrow> string list \<Rightarrow> adaptive_config \<Rightarrow> job \<Rightarrow> (string \<rightharpoonup> float64) \<Rightarrow> float64" where
  "relevance_score E ts cfg job terms =
     (if ts = [] then 0
      else sum_list (map (text_score E ts terms)
             [(j_anchor job, ad_anchor_w cfg), (j_url job, ad_path_w cfg), (j_title job, ad_title_w cfg)]))"

definition base_score :: "job \<Rightarrow> float64" where
  "base_score job = (if j_base job = 0 then 10 else j_base job)"

definition fallback_score :: "adaptive_config \<Rightarrow> job \<Rightarrow> float64" where
  "fallback_score cfg job =
     (let penalty = ad_depth_k cfg * log1p (j_depth job) in clamp0 (base_score job - penalty))"

definition map_value :: "('k \<rightharpoonup> float64) \<Rightarrow> 'k \<Rightarrow> float64" where
  "map_value m k = (case m k of None \<Rightarrow> 0 | Some v \<Rightarrow> v)"

definition profile_score :: "stdlib \<Rightarrow> string list \<Rightarrow> adaptive_config \<Rightarrow> interest_profile \<Rightarrow> job \<Rightarrow> float64" where
  "profile_score E ts cfg prof job =
     (let relevance = relevance_score E ts cfg job (ip_terms prof);
          domain_boost = map_value (ip_domains prof) (j_domain job) * ad_rep_w cfg;
          lang_boost = (if j_lang job \<noteq> [] \<and> map_value (ip_languages prof) (j_lang job) > 0 then ad_lang_bonus cfg else 0);
          penalty = ad_depth_k cfg * log1p (j_depth job)
      in clamp0 (base_score job + relevance + domain_boost + lang_boost - penalty))"

definition adaptive_score :: "stdlib \<Rightarrow> string list \<Rightarrow> adaptive_scorer \<Rightarrow> job \<Rightarrow> float64" where
  "adaptive_score E ts a job =
     (case as_profile a of
        None \<Rightarrow> fallback_score (as_cfg a) job
      | Some prof \<Rightarrow>
          if ip_queries prof < ad_min_queries (as_cfg a) then fallback_score (as_cfg a) job
          else profile_score E ts (as_cfg a) prof job)"

subsection \<open>The contract of a scorer\<close>

text \<open>
  What the frontier needs of a \<open>Scorer\<close>: scores are never negative and depend on neither the
  identifier nor the previous score of the job.
\<close>

locale scorer_contract =
  fixes score :: "job \<Rightarrow> float64"
  assumes nonneg: "0 \<le> score job"
    and unstamped: "score (job\<lparr>j_id := i\<rparr>) = score job"
    and unscored: "score (job\<lparr>j_score := x\<rparr>) = score job"
begin

definition scored :: "job \<Rightarrow> job" where
  "scored job = job\<lparr>j_score := score job\<rparr>"

lemma scored_fixed: "j_score (scored job) = score (scored job) \<and> 0 \<le> j_score (scored job)"
  by (simp add: scored_def unscored nonneg)

lemma scored_stamped: "j_score ((scored job)\<lparr>j_id := i\<rparr>) = score ((scored job)\<lparr>j_id := i\<rparr>)"
  using scored_fixed by (simp add: unstamped)

end

lemma clamp0_nonneg [bound_intros]: "0 \<le> clamp0 x"
  by (simp add: clamp0_def)

lemma clamp0_mono: "x \<le> y \<Longrightarrow> clamp0 x \<le> clamp0 y"
  by (simp add: clamp0_def)

interpretation static: scorer_contract "static_score s" for s
  by unfold_locales (simp_all add: static_score_def Let_def clamp0_nonneg)

lemma adaptive_nonneg: "0 \<le> adaptive_score E ts a job"
  by (auto simp: adaptive_score_def fallback_score_def profile_score_def Let_def clamp0_nonneg split: option.splits)

interpretation adaptive: scorer_contract "adaptive_score E ts a" for E ts a
proof unfold_locales
  show "0 \<le> adaptive_score E ts a job" for job by (rule adaptive_nonneg)
qed (simp_all add: adaptive_score_def fallback_score_def profile_score_def relevance_score_def base_score_def Let_def split: option.splits)

lemma log1p_mono: "0 \<le> d \<Longrightarrow> d \<le> d' \<Longrightarrow> log1p d \<le> log1p d'"
  by (simp add: log1p_def)


subsection \<open>Properties\<close>



text \<open>
  The language bonus is dead code: every profile that a refresh installs has an empty language
  table, so the score of a job never depends on the language of the page its link was found on.
\<close>

theorem language_bonus_unreachable:
  "adaptive_score E ts (snd (refresh st (new_adaptive cfg))) (job\<lparr>j_lang := l\<rparr>)
     = adaptive_score E ts (snd (refresh st (new_adaptive cfg))) job"
  by (auto simp: refresh_def new_adaptive_def adaptive_score_def fallback_score_def profile_score_def relevance_score_def
      base_score_def map_value_def Let_def split: option.splits)

text \<open>
  The partial match of a token takes the first profile term in map order, not the best one:
  for one profile, two visiting orders give different scores.
\<close>

theorem partial_match_depends_on_order:
  "token_score [''gato'', ''gatos''] [''gato'' \<mapsto> 1, ''gatos'' \<mapsto> 4] 2 ''losgatos'' = 1
   \<and> token_score [''gatos'', ''gato''] [''gato'' \<mapsto> 1, ''gatos'' \<mapsto> 4] 2 ''losgatos'' = 4"
  by (simp add: token_score_def has_prefix_def)

text \<open>
  A configuration that passes validation can crash the crawler at start: \<open>validate\<close> does not
  constrain the profile refresh interval, and \<open>StartRefreshLoop\<close> panics on the value 0.
\<close>

theorem validated_config_can_panic:
  "\<exists>c. validate c = None \<and>
     fst (start_refresh_loop st (new_adaptive (cr_adaptive (c_crawler c)))) = TickerPanic"
proof -
  let ?cr = "c_crawler default_config"
  let ?c = "default_config\<lparr>c_crawler := ?cr\<lparr>cr_adaptive := (cr_adaptive ?cr)\<lparr>ad_refresh := 0\<rparr>\<rparr>\<rparr>"
  have "config_in_range ?c" using default_in_range by (simp add: config_in_range_def crawler_in_range_def)
  then have "validate ?c = None" by (simp add: validate_None_iff)
  moreover have "fst (start_refresh_loop st (new_adaptive (cr_adaptive (c_crawler ?c)))) = TickerPanic"
    by (auto simp: start_refresh_loop_def refresh_def new_adaptive_def new_ticker_def split: option.splits)
  ultimately show ?thesis by blast
qed

end
