(* ===== verification/GoUrl.thy ===== *)
theory GoUrl
  imports GoStrings
begin

text \<open>
  What the code uses of Go's \<open>net/url\<close> (release 1.26, the toolchain of \<open>go.mod\<close>) and
  \<open>path.Ext\<close>: parsing, percent-decoding and -encoding by mode, \<open>String\<close>, \<open>Hostname\<close>,
  \<open>ParseQuery\<close> and \<open>Values.Encode\<close>. An error of the package is \<open>None\<close>: its callers only test for
  one. \<open>sl_ip6\<close> of the parameter record decides whether a bracketed literal is an IPv6 address.
\<close>

datatype enc_mode = EncPath | EncHost | EncZone | EncUser | EncQuery | EncFragment

record url =
  u_scheme :: string
  u_opaque :: string
  u_user :: "(string \<times> string option) option"
  u_host :: string
  u_path :: string
  u_rawpath :: string
  u_omithost :: bool
  u_forcequery :: bool
  u_rawquery :: string
  u_fragment :: string
  u_rawfragment :: string

definition url0 :: url where
  "url0 = \<lparr>u_scheme = [], u_opaque = [], u_user = None, u_host = [], u_path = [], u_rawpath = [], u_omithost = False,
     u_forcequery = False, u_rawquery = [], u_fragment = [], u_rawfragment = []\<rparr>"

subsection \<open>Percent encoding\<close>

definition ascii_alnum :: "char \<Rightarrow> bool" where
  "ascii_alnum c \<longleftrightarrow> ascii_upper c \<or> ascii_lower c \<or> ascii_digit c"

definition hex_digit :: "char \<Rightarrow> bool" where
  "hex_digit c \<longleftrightarrow> ascii_digit c \<or> (97 \<le> byte c \<and> byte c \<le> 102) \<or> (65 \<le> byte c \<and> byte c \<le> 70)"

definition unhex :: "char \<Rightarrow> nat" where
  "unhex c = (if ascii_digit c then byte c - 48 else if 97 \<le> byte c then byte c - 87 else byte c - 55)"

definition upper_hex :: "nat \<Rightarrow> char" where
  "upper_hex n = (if n < 10 then char_of (48 + n) else char_of (55 + n))"

definition should_escape :: "char \<Rightarrow> enc_mode \<Rightarrow> bool" where
  "should_escape c m =
     (if ascii_alnum c then False
      else if (m = EncHost \<or> m = EncZone) \<and> c \<in> set ''!$&'()*+,;=:[]<>\"'' then False
      else if c \<in> set ''-_.~'' then False
      else if c \<in> set ''$&+,/:;=?@'' then
        (case m of EncPath \<Rightarrow> c = CHR ''?'' | EncUser \<Rightarrow> c \<in> set ''@/?:'' | EncQuery \<Rightarrow> True | EncFragment \<Rightarrow> False | _ \<Rightarrow> True)
      else if m = EncFragment \<and> c \<in> set ''!()*'' then False
      else True)"

fun unescape :: "enc_mode \<Rightarrow> string \<Rightarrow> string option" where
  "unescape m [] = Some []"
| "unescape m (c # s) =
     (if c = CHR ''%'' then
        (case s of
           a # b # t \<Rightarrow>
             if \<not> (hex_digit a \<and> hex_digit b) then None
             else (let v = char_of (16 * unhex a + unhex b)
                   in if m = EncHost \<and> unhex a < 8 \<and> (a, b) \<noteq> (CHR ''2'', CHR ''5'') then None
                      else if m = EncZone \<and> (a, b) \<noteq> (CHR ''2'', CHR ''5'') \<and> v \<noteq> CHR '' '' \<and> should_escape v EncHost then None
                      else map_option ((#) v) (unescape m t))
         | _ \<Rightarrow> None)
      else if (m = EncHost \<or> m = EncZone) \<and> byte c < 128 \<and> should_escape c m then None
      else if c = CHR ''+'' \<and> m = EncQuery then map_option ((#) CHR '' '') (unescape m s)
      else map_option ((#) c) (unescape m s))"

definition escape_char :: "enc_mode \<Rightarrow> char \<Rightarrow> string" where
  "escape_char m c =
     (if c = CHR '' '' \<and> m = EncQuery then ''+''
      else if should_escape c m then [CHR ''%'', upper_hex (byte c div 16), upper_hex (byte c mod 16)]
      else [c])"

definition escape :: "enc_mode \<Rightarrow> string \<Rightarrow> string" where
  "escape m s = concat (map (escape_char m) s)"

definition valid_encoded :: "enc_mode \<Rightarrow> string \<Rightarrow> bool" where
  "valid_encoded m s \<longleftrightarrow> list_all (\<lambda>c. c \<in> set ''!$&'()*+,;=:@[]%'' \<or> \<not> should_escape c m) s"

subsection \<open>Parsing\<close>

fun get_scheme_from :: "nat \<Rightarrow> string \<Rightarrow> string \<Rightarrow> (string \<times> string) option" where
  "get_scheme_from i raw [] = Some ([], raw)"
| "get_scheme_from i raw (c # s) =
     (if ascii_upper c \<or> ascii_lower c then get_scheme_from (Suc i) raw s
      else if ascii_digit c \<or> c \<in> set ''+-.'' then (if i = 0 then Some ([], raw) else get_scheme_from (Suc i) raw s)
      else if c = CHR '':'' then (if i = 0 then None else Some (take i raw, s))
      else Some ([], raw))"

definition get_scheme :: "string \<Rightarrow> (string \<times> string) option" where
  "get_scheme raw = get_scheme_from 0 raw raw"

definition valid_userinfo :: "string \<Rightarrow> bool" where
  "valid_userinfo s \<longleftrightarrow> list_all (\<lambda>c. ascii_alnum c \<or> c \<in> set ''-._:~!$&'()*+,;=%@'') s"

definition valid_optional_port :: "string \<Rightarrow> bool" where
  "valid_optional_port p \<longleftrightarrow> (case p of [] \<Rightarrow> True | c # s \<Rightarrow> c = CHR '':'' \<and> list_all ascii_digit s)"

fun index_str :: "string \<Rightarrow> string \<Rightarrow> nat option" where
  "index_str [] t = (if t = [] then Some 0 else None)"
| "index_str (c # s) t = (if has_prefix (c # s) t then Some 0 else map_option Suc (index_str s t))"

definition parse_ip_literal :: "stdlib \<Rightarrow> string \<Rightarrow> string option" where
  "parse_ip_literal E host =
     (case last_index_byte host CHR '']'' of
        None \<Rightarrow> None
      | Some cb \<Rightarrow>
          (let colon_port = drop (Suc cb) host; name = drop 1 (take cb host)
           in if \<not> valid_optional_port colon_port then None
              else (case (unescape EncHost colon_port,
                          (case index_str name ''%25'' of
                             Some z \<Rightarrow> (case (unescape EncHost (take z name), unescape EncZone (drop z name)) of
                                          (Some h, Some zn) \<Rightarrow> Some (h @ zn) | _ \<Rightarrow> None)
                           | None \<Rightarrow> unescape EncHost name)) of
                      (Some port, Some n) \<Rightarrow> if sl_ip6 E n then Some (''['' @ n @ '']'' @ port) else None
                    | _ \<Rightarrow> None)))"

definition parse_host :: "stdlib \<Rightarrow> string \<Rightarrow> string option" where
  "parse_host E host =
     (case last_index_byte host CHR ''['' of
        Some ob \<Rightarrow> if 0 < ob then None else parse_ip_literal E host
      | None \<Rightarrow>
          (case (index_byte host CHR '':'', last_index_byte host CHR '':'') of
             (Some i, Some j) \<Rightarrow> if i \<noteq> j \<or> \<not> valid_optional_port (drop i host) then None else unescape EncHost host
           | _ \<Rightarrow> unescape EncHost host))"

definition parse_userinfo :: "string \<Rightarrow> (string \<times> string option) option" where
  "parse_userinfo ui =
     (if \<not> valid_userinfo ui then None
      else (case cut_byte ui CHR '':'' of
              (name, pw, colon) \<Rightarrow>
                if \<not> colon then map_option (\<lambda>n. (n, None)) (unescape EncUser ui)
                else (case (unescape EncUser name, unescape EncUser pw) of
                        (Some n, Some p) \<Rightarrow> Some (n, Some p) | _ \<Rightarrow> None)))"

definition parse_authority :: "stdlib \<Rightarrow> string \<Rightarrow> ((string \<times> string option) option \<times> string) option" where
  "parse_authority E a =
     (case last_index_byte a CHR ''@'' of
        None \<Rightarrow> map_option (\<lambda>h. (None, h)) (parse_host E a)
      | Some i \<Rightarrow> (case (parse_host E (drop (Suc i) a), parse_userinfo (take i a)) of
                     (Some h, Some ui) \<Rightarrow> Some (Some ui, h) | _ \<Rightarrow> None))"

definition set_path :: "string \<Rightarrow> url \<Rightarrow> url option" where
  "set_path p u =
     (case unescape EncPath p of
        None \<Rightarrow> None
      | Some path \<Rightarrow> Some (u\<lparr>u_path := path, u_rawpath := (if p = escape EncPath path then [] else p)\<rparr>))"

definition parse_rest :: "stdlib \<Rightarrow> url \<Rightarrow> string \<Rightarrow> url option" where
  "parse_rest E u rest =
     (if \<not> has_prefix rest ''/'' \<and> u_scheme u \<noteq> [] then Some (u\<lparr>u_opaque := rest\<rparr>)
      else if \<not> has_prefix rest ''/'' \<and> CHR '':'' \<in> set (fst (cut_byte rest CHR ''/'')) then None
      else if (u_scheme u \<noteq> [] \<or> \<not> has_prefix rest ''///'') \<and> has_prefix rest ''//'' then
        (let a = drop 2 rest;
             (auth, path) = (case index_byte a CHR ''/'' of Some i \<Rightarrow> (take i a, drop i a) | None \<Rightarrow> (a, []))
         in case parse_authority E auth of
              None \<Rightarrow> None
            | Some (ui, h) \<Rightarrow> set_path path (u\<lparr>u_user := ui, u_host := h\<rparr>))
      else set_path rest (if u_scheme u \<noteq> [] \<and> has_prefix rest ''/'' then u\<lparr>u_omithost := True\<rparr> else u))"

definition count_byte :: "string \<Rightarrow> char \<Rightarrow> nat" where
  "count_byte s c = length (filter ((=) c) s)"

definition parse_nofrag :: "stdlib \<Rightarrow> string \<Rightarrow> url option" where
  "parse_nofrag E raw =
     (if list_ex (\<lambda>c. byte c < 32 \<or> byte c = 127) raw then None
      else if raw = ''*'' then Some (url0\<lparr>u_path := ''*''\<rparr>)
      else (case get_scheme raw of
              None \<Rightarrow> None
            | Some (sch, rest) \<Rightarrow>
                (let u = url0\<lparr>u_scheme := map lower_char sch\<rparr>
                 in if has_suffix rest ''?'' \<and> count_byte rest CHR ''?'' = 1
                    then parse_rest E (u\<lparr>u_forcequery := True\<rparr>) (butlast rest)
                    else (case cut_byte rest CHR ''?'' of
                            (r, q, _) \<Rightarrow> parse_rest E (u\<lparr>u_rawquery := q\<rparr>) r))))"

definition url_parse :: "stdlib \<Rightarrow> string \<Rightarrow> url option" where
  "url_parse E raw =
     (case cut_byte raw CHR ''#'' of
        (s, frag, _) \<Rightarrow>
          (case parse_nofrag E s of
             None \<Rightarrow> None
           | Some u \<Rightarrow>
               if frag = [] then Some u
               else (case unescape EncFragment frag of
                       None \<Rightarrow> None
                     | Some f \<Rightarrow> Some (u\<lparr>u_fragment := f, u_rawfragment := (if frag = escape EncFragment f then [] else frag)\<rparr>))))"

subsection \<open>Reassembly\<close>

definition escaped_path :: "url \<Rightarrow> string" where
  "escaped_path u =
     (if u_rawpath u \<noteq> [] \<and> valid_encoded EncPath (u_rawpath u) \<and> unescape EncPath (u_rawpath u) = Some (u_path u) then u_rawpath u
      else if u_path u = ''*'' then ''*'' else escape EncPath (u_path u))"

definition escaped_fragment :: "url \<Rightarrow> string" where
  "escaped_fragment u =
     (if u_rawfragment u \<noteq> [] \<and> valid_encoded EncFragment (u_rawfragment u)
         \<and> unescape EncFragment (u_rawfragment u) = Some (u_fragment u) then u_rawfragment u
      else escape EncFragment (u_fragment u))"

definition userinfo_string :: "string \<times> string option \<Rightarrow> string" where
  "userinfo_string ui =
     (if fst ui \<noteq> [] \<or> snd ui \<noteq> None
      then escape EncUser (fst ui) @ (case snd ui of Some p \<Rightarrow> '':'' @ escape EncUser p | None \<Rightarrow> [])
      else [])"

definition authority_string :: "url \<Rightarrow> string" where
  "authority_string u =
     (if (u_scheme u = [] \<and> u_host u = [] \<and> u_user u = None) \<or> (u_omithost u \<and> u_host u = [] \<and> u_user u = None) then []
      else (if u_host u \<noteq> [] \<or> u_path u \<noteq> [] \<or> u_user u \<noteq> None then ''//'' else [])
        @ (case u_user u of Some ui \<Rightarrow> userinfo_string ui @ ''@'' | None \<Rightarrow> [])
        @ (if u_host u \<noteq> [] then escape EncHost (u_host u) else []))"

definition url_string :: "url \<Rightarrow> string" where
  "url_string u =
     (let pre = (if u_scheme u \<noteq> [] then u_scheme u @ '':'' else []);
          path = escaped_path u;
          body = (if u_opaque u \<noteq> [] then pre @ u_opaque u
                  else (let s = pre @ authority_string u;
                            s1 = (if path \<noteq> [] \<and> hd path \<noteq> CHR ''/'' \<and> u_host u \<noteq> [] then s @ ''/'' else s);
                            s2 = (if s1 = [] \<and> CHR '':'' \<in> set (fst (cut_byte path CHR ''/'')) then ''./'' else s1)
                        in s2 @ path))
      in body @ (if u_forcequery u \<or> u_rawquery u \<noteq> [] then ''?'' @ u_rawquery u else [])
           @ (if u_fragment u \<noteq> [] then ''#'' @ escaped_fragment u else []))"

definition split_host_port :: "string \<Rightarrow> string \<times> string" where
  "split_host_port hp =
     (let (h, p) = (case last_index_byte hp CHR '':'' of
                      Some i \<Rightarrow> if valid_optional_port (drop i hp) then (take i hp, drop (Suc i) hp) else (hp, [])
                    | None \<Rightarrow> (hp, []))
      in (if has_prefix h ''['' \<and> has_suffix h '']'' then butlast (tl h) else h, p))"

definition url_hostname :: "url \<Rightarrow> string" where
  "url_hostname u = fst (split_host_port (u_host u))"

definition url_port :: "url \<Rightarrow> string" where
  "url_port u = snd (split_host_port (u_host u))"

subsection \<open>Queries\<close>

text \<open>\<open>url.Values\<close> as an association list; the code only iterates over its sorted keys.\<close>

type_synonym url_values = "(string \<times> string list) list"

fun values_add :: "string \<Rightarrow> string \<Rightarrow> url_values \<Rightarrow> url_values" where
  "values_add k v [] = [(k, [v])]"
| "values_add k v ((k', vs) # m) = (if k' = k then (k', vs @ [v]) # m else (k', vs) # values_add k v m)"

definition query_pair :: "string \<Rightarrow> url_values \<Rightarrow> url_values" where
  "query_pair kv m =
     (if CHR '';'' \<in> set kv \<or> kv = [] then m
      else (case cut_byte kv CHR ''='' of
              (k, v, _) \<Rightarrow> (case (unescape EncQuery k, unescape EncQuery v) of
                              (Some k', Some v') \<Rightarrow> values_add k' v' m | _ \<Rightarrow> m)))"

definition url_query :: "string \<Rightarrow> url_values" where
  "url_query q = (if 10000 < count_byte q CHR ''&'' + 1 then [] else fold query_pair (split_byte q CHR ''&'') [])"

definition encode_key :: "url_values \<Rightarrow> string \<Rightarrow> string list" where
  "encode_key m k = (case map_of m k of None \<Rightarrow> [] | Some vs \<Rightarrow> map (\<lambda>v. escape EncQuery k @ ''='' @ escape EncQuery v) vs)"

definition values_encode :: "url_values \<Rightarrow> string" where
  "values_encode m = str_join (concat (map (encode_key m) (sort (map fst m)))) ''&''"

fun path_ext :: "string \<Rightarrow> string" where
  "path_ext [] = []"
| "path_ext (c # s) =
     (if c = CHR ''.'' \<and> CHR ''/'' \<notin> set s \<and> CHR ''.'' \<notin> set s then c # s
      else path_ext s)"


subsection \<open>Percent encoding round trips\<close>

lemma hex_round_trip: "n < 16 \<Longrightarrow> hex_digit (upper_hex n) \<and> unhex (upper_hex n) = n"
  by (cases "n < 10") (auto simp: upper_hex_def hex_digit_def unhex_def ascii_digit_def)

lemma char_of_hex: "char_of (16 * (byte c div 16) + byte c mod 16) = c"
  by (simp add: mult_div_mod_eq)

lemma byte_lt: "byte c < 256"
  by (metis nat_of_char_less_256)

lemma unescape_escape_char:
  assumes "m = EncPath \<or> m = EncQuery \<or> m = EncUser \<or> m = EncFragment"
  shows "unescape m (escape_char m c @ s) = map_option ((#) c) (unescape m s)"
proof -
  have h: "hex_digit (upper_hex (byte c div 16))" "hex_digit (upper_hex (byte c mod 16))"
    "unhex (upper_hex (byte c div 16)) = byte c div 16" "unhex (upper_hex (byte c mod 16)) = byte c mod 16"
    using hex_round_trip [of "byte c div 16"] hex_round_trip [of "byte c mod 16"]
      less_mult_imp_div_less [of "byte c" 16 16] byte_lt [of c] by auto
  have m: "m \<noteq> EncHost" "m \<noteq> EncZone" using assms by auto
  have pct: "should_escape CHR ''%'' m" using assms by (auto simp: should_escape_def ascii_alnum_def ascii_upper_def ascii_lower_def ascii_digit_def)
  have plus: "m = EncQuery \<Longrightarrow> should_escape CHR ''+'' m" by (simp add: should_escape_def ascii_alnum_def ascii_upper_def ascii_lower_def ascii_digit_def)
  consider (space) "c = CHR '' ''" "m = EncQuery" | (esc) "\<not> (c = CHR '' '' \<and> m = EncQuery)" "should_escape c m"
    | (plain) "\<not> (c = CHR '' '' \<and> m = EncQuery)" "\<not> should_escape c m" by blast
  then show ?thesis
  proof cases
    case space
    then show ?thesis by (simp add: escape_char_def)
  next
    case esc
    then show ?thesis using h m by (auto simp: escape_char_def char_of_hex Let_def)
  next
    case plain
    with pct plus have "c \<noteq> CHR ''%''" "\<not> (c = CHR ''+'' \<and> m = EncQuery)" by auto
    with plain m show ?thesis by (auto simp: escape_char_def)
  qed
qed

lemma unescape_escape:
  "m = EncPath \<or> m = EncQuery \<or> m = EncUser \<or> m = EncFragment \<Longrightarrow> unescape m (escape m s) = Some s"
  by (induction s) (simp_all add: escape_def unescape_escape_char)

lemma escaped_path_parses: "unescape EncPath (escaped_path u) = Some (u_path u)"
proof (cases "u_path u = ''*''")
  case True
  then show ?thesis by (auto simp: escaped_path_def)
next
  case False
  then show ?thesis using unescape_escape [of EncPath "u_path u"] by (auto simp: escaped_path_def)
qed

end
