(* ===== verification/UrlFilter.thy ===== *)
theory UrlFilter
  imports GoUrl
begin

text \<open>
  The URL filter of \<open>internal/urlfilter/urlfilter.go\<close>: extension tables, crawl-trap paths, and the
  patterns of requests that the headless browser blocks. A Go map used as a set is the list of its
  keys; the one function that iterates over two of them takes the visiting orders as arguments.
\<close>

definition binary_extensions :: "string list" where
  "binary_extensions =
    [''.pdf'', ''.doc'', ''.docx'', ''.xls'', ''.xlsx'', ''.ppt'', ''.pptx'',
     ''.zip'', ''.tar'', ''.gz'', ''.rar'', ''.7z'', ''.bz2'', ''.xz'',
     ''.jpg'', ''.jpeg'', ''.png'', ''.gif'', ''.bmp'', ''.svg'', ''.webp'', ''.ico'',
     ''.tif'', ''.tiff'', ''.heic'', ''.heif'', ''.avif'', ''.apng'',
     ''.mp3'', ''.mp4'', ''.avi'', ''.mkv'', ''.mov'', ''.wmv'', ''.flv'', ''.wav'',
     ''.webm'', ''.m4a'', ''.ogg'', ''.ogv'', ''.flac'',
     ''.exe'', ''.msi'', ''.dmg'', ''.apk'', ''.deb'', ''.rpm'',
     ''.woff'', ''.woff2'', ''.ttf'', ''.eot'', ''.otf'',
     ''.wasm'', ''.swf'', ''.map'', ''.mjs'',
     ''.webmanifest'', ''.iso'', ''.bin'', ''.img'']"

definition discovery_extensions :: "string list" where
  "discovery_extensions = [''.css'', ''.js'', ''.json'', ''.xml'', ''.rss'', ''.atom'']"

definition chrome_blocked_extensions :: "string list" where
  "chrome_blocked_extensions =
    [''.pdf'', ''.doc'', ''.docx'', ''.xls'', ''.xlsx'', ''.ppt'', ''.pptx'',
     ''.zip'', ''.tar'', ''.gz'', ''.rar'', ''.7z'', ''.bz2'', ''.xz'',
     ''.woff'', ''.woff2'', ''.ttf'', ''.eot'', ''.otf'',
     ''.mp3'', ''.mp4'', ''.avi'', ''.mkv'', ''.mov'', ''.wmv'', ''.flv'', ''.wav'',
     ''.webm'', ''.m4a'', ''.ogg'', ''.ogv'', ''.flac'',
     ''.wasm'', ''.swf'', ''.map'', ''.webmanifest'',
     ''.exe'', ''.msi'', ''.dmg'', ''.apk'', ''.deb'', ''.rpm'',
     ''.iso'', ''.bin'', ''.img'']"

definition image_extensions :: "string list" where
  "image_extensions =
    [''.jpg'', ''.jpeg'', ''.png'', ''.gif'', ''.bmp'', ''.svg'', ''.webp'', ''.ico'',
     ''.tif'', ''.tiff'', ''.heic'', ''.heif'', ''.avif'', ''.apng'']"

definition disallowed_path_prefixes :: "string list" where
  "disallowed_path_prefixes =
    [''/wp-admin'', ''/wp-login'', ''/admin'', ''/login'', ''/logout'', ''/signup'', ''/register'', ''/cart'',
     ''/checkout'', ''/account'', ''/api/'', ''/cgi-bin/'', ''/wiki/special:'', ''/wiki/talk:'', ''/wiki/user:'',
     ''/wiki/user_talk:'', ''/wiki/wikipedia:'', ''/wiki/file:'', ''/wiki/mediawiki:'', ''/wiki/template:'',
     ''/wiki/help:'', ''/wiki/category:'', ''/wiki/portal:'', ''/wiki/draft:'', ''/wiki/module:'']"

definition challenge_path_markers :: "string list" where
  "challenge_path_markers =
    [''/cdn-cgi/'', ''/challenge-platform/'', ''/captcha/'', ''/recaptcha/'', ''/turnstile/'', ''/__cf_chl_'',
     ''/cf-challenge'']"

definition extension :: "stdlib \<Rightarrow> rawurl \<Rightarrow> string" where
  "extension E raw = (case url_parse E raw of None \<Rightarrow> [] | Some u \<Rightarrow> to_lower E (path_ext (u_path u)))"

definition is_binary_extension :: "stdlib \<Rightarrow> rawurl \<Rightarrow> bool" where
  "is_binary_extension E raw = (extension E raw \<in> set binary_extensions)"

definition is_asset_extension :: "stdlib \<Rightarrow> rawurl \<Rightarrow> bool" where
  "is_asset_extension E raw = (extension E raw \<in> set discovery_extensions)"

definition is_image_extension :: "stdlib \<Rightarrow> rawurl \<Rightarrow> bool" where
  "is_image_extension E raw =
     (let ext = extension E raw in if ext = [] then True else ext \<in> set image_extensions)"

definition is_challenge_path :: "stdlib \<Rightarrow> string \<Rightarrow> bool" where
  "is_challenge_path E p = list_ex (str_contains (to_lower E p)) challenge_path_markers"

definition is_disallowed_path :: "stdlib \<Rightarrow> string \<Rightarrow> bool" where
  "is_disallowed_path E raw =
     (let p = to_lower E raw
      in if list_ex (has_prefix p) disallowed_path_prefixes then True else is_challenge_path E p)"

definition is_non_indexable :: "stdlib \<Rightarrow> rawurl \<Rightarrow> bool" where
  "is_non_indexable E raw =
     (if is_binary_extension E raw \<or> is_asset_extension E raw then True
      else (case url_parse E raw of None \<Rightarrow> True | Some u \<Rightarrow> is_disallowed_path E (u_path u)))"

definition ext_patterns :: "string \<Rightarrow> string list" where
  "ext_patterns ext = [''*://*/*'' @ ext, ''*://*/*'' @ ext @ ''?*'', ''*://*:*/*'' @ ext, ''*://*:*/*'' @ ext @ ''?*'']"

definition browser_blocked_url_patterns :: "string list \<Rightarrow> string list \<Rightarrow> bool \<Rightarrow> string list" where
  "browser_blocked_url_patterns chrome_order image_order block_images =
     concat (map ext_patterns (chrome_order @ (if block_images then image_order else [])))"

subsection \<open>Facts\<close>

lemma lower_char_idem [simp]: "lower_char (lower_char c) = lower_char c"
  by (auto simp: lower_char_def ascii_upper_def)

lemma byte_lower_char: "byte c < 128 \<Longrightarrow> byte (lower_char c) < 128"
  by (auto simp: lower_char_def ascii_upper_def)

lemma is_ascii_lower: "is_ascii s \<Longrightarrow> is_ascii (map lower_char s)"
  by (auto simp: is_ascii_def list_all_iff byte_lower_char)

lemma to_lower_idem: "is_ascii s \<Longrightarrow> to_lower E (to_lower E s) = to_lower E s"
  by (simp add: to_lower_def is_ascii_lower o_def)

lemma to_lower_lower: "is_ascii s \<Longrightarrow> to_lower E (map lower_char s) = to_lower E s"
  by (simp add: to_lower_def is_ascii_lower o_def)

lemma length_browser_patterns:
  "length (browser_blocked_url_patterns cs is b) = 4 * (length cs + (if b then length is else 0))"
  by (simp add: browser_blocked_url_patterns_def length_concat o_def ext_patterns_def sum_list_triv)

end
