(* ===== verification/Fingerprint.thy ===== *)
theory Fingerprint
  imports GoUrl
begin

text \<open>
  Structural fingerprints of URLs, \<open>internal/frontier/fingerprint.go\<close>. Each anchored regular
  expression of \<open>segmentPatterns\<close> is the predicate of the strings it matches.
\<close>

definition contains_hex_letter :: "string \<Rightarrow> bool" where
  "contains_hex_letter s = list_ex (\<lambda>c. (97 \<le> byte c \<and> byte c \<le> 102) \<or> (65 \<le> byte c \<and> byte c \<le> 70)) s"

definition re_hex :: "(nat \<Rightarrow> bool) \<Rightarrow> string \<Rightarrow> bool" where
  "re_hex len_ok s \<longleftrightarrow> len_ok (length s) \<and> list_all hex_digit s"

definition re_groups :: "(char \<Rightarrow> bool) \<Rightarrow> nat list \<Rightarrow> string \<Rightarrow> bool" where
  "re_groups cls lens s \<longleftrightarrow> map length (split_byte s CHR ''-'') = lens \<and> list_all (list_all cls) (split_byte s CHR ''-'')"

definition re_digits :: "(nat \<Rightarrow> bool) \<Rightarrow> string \<Rightarrow> bool" where
  "re_digits len_ok s \<longleftrightarrow> len_ok (length s) \<and> list_all ascii_digit s"

record segment_pattern =
  sp_regex :: "string \<Rightarrow> bool"
  sp_placeholder :: string
  sp_validate :: "(string \<Rightarrow> bool) option"

definition segment_patterns :: "segment_pattern list" where
  "segment_patterns =
    [\<lparr>sp_regex = re_groups hex_digit [8, 4, 4, 4, 12], sp_placeholder = ''{uuid}'', sp_validate = None\<rparr>,
     \<lparr>sp_regex = re_hex (\<lambda>n. n = 64), sp_placeholder = ''{sha256}'', sp_validate = Some contains_hex_letter\<rparr>,
     \<lparr>sp_regex = re_hex (\<lambda>n. n = 40), sp_placeholder = ''{sha1}'', sp_validate = Some contains_hex_letter\<rparr>,
     \<lparr>sp_regex = re_hex (\<lambda>n. n = 32), sp_placeholder = ''{md5}'', sp_validate = Some contains_hex_letter\<rparr>,
     \<lparr>sp_regex = re_hex (\<lambda>n. n = 24), sp_placeholder = ''{oid}'', sp_validate = Some contains_hex_letter\<rparr>,
     \<lparr>sp_regex = re_hex (\<lambda>n. 8 \<le> n), sp_placeholder = ''{hex}'', sp_validate = Some contains_hex_letter\<rparr>,
     \<lparr>sp_regex = re_groups ascii_digit [4, 2, 2], sp_placeholder = ''{date}'', sp_validate = None\<rparr>,
     \<lparr>sp_regex = re_digits (\<lambda>n. n = 10 \<or> n = 13), sp_placeholder = ''{ts}'', sp_validate = None\<rparr>,
     \<lparr>sp_regex = re_digits (\<lambda>n. 1 \<le> n), sp_placeholder = ''{num}'', sp_validate = None\<rparr>]"

definition pattern_accepts :: "string \<Rightarrow> segment_pattern \<Rightarrow> bool" where
  "pattern_accepts s p \<longleftrightarrow> sp_regex p s \<and> (case sp_validate p of None \<Rightarrow> True | Some v \<Rightarrow> v s)"

definition normalize_segment :: "string \<Rightarrow> string \<times> bool" where
  "normalize_segment s =
     (case find (pattern_accepts s) segment_patterns of Some p \<Rightarrow> (sp_placeholder p, True) | None \<Rightarrow> (s, False))"

definition sorted_query_keys :: "url_values \<Rightarrow> string list" where
  "sorted_query_keys m = sort (map fst m)"

definition build_fingerprint :: "url \<Rightarrow> string \<Rightarrow> string" where
  "build_fingerprint u path =
     (if u_scheme u \<noteq> [] then u_scheme u @ ''://'' else []) @ u_host u @ path @
     (if u_rawquery u \<noteq> [] then
        (let keys = sorted_query_keys (url_query (u_rawquery u))
         in if keys \<noteq> [] then ''?'' @ str_join keys ''&'' else [])
      else [])"

definition fingerprint_path :: "string \<Rightarrow> string" where
  "fingerprint_path path =
     (if path = [] \<or> path = ''/'' then path
      else (let trimmed = trim_set path ''/''
            in if trimmed = [] then ''/''
               else (let fp = ''/'' @ str_join (map (\<lambda>seg. fst (normalize_segment seg)) (split_byte trimmed CHR ''/'')) ''/''
                     in if has_suffix path ''/'' then fp @ ''/'' else fp)))"

definition fingerprint_url :: "stdlib \<Rightarrow> rawurl \<Rightarrow> string" where
  "fingerprint_url E raw =
     (case url_parse E raw of None \<Rightarrow> raw | Some u \<Rightarrow> build_fingerprint u (fingerprint_path (u_path u)))"

definition cosmetic_params :: "string list" where
  "cosmetic_params =
    [''fbclid'', ''gclid'', ''dclid'', ''msclkid'', ''yclid'', ''igshid'',
     ''mc_cid'', ''mc_eid'', ''zanpid'', ''_gl'',
     ''auth'', ''sid'', ''phpsessid'', ''jsessionid'',
     ''expires'', ''expiry'', ''exp'']"

definition should_drop_param :: "stdlib \<Rightarrow> string \<Rightarrow> bool" where
  "should_drop_param E key =
     (let k = to_lower E (trim_space key)
      in if k = [] then True
         else if has_prefix k ''utm_'' then True
         else if has_prefix k ''_hs'' \<or> has_prefix k ''mkt_'' then True
         else if str_contains k ''token'' \<or> str_contains k ''session'' \<or> str_contains k ''signature'' then True
         else if has_prefix k ''x-amz-'' then True
         else k \<in> set cosmetic_params)"

subsection \<open>Segments\<close>

lemma digit_hex: "ascii_digit c \<Longrightarrow> hex_digit c"
  by (simp add: hex_digit_def)

lemma digits_no_hex_letter: "list_all ascii_digit s \<Longrightarrow> \<not> contains_hex_letter s"
  by (induction s) (auto simp: contains_hex_letter_def ascii_digit_def)

lemma split_byte_absent: "c \<notin> set s \<Longrightarrow> split_byte s c = [s]"
  by (induction s) auto

lemma split_byte_nonempty: "split_byte s c \<noteq> []"
  by (induction s) (auto split: list.splits)

lemma digits_no_dash: "list_all ascii_digit s \<Longrightarrow> CHR ''-'' \<notin> set s"
  by (induction s) (auto simp: ascii_digit_def)

lemma normalize_digits:
  assumes "list_all ascii_digit s" and "s \<noteq> []"
  shows "normalize_segment s = (if length s = 10 \<or> length s = 13 then ''{ts}'' else ''{num}'', True)"
proof -
  have "\<not> contains_hex_letter s" "split_byte s CHR ''-'' = [s]"
    using digits_no_hex_letter [OF assms(1)] split_byte_absent [OF digits_no_dash [OF assms(1)]] by auto
  then show ?thesis
    using assms by (cases s) (auto simp: normalize_segment_def segment_patterns_def pattern_accepts_def re_groups_def re_digits_def)
qed

lemma find_pattern_placeholder:
  "find (pattern_accepts s) segment_patterns = Some p \<Longrightarrow> sp_placeholder p \<in>
    set [''{uuid}'', ''{sha256}'', ''{sha1}'', ''{md5}'', ''{oid}'', ''{hex}'', ''{date}'', ''{ts}'', ''{num}'']"
  by (auto simp: segment_patterns_def split: if_splits)

lemma braced_unmatched:
  assumes "CHR ''-'' \<notin> set (CHR ''{'' # s)"
  shows "normalize_segment (CHR ''{'' # s) = (CHR ''{'' # s, False)"
proof -
  have "\<not> hex_digit CHR ''{''" "\<not> ascii_digit CHR ''{''" by (simp_all add: hex_digit_def ascii_digit_def)
  then show ?thesis
    using split_byte_absent [OF assms]
    by (simp add: normalize_segment_def segment_patterns_def pattern_accepts_def re_groups_def re_digits_def re_hex_def)
qed

lemma placeholder_stable:
  assumes "p \<in> set [''{uuid}'', ''{sha256}'', ''{sha1}'', ''{md5}'', ''{oid}'', ''{hex}'', ''{date}'', ''{ts}'', ''{num}'']"
  shows "normalize_segment p = (p, False)"
  using assms by (auto simp: braced_unmatched)

lemma normalize_idem: "fst (normalize_segment (fst (normalize_segment s))) = fst (normalize_segment s)"
proof (cases "find (pattern_accepts s) segment_patterns")
  case None
  then show ?thesis by (simp add: normalize_segment_def)
next
  case (Some p)
  then have "fst (normalize_segment s) = sp_placeholder p" by (simp add: normalize_segment_def)
  with placeholder_stable [OF find_pattern_placeholder [OF Some]] show ?thesis by simp
qed


subsection \<open>Fingerprints\<close>

text \<open>
  The fingerprint ignores query values and path identifiers: two URLs with the same scheme and
  host, the same set of query keys, and paths that have the same trailing slash and segments equal
  up to their placeholders have the same fingerprint.
\<close>

theorem fingerprint_ignores_values:
  assumes "url_parse E r1 = Some u1" and "url_parse E r2 = Some u2"
    and "u_scheme u1 = u_scheme u2" and "u_host u1 = u_host u2"
    and "u_rawquery u1 = [] \<longleftrightarrow> u_rawquery u2 = []"
    and "mset (map fst (url_query (u_rawquery u1))) = mset (map fst (url_query (u_rawquery u2)))"
    and "fingerprint_path (u_path u1) = fingerprint_path (u_path u2)"
  shows "fingerprint_url E r1 = fingerprint_url E r2"
proof -
  have "sorted_query_keys (url_query (u_rawquery u1)) = sorted_query_keys (url_query (u_rawquery u2))"
    unfolding sorted_query_keys_def by (rule properties_for_sort) (use assms(6) in \<open>simp_all\<close>)
  then show ?thesis using assms by (simp add: fingerprint_url_def build_fingerprint_def)
qed

theorem fingerprint_ignores_values_witness:
  "fingerprint_url ascii_stdlib ''http://a.b/u/12?x=1&y=2'' = fingerprint_url ascii_stdlib ''http://a.b/u/734?y=5&x=''"
  by (rule fingerprint_ignores_values) (code_simp+)

text \<open>
  Path segments are classified as documented: an all-digit segment becomes \<open>{ts}\<close> when it has
  10 or 13 digits and \<open>{num}\<close> otherwise, and no placeholder is itself a variable segment, so
  normalising twice changes nothing.
\<close>

theorem segments_normalized:
  "fst (normalize_segment (fst (normalize_segment s))) = fst (normalize_segment s)
   \<and> (list_all ascii_digit s \<and> s \<noteq> [] \<longrightarrow>
        normalize_segment s = (if length s = 10 \<or> length s = 13 then ''{ts}'' else ''{num}'', True))"
  using normalize_idem [of s] normalize_digits [of s] by blast

theorem segments_normalized_witness:
  "normalize_segment ''1700000000'' = (''{ts}'', True) \<and> normalize_segment ''42'' = (''{num}'', True)"
  using segments_normalized [of "''1700000000''"] segments_normalized [of "''42''"] by (simp add: ascii_digit_def)

end
