(* ===== verification/Frontier.thy ===== *)
theory Frontier
  imports Scorer UrlFilter Fingerprint
begin

text \<open>
  The URL frontier of \<open>internal/frontier/frontier.go\<close>: canonical URLs, the blacklist, the per-fingerprint
  counters, and the admission of links to the queue. The store's two lookups are arguments
  (\<open>None\<close> is an error); each operation is taken as one step, as if no other goroutine called the
  frontier between its lookups and its enqueue.
\<close>

record link_context =
  lc_url :: rawurl
  lc_anchor :: string
  lc_title :: string
  lc_schema :: string
  lc_lang :: string

record 'b frontier =
  fr_queue :: "'b queue"
  fr_black :: "domain list"
  fr_counts :: "string \<Rightarrow> int"
  fr_max :: int

definition new_frontier :: "'b queue \<Rightarrow> domain list \<Rightarrow> int \<Rightarrow> 'b frontier" where
  "new_frontier q bl mx = \<lparr>fr_queue = q, fr_black = bl, fr_counts = (\<lambda>_. 0), fr_max = mx\<rparr>"

definition bump :: "string \<Rightarrow> ('b, 'z) frontier_scheme \<Rightarrow> ('b, 'z) frontier_scheme" where
  "bump fp f = f\<lparr>fr_counts := (fr_counts f)(fp := fr_counts f fp + 1)\<rparr>"

definition seed_fingerprint_counts :: "string list \<Rightarrow> 'b frontier \<Rightarrow> 'b frontier" where
  "seed_fingerprint_counts fps f = fold bump fps f"

subsection \<open>Domains and canonical URLs\<close>

lemma index_byte_less: "index_byte s c = Some i \<Longrightarrow> i < length s"
  by (induction s arbitrary: i) (auto split: if_splits)

text \<open>The walk from a domain through its parent domains, as \<open>isBlacklistedDomain\<close> does it.\<close>

function domain_listed :: "domain list \<Rightarrow> domain \<Rightarrow> bool" where
  "domain_listed bl d =
     (if d \<in> set bl then True
      else (case index_byte d CHR ''.'' of None \<Rightarrow> False | Some i \<Rightarrow> domain_listed bl (drop (i + 1) d)))"
  by pat_completeness auto
termination
  by (relation "measure (\<lambda>(bl, d). length d)") (auto dest: index_byte_less)

declare domain_listed.simps [simp del]

definition dropped_params :: "string list" where
  "dropped_params =
    [''fbclid'', ''gclid'', ''dclid'', ''msclkid'', ''yclid'', ''igshid'',
     ''mc_cid'', ''mc_eid'', ''zanpid'', ''_gl'',
     ''auth'', ''sid'', ''phpsessid'', ''jsessionid'',
     ''expires'', ''expiry'', ''exp'',
     ''f'', ''filter'', ''sort'', ''order'', ''view'', ''layout'', ''theme'', ''feedviewtype'', ''feedsort'', ''sort_by'',
     ''sort_order'', ''dir'', ''direction'', ''mode'', ''type'',
     ''q'', ''query'', ''s'', ''search'',
     ''action'', ''diff'', ''oldid'', ''printable'',
     ''ref'', ''source'', ''t'', ''ref_src'', ''ref_url'', ''referer'', ''referrer'', ''context'']"

definition should_drop_query_param :: "stdlib \<Rightarrow> string \<Rightarrow> bool" where
  "should_drop_query_param E key =
     (let k = to_lower E (trim_space key)
      in if k = [] then True
         else if has_prefix k ''utm_'' then True
         else if has_prefix k ''_hs'' \<or> has_prefix k ''mkt_'' then True
         else if str_contains k ''token'' \<or> str_contains k ''session'' \<or> str_contains k ''signature'' then True
         else if has_prefix k ''x-amz-'' then True
         else k \<in> set dropped_params)"

definition clean_query :: "stdlib \<Rightarrow> string \<Rightarrow> string" where
  "clean_query E raw =
     (let query = url_query raw
      in if query = [] then raw
         else (let cleaned = filter (\<lambda>kv. \<not> should_drop_query_param E (fst kv)) query
               in if cleaned = [] then [] else values_encode (map (\<lambda>(k, vs). (k, sort vs)) cleaned)))"

definition canonicalize_url :: "stdlib \<Rightarrow> rawurl \<Rightarrow> (rawurl \<times> domain) option" where
  "canonicalize_url E raw0 =
     (let raw = trim_space raw0
      in if raw = [] then None
         else (case url_parse E raw of
                 None \<Rightarrow> None
               | Some u \<Rightarrow>
                   (let scheme = to_lower E (u_scheme u)
                    in if scheme \<noteq> ''http'' \<and> scheme \<noteq> ''https'' then None
                       else (let host = to_lower E (url_hostname u);
                                 port0 = url_port u;
                                 port = (if (scheme = ''http'' \<and> port0 = ''80'') \<or> (scheme = ''https'' \<and> port0 = ''443'') then [] else port0);
                                 path = trim_right_set (u_path u) ''/'';
                                 u1 = u\<lparr>u_scheme := scheme, u_host := (if port \<noteq> [] then host @ '':'' @ port else host),
                                        u_fragment := [], u_path := (if path = [] then ''/'' else path),
                                        u_rawquery := clean_query E (u_rawquery u)\<rparr>
                             in Some (url_string u1, trim_prefix (url_hostname u1) ''www.'')))))"

definition extract_domain :: "stdlib \<Rightarrow> rawurl \<Rightarrow> domain" where
  "extract_domain E raw =
     (case url_parse E raw of None \<Rightarrow> [] | Some u \<Rightarrow> trim_prefix (to_lower E (url_hostname u)) ''www.'')"

subsection \<open>Admission\<close>

text \<open>
  The guards that \<open>Add\<close>, \<open>AddBatch\<close> and \<open>AddBatchDirect\<close> share: the canonical URL, the
  indexability test and the blacklist, with the fingerprint of a URL that passes.
\<close>

definition admit :: "stdlib \<Rightarrow> domain list \<Rightarrow> rawurl \<Rightarrow> (rawurl \<times> domain \<times> string) option" where
  "admit E bl raw =
     (case canonicalize_url E raw of
        None \<Rightarrow> None
      | Some (normalized, d) \<Rightarrow>
          if is_non_indexable E normalized then None
          else if domain_listed bl d then None
          else Some (normalized, d, fingerprint_url E normalized))"

text \<open>The counter of a fingerprint: refused at the limit, otherwise incremented.\<close>

definition reserve_fp :: "string \<Rightarrow> 'b frontier \<Rightarrow> 'b frontier option" where
  "reserve_fp fp f = (if 0 < fr_max f \<and> fr_max f \<le> fr_counts f fp then None else Some (bump fp f))"

definition make_job :: "(job \<Rightarrow> float64) \<Rightarrow> rawurl \<times> domain \<times> string \<Rightarrow> int \<Rightarrow> float64 \<Rightarrow> link_context \<Rightarrow> job" where
  "make_job score c depth base l =
     (let job = \<lparr>j_id = 0, j_url = fst c, j_domain = fst (snd c), j_depth = depth, j_score = 0, j_base = base,
                 j_fp = snd (snd c), j_retries = 0, j_anchor = lc_anchor l, j_title = lc_title l,
                 j_schema = lc_schema l, j_lang = lc_lang l\<rparr>
      in job\<lparr>j_score := score job\<rparr>)"

definition no_context :: "rawurl \<Rightarrow> link_context" where
  "no_context raw = \<lparr>lc_url = raw, lc_anchor = [], lc_title = [], lc_schema = [], lc_lang = []\<rparr>"

text \<open>\<open>Add\<close>: the first component is false when it returns an error.\<close>

definition add :: "stdlib \<Rightarrow> ('b \<Rightarrow> string \<Rightarrow> bool) \<Rightarrow> ('b \<Rightarrow> string \<Rightarrow> 'b) \<Rightarrow> (rawurl \<Rightarrow> bool option) \<Rightarrow> (job \<Rightarrow> float64)
    \<Rightarrow> rawurl \<Rightarrow> int \<Rightarrow> float64 \<Rightarrow> 'b frontier \<Rightarrow> bool \<times> 'b frontier" where
  "add E bt ba get_page score raw depth base f =
     (case admit E (fr_black f) raw of
        None \<Rightarrow> (True, f)
      | Some (normalized, d, fp) \<Rightarrow>
          (case reserve_fp fp f of
             None \<Rightarrow> (True, f)
           | Some f1 \<Rightarrow>
               if has_seen bt fp (fr_queue f1) then (True, f1)
               else (case get_page normalized of
                       None \<Rightarrow> (False, f1)
                     | Some True \<Rightarrow> (True, f1\<lparr>fr_queue := mark_seen ba fp (fr_queue f1)\<rparr>)
                     | Some False \<Rightarrow>
                         (True, f1\<lparr>fr_queue :=
                            snd (enqueue bt ba (make_job score (normalized, d, fp) depth base (no_context raw)) (fr_queue f1))\<rparr>))))"

text \<open>The first loop of \<open>AddBatch\<close>: the candidates, with the counters it has incremented.\<close>

type_synonym link_candidate = "(rawurl \<times> domain \<times> string) \<times> link_context"

fun collect :: "stdlib \<Rightarrow> ('b \<Rightarrow> string \<Rightarrow> bool) \<Rightarrow> link_context list \<Rightarrow> 'b frontier \<Rightarrow> link_candidate list \<times> 'b frontier" where
  "collect E bt [] f = ([], f)"
| "collect E bt (l # ls) f =
     (case admit E (fr_black f) (lc_url l) of
        None \<Rightarrow> collect E bt ls f
      | Some c \<Rightarrow>
          (case reserve_fp (snd (snd c)) f of
             None \<Rightarrow> collect E bt ls f
           | Some f1 \<Rightarrow>
               if has_seen bt (snd (snd c)) (fr_queue f1) then collect E bt ls f1
               else (case collect E bt ls f1 of (cs, f2) \<Rightarrow> ((c, l) # cs, f2))))"

text \<open>The second loop: known pages are marked, the others become jobs.\<close>

fun build_jobs :: "('b \<Rightarrow> string \<Rightarrow> 'b) \<Rightarrow> (job \<Rightarrow> float64) \<Rightarrow> rawurl set \<Rightarrow> int \<Rightarrow> float64 \<Rightarrow> link_candidate list \<Rightarrow> 'b frontier \<Rightarrow> job list \<times> 'b frontier" where
  "build_jobs ba score existing depth base [] f = ([], f)"
| "build_jobs ba score existing depth base ((c, l) # cs) f =
     (if fst c \<in> existing
      then build_jobs ba score existing depth base cs (f\<lparr>fr_queue := mark_seen ba (snd (snd c)) (fr_queue f)\<rparr>)
      else (case build_jobs ba score existing depth base cs f of
              (jobs, f1) \<Rightarrow> (make_job score c depth base l # jobs, f1)))"

definition add_batch :: "stdlib \<Rightarrow> ('b \<Rightarrow> string \<Rightarrow> bool) \<Rightarrow> ('b \<Rightarrow> string \<Rightarrow> 'b) \<Rightarrow> (rawurl list \<Rightarrow> rawurl set option) \<Rightarrow> (job \<Rightarrow> float64)
    \<Rightarrow> link_context list \<Rightarrow> int \<Rightarrow> float64 \<Rightarrow> 'b frontier \<Rightarrow> 'b frontier" where
  "add_batch E bt ba filter_existing score links depth base f =
     (if links = [] then f
      else (case collect E bt links f of
              (cands, f1) \<Rightarrow>
                if cands = [] then f1
                else (let existing = (case filter_existing (map (\<lambda>c. fst (fst c)) cands) of None \<Rightarrow> {} | Some s \<Rightarrow> s)
                      in case build_jobs ba score existing depth base cands f1 of
                           (jobs, f2) \<Rightarrow>
                             if jobs = [] then f2
                             else f2\<lparr>fr_queue := snd (enqueue_batch bt ba jobs (fr_queue f2))\<rparr>)))"

fun direct_jobs :: "stdlib \<Rightarrow> domain list \<Rightarrow> (job \<Rightarrow> float64) \<Rightarrow> int \<Rightarrow> float64 \<Rightarrow> rawurl list \<Rightarrow> job list" where
  "direct_jobs E bl score depth base [] = []"
| "direct_jobs E bl score depth base (raw # raws) =
     (case admit E bl raw of
        None \<Rightarrow> direct_jobs E bl score depth base raws
      | Some c \<Rightarrow> make_job score c depth base (no_context raw) # direct_jobs E bl score depth base raws)"

definition add_batch_direct :: "stdlib \<Rightarrow> (job \<Rightarrow> float64) \<Rightarrow> rawurl list \<Rightarrow> int \<Rightarrow> float64 \<Rightarrow> 'b frontier \<Rightarrow> int \<times> 'b frontier" where
  "add_batch_direct E score raws depth base f =
     (if raws = [] then (0, f)
      else (let jobs = direct_jobs E (fr_black f) score depth base raws
            in if jobs = [] then (0, f)
               else (case enqueue_batch_direct jobs (fr_queue f) of (added, q) \<Rightarrow> (added, f\<lparr>fr_queue := q\<rparr>))))"

definition retry :: "job \<Rightarrow> 'b frontier \<Rightarrow> 'b frontier" where
  "retry job f = f\<lparr>fr_queue := snd (enqueue_retry job (fr_queue f))\<rparr>"

definition frontier_dequeue :: "domain list \<Rightarrow> 's ready_fn \<Rightarrow> 's \<Rightarrow> 'b frontier \<Rightarrow> dequeued \<times> 's \<times> 'b frontier" where
  "frontier_dequeue ks rdy s f = (case dequeue_locked ks rdy s (fr_queue f) of (r, s', q) \<Rightarrow> (r, s', f\<lparr>fr_queue := q\<rparr>))"


subsection \<open>The blacklist\<close>

lemma index_byte_split: "index_byte s c = Some i \<longleftrightarrow> i < length s \<and> s ! i = c \<and> c \<notin> set (take i s)"
proof (induction s arbitrary: i)
  case (Cons x s)
  then show ?case by (cases i) auto
qed simp

lemma index_byte_None: "index_byte s c = None \<longleftrightarrow> c \<notin> set s"
  by (induction s) auto

lemma suffix_after_dot:
  assumes "index_byte d CHR ''.'' = Some i"
  shows "(\<exists>p. d = p @ ''.'' @ b) \<longleftrightarrow> b = drop (i + 1) d \<or> (\<exists>p. drop (i + 1) d = p @ ''.'' @ b)"
proof -
  define pre where "pre = take i d"
  define post where "post = drop (i + 1) d"
  have i: "i < length d" "d ! i = CHR ''.''" "CHR ''.'' \<notin> set pre"
    using assms unfolding index_byte_split pre_def by auto
  have d: "d = pre @ CHR ''.'' # post"
    using id_take_nth_drop [OF i(1)] i(2) by (simp add: pre_def post_def)
  have "(\<exists>p. d = p @ ''.'' @ b) \<longleftrightarrow> b = post \<or> (\<exists>p. post = p @ ''.'' @ b)"
  proof
    assume "\<exists>p. d = p @ ''.'' @ b"
    then obtain p where p: "pre @ CHR ''.'' # post = p @ CHR ''.'' # b" using d by auto
    then obtain us where "(pre = p @ us \<and> us @ CHR ''.'' # post = CHR ''.'' # b) \<or> (pre @ us = p \<and> CHR ''.'' # post = us @ CHR ''.'' # b)"
      by (auto simp: append_eq_append_conv2)
    then show "b = post \<or> (\<exists>p. post = p @ ''.'' @ b)"
      using i(3) by (cases us) auto
  next
    assume "b = post \<or> (\<exists>p. post = p @ ''.'' @ b)"
    then show "\<exists>p. d = p @ ''.'' @ b" unfolding d by (metis append_Cons append_Nil append_assoc)
  qed
  then show ?thesis by (simp add: post_def)
qed

lemma domain_listed_iff: "domain_listed bl d \<longleftrightarrow> (\<exists>b \<in> set bl. d = b \<or> (\<exists>p. d = p @ ''.'' @ b))"
proof (induction bl d rule: domain_listed.induct)
  case (1 bl d)
  show ?case
  proof (cases "index_byte d CHR ''.''")
    case None
    then have "\<not> (\<exists>p. d = p @ ''.'' @ b)" for b by (auto simp: index_byte_None)
    with None show ?thesis by (auto simp: domain_listed.simps [of bl d])
  next
    case (Some i)
    show ?thesis
    proof (cases "d \<in> set bl")
      case False
      then have "domain_listed bl d \<longleftrightarrow> domain_listed bl (drop (i + 1) d)"
        using Some by (simp add: domain_listed.simps [of bl d])
      also have "\<dots> \<longleftrightarrow> (\<exists>b \<in> set bl. drop (i + 1) d = b \<or> (\<exists>p. drop (i + 1) d = p @ ''.'' @ b))"
        by (rule "1.IH" [OF False Some])
      also have "\<dots> \<longleftrightarrow> (\<exists>b \<in> set bl. d = b \<or> (\<exists>p. d = p @ ''.'' @ b))"
        using False suffix_after_dot [OF Some] by metis
      finally show ?thesis .
    qed (auto simp: domain_listed.simps [of bl d])
  qed
qed

subsection \<open>Everything the frontier queues is admissible\<close>

definition admissible :: "stdlib \<Rightarrow> domain list \<Rightarrow> job \<Rightarrow> bool" where
  "admissible E bl j \<longleftrightarrow> (\<exists>raw. canonicalize_url E raw = Some (j_url j, j_domain j)) \<and> \<not> is_non_indexable E (j_url j)
     \<and> \<not> domain_listed bl (j_domain j) \<and> j_fp j = fingerprint_url E (j_url j) \<and> 0 \<le> j_score j"

lemma admissible_stamp [simp]: "admissible E bl (j\<lparr>j_id := i\<rparr>) = admissible E bl j"
  by (simp add: admissible_def)

lemma admit_admissible:
  assumes "scorer_contract score" and "admit E bl raw = Some c"
  shows "admissible E bl (make_job score c depth base l)"
proof -
  have "0 \<le> score job" for job using assms(1) by (rule scorer_contract.nonneg)
  then show ?thesis
    using assms(2) by (auto simp: admit_def admissible_def make_job_def Let_def split: option.splits prod.splits if_splits)
qed

text \<open>Operations of the queue add only the given jobs, each with a fresh identifier.\<close>

definition pending_from :: "job list \<Rightarrow> 'b queue \<Rightarrow> 'b queue \<Rightarrow> bool" where
  "pending_from jobs q q' \<longleftrightarrow> (\<forall>j. j \<in># pending q' \<longrightarrow> j \<in># pending q \<or> (\<exists>j0 \<in> set jobs. \<exists>i. j = j0\<lparr>j_id := i\<rparr>))"

lemma pending_from_refl: "pending_from jobs q q"
  by (simp add: pending_from_def)

lemma pending_from_push:
  "lists_wf q \<Longrightarrow> pending_from (job # jobs) (push_job job q) q' \<Longrightarrow> pending_from (job # jobs) q q'"
  by (fastforce simp: pending_from_def pending_push stamped_def)

lemma pending_from_bloom: "pending_from jobs (q\<lparr>q_bloom := b\<rparr>) q' = pending_from jobs q q'"
  by (simp add: pending_from_def frame_simps)

lemma pending_from_Cons: "pending_from jobs q q' \<Longrightarrow> pending_from (job # jobs) q q'"
  by (auto simp: pending_from_def)

lemma batch_loop_from: "lists_wf q \<Longrightarrow> batch_loop bt ba jobs n q = (m, q') \<Longrightarrow> pending_from jobs q q'"
proof (induction jobs arbitrary: n q)
  case (Cons job jobs)
  let ?q1 = "q\<lparr>q_bloom := ba (q_bloom q) (dedup_key job)\<rparr>"
  show ?case
  proof (cases "bt (q_bloom q) (dedup_key job)")
    case True
    with Cons have "pending_from jobs q q'" by (simp add: Let_def)
    then show ?thesis by (rule pending_from_Cons)
  next
    case False
    have wf: "lists_wf ?q1" using Cons.prems(1) by (simp add: lists_wf_frame)
    have "batch_loop bt ba jobs (n + 1) (push_job job ?q1) = (m, q')" using Cons.prems(2) False by (simp add: Let_def)
    from Cons.IH [OF lists_wf_push [OF wf] this] have "pending_from (job # jobs) (push_job job ?q1) q'"
      by (rule pending_from_Cons)
    from pending_from_push [OF wf this] show ?thesis by (simp add: pending_from_bloom)
  qed
qed (simp add: pending_from_refl)

lemma direct_loop_from: "lists_wf q \<Longrightarrow> direct_loop jobs n q = (m, q') \<Longrightarrow> pending_from jobs q q'"
proof (induction jobs arbitrary: n q)
  case (Cons job jobs)
  then have "pending_from jobs (push_job job q) q'" using lists_wf_push by (metis direct_loop.simps(2))
  then show ?case using pending_from_push [OF Cons.prems(1)] pending_from_Cons by blast
qed (simp add: pending_from_refl)

lemma finish_batch_pending: "pending (snd (finish_batch n q)) = pending q"
  by (simp add: finish_batch_def Let_def frame_simps)

lemma enqueue_batch_from:
  assumes "queue_wf q"
  shows "pending_from jobs q (snd (enqueue_batch bt ba jobs q))"
proof (cases "batch_loop bt ba jobs 0 q")
  case (Pair m q1)
  then have "pending_from jobs q q1" using assms batch_loop_from queue_wf_lists by blast
  with Pair show ?thesis by (simp add: enqueue_batch_def pending_from_def finish_batch_pending)
qed

lemma enqueue_batch_direct_from:
  assumes "queue_wf q"
  shows "pending_from jobs q (snd (enqueue_batch_direct jobs q))"
proof (cases "direct_loop jobs 0 q")
  case (Pair m q1)
  then have "pending_from jobs q q1" using assms direct_loop_from queue_wf_lists by blast
  with Pair show ?thesis by (simp add: enqueue_batch_direct_def pending_from_def finish_batch_pending)
qed

lemma enqueue_from: "queue_wf q \<Longrightarrow> pending_from [job] q (snd (enqueue bt ba job q))"
  by (auto simp: enqueue_def Let_def frame_simps pending_from_def queue_wf_lists pending_push stamped_def)

lemma enqueue_retry_from: "queue_wf q \<Longrightarrow> pending_from [job] q (snd (enqueue_retry job q))"
  by (auto simp: enqueue_retry_def Let_def frame_simps pending_from_def queue_wf_lists pending_push stamped_def)

definition frontier_ok :: "stdlib \<Rightarrow> 'b frontier \<Rightarrow> bool" where
  "frontier_ok E f \<longleftrightarrow> queue_wf (fr_queue f) \<and> (\<forall>j. j \<in># pending (fr_queue f) \<longrightarrow> admissible E (fr_black f) j)"

lemma frontier_ok_from:
  assumes "frontier_ok E f" and "queue_wf q'" and "pending_from jobs (fr_queue f) q'" and "\<forall>j \<in> set jobs. admissible E (fr_black f) j"
  shows "frontier_ok E (f\<lparr>fr_queue := q'\<rparr>)"
  using assms unfolding frontier_ok_def pending_from_def by auto


lemma reserve_fp_frame: "reserve_fp fp f = Some f' \<Longrightarrow> fr_queue f' = fr_queue f \<and> fr_black f' = fr_black f"
  by (auto simp: reserve_fp_def bump_def split: if_splits)

lemma frontier_ok_counts: "fr_queue f' = fr_queue f \<Longrightarrow> fr_black f' = fr_black f \<Longrightarrow> frontier_ok E f' = frontier_ok E f"
  by (simp add: frontier_ok_def)

lemma frontier_ok_mark: "frontier_ok E f \<Longrightarrow> frontier_ok E (f\<lparr>fr_queue := mark_seen ba fp (fr_queue f)\<rparr>)"
  by (simp add: frontier_ok_def wf_mark_seen) (simp add: mark_seen_def frame_simps)

lemma add_ok:
  assumes sc: "scorer_contract score" and ok: "frontier_ok E f"
  shows "frontier_ok E (snd (add E bt ba get_page score raw depth base f)) \<and> fr_black (snd (add E bt ba get_page score raw depth base f)) = fr_black f"
proof (cases "admit E (fr_black f) raw")
  case None
  then show ?thesis using ok by (simp add: add_def)
next
  case (Some c)
  obtain n d fp where c: "c = (n, d, fp)" by (metis surj_pair)
  show ?thesis
  proof (cases "reserve_fp fp f")
    case None
    then show ?thesis using ok Some c by (simp add: add_def)
  next
    case f1: (Some f1)
    note frame = reserve_fp_frame [OF f1]
    have ok1: "frontier_ok E f1" using ok frame by (simp add: frontier_ok_def)
    let ?job = "make_job score (n, d, fp) depth base (no_context raw)"
    have adm: "admissible E (fr_black f1) ?job" using admit_admissible [OF sc Some] frame c by simp
    have enq: "frontier_ok E (f1\<lparr>fr_queue := snd (enqueue bt ba ?job (fr_queue f1))\<rparr>)"
      using ok1 adm by (intro frontier_ok_from [OF ok1 wf_enqueue enqueue_from]) (simp_all add: frontier_ok_def)
    from Some c f1 ok1 enq frontier_ok_mark [OF ok1] frame show ?thesis
      by (auto simp: add_def split: option.splits bool.splits)
  qed
qed

lemma collect_frame:
  "collect E bt ls f = (cs, f') \<Longrightarrow> fr_queue f' = fr_queue f \<and> fr_black f' = fr_black f
     \<and> (\<forall>x \<in> set cs. \<exists>l \<in> set ls. admit E (fr_black f) (lc_url l) = Some (fst x))"
proof (induction ls arbitrary: f cs f')
  case (Cons l ls)
  show ?case
  proof (cases "admit E (fr_black f) (lc_url l)")
    case None
    with Cons show ?thesis by (fastforce)
  next
    case (Some c)
    show ?thesis
    proof (cases "reserve_fp (snd (snd c)) f")
      case None
      with Cons Some show ?thesis by fastforce
    next
      case f1: (Some f1)
      note frame = reserve_fp_frame [OF f1]
      obtain cs' f2 where rec: "collect E bt ls f1 = (cs', f2)" by force
      from Cons.prems Some f1 rec have "f' = f2" "cs = cs' \<or> cs = (c, l) # cs'" by (auto split: if_splits)
      with Cons.IH [OF rec] frame Some show ?thesis by auto
    qed
  qed
qed auto

lemma build_jobs_ok:
  assumes sc: "scorer_contract score"
  shows "build_jobs ba score ex depth base cs f = (jobs, f') \<Longrightarrow> frontier_ok E f \<Longrightarrow> \<forall>x \<in> set cs. \<exists>raw. admit E (fr_black f) raw = Some (fst x)
    \<Longrightarrow> frontier_ok E f' \<and> fr_black f' = fr_black f \<and> (\<forall>j \<in> set jobs. admissible E (fr_black f) j)"
proof (induction cs arbitrary: f jobs f')
  case (Cons x cs)
  obtain c l where x: "x = (c, l)" by (cases x)
  show ?case
  proof (cases "fst c \<in> ex")
    case True
    let ?f1 = "f\<lparr>fr_queue := mark_seen ba (snd (snd c)) (fr_queue f)\<rparr>"
    have "build_jobs ba score ex depth base cs ?f1 = (jobs, f')" using Cons.prems(1) True x by simp
    from Cons.IH [OF this frontier_ok_mark [OF Cons.prems(2)]] Cons.prems(3) show ?thesis by simp
  next
    case False
    obtain js f1 where rec: "build_jobs ba score ex depth base cs f = (js, f1)" by force
    with Cons.prems(1) False x have "jobs = make_job score c depth base l # js" "f' = f1" by auto
    moreover have "admissible E (fr_black f) (make_job score c depth base l)"
    proof -
      obtain raw where "admit E (fr_black f) raw = Some c" using Cons.prems(3) x by auto
      then show ?thesis by (rule admit_admissible [OF sc])
    qed
    ultimately show ?thesis using Cons.IH [OF rec Cons.prems(2)] Cons.prems(3) by simp
  qed
qed auto

lemma add_batch_ok:
  assumes sc: "scorer_contract score" and ok: "frontier_ok E f"
  shows "frontier_ok E (add_batch E bt ba fe score links depth base f) \<and> fr_black (add_batch E bt ba fe score links depth base f) = fr_black f"
proof -
  obtain cs f1 where c: "collect E bt links f = (cs, f1)" by force
  note frame = collect_frame [OF c]
  have ok1: "frontier_ok E f1" using ok frame by (simp add: frontier_ok_def)
  define ex where "ex = (case fe (map (\<lambda>c. fst (fst c)) cs) of None \<Rightarrow> {} | Some s \<Rightarrow> s)"
  obtain jobs f2 where b: "build_jobs ba score ex depth base cs f1 = (jobs, f2)" by force
  have "\<forall>x \<in> set cs. \<exists>raw. admit E (fr_black f1) raw = Some (fst x)" using frame by auto
  from build_jobs_ok [OF sc b ok1 this] have 2: "frontier_ok E f2" "fr_black f2 = fr_black f1" "\<forall>j \<in> set jobs. admissible E (fr_black f1) j"
    by auto
  have "frontier_ok E (f2\<lparr>fr_queue := snd (enqueue_batch bt ba jobs (fr_queue f2))\<rparr>)"
    using 2 by (intro frontier_ok_from [OF 2(1) wf_enqueue_batch enqueue_batch_from]) (simp_all add: frontier_ok_def)
  then show ?thesis
    using c b ok ok1 2 frame by (simp add: add_batch_def ex_def [symmetric] Let_def)
qed

lemma direct_jobs_ok:
  assumes "scorer_contract score"
  shows "j \<in> set (direct_jobs E bl score depth base raws) \<Longrightarrow> admissible E bl j"
  by (induction raws) (auto split: option.splits intro: admit_admissible [OF assms])

lemma add_batch_direct_ok:
  assumes sc: "scorer_contract score" and ok: "frontier_ok E f"
  shows "frontier_ok E (snd (add_batch_direct E score raws depth base f)) \<and> fr_black (snd (add_batch_direct E score raws depth base f)) = fr_black f"
proof -
  let ?jobs = "direct_jobs E (fr_black f) score depth base raws"
  have "frontier_ok E (f\<lparr>fr_queue := snd (enqueue_batch_direct ?jobs (fr_queue f))\<rparr>)"
    using direct_jobs_ok [OF sc] ok
    by (intro frontier_ok_from [OF ok wf_enqueue_batch_direct enqueue_batch_direct_from]) (auto simp: frontier_ok_def)
  then show ?thesis using ok by (auto simp: add_batch_direct_def Let_def split: prod.splits)
qed

lemma retry_ok:
  assumes ok: "frontier_ok E f" and "admissible E (fr_black f) job"
  shows "frontier_ok E (retry job f) \<and> fr_black (retry job f) = fr_black f"
proof -
  have wf: "queue_wf (fr_queue f)" using ok by (simp add: frontier_ok_def)
  have "frontier_ok E (f\<lparr>fr_queue := snd (enqueue_retry job (fr_queue f))\<rparr>)"
    by (rule frontier_ok_from [OF ok wf_enqueue_retry [OF wf] enqueue_retry_from [OF wf]]) (use assms(2) in simp)
  then show ?thesis by (simp add: retry_def)
qed

lemma scan_ready_pending: "queue_wf q \<Longrightarrow> scan_ready rdy cs off is s q = (r, s', q') \<Longrightarrow> pending q' \<subseteq># pending q"
  by (induction "is" arbitrary: s) (auto simp: Let_def split: if_splits prod.splits bool.splits option.splits dest: pop_job_spec(2))

lemma dequeue_ok:
  assumes ok: "frontier_ok E f" and d: "frontier_dequeue ks rdy s f = (r, s', f')"
  shows "frontier_ok E f' \<and> fr_black f' = fr_black f"
proof -
  have wf: "queue_wf (fr_queue f)" using ok by (simp add: frontier_ok_def)
  obtain q' where q: "dequeue_locked ks rdy s (fr_queue f) = (r, s', q')" "f' = f\<lparr>fr_queue := q'\<rparr>"
    using d by (auto simp: frontier_dequeue_def split: prod.splits)
  have "queue_wf q'" using wf_dequeue [OF wf, of ks rdy s] q(1) by simp
  moreover have "pending q' \<subseteq># pending (fr_queue f)"
    using q(1) scan_ready_pending [of "(fr_queue f)\<lparr>q_round := q_round (fr_queue f) + 1\<rparr>"] wf
    by (auto simp: dequeue_locked_def Let_def frame_simps split: if_splits)
  ultimately show ?thesis using ok q(2) by (auto simp: frontier_ok_def dest: mset_subset_eqD)
qed

text \<open>
  All the operations of the frontier. A retried job is one that was admissible when it was dequeued and
  whose score and retry counter the engine may have changed since.
\<close>

inductive frontier_step for E bt ba get_page fe score and rdy :: "'s ready_fn" where
  fs_add: "frontier_step E bt ba get_page fe score rdy f (snd (add E bt ba get_page score raw depth base f))"
| fs_batch: "frontier_step E bt ba get_page fe score rdy f (add_batch E bt ba fe score links depth base f)"
| fs_direct: "frontier_step E bt ba get_page fe score rdy f (snd (add_batch_direct E score raws depth base f))"
| fs_retry: "admissible E (fr_black f) job \<Longrightarrow> frontier_step E bt ba get_page fe score rdy f (retry job f)"
| fs_dequeue: "frontier_dequeue ks rdy s f = (r, s', f') \<Longrightarrow> frontier_step E bt ba get_page fe score rdy f f'"
| fs_seed: "frontier_step E bt ba get_page fe score rdy f (seed_fingerprint_counts fps f)"

lemma seed_counts_frame: "fr_queue (seed_fingerprint_counts fps f) = fr_queue f \<and> fr_black (seed_fingerprint_counts fps f) = fr_black f"
proof -
  have "fr_queue (fold bump fps f) = fr_queue f \<and> fr_black (fold bump fps f) = fr_black f"
    by (induction fps arbitrary: f) (auto simp: bump_def)
  then show ?thesis by (simp add: seed_fingerprint_counts_def)
qed

lemma frontier_step_ok:
  assumes "scorer_contract score"
  shows "frontier_step E bt ba get_page fe score rdy f f' \<Longrightarrow> frontier_ok E f \<Longrightarrow> frontier_ok E f' \<and> fr_black f' = fr_black f"
proof (induction rule: frontier_step.induct)
  case (fs_seed f fps)
  then show ?case using seed_counts_frame frontier_ok_counts by metis
next
  case (fs_dequeue ks s f r s' f')
  show ?case by (rule dequeue_ok [OF fs_dequeue(2,1)])
qed (simp_all add: add_ok [OF assms] add_batch_ok [OF assms] add_batch_direct_ok [OF assms] retry_ok)

lemma frontier_steps_ok:
  assumes "scorer_contract score" and "(frontier_step E bt ba get_page fe score rdy)\<^sup>*\<^sup>* f f'" and "frontier_ok E f"
  shows "frontier_ok E f' \<and> fr_black f' = fr_black f"
  using assms(2,3) by (induction rule: rtranclp_induct) (use frontier_step_ok [OF assms(1)] in \<open>force+\<close>)


subsection \<open>Properties\<close>

lemma new_frontier_ok: "frontier_ok E (new_frontier (new_queue b) bl mx)"
  using wf_new_queue [of b] by (simp add: frontier_ok_def new_frontier_def) (simp add: new_queue_def pending_def)

text \<open>
  C7. Only admissible jobs are ever queued: starting from an empty frontier, after any sequence of
  its operations every pending job has a canonical URL that is indexable, a domain that is neither
  blacklisted nor below a blacklisted domain, the fingerprint of its URL and a score that is not
  negative, and the queue is well-formed.
\<close>

theorem frontier_jobs_admissible:
  assumes "scorer_contract score"
    and "(frontier_step E bt ba get_page fe score rdy)\<^sup>*\<^sup>* (new_frontier (new_queue b) bl mx) f"
    and "job \<in># pending (fr_queue f)"
  shows "(\<exists>raw. canonicalize_url E raw = Some (j_url job, j_domain job)) \<and> \<not> is_non_indexable E (j_url job)
    \<and> (\<forall>x \<in> set bl. j_domain job \<noteq> x \<and> \<not> (\<exists>p. j_domain job = p @ ''.'' @ x))
    \<and> j_fp job = fingerprint_url E (j_url job) \<and> 0 \<le> j_score job"
proof -
  from frontier_steps_ok [OF assms(1,2) new_frontier_ok] assms(3) have "admissible E bl job"
    by (auto simp: frontier_ok_def new_frontier_def)
  then show ?thesis by (auto simp: admissible_def domain_listed_iff)
qed

definition sample_frontier :: "unit frontier" where
  "sample_frontier = snd (add ascii_stdlib (\<lambda>_ _. False) (\<lambda>b _. b) (\<lambda>_. Some False) (static_score (new_static 50 10 30 12))
     ''http://www.a.org/x/?utm_source=m&b=1#top'' 0 0 (new_frontier (new_queue ()) [''bad.org''] 10000))"

theorem frontier_jobs_admissible_witness:
  "\<exists>job. job \<in># pending (fr_queue sample_frontier) \<and> \<not> is_non_indexable ascii_stdlib (j_url job)"
proof -
  let ?f0 = "new_frontier (new_queue ()) [''bad.org''] 10000" and ?c = "(''http://www.a.org/x?b=1'', ''a.org'', ''http://www.a.org/x?b'')"
  let ?score = "static_score (new_static 50 10 30 12)" and ?raw = "''http://www.a.org/x/?utm_source=m&b=1#top''"
  let ?job = "make_job ?score ?c 0 0 (no_context ?raw)"
  have admit: "admit ascii_stdlib [''bad.org''] ?raw = Some ?c" by code_simp
  have step: "(frontier_step ascii_stdlib (\<lambda>_ _. False) (\<lambda>b _. b) (\<lambda>_. Some False) (\<lambda>_. None) ?score (\<lambda>_ s. (True, s :: unit)))\<^sup>*\<^sup>*
      ?f0 sample_frontier"
    unfolding sample_frontier_def by (rule r_into_rtranclp, rule fs_add)
  have "lists_wf (new_queue ())" using wf_new_queue [of "()"] unfolding queue_wf_lists by (rule conjunct1)
  then have job: "?job\<lparr>j_id := 1\<rparr> \<in># pending (fr_queue sample_frontier)"
    using admit by (simp add: sample_frontier_def add_def new_frontier_def reserve_fp_def bump_def has_seen_def enqueue_def
        Let_def frame_simps pending_push) (simp add: stamped_def new_queue_def)
  from frontier_jobs_admissible [OF static.scorer_contract_axioms step job] job show ?thesis by blast
qed

text \<open>
  The blacklist matches whole labels: a domain is blocked exactly when it is listed or ends in a
  dot followed by a listed domain, so a listed domain blocks its subdomains and nothing else.
\<close>

theorem blacklist_is_label_suffix:
  "domain_listed bl d \<longleftrightarrow> (\<exists>b \<in> set bl. d = b \<or> (\<exists>p. d = p @ ''.'' @ b))"
  by (rule domain_listed_iff)

text \<open>
  C25. At most one page per fingerprint is ever enqueued by \<open>Add\<close>: once a URL was added without error,
  adding any URL with the same fingerprint leaves the pending jobs unchanged, however large
  \<open>max_pages_per_fingerprint\<close> is.
\<close>

theorem one_page_per_fingerprint:
  assumes "seen_filter bt ba" and "admit E (fr_black f) r1 = Some (u1, d1, fp)" and "admit E (fr_black f) r2 = Some (u2, d2, fp)"
    and "fp \<noteq> []" and "fr_max f = 0 \<or> fr_counts f fp < fr_max f"
    and "add E bt ba get_page score r1 dep1 base1 f = (True, f1)"
  shows "pending (fr_queue (snd (add E bt ba get_page score r2 dep2 base2 f1))) = pending (fr_queue f1)"
proof -
  let ?job = "make_job score (u1, d1, fp) dep1 base1 (no_context r1)"
  have reserve: "reserve_fp fp f = Some (bump fp f)" using assms(5) by (auto simp: reserve_fp_def)
  have fp: "fp \<noteq> [] \<Longrightarrow> dedup_key ?job = fp" by (simp add: dedup_key_def make_job_def Let_def)
  have black: "fr_black f1 = fr_black f"
    using assms(2,6) reserve by (auto simp: add_def bump_def split: if_splits option.splits bool.splits)
  have "bt (q_bloom (fr_queue f1)) fp"
    using assms(2,6) reserve fp [OF assms(4)] seen_filter.enqueue_marks [OF assms(1), of ?job "fr_queue f"] seen_filter.added [OF assms(1)]
    by (auto simp: add_def has_seen_def bump_def mark_seen_def split: if_splits option.splits bool.splits)
  then show ?thesis
    using assms(3) black by (auto simp: add_def has_seen_def reserve_fp_def bump_def split: option.splits)
qed


theorem one_page_per_fingerprint_witness:
  "let bt = (\<lambda>b k. k \<in> b); ba = (\<lambda>b k. insert k b); score = static_score (new_static 50 10 30 12);
       f0 = new_frontier (new_queue {}) [] 10000;
       f1 = snd (add ascii_stdlib bt ba (\<lambda>_. Some False) score ''http://a.org/item/1'' 0 0 f0);
       f2 = snd (add ascii_stdlib bt ba (\<lambda>_. Some False) score ''http://a.org/item/2'' 0 0 f1)
   in pending (fr_queue f2) = pending (fr_queue f1)"
proof -
  let ?bt = "\<lambda>b k. k \<in> b" and ?ba = "\<lambda>b k. insert k b" and ?score = "static_score (new_static 50 10 30 12)"
  let ?f0 = "new_frontier (new_queue {}) [] 10000"
  let ?f1 = "snd (add ascii_stdlib ?bt ?ba (\<lambda>_. Some False) ?score ''http://a.org/item/1'' 0 0 ?f0)"
  have filter: "seen_filter ?bt ?ba" by unfold_locales auto
  have 1: "admit ascii_stdlib (fr_black ?f0) ''http://a.org/item/1'' = Some (''http://a.org/item/1'', ''a.org'', ''http://a.org/item/{num}'')"
    unfolding new_frontier_def by code_simp
  have 2: "admit ascii_stdlib (fr_black ?f0) ''http://a.org/item/2'' = Some (''http://a.org/item/2'', ''a.org'', ''http://a.org/item/{num}'')"
    unfolding new_frontier_def by code_simp
  have "fst (add ascii_stdlib ?bt ?ba (\<lambda>_. Some False) ?score ''http://a.org/item/1'' 0 0 ?f0) = True"
    using 1 by (simp add: add_def reserve_fp_def bump_def new_frontier_def split: option.splits)
  then have 3: "add ascii_stdlib ?bt ?ba (\<lambda>_. Some False) ?score ''http://a.org/item/1'' 0 0 ?f0 = (True, ?f1)"
    by (simp add: prod_eq_iff)
  show ?thesis
    unfolding Let_def
    by (rule one_page_per_fingerprint [OF filter 1 2 _ _ 3]) (simp_all add: new_frontier_def)
qed

text \<open>
  URLs whose host is an IPv6 literal are dropped: \<open>CanonicalizeURL\<close> loses the brackets of the host,
  the result no longer parses, and the admission guards reject it as non-indexable.
\<close>

theorem ipv6_urls_dropped:
  "let E = ascii_stdlib\<lparr>sl_ip6 := (\<lambda>s. s = ''2001:db8::1'')\<rparr>; raw = ''http://[2001:db8::1]:8080/docs''
   in canonicalize_url E raw = Some (''http://2001:db8::1:8080/docs'', ''2001:db8::1'')
      \<and> url_parse E raw \<noteq> None \<and> url_parse E ''http://2001:db8::1:8080/docs'' = None \<and> admit E [] raw = None"
  by code_simp

end
