(* ===== verification/SiteHints.thy ===== *)
theory SiteHints
  imports GoUrl
begin

text \<open>
  Platform-specific URL classification, \<open>internal/sitehints/hints.go\<close> and \<open>registry.go\<close>: for every
  registered platform its domains and its \<open>classify\<close> function, one definition each. The slow path of
  \<open>Classify\<close> ranges over a map, so the order in which it visits the rules is an argument.
\<close>

record hub_match =
  hm_platform :: string
  hm_hub :: bool
  hm_name :: string
  hm_boost :: float64
  hm_penalty :: float64

definition no_match :: hub_match where
  "no_match = \<lparr>hm_platform = [], hm_hub = False, hm_name = [], hm_boost = 0, hm_penalty = 0\<rparr>"

definition hub_boost_large :: float64 where "hub_boost_large = 6000"
definition hub_boost_medium :: float64 where "hub_boost_medium = 4000"
definition depth_penalty_light :: float64 where "depth_penalty_light = 1000"
definition depth_penalty_medium :: float64 where "depth_penalty_medium = 2500"
definition depth_penalty_heavy :: float64 where "depth_penalty_heavy = 4000"

text \<open>The three results a rule can return: neither, a hub, or a penalised page.\<close>

definition neutral :: "string \<Rightarrow> hub_match" where
  "neutral p = \<lparr>hm_platform = p, hm_hub = False, hm_name = [], hm_boost = 0, hm_penalty = 0\<rparr>"

definition hub :: "string \<Rightarrow> string \<Rightarrow> float64 \<Rightarrow> hub_match" where
  "hub p name boost = \<lparr>hm_platform = p, hm_hub = True, hm_name = name, hm_boost = boost, hm_penalty = 0\<rparr>"

definition penalized :: "string \<Rightarrow> float64 \<Rightarrow> hub_match" where
  "penalized p x = \<lparr>hm_platform = p, hm_hub = False, hm_name = [], hm_boost = 0, hm_penalty = x\<rparr>"

definition clean_path :: "url \<Rightarrow> string list" where
  "clean_path u =
     (let path = trim_set (u_path u) ''/''
      in if path = [] then [] else filter (\<lambda>p. p \<noteq> []) (split_byte path CHR ''/''))"

text \<open>
  \<open>strings.EqualFold\<close> against a lower-case ASCII literal: besides the ASCII letters, the long s (U+017F)
  folds to \<open>s\<close> and the Kelvin sign (U+212A) to \<open>k\<close>.
\<close>

fun fold_ascii :: "string \<Rightarrow> string" where
  "fold_ascii [] = []"
| "fold_ascii (c # s) =
     (if byte c = 197 then
        (case s of d # t \<Rightarrow> if byte d = 191 then CHR ''s'' # fold_ascii t else c # fold_ascii (d # t) | [] \<Rightarrow> [c])
      else if byte c = 226 then
        (case s of d # e # t \<Rightarrow> if byte d = 132 \<and> byte e = 170 then CHR ''k'' # fold_ascii t else c # fold_ascii (d # e # t)
         | t \<Rightarrow> c # t)
      else lower_char c # fold_ascii s)"

definition equal_fold :: "string \<Rightarrow> string \<Rightarrow> bool" where
  "equal_fold s lit \<longleftrightarrow> fold_ascii s = lit"

subsection \<open>The rules\<close>

definition classify_reddit :: "stdlib \<Rightarrow> string list \<Rightarrow> hub_match" where
  "classify_reddit E parts =
     (if length parts = 2 \<and> equal_fold (parts ! 0) ''r'' then hub ''reddit'' (to_lower E (parts ! 1)) hub_boost_large
      else if 2 < length parts \<and> equal_fold (parts ! 0) ''r'' then
        (if equal_fold (parts ! 2) ''comments'' then penalized ''reddit'' depth_penalty_medium
         else penalized ''reddit'' depth_penalty_light)
      else neutral ''reddit'')"

definition github_reserved :: "string list" where
  "github_reserved =
    [''features'', ''marketplace'', ''explore'', ''topics'', ''trending'', ''collections'', ''sponsors'', ''settings'',
     ''notifications'', ''login'', ''signup'', ''join'', ''about'', ''pricing'', ''enterprise'', ''team'', ''orgs'',
     ''organizations'']"

definition classify_github :: "stdlib \<Rightarrow> string list \<Rightarrow> hub_match" where
  "classify_github E parts =
     (if length parts = 0 then neutral ''github''
      else if to_lower E (parts ! 0) \<in> set github_reserved then neutral ''github''
      else if length parts = 2 then hub ''github'' (to_lower E (parts ! 1)) hub_boost_large
      else if length parts = 1 then hub ''github'' (to_lower E (parts ! 0)) hub_boost_medium
      else if 3 \<le> length parts then
        (let section = to_lower E (parts ! 2)
         in if section \<in> {''releases'', ''tags''} then penalized ''github'' depth_penalty_heavy
            else if section \<in> {''issues'', ''pull'', ''discussions''} then
              (if 3 < length parts then penalized ''github'' depth_penalty_medium else penalized ''github'' depth_penalty_light)
            else if section \<in> {''tree'', ''blob'', ''commit'', ''commits''} then penalized ''github'' depth_penalty_medium
            else if section = ''wiki'' then penalized ''github'' depth_penalty_light
            else penalized ''github'' depth_penalty_light)
      else neutral ''github'')"

definition classify_youtube :: "stdlib \<Rightarrow> string list \<Rightarrow> hub_match" where
  "classify_youtube E parts =
     (if length parts = 0 then neutral ''youtube''
      else (let first = parts ! 0
            in if has_prefix first ''@'' \<and> length parts \<le> 2 then hub ''youtube'' (to_lower E (trim_prefix first ''@'')) hub_boost_large
               else if (equal_fold first ''c'' \<or> equal_fold first ''channel'' \<or> equal_fold first ''user'')
                       \<and> 2 \<le> length parts \<and> length parts \<le> 3
               then hub ''youtube'' (to_lower E (parts ! 1)) hub_boost_large
               else if equal_fold first ''watch'' then penalized ''youtube'' depth_penalty_medium
               else if equal_fold first ''shorts'' then penalized ''youtube'' depth_penalty_heavy
               else if equal_fold first ''playlist'' then penalized ''youtube'' depth_penalty_light
               else neutral ''youtube''))"

definition classify_wikipedia :: "stdlib \<Rightarrow> string list \<Rightarrow> hub_match" where
  "classify_wikipedia E parts =
     (if length parts = 2 \<and> equal_fold (parts ! 0) ''wiki'' then
        (if list_ex (has_prefix (parts ! 1))
              [''Special:'', ''Talk:'', ''User:'', ''Wikipedia:'', ''Help:'', ''Category:'', ''File:'', ''Template:'']
         then penalized ''wikipedia'' depth_penalty_heavy
         else hub ''wikipedia'' [] hub_boost_medium)
      else if 2 < length parts \<and> equal_fold (parts ! 0) ''wiki'' then penalized ''wikipedia'' depth_penalty_light
      else neutral ''wikipedia'')"

definition classify_stackoverflow :: "stdlib \<Rightarrow> string list \<Rightarrow> hub_match" where
  "classify_stackoverflow E parts =
     (if 2 \<le> length parts \<and> equal_fold (parts ! 0) ''questions'' then
        (if equal_fold (parts ! 1) ''tagged'' then penalized ''stackoverflow'' depth_penalty_light
         else hub ''stackoverflow'' [] hub_boost_medium)
      else if 1 \<le> length parts \<and> equal_fold (parts ! 0) ''users'' then penalized ''stackoverflow'' depth_penalty_medium
      else neutral ''stackoverflow'')"

definition classify_gitlab :: "stdlib \<Rightarrow> string list \<Rightarrow> hub_match" where
  "classify_gitlab E parts =
     (if length parts = 0 then neutral ''gitlab''
      else if to_lower E (parts ! 0) \<in> {''explore'', ''help'', ''admin'', ''users'', ''groups'', ''dashboard''} then neutral ''gitlab''
      else if length parts = 2 then hub ''gitlab'' (to_lower E (parts ! 1)) hub_boost_large
      else if 4 \<le> length parts \<and> parts ! 2 = ''-'' then
        (let section = to_lower E (parts ! 3)
         in if section \<in> {''releases'', ''tags''} then penalized ''gitlab'' depth_penalty_heavy
            else if section \<in> {''issues'', ''merge_requests''} then
              (if 4 < length parts then penalized ''gitlab'' depth_penalty_medium else penalized ''gitlab'' depth_penalty_light)
            else penalized ''gitlab'' depth_penalty_light)
      else neutral ''gitlab'')"

definition classify_npm :: "stdlib \<Rightarrow> string list \<Rightarrow> hub_match" where
  "classify_npm E parts =
     (if 2 \<le> length parts \<and> equal_fold (parts ! 0) ''package'' then
        (let scoped = has_prefix (parts ! 1) ''@''; hub_len = (if scoped then 3 else 2)
         in if length parts = hub_len
            then hub ''npm'' (if scoped then to_lower E (parts ! 1 @ ''/'' @ parts ! 2) else to_lower E (parts ! 1)) hub_boost_large
            else penalized ''npm'' depth_penalty_medium)
      else neutral ''npm'')"

definition classify_pypi :: "stdlib \<Rightarrow> string list \<Rightarrow> hub_match" where
  "classify_pypi E parts =
     (if 2 \<le> length parts \<and> equal_fold (parts ! 0) ''project'' then
        (if length parts = 2 then hub ''pypi'' (to_lower E (parts ! 1)) hub_boost_large
         else penalized ''pypi'' depth_penalty_medium)
      else neutral ''pypi'')"

definition classify_docker :: "stdlib \<Rightarrow> string list \<Rightarrow> hub_match" where
  "classify_docker E parts =
     (if length parts = 3 \<and> (equal_fold (parts ! 0) ''r'' \<or> equal_fold (parts ! 0) ''_'') then hub ''docker'' [] hub_boost_medium
      else if length parts = 2 \<and> equal_fold (parts ! 0) ''_'' then hub ''docker'' [] hub_boost_medium
      else if 3 < length parts then penalized ''docker'' depth_penalty_light
      else neutral ''docker'')"

definition classify_twitch :: "stdlib \<Rightarrow> string list \<Rightarrow> hub_match" where
  "classify_twitch E parts =
     (if length parts = 0 then neutral ''twitch''
      else if to_lower E (parts ! 0) \<in> set [''directory'', ''downloads'', ''jobs'', ''turbo'', ''settings'', ''friends'',
                ''subscriptions'', ''inventory'', ''wallet'', ''search'', ''team'', ''p'', ''videos''] then neutral ''twitch''
      else if length parts = 1 then hub ''twitch'' (to_lower E (parts ! 0)) hub_boost_large
      else (let section = to_lower E (parts ! 1)
            in if section \<in> {''clip'', ''clips''} then penalized ''twitch'' depth_penalty_medium
               else if section \<in> {''videos'', ''schedule'', ''about''} then penalized ''twitch'' depth_penalty_light
               else penalized ''twitch'' depth_penalty_light))"

definition classify_steam :: "stdlib \<Rightarrow> string list \<Rightarrow> hub_match" where
  "classify_steam E parts =
     (if 2 \<le> length parts \<and> equal_fold (parts ! 0) ''app'' then
        (if length parts \<le> 3 then hub ''steam'' [] hub_boost_medium else penalized ''steam'' depth_penalty_light)
      else neutral ''steam'')"

definition classify_mercadolibre :: "stdlib \<Rightarrow> string list \<Rightarrow> hub_match" where
  "classify_mercadolibre E parts =
     (if 3 < length parts then penalized ''mercadolibre'' depth_penalty_light else neutral ''mercadolibre'')"

definition classify_nuget :: "stdlib \<Rightarrow> string list \<Rightarrow> hub_match" where
  "classify_nuget E parts =
     (if 2 \<le> length parts \<and> equal_fold (parts ! 0) ''packages'' then
        (if length parts = 2 then hub ''nuget'' (to_lower E (parts ! 1)) hub_boost_large
         else penalized ''nuget'' depth_penalty_medium)
      else neutral ''nuget'')"

definition classify_amazon :: "stdlib \<Rightarrow> string list \<Rightarrow> hub_match" where
  "classify_amazon E parts =
     (if length parts = 0 then neutral ''amazon''
      else (let first = to_lower E (parts ! 0)
            in if first = ''dp'' \<and> 2 \<le> length parts then
                 (if length parts \<le> 3 then hub ''amazon'' [] hub_boost_medium else penalized ''amazon'' depth_penalty_light)
               else if first = ''gp'' \<and> 3 \<le> length parts \<and> equal_fold (parts ! 1) ''product'' then
                 (if length parts \<le> 4 then hub ''amazon'' [] hub_boost_medium else penalized ''amazon'' depth_penalty_light)
               else if first = ''product-reviews'' then penalized ''amazon'' depth_penalty_medium
               else if first = ''offer-listing'' then penalized ''amazon'' depth_penalty_medium
               else if first = ''s'' then penalized ''amazon'' depth_penalty_heavy
               else neutral ''amazon''))"

record platform_rule =
  pr_name :: string
  pr_domains :: "domain list"
  pr_classify :: "stdlib \<Rightarrow> string list \<Rightarrow> hub_match"

definition rule :: "string \<Rightarrow> domain list \<Rightarrow> (stdlib \<Rightarrow> string list \<Rightarrow> hub_match) \<Rightarrow> platform_rule" where
  "rule name ds f = \<lparr>pr_name = name, pr_domains = ds, pr_classify = f\<rparr>"

definition platform_rules :: "platform_rule list" where
  "platform_rules =
    [rule ''reddit'' [''reddit.com''] classify_reddit,
     rule ''github'' [''github.com''] classify_github,
     rule ''youtube'' [''youtube.com'', ''youtu.be''] classify_youtube,
     rule ''wikipedia'' [''wikipedia.org''] classify_wikipedia,
     rule ''stackoverflow'' [''stackoverflow.com'', ''stackexchange.com'', ''superuser.com'', ''serverfault.com'', ''askubuntu.com'']
       classify_stackoverflow,
     rule ''gitlab'' [''gitlab.com''] classify_gitlab,
     rule ''npm'' [''npmjs.com''] classify_npm,
     rule ''pypi'' [''pypi.org''] classify_pypi,
     rule ''docker'' [''hub.docker.com''] classify_docker,
     rule ''twitch'' [''twitch.tv''] classify_twitch,
     rule ''steam'' [''store.steampowered.com'', ''steampowered.com'', ''steamcommunity.com''] classify_steam,
     rule ''mercadolibre'' [''mercadolibre.com.uy'', ''mercadolibre.com.ar'', ''mercadolibre.com.mx'', ''mercadolibre.com.br'',
       ''mercadolibre.com.co'', ''mercadolibre.com.ve'', ''mercadolibre.cl'', ''mercadolibre.com.pe'', ''mercadolibre.com.ec'']
       classify_mercadolibre,
     rule ''nuget'' [''nuget.org''] classify_nuget,
     rule ''amazon'' [''amazon.com'', ''amazon.co.uk'', ''amazon.de'', ''amazon.fr'', ''amazon.es'', ''amazon.it'', ''amazon.co.jp'',
       ''amazon.ca'', ''amazon.com.au'', ''amazon.com.br'', ''amazon.com.mx'', ''amazon.in'', ''amazon.nl'', ''amazon.sg'',
       ''amazon.ae'', ''amazon.sa'', ''amazon.pl'', ''amazon.se'', ''amazon.com.tr''] classify_amazon]"

text \<open>\<open>init\<close> registers every rule under its name; a later rule of the same name would replace an earlier one.\<close>

definition registry :: "string \<rightharpoonup> platform_rule" where
  "registry = map_of (rev (map (\<lambda>r. (pr_name r, r)) platform_rules))"

definition matches_domain :: "domain \<Rightarrow> domain list \<Rightarrow> bool" where
  "matches_domain host ds = list_ex (\<lambda>d. host = d \<or> has_suffix host (''.'' @ d)) ds"

definition hint_host :: "stdlib \<Rightarrow> url \<Rightarrow> domain" where
  "hint_host E u = trim_prefix (to_lower E (url_hostname u)) ''www.''"

definition classify :: "stdlib \<Rightarrow> platform_rule list \<Rightarrow> rawurl \<Rightarrow> string \<Rightarrow> hub_match" where
  "classify E order raw platform =
     (case url_parse E raw of
        None \<Rightarrow> no_match
      | Some u \<Rightarrow>
          (let host = hint_host E u
           in if platform \<noteq> [] then
                (case registry platform of
                   Some r \<Rightarrow> if matches_domain host (pr_domains r) then pr_classify r E (clean_path u) else no_match
                 | None \<Rightarrow> no_match)
              else (case find (\<lambda>r. matches_domain host (pr_domains r)) order of
                      Some r \<Rightarrow> pr_classify r E (clean_path u) | None \<Rightarrow> no_match)))"


subsection \<open>No host belongs to two platforms\<close>

definition overlap :: "domain list \<Rightarrow> domain list \<Rightarrow> bool" where
  "overlap ds es \<longleftrightarrow> list_ex (\<lambda>d. list_ex (\<lambda>e. d = e \<or> has_suffix d (''.'' @ e) \<or> has_suffix e (''.'' @ d)) es) ds"

lemma has_suffix_iff: "has_suffix s t \<longleftrightarrow> (\<exists>p. s = p @ t)"
  by (auto simp: has_suffix_def) (metis append_take_drop_id)

lemma dot_suffix_cases:
  assumes "a @ CHR ''.'' # d = b @ CHR ''.'' # e" 
  shows "d = e \<or> (\<exists>p. d = p @ CHR ''.'' # e) \<or> (\<exists>p. e = p @ CHR ''.'' # d)"
proof -
  obtain us where "a = b @ us \<and> us @ CHR ''.'' # d = CHR ''.'' # e \<or> a @ us = b \<and> CHR ''.'' # d = us @ CHR ''.'' # e"
    using assms by (auto simp: append_eq_append_conv2)
  then show ?thesis by (cases us) auto
qed

lemma domains_overlap:
  assumes "matches_domain host ds" and "matches_domain host es"
  shows "overlap ds es"
proof -
  obtain d e where d: "d \<in> set ds" "host = d \<or> has_suffix host (''.'' @ d)" and e: "e \<in> set es" "host = e \<or> has_suffix host (''.'' @ e)"
    using assms by (auto simp: matches_domain_def list_ex_iff)
  have "d = e \<or> has_suffix d (''.'' @ e) \<or> has_suffix e (''.'' @ d)"
    using d(2) e(2) by (auto simp: has_suffix_iff dest: dot_suffix_cases)
  with d(1) e(1) show ?thesis by (auto simp: overlap_def list_ex_iff)
qed

lemma platforms_disjoint: "sorted_wrt (\<lambda>ds es. \<not> overlap ds es) (map pr_domains platform_rules)"
  by code_simp

lemma overlap_sym: "overlap ds es = overlap es ds"
  by (auto simp: overlap_def list_ex_iff)

lemma rule_of_host_unique:
  assumes "r \<in> set platform_rules" "r' \<in> set platform_rules"
    and "matches_domain host (pr_domains r)" "matches_domain host (pr_domains r')"
  shows "r = r'"
proof (rule ccontr)
  assume ne: "r \<noteq> r'"
  obtain i j where ij: "i < length platform_rules" "platform_rules ! i = r" "j < length platform_rules" "platform_rules ! j = r'"
    using assms(1,2) by (auto simp: in_set_conv_nth)
  with ne have "i < j \<or> j < i" by (metis linorder_neqE_nat)
  then have "\<not> overlap (pr_domains r) (pr_domains r')"
    using platforms_disjoint ij overlap_sym by (fastforce simp: sorted_wrt_iff_nth_less)
  with domains_overlap [OF assms(3,4)] show False by contradiction
qed

lemma find_unique:
  assumes "\<And>x y. x \<in> A \<Longrightarrow> y \<in> A \<Longrightarrow> P x \<Longrightarrow> P y \<Longrightarrow> x = y" and "set xs = A" "set ys = A"
  shows "find P xs = find P ys"
proof (cases "find P xs")
  case None
  then have "find P ys = None" using assms(2,3) by (simp add: find_None_iff)
  with None show ?thesis by simp
next
  case (Some x)
  then have x: "x \<in> A" "P x" using assms(2) by (auto simp: find_Some_iff)
  then obtain y where y: "find P ys = Some y" using assms(3) by (metis find_None_iff option.exhaust)
  then have "y \<in> A" "P y" using assms(3) by (auto simp: find_Some_iff)
  with x y assms(1) Some show ?thesis by metis
qed

subsection \<open>What a rule returns\<close>

definition hint_ok :: "hub_match \<Rightarrow> bool" where
  "hint_ok m \<longleftrightarrow> (if hm_hub m then hm_boost m \<in> {4000, 6000} \<and> hm_penalty m = 0
     else hm_name m = [] \<and> hm_boost m = 0 \<and> hm_penalty m \<in> {0, 1000, 2500, 4000})"

lemma hint_ok_results [simp]:
  "hint_ok (neutral p)" "hint_ok no_match"
  "hint_ok (hub p n hub_boost_large)" "hint_ok (hub p n hub_boost_medium)"
  "hint_ok (penalized p depth_penalty_light)" "hint_ok (penalized p depth_penalty_medium)" "hint_ok (penalized p depth_penalty_heavy)"
  by (simp_all add: hint_ok_def neutral_def no_match_def hub_def penalized_def hub_boost_large_def hub_boost_medium_def
      depth_penalty_light_def depth_penalty_medium_def depth_penalty_heavy_def)

lemmas classify_defs = classify_reddit_def classify_github_def classify_youtube_def classify_wikipedia_def
  classify_stackoverflow_def classify_gitlab_def classify_npm_def classify_pypi_def classify_docker_def classify_twitch_def
  classify_steam_def classify_mercadolibre_def classify_nuget_def classify_amazon_def

lemma rule_hint_ok: "r \<in> set platform_rules \<Longrightarrow> hint_ok (pr_classify r E parts)"
  by (auto simp: platform_rules_def rule_def classify_defs Let_def)

lemma platform_simps [simp]: "hm_platform (neutral p) = p" "hm_platform (hub p n b) = p" "hm_platform (penalized p x) = p"
  by (simp_all add: neutral_def hub_def penalized_def)

lemma rule_platform: "r \<in> set platform_rules \<Longrightarrow> hm_platform (pr_classify r E parts) = pr_name r"
  by (auto simp: platform_rules_def rule_def classify_defs Let_def)

lemma registry_rule: "registry p = Some r \<Longrightarrow> r \<in> set platform_rules \<and> pr_name r = p"
  by (auto simp: registry_def dest!: map_of_SomeD)

text \<open>
  \<open>Classify\<close> does not depend on Go's map order: no host belongs to two registered platforms, so
  any two orders in which the rules may be visited give the same result for every URL.
\<close>

theorem classify_order_independent:
  assumes "set rs = set platform_rules" and "set rs' = set platform_rules"
  shows "classify E rs raw platform = classify E rs' raw platform"
proof (cases "url_parse E raw")
  case (Some u)
  have "find (\<lambda>r. matches_domain (hint_host E u) (pr_domains r)) rs = find (\<lambda>r. matches_domain (hint_host E u) (pr_domains r)) rs'"
    by (rule find_unique [OF rule_of_host_unique assms])
  with Some show ?thesis by (simp add: classify_def Let_def)
qed (simp add: classify_def)

theorem classify_order_independent_witness:
  "classify ascii_stdlib platform_rules ''https://old.reddit.com/r/go'' [] =
     classify ascii_stdlib (rev platform_rules) ''https://old.reddit.com/r/go'' []"
  by (rule classify_order_independent) simp_all

lemma classify_hint_ok: "hint_ok (classify E platform_rules raw platform)"
  by (cases "url_parse E raw"; cases "platform = []")
     (auto simp: classify_def Let_def find_Some_iff rule_hint_ok dest!: registry_rule split: option.splits)

text \<open>
  Every classification is consistent: a hub has a boost of 4000 or 6000 and no penalty, a page that
  is no hub has no boost, no hub name and a penalty of at most 4000, and asking for a platform never
  returns the match of another one.
\<close>

theorem classify_consistent:
  "hint_ok (classify E platform_rules raw platform)
   \<and> (platform = [] \<or> hm_platform (classify E platform_rules raw platform) \<in> {[], platform})"
proof (cases "url_parse E raw")
  case None
  then show ?thesis by (simp add: classify_def) (simp add: no_match_def)
next
  case (Some u)
  show ?thesis
  proof (cases "platform = []")
    case True
    with Some show ?thesis
      by (auto simp: classify_def Let_def find_Some_iff intro!: rule_hint_ok split: option.splits)
  next
    case False
    have "hm_platform no_match = []" by (simp add: no_match_def)
    with Some False show ?thesis
      by (auto simp: classify_def Let_def rule_platform rule_hint_ok dest!: registry_rule split: option.splits)
  qed
qed

end
