(* ===== verification/EditDistance.thy ===== *)
theory EditDistance
  imports GoStrings
begin

text \<open>
  The two edit distances of the search code: \<open>damerauLevenshteinDistanceRunes\<close> of
  \<open>internal/storage/sqlite_search.go\<close> on a flat table, and \<open>levenshtein\<close> of
  \<open>internal/storage/spellcheck.go\<close> on a table of rows, with the token and phrase similarities built on
  them. Both tables are shown to hold the value of a recursive specification in every cell.
\<close>

type_synonym rune = nat

definition rune_list :: "string \<Rightarrow> rune list" where
  "rune_list s = map fst (runes s)"

subsection \<open>The Damerau-Levenshtein table\<close>

definition dl_init :: "nat \<Rightarrow> nat \<Rightarrow> nat list" where
  "dl_init rows cols =
     fold (\<lambda>j dp. dp[j := j]) [0..<cols] (fold (\<lambda>i dp. dp[i * cols := i]) [0..<rows] (replicate (rows * cols) 0))"

definition dl_cell :: "rune list \<Rightarrow> rune list \<Rightarrow> nat \<Rightarrow> nat \<Rightarrow> nat \<Rightarrow> nat list \<Rightarrow> nat list" where
  "dl_cell ar br cols i j dp =
     (let cost = (if ar ! (i - 1) \<noteq> br ! (j - 1) then 1 else 0);
          del = dp ! ((i - 1) * cols + j) + 1;
          ins = dp ! (i * cols + (j - 1)) + 1;
          sub = dp ! ((i - 1) * cols + (j - 1)) + cost;
          m0 = del;
          m1 = (if ins < m0 then ins else m0);
          m2 = (if sub < m1 then sub else m1);
          dp1 = dp[i * cols + j := m2]
      in if i > 1 \<and> j > 1 \<and> ar ! (i - 1) = br ! (j - 2) \<and> ar ! (i - 2) = br ! (j - 1)
         then (let trans = dp1 ! ((i - 2) * cols + (j - 2)) + 1
               in if trans < dp1 ! (i * cols + j) then dp1[i * cols + j := trans] else dp1)
         else dp1)"

definition damerau_levenshtein :: "rune list \<Rightarrow> rune list \<Rightarrow> nat" where
  "damerau_levenshtein ar br =
     (let rows = length ar + 1; cols = length br + 1;
          dp = fold (\<lambda>i. fold (dl_cell ar br cols i) [1..<cols]) [1..<rows] (dl_init rows cols)
      in dp ! (rows * cols - 1))"

subsection \<open>The Levenshtein table\<close>

definition lev_init :: "nat \<Rightarrow> nat \<Rightarrow> nat list list" where
  "lev_init rows cols =
     fold (\<lambda>j d. d[0 := (d ! 0)[j := j]]) [0..<cols]
       (fold (\<lambda>i d. d[i := (d ! i)[0 := i]]) [0..<rows] (replicate rows (replicate cols 0)))"

definition lev_cell :: "rune list \<Rightarrow> rune list \<Rightarrow> nat \<Rightarrow> nat \<Rightarrow> nat list list \<Rightarrow> nat list list" where
  "lev_cell s1 s2 i j d =
     (let cost = (if s1 ! (i - 1) = s2 ! (j - 1) then 0 else 1)
      in d[i := (d ! i)[j := min (min (d ! (i - 1) ! j + 1) (d ! i ! (j - 1) + 1)) (d ! (i - 1) ! (j - 1) + cost)]])"

definition levenshtein :: "string \<Rightarrow> string \<Rightarrow> nat" where
  "levenshtein a b =
     (if length a = 0 then length (rune_list b)
      else if length b = 0 then length (rune_list a)
      else (let s1 = rune_list a; s2 = rune_list b; rows = length s1 + 1; cols = length s2 + 1;
                d = fold (\<lambda>i. fold (lev_cell s1 s2 i) [1..<cols]) [1..<rows] (lev_init rows cols)
            in d ! length s1 ! length s2))"

subsection \<open>Filling a grid row by row\<close>

text \<open>
  A table of cells, however it is stored. The client lemma: a loop that computes each cell from earlier
  ones by a recurrence leaves the solution of the recurrence in every cell.
\<close>

locale grid =
  fixes get :: "'t \<Rightarrow> nat \<Rightarrow> nat \<Rightarrow> nat" and put :: "nat \<Rightarrow> nat \<Rightarrow> nat \<Rightarrow> 't \<Rightarrow> 't" and ok :: "'t \<Rightarrow> bool"
    and R :: nat and C :: nat
  assumes ok_put: "ok t \<Longrightarrow> ok (put i j v t)"
    and get_put: "ok t \<Longrightarrow> i < R \<Longrightarrow> j < C \<Longrightarrow> i' < R \<Longrightarrow> j' < C \<Longrightarrow>
      get (put i j v t) i' j' = (if i' = i \<and> j' = j then v else get t i' j')"
begin

definition agree :: "(nat \<Rightarrow> nat \<Rightarrow> nat) \<Rightarrow> nat \<Rightarrow> nat \<Rightarrow> 't \<Rightarrow> bool" where
  "agree s i j t \<longleftrightarrow> ok t \<and> (\<forall>i' < R. \<forall>j' < C. i' = 0 \<or> j' = 0 \<or> i' < i \<or> (i' = i \<and> j' < j) \<longrightarrow> get t i' j' = s i' j')"

lemma fill_row:
  assumes cell: "\<And>i j t. 0 < i \<Longrightarrow> i < R \<Longrightarrow> 0 < j \<Longrightarrow> j < C \<Longrightarrow> agree s i j t \<Longrightarrow> step i j t = put i j (s i j) t"
    and "0 < i" "i < R" "agree s i 1 t" and "n \<le> C" and "1 \<le> n"
  shows "agree s i n (fold (step i) [1..<n] t)"
  using assms(5,6)
proof (induction n)
  case (Suc n)
  show ?case
  proof (cases "n = 0")
    case False
    let ?t = "fold (step i) [1..<n] t"
    have ag: "agree s i n ?t" using Suc False by simp
    have "fold (step i) [1..<Suc n] t = put i n (s i n) ?t"
      using False Suc.prems assms(2,3) cell [OF _ _ _ _ ag] by simp
    then show ?thesis
      using False ag Suc.prems assms(3) unfolding agree_def by (auto simp: ok_put get_put less_Suc_eq)
  qed (use assms(4) in simp)
qed (use assms(4) in simp)

lemma fill_grid:
  assumes cell: "\<And>i j t. 0 < i \<Longrightarrow> i < R \<Longrightarrow> 0 < j \<Longrightarrow> j < C \<Longrightarrow> agree s i j t \<Longrightarrow> step i j t = put i j (s i j) t"
    and "agree s 1 1 t" and "m \<le> R" "1 \<le> m" "1 \<le> C"
  shows "agree s m 1 (fold (\<lambda>i. fold (step i) [1..<C]) [1..<m] t)"
  using assms(3,4)
proof (induction m)
  case (Suc m)
  show ?case
  proof (cases "m = 0")
    case False
    let ?t = "fold (\<lambda>i. fold (step i) [1..<C]) [1..<m] t"
    have ag: "agree s m 1 ?t" using Suc False by simp
    have "agree s m C (fold (step m) [1..<C] ?t)"
      using False Suc.prems assms(5) ag by (intro fill_row [OF cell]) auto
    then have "agree s (Suc m) 1 (fold (step m) [1..<C] ?t)"
      unfolding agree_def by (auto simp: less_Suc_eq)
    then show ?thesis using False by simp
  qed (use assms(2) in simp)
qed simp

lemma put_column:
  assumes "ok t" "0 < C" "n \<le> R"
  shows "ok (fold (\<lambda>i. put i 0 i) [0..<n] t)
    \<and> (\<forall>i < R. \<forall>j < C. get (fold (\<lambda>i. put i 0 i) [0..<n] t) i j = (if j = 0 \<and> i < n then i else get t i j))"
  using assms(3)
proof (induction n)
  case (Suc n)
  then show ?case using assms(1,2) by (auto simp: ok_put get_put less_Suc_eq)
qed (use assms in simp)

lemma put_row:
  assumes "ok t" "0 < R" "n \<le> C"
  shows "ok (fold (\<lambda>j. put 0 j j) [0..<n] t)
    \<and> (\<forall>i < R. \<forall>j < C. get (fold (\<lambda>j. put 0 j j) [0..<n] t) i j = (if i = 0 \<and> j < n then j else get t i j))"
  using assms(3)
proof (induction n)
  case (Suc n)
  then show ?case using assms(1,2) by (auto simp: ok_put get_put less_Suc_eq)
qed (use assms in simp)

lemma borders_agree:
  assumes "ok t" "0 < R" "0 < C" "\<And>i. s i 0 = i" "\<And>j. s 0 j = j"
  shows "agree s 1 1 (fold (\<lambda>j. put 0 j j) [0..<C] (fold (\<lambda>i. put i 0 i) [0..<R] t))"
  using put_row [of "fold (\<lambda>i. put i 0 i) [0..<R] t" C] put_column [OF assms(1,3), of R] assms(2-5)
  unfolding agree_def by auto

lemma grid_filled: "agree s R 1 t \<Longrightarrow> i < R \<Longrightarrow> j < C \<Longrightarrow> get t i j = s i j"
  unfolding agree_def by blast

end

lemma flat_index_inj: "j < C \<Longrightarrow> j' < C \<Longrightarrow> i * C + j = i' * C + j' \<longleftrightarrow> i = i' \<and> j = (j' :: nat)"
proof
  assume j: "j < C" "j' < C" and eq: "i * C + j = i' * C + j'"
  have "(i * C + j) div C = i" "(i' * C + j') div C = i'" using j by (simp_all add: div_add1_eq)
  with eq show "i = i' \<and> j = j'" by auto
qed simp

lemma flat_index_less:
  assumes "i < R" and "j < C"
  shows "i * C + j < R * (C::nat)"
proof -
  have "i * C + j < Suc i * C" using assms(2) by simp
  also have "\<dots> \<le> R * C" using assms(1) by (intro mult_le_mono1) simp
  finally show ?thesis .
qed

interpretation flat: grid "\<lambda>dp i j. dp ! (i * C + j)" "\<lambda>i j v dp. dp[i * C + j := v]" "\<lambda>dp. length dp = R * C" R C for R C :: nat
proof unfold_locales
  fix dp :: "nat list" and i j i' j' v
  assume "length dp = R * C" "i < R" "j < C" "i' < R" "j' < C"
  then show "dp[i * C + j := v] ! (i' * C + j') = (if i' = i \<and> j' = j then v else dp ! (i' * C + j'))"
    using flat_index_inj [of j C j' i i'] flat_index_less [of i R j C] by (auto simp: nth_list_update)
qed simp

interpretation rows: grid "\<lambda>d i j. d ! i ! j" "\<lambda>i j v d. d[i := (d ! i)[j := v]]"
  "\<lambda>d. length d = R \<and> (\<forall>i < R. length (d ! i) = C)" R C for R C :: nat
proof unfold_locales
  fix d :: "nat list list" and i j v
  assume ok: "length d = R \<and> (\<forall>i < R. length (d ! i) = C)"
  have "length (d[i := (d ! i)[j := v]] ! k) = C" if "k < R" for k
    using ok that by (cases "k = i") auto
  then show "length (d[i := (d ! i)[j := v]]) = R \<and> (\<forall>k < R. length (d[i := (d ! i)[j := v]] ! k) = C)"
    using ok by simp
qed (auto simp: nth_list_update)

subsection \<open>The recursive specifications\<close>

fun osa :: "rune list \<Rightarrow> rune list \<Rightarrow> nat \<Rightarrow> nat \<Rightarrow> nat" where
  "osa ar br 0 j = j"
| "osa ar br (Suc i) 0 = Suc i"
| "osa ar br (Suc i) (Suc j) =
     (let m = min (min (osa ar br i (Suc j) + 1) (osa ar br (Suc i) j + 1)) (osa ar br i j + (if ar ! i \<noteq> br ! j then 1 else 0))
      in if 0 < i \<and> 0 < j \<and> ar ! i = br ! (j - 1) \<and> ar ! (i - 1) = br ! j
         then min m (osa ar br (i - 1) (j - 1) + 1) else m)"

fun lev :: "rune list \<Rightarrow> rune list \<Rightarrow> nat \<Rightarrow> nat \<Rightarrow> nat" where
  "lev ar br 0 j = j"
| "lev ar br (Suc i) 0 = Suc i"
| "lev ar br (Suc i) (Suc j) =
     min (min (lev ar br i (Suc j) + 1) (lev ar br (Suc i) j + 1)) (lev ar br i j + (if ar ! i = br ! j then 0 else 1))"

lemma osa_zero: "osa ar br i 0 = i"
  by (cases i) auto

lemma lev_zero: "lev ar br i 0 = i"
  by (cases i) auto

lemma dl_init_agree:
  assumes "0 < R" "0 < C"
  shows "flat.agree C R (osa ar br) 1 1 (dl_init R C)"
  using flat.borders_agree [of "replicate (R * C) 0" R C "osa ar br"] assms
  by (simp add: dl_init_def osa_zero)

lemma lev_init_agree:
  assumes "0 < R" "0 < C"
  shows "rows.agree R C (lev ar br) 1 1 (lev_init R C)"
  using rows.borders_agree [of "replicate R (replicate C 0)" R C "lev ar br"] assms
  by (simp add: lev_init_def lev_zero)

lemma dl_cell_spec:
  assumes "R = length ar + 1" "C = length br + 1" "0 < i" "i < R" "0 < j" "j < C" "flat.agree C R (osa ar br) i j dp"
  shows "dl_cell ar br C i j dp = dp[i * C + j := osa ar br i j]"
proof -
  obtain i' j' where ij: "i = Suc i'" "j = Suc j'" using assms(3,5) by (auto simp: gr0_conv_Suc)
  have val: "dp ! (a * C + b) = osa ar br a b" if "a < R" "b < C" "a < i \<or> a = i \<and> b < j" for a b
    using assms(7) that unfolding flat.agree_def by blast
  have len: "length dp = R * C" using assms(7) by (simp add: flat.agree_def)
  have here: "i * C + j < length dp" using flat_index_less [OF assms(4,6)] len by simp
  have del: "dp ! (i' * C + j) = osa ar br i' j" and ins: "dp ! (i * C + j') = osa ar br i j'" and sub: "dp ! (i' * C + j') = osa ar br i' j'"
    by (rule val; use assms(4,6) ij in simp)+
  define m where "m = min (min (osa ar br i' j + 1) (osa ar br i j' + 1)) (osa ar br i' j' + (if ar ! i' \<noteq> br ! j' then 1 else 0))"
  define dp1 where "dp1 = dp[i * C + j := m]"
  have self: "dp1 ! (i * C + j) = m" using here by (simp add: dp1_def)
  have trans: "dp1 ! ((i' - 1) * C + (j' - 1)) = osa ar br (i' - 1) (j' - 1)" if "0 < i'"
  proof -
    have r: "i' - 1 < R" "j' - 1 < C" "i' - 1 < i" using assms(4,6) ij by auto
    then have "(i' - 1) * C + (j' - 1) \<noteq> i * C + j" using flat_index_inj [OF r(2) assms(6)] by simp
    then have "dp1 ! ((i' - 1) * C + (j' - 1)) = dp ! ((i' - 1) * C + (j' - 1))" unfolding dp1_def by (metis nth_list_update_neq)
    also have "\<dots> = osa ar br (i' - 1) (j' - 1)" using r by (intro val) simp_all
    finally show ?thesis .
  qed
  have pred: "i - 1 = i'" "j - 1 = j'" "i - 2 = i' - 1" "j - 2 = j' - 1" "(1 < i) = (0 < i')" "(1 < j) = (0 < j')" using ij by auto
  have m': "(let m0 = osa ar br i' j + 1; m1 = (if osa ar br i j' + 1 < m0 then osa ar br i j' + 1 else m0);
      sub = osa ar br i' j' + (if ar ! i' \<noteq> br ! j' then 1 else 0) in if sub < m1 then sub else m1) = m"
    by (simp add: m_def Let_def min_def)
  have "dl_cell ar br C i j dp =
      (if 0 < i' \<and> 0 < j' \<and> ar ! i' = br ! (j' - 1) \<and> ar ! (i' - 1) = br ! j'
       then if dp1 ! ((i' - 1) * C + (j' - 1)) + 1 < dp1 ! (i * C + j)
            then dp1[i * C + j := dp1 ! ((i' - 1) * C + (j' - 1)) + 1] else dp1 else dp1)"
    by (simp only: dl_cell_def Let_def pred del ins sub m' [unfolded Let_def] flip: dp1_def)
  then have "dl_cell ar br C i j dp =
      (if 0 < i' \<and> 0 < j' \<and> ar ! i' = br ! (j' - 1) \<and> ar ! (i' - 1) = br ! j'
       then if osa ar br (i' - 1) (j' - 1) + 1 < m then dp1[i * C + j := osa ar br (i' - 1) (j' - 1) + 1] else dp1 else dp1)"
    by (simp only: self trans cong: if_cong conj_cong)
  moreover have "osa ar br i j = (if 0 < i' \<and> 0 < j' \<and> ar ! i' = br ! (j' - 1) \<and> ar ! (i' - 1) = br ! j'
      then min m (osa ar br (i' - 1) (j' - 1) + 1) else m)"
    unfolding ij osa.simps(3) Let_def m_def by simp
  ultimately show ?thesis by (simp add: dp1_def min_def)
qed

lemma lev_cell_spec:
  assumes "0 < i" "i < R" "0 < j" "j < C" "rows.agree R C (lev ar br) i j d"
  shows "lev_cell ar br i j d = d[i := (d ! i)[j := lev ar br i j]]"
proof -
  obtain i' j' where ij: "i = Suc i'" "j = Suc j'" using assms(1,3) by (auto simp: gr0_conv_Suc)
  have val: "d ! a ! b = lev ar br a b" if "a < R" "b < C" "a < i \<or> a = i \<and> b < j" for a b
    using assms(5) that unfolding rows.agree_def by blast
  have "d ! i' ! j = lev ar br i' j" "d ! i ! j' = lev ar br i j'" "d ! i' ! j' = lev ar br i' j'"
    using val assms(2,4) ij by auto
  then show ?thesis unfolding lev_cell_def ij Let_def by simp
qed

lemma damerau_levenshtein_table: "damerau_levenshtein ar br = osa ar br (length ar) (length br)"
proof -
  let ?R = "length ar + 1" and ?C = "length br + 1"
  let ?t = "fold (\<lambda>i. fold (dl_cell ar br ?C i) [1..<?C]) [1..<?R] (dl_init ?R ?C)"
  have "flat.agree ?C ?R (osa ar br) ?R 1 ?t"
  proof (rule flat.fill_grid [where step = "dl_cell ar br ?C"])
    fix i j dp assume "0 < i" "i < ?R" "0 < j" "j < ?C" "flat.agree ?C ?R (osa ar br) i j dp"
    then show "dl_cell ar br ?C i j dp = dp[i * ?C + j := osa ar br i j]" by (rule dl_cell_spec [OF refl refl])
  qed (rule dl_init_agree, simp_all)
  from flat.grid_filled [OF this, of "length ar" "length br"]
  have "?t ! (length ar * ?C + length br) = osa ar br (length ar) (length br)" by simp
  moreover have "?R * ?C - 1 = length ar * ?C + length br" by simp
  ultimately show ?thesis unfolding damerau_levenshtein_def Let_def by metis
qed

lemma levenshtein_table:
  "levenshtein a b = (if a = [] then length (rune_list b) else if b = [] then length (rune_list a)
     else lev (rune_list a) (rune_list b) (length (rune_list a)) (length (rune_list b)))"
proof -
  let ?s = "rune_list a" and ?t = "rune_list b"
  let ?R = "length ?s + 1" and ?C = "length ?t + 1"
  let ?d = "fold (\<lambda>i. fold (lev_cell ?s ?t i) [1..<?C]) [1..<?R] (lev_init ?R ?C)"
  have "rows.agree ?R ?C (lev ?s ?t) ?R 1 ?d"
    by (rule rows.fill_grid [where step = "lev_cell ?s ?t"]) (use lev_cell_spec lev_init_agree in auto)
  from rows.grid_filled [OF this, of "length ?s" "length ?t"]
  have "?d ! length ?s ! length ?t = lev ?s ?t (length ?s) (length ?t)" by simp
  then show ?thesis unfolding levenshtein_def Let_def by simp
qed


subsection \<open>Metric facts\<close>

lemma osa_sym: "osa ar br i j = osa br ar j i"
proof (induction ar br i j rule: osa.induct)
  case (3 ar br i j)
  have "osa ar br (i - 1) (j - 1) = osa br ar (j - 1) (i - 1)" if "0 < i \<and> 0 < j \<and> ar ! i = br ! (j - 1) \<and> ar ! (i - 1) = br ! j"
    using 3(4) that by blast
  with 3(1-3) show ?case by (auto simp: Let_def min_def)
qed (auto simp: osa_zero)

lemma lev_sym: "lev ar br i j = lev br ar j i"
  by (induction ar br i j rule: lev.induct) (auto simp: lev_zero min_def)

lemma osa_bounds: "osa ar br i j \<le> max i j \<and> i \<le> osa ar br i j + j \<and> j \<le> osa ar br i j + i"
proof (induction ar br i j rule: osa.induct)
  case (3 ar br i j)
  define m where "m = min (min (osa ar br i (Suc j) + 1) (osa ar br (Suc i) j + 1)) (osa ar br i j + (if ar ! i \<noteq> br ! j then 1 else 0))"
  have m: "m \<le> Suc (max i j) \<and> Suc i \<le> m + Suc j \<and> Suc j \<le> m + Suc i"
    using 3(1-3) unfolding m_def by (cases "ar ! i = br ! j") (simp_all, arith+)
  show ?case
  proof (cases "0 < i \<and> 0 < j \<and> ar ! i = br ! (j - 1) \<and> ar ! (i - 1) = br ! j")
    case True
    define x where "x = osa ar br (i - 1) (j - 1)"
    have eq: "osa ar br (Suc i) (Suc j) = min m (x + 1)" using True by (simp add: Let_def m_def x_def)
    have "i - 1 \<le> x + (j - 1) \<and> j - 1 \<le> x + (i - 1)" using 3(4) True unfolding x_def by blast
    with True have "Suc i \<le> (x + 1) + Suc j" "Suc j \<le> (x + 1) + Suc i" by linarith+
    with m show ?thesis unfolding eq by (cases "m \<le> x + 1") (simp_all add: min_absorb1 min_absorb2)
  next
    case False
    then have "osa ar br (Suc i) (Suc j) = m" by (auto simp: Let_def m_def)
    with m show ?thesis by simp
  qed
qed auto

lemma lev_bounds: "lev ar br i j \<le> max i j \<and> i \<le> lev ar br i j + j \<and> j \<le> lev ar br i j + i"
  by (induction ar br i j rule: lev.induct) auto

lemma osa_zero_iff: "i \<le> length ar \<Longrightarrow> j \<le> length br \<Longrightarrow> osa ar br i j = 0 \<longleftrightarrow> take i ar = take j br"
proof (induction i arbitrary: j)
  case (Suc i)
  show ?case
  proof (cases j)
    case (Suc j')
    have min0: "min (Suc a) b = 0 \<longleftrightarrow> b = 0" "min b (Suc a) = 0 \<longleftrightarrow> b = 0" for a b :: nat by auto
    have "osa ar br (Suc i) (Suc j') = 0 \<longleftrightarrow> osa ar br i j' = 0 \<and> ar ! i = br ! j'"
      by (simp add: Let_def min0)
    also have "\<dots> \<longleftrightarrow> take (Suc i) ar = take (Suc j') br"
      using Suc.prems Suc.IH [of j'] Suc by (auto simp: take_Suc_conv_app_nth)
    finally show ?thesis using Suc by simp
  qed (use Suc.prems in auto)
qed auto

lemma lev_zero_iff: "i \<le> length ar \<Longrightarrow> j \<le> length br \<Longrightarrow> lev ar br i j = 0 \<longleftrightarrow> take i ar = take j br"
proof (induction i arbitrary: j)
  case (Suc i)
  show ?case
  proof (cases j)
    case (Suc j')
    have "lev ar br (Suc i) (Suc j') = 0 \<longleftrightarrow> lev ar br i j' = 0 \<and> ar ! i = br ! j'" by auto
    also have "\<dots> \<longleftrightarrow> take (Suc i) ar = take (Suc j') br"
      using Suc.prems Suc.IH [of j'] Suc by (auto simp: take_Suc_conv_app_nth)
    finally show ?thesis using Suc by simp
  qed (use Suc.prems in auto)
qed auto

lemma osa_le_lev: "osa ar br i j \<le> lev ar br i j"
  by (induction ar br i j rule: lev.induct) (auto simp: Let_def min_def)

text \<open>
  C9. The flat table of \<open>damerauLevenshteinDistanceRunes\<close> computes the optimal-string-alignment
  recurrence, and that distance is symmetric, lies between the difference and the maximum of the
  lengths, and is zero exactly for equal inputs.
\<close>

theorem damerau_levenshtein_correct:
  "damerau_levenshtein ar br = osa ar br (length ar) (length br)
   \<and> damerau_levenshtein ar br = damerau_levenshtein br ar
   \<and> damerau_levenshtein ar br \<le> max (length ar) (length br)
   \<and> nat \<bar>int (length ar) - int (length br)\<bar> \<le> damerau_levenshtein ar br
   \<and> (damerau_levenshtein ar br = 0 \<longleftrightarrow> ar = br)"
proof -
  have "nat \<bar>int (length ar) - int (length br)\<bar> \<le> osa ar br (length ar) (length br)"
    using osa_bounds [of ar br "length ar" "length br"] by linarith
  then show ?thesis
    using osa_sym osa_bounds [of ar br "length ar" "length br"] osa_zero_iff [of "length ar" ar "length br" br]
    by (simp add: damerau_levenshtein_table)
qed

subsection \<open>Similarities\<close>

definition normalized_edit_similarity :: "string \<Rightarrow> string \<Rightarrow> float64" where
  "normalized_edit_similarity a b =
     (if a = [] \<or> b = [] then 0
      else if a = b then 1
      else (let ar = rune_list a; br = rune_list b;
                max_len = (if length br > length ar then length br else length ar)
            in if max_len = 0 then 1
               else (let d0 = int (length ar) - int (length br); len_diff = (if d0 < 0 then - d0 else d0)
                     in if real_of_int len_diff / real max_len > 3 / 10 then 0
                        else max 0 (1 - real (damerau_levenshtein ar br) / real max_len))))"

definition search_token_similarity :: "string \<Rightarrow> string \<Rightarrow> float64" where
  "search_token_similarity q f =
     (if q = [] \<or> f = [] then 0
      else if q = f then 1
      else if has_prefix f q \<or> has_prefix q f then 94 / 100
      else if str_contains f q \<or> str_contains q f then 88 / 100
      else if length (rune_list q) < 4 \<or> length (rune_list f) < 4 then 0
      else (let similarity = normalized_edit_similarity q f in if similarity < 72 / 100 then 0 else similarity))"

text \<open>The loop over the windows of \<open>bestFieldPhraseScore\<close>, in its order.\<close>

definition phrase_windows :: "string list \<Rightarrow> string list \<Rightarrow> string list" where
  "phrase_windows qs fs =
     (let lo = max 1 (length qs - 1); hi = min (length fs) (length qs + 1)
      in concat (map (\<lambda>size. map (\<lambda>i. str_join (take size (drop i fs)) '' '') [0..<length fs + 1 - size]) [lo..<hi + 1]))"

definition best_of :: "float64 list \<Rightarrow> float64" where
  "best_of xs = fold (\<lambda>x best. if x > best then x else best) xs 0"

definition best_field_phrase_score :: "string \<Rightarrow> string list \<Rightarrow> string \<Rightarrow> string list \<Rightarrow> float64" where
  "best_field_phrase_score qn qs fn fs =
     (if qn = [] \<or> fn = [] then 0
      else if fn = qn then 1
      else if has_prefix fn (qn @ '' '') \<or> has_prefix fn qn then 97 / 100
      else if str_contains fn qn then 92 / 100
      else if length qs = 0 \<or> length fs = 0 then 0
      else best_of (map (normalized_edit_similarity qn) (phrase_windows qs fs)))"

record coverage =
  cv_avg :: float64
  cv_coverage :: float64
  cv_exact :: nat
  cv_flags :: "bool list"

definition token_weight :: "(string \<rightharpoonup> float64) \<Rightarrow> string \<Rightarrow> float64" where
  "token_weight idf t = (case idf t of Some v \<Rightarrow> if v > 0 then v else 1 | None \<Rightarrow> 1)"

definition best_similarity :: "string list \<Rightarrow> string \<Rightarrow> float64" where
  "best_similarity fs q = best_of (map (search_token_similarity q) fs)"

definition search_token_coverage :: "string list \<Rightarrow> string list \<Rightarrow> (string \<rightharpoonup> float64) \<Rightarrow> coverage" where
  "search_token_coverage qs fs idf =
     (if length qs = 0 \<or> length fs = 0 then \<lparr>cv_avg = 0, cv_coverage = 0, cv_exact = 0, cv_flags = map (\<lambda>_. False) qs\<rparr>
      else (let total = sum_list (map (token_weight idf) qs);
                sims = sum_list (map (\<lambda>q. best_similarity fs q * token_weight idf q) qs);
                matched = sum_list (map (token_weight idf) (filter (\<lambda>q. best_similarity fs q \<ge> 72 / 100) qs))
            in \<lparr>cv_avg = sims / total, cv_coverage = matched / total,
                cv_exact = length (filter (\<lambda>q. best_similarity fs q = 1) qs),
                cv_flags = map (\<lambda>q. best_similarity fs q \<ge> 72 / 100) qs\<rparr>))"

lemma edit_similarity_range [bound_intros]: "0 \<le> normalized_edit_similarity a b \<and> normalized_edit_similarity a b \<le> 1"
  by (auto simp: normalized_edit_similarity_def Let_def)

lemma token_similarity_range [bound_intros]:
  "search_token_similarity q f = 0 \<or> (72 / 100 \<le> search_token_similarity q f \<and> search_token_similarity q f \<le> 1)"
  using edit_similarity_range [of q f] by (auto simp: search_token_similarity_def Let_def)

lemma best_of_range: "(\<forall>x \<in> set xs. x \<le> 1) \<Longrightarrow> 0 \<le> best_of xs \<and> best_of xs \<le> 1 \<and> (\<forall>x \<in> set xs. x \<le> best_of xs)
    \<and> (best_of xs = 0 \<or> best_of xs \<in> set xs)"
proof -
  have "b \<le> 1 \<Longrightarrow> 0 \<le> b \<Longrightarrow> \<forall>x \<in> set xs. x \<le> 1 \<Longrightarrow>
      b \<le> fold (\<lambda>x best. if x > best then x else best) xs b \<and> fold (\<lambda>x best. if x > best then x else best) xs b \<le> 1
      \<and> (\<forall>x \<in> set xs. x \<le> fold (\<lambda>x best. if x > best then x else best) xs b)
      \<and> (fold (\<lambda>x best. if x > best then x else best) xs b = b \<or> fold (\<lambda>x best. if x > best then x else best) xs b \<in> set xs)"
    for b :: float64 and xs
  proof (induction xs arbitrary: b)
    case (Cons a xs)
    let ?b = "if a > b then a else b"
    have "?b \<le> 1" "0 \<le> ?b" "b \<le> ?b" "a \<le> ?b" "?b = a \<or> ?b = b" using Cons.prems by auto
    with Cons.IH [of ?b] Cons.prems(3) show ?case by (simp del: if_split_asm) (smt (verit, best))
  qed simp
  from this [of 0 xs] show "(\<forall>x \<in> set xs. x \<le> 1) \<Longrightarrow> ?thesis" by (auto simp: best_of_def)
qed


lemma rune_list_nonempty: "a \<noteq> [] \<Longrightarrow> rune_list a \<noteq> []"
  by (cases a) (simp_all add: rune_list_def)

text \<open>
  The length shortcut of \<open>normalizedEditSimilarity\<close> is sound: whenever the exact similarity
  \<open>1 - distance / longer length\<close> is at least 0.7, that is what the function returns; and the function
  is symmetric with values between 0 and 1.
\<close>

theorem edit_similarity_sound:
  assumes "a \<noteq> []" and "b \<noteq> []"
    and "7 / 10 \<le> 1 - real (damerau_levenshtein (rune_list a) (rune_list b)) / real (max (length (rune_list a)) (length (rune_list b)))"
  shows "normalized_edit_similarity a b
      = 1 - real (damerau_levenshtein (rune_list a) (rune_list b)) / real (max (length (rune_list a)) (length (rune_list b)))
    \<and> normalized_edit_similarity b a = normalized_edit_similarity a b
    \<and> normalized_edit_similarity a b \<le> 1"
proof -
  let ?ar = "rune_list a" and ?br = "rune_list b"
  define D where "D = damerau_levenshtein ?ar ?br"
  define M where "M = max (length ?ar) (length ?br)"
  define L where "L = \<bar>int (length ?ar) - int (length ?br)\<bar>"
  have M: "0 < M" using rune_list_nonempty [OF assms(1)] by (cases ?ar) (auto simp: M_def)
  have sym: "damerau_levenshtein ?br ?ar = D" by (simp add: D_def damerau_levenshtein_table osa_sym)
  have same: "a = b \<Longrightarrow> D = 0" using osa_zero_iff [of "length ?ar" ?ar "length ?ar" ?ar] by (simp add: D_def damerau_levenshtein_table)
  have "nat L \<le> D" using osa_bounds [of ?ar ?br "length ?ar" "length ?br"] unfolding D_def L_def damerau_levenshtein_table by linarith
  then have "real_of_int L \<le> real D" by linarith
  then have "real_of_int L / real M \<le> real D / real M" by (rule divide_right_mono) simp
  moreover have S: "7 / 10 \<le> 1 - real D / real M" using assms(3) by (simp add: D_def M_def)
  ultimately have short: "\<not> 3 / 10 < real_of_int L / real M" by linarith
  have len: "(if length ?br > length ?ar then length ?br else length ?ar) = M" "(if length ?ar > length ?br then length ?ar else length ?br) = M"
    by (auto simp: M_def)
  have dif: "(if int (length ?ar) - int (length ?br) < 0 then - (int (length ?ar) - int (length ?br)) else int (length ?ar) - int (length ?br)) = L"
    "(if int (length ?br) - int (length ?ar) < 0 then - (int (length ?br) - int (length ?ar)) else int (length ?br) - int (length ?ar)) = L"
    by (auto simp: L_def)
  have ab: "normalized_edit_similarity a b = 1 - real D / real M"
  proof (cases "a = b")
    case True
    then show ?thesis using same assms(1) by (simp add: normalized_edit_similarity_def)
  next
    case False
    then show ?thesis using assms(1,2) M short S
      unfolding normalized_edit_similarity_def Let_def len dif D_def [symmetric] by simp
  qed
  have ba: "normalized_edit_similarity b a = 1 - real D / real M"
  proof (cases "a = b")
    case True
    then show ?thesis using ab by simp
  next
    case False
    then have "b \<noteq> a" by simp
    then show ?thesis using assms(1,2) M short S
      unfolding normalized_edit_similarity_def Let_def len dif sym by simp
  qed
  show ?thesis using ab ba by (simp add: D_def M_def)
qed

theorem edit_similarity_sound_witness:
  "normalized_edit_similarity ''chromium'' ''chormium'' = 7 / 8"
proof -
  have D: "damerau_levenshtein (rune_list ''chromium'') (rune_list ''chormium'') = 1" by code_simp
  have L: "length (rune_list ''chromium'') = 8" "length (rune_list ''chormium'') = 8" by code_simp+
  from edit_similarity_sound [of "''chromium''" "''chormium''"] show ?thesis by (simp add: D L)
qed

lemma token_weight_pos: "0 < token_weight idf t"
  by (simp add: token_weight_def split: option.splits)

lemma best_similarity_range: "0 \<le> best_similarity fs q \<and> best_similarity fs q \<le> 1"
proof -
  have "\<forall>x \<in> set (map (search_token_similarity q) fs). x \<le> 1" using token_similarity_range by (force)
  from best_of_range [OF this] show ?thesis by (simp add: best_similarity_def)
qed

lemma best_similarity_member: "q \<in> set fs \<Longrightarrow> q \<noteq> [] \<Longrightarrow> best_similarity fs q = 1"
proof -
  assume q: "q \<in> set fs" "q \<noteq> []"
  have all: "\<forall>x \<in> set (map (search_token_similarity q) fs). x \<le> 1" using token_similarity_range by (force)
  have "search_token_similarity q q = 1" using q by (simp add: search_token_similarity_def)
  then have "1 \<le> best_similarity fs q" using best_of_range [OF all] q(1) by (force simp: best_similarity_def)
  then show ?thesis using best_similarity_range [of fs q] by simp
qed

lemma weighted_sum_le:
  assumes "\<And>q. q \<in> set qs \<Longrightarrow> 0 \<le> s q \<and> s q \<le> (1::real)" and "\<And>q. 0 \<le> w q"
  shows "0 \<le> sum_list (map (\<lambda>q. s q * w q) qs) \<and> sum_list (map (\<lambda>q. s q * w q) qs) \<le> sum_list (map w qs)"
  using assms(1)
proof (induction qs)
  case (Cons q qs)
  have "0 \<le> s q * w q" "s q * w q \<le> w q" using Cons.prems assms(2) by (auto intro: mult_left_le_one_le)
  with Cons show ?case by force
qed simp

lemma filtered_sum_le:
  assumes "\<And>q. 0 \<le> (w q :: real)"
  shows "0 \<le> sum_list (map w (filter P qs)) \<and> sum_list (map w (filter P qs)) \<le> sum_list (map w qs)"
  using assms by (induction qs) (auto simp: add_increasing)

lemma sum_weight_pos: "qs \<noteq> [] \<Longrightarrow> (\<And>q. 0 < (w q :: real)) \<Longrightarrow> 0 < sum_list (map w qs)"
  by (induction qs) (auto simp: add_pos_nonneg add_pos_pos less_imp_le split: list.splits, metis add.right_neutral add_pos_pos list.simps(8) sum_list.Nil)

lemma coverage_facts:
  "let c = search_token_coverage qs fs idf
   in 0 \<le> cv_avg c \<and> cv_avg c \<le> 1 \<and> 0 \<le> cv_coverage c \<and> cv_coverage c \<le> 1
      \<and> cv_exact c \<le> length qs \<and> length (cv_flags c) = length qs
      \<and> (qs \<noteq> [] \<and> [] \<notin> set qs \<and> set qs \<subseteq> set fs \<longrightarrow> cv_avg c = 1 \<and> cv_coverage c = 1 \<and> cv_exact c = length qs)"
proof (cases "qs = [] \<or> fs = []")
  case True
  then show ?thesis by (auto simp: search_token_coverage_def Let_def)
next
  case False
  let ?w = "token_weight idf" and ?s = "best_similarity fs"
  have w: "0 \<le> ?w q" for q using token_weight_pos [of idf q] by simp
  have pos: "0 < sum_list (map ?w qs)" using False token_weight_pos by (intro sum_weight_pos) auto
  have 1: "0 \<le> sum_list (map (\<lambda>q. ?s q * ?w q) qs) \<and> sum_list (map (\<lambda>q. ?s q * ?w q) qs) \<le> sum_list (map ?w qs)"
    using best_similarity_range w by (intro weighted_sum_le) auto
  have 2: "0 \<le> sum_list (map ?w (filter (\<lambda>q. 72 / 100 \<le> ?s q) qs)) \<and> sum_list (map ?w (filter (\<lambda>q. 72 / 100 \<le> ?s q) qs)) \<le> sum_list (map ?w qs)"
    using w by (rule filtered_sum_le)
  have full: "\<forall>q \<in> set qs. ?s q = 1" if "[] \<notin> set qs" "set qs \<subseteq> set fs"
    using that best_similarity_member by fastforce
  have all: "sum_list (map (\<lambda>q. ?s q * ?w q) qs) = sum_list (map ?w qs) \<and> filter (\<lambda>q. 72 / 100 \<le> ?s q) qs = qs \<and> filter (\<lambda>q. ?s q = 1) qs = qs"
    if "\<forall>q \<in> set qs. ?s q = 1"
    using that by (simp add: filter_id_conv cong: map_cong)
  have comp: "cv_avg (search_token_coverage qs fs idf) = 1 \<and> cv_coverage (search_token_coverage qs fs idf) = 1
      \<and> cv_exact (search_token_coverage qs fs idf) = length qs" if "[] \<notin> set qs" "set qs \<subseteq> set fs"
    using False pos all [OF full [OF that]] by (simp add: search_token_coverage_def Let_def)
  have "0 \<le> cv_avg (search_token_coverage qs fs idf) \<and> cv_avg (search_token_coverage qs fs idf) \<le> 1
      \<and> 0 \<le> cv_coverage (search_token_coverage qs fs idf) \<and> cv_coverage (search_token_coverage qs fs idf) \<le> 1
      \<and> cv_exact (search_token_coverage qs fs idf) \<le> length qs \<and> length (cv_flags (search_token_coverage qs fs idf)) = length qs"
    using False 1 2 pos by (simp add: search_token_coverage_def Let_def divide_le_eq)
  with comp show ?thesis unfolding Let_def by blast
qed

lemma coverage_range:
  "0 \<le> cv_avg (search_token_coverage qs fs idf) \<and> cv_avg (search_token_coverage qs fs idf) \<le> 1
   \<and> 0 \<le> cv_coverage (search_token_coverage qs fs idf) \<and> cv_coverage (search_token_coverage qs fs idf) \<le> 1"
  using coverage_facts [of qs fs idf] by (simp add: Let_def)

text \<open>
  The coverage of a query by a field is well-formed: average and coverage lie between 0 and 1,
  one flag per query token and at most that many exact matches; and a field that contains every
  (non-empty) query token is covered completely.
\<close>

theorem token_coverage_bounds:
  "let c = search_token_coverage qs fs idf
   in 0 \<le> cv_avg c \<and> cv_avg c \<le> 1 \<and> 0 \<le> cv_coverage c \<and> cv_coverage c \<le> 1
      \<and> cv_exact c \<le> length qs \<and> length (cv_flags c) = length qs
      \<and> (qs \<noteq> [] \<and> [] \<notin> set qs \<and> set qs \<subseteq> set fs \<longrightarrow> cv_avg c = 1 \<and> cv_coverage c = 1 \<and> cv_exact c = length qs)"
  by (rule coverage_facts)

theorem token_coverage_bounds_witness:
  "cv_avg (search_token_coverage [''go'', ''crawler''] [''crawler'', ''in'', ''go''] Map.empty) = 1"
  using token_coverage_bounds [of "[''go'', ''crawler'']" "[''crawler'', ''in'', ''go'']" Map.empty] by (simp add: Let_def)

end
