(* ===== verification/SpellCheck.thy ===== *)
theory SpellCheck
  imports EditDistance
begin

text \<open>
  The spell checker of \<open>internal/storage/spellcheck.go\<close>: the vocabulary with its trigram index, and
  \<open>Suggest\<close>. The rows of the vocabulary query are an argument. Go visits the map of matches in an
  unspecified order and sorts it with an unstable sort: \<open>ids\<close> lists the matched identifiers in the
  order that leaves ties as the code finds them. Indexing outside a slice is \<open>None\<close>.
\<close>

record spell_checker =
  sk_words :: "string list"
  sk_docs :: "int list"
  sk_trigrams :: "string \<Rightarrow> nat list"
  sk_ready :: bool

definition new_spell_checker :: spell_checker where
  "new_spell_checker = \<lparr>sk_words = [], sk_docs = [], sk_trigrams = (\<lambda>_. []), sk_ready = False\<rparr>"

definition trigrams_of :: "rune list \<Rightarrow> string list" where
  "trigrams_of rs = map (\<lambda>i. runes_string (take 3 (drop i rs))) [0..<length rs - 2]"

fun index_rows :: "(string \<times> int) list \<Rightarrow> nat \<Rightarrow> spell_checker \<Rightarrow> spell_checker" where
  "index_rows [] idx sc = sc"
| "index_rows ((term, doc) # rows) idx sc =
     index_rows rows (idx + 1)
       (sc\<lparr>sk_words := sk_words sc @ [term], sk_docs := sk_docs sc @ [doc],
           sk_trigrams := fold (\<lambda>tg m. m(tg := m tg @ [idx])) (trigrams_of (rune_list term)) (sk_trigrams sc)\<rparr>)"

text \<open>\<open>None\<close>: the query, or the iteration over its rows, failed.\<close>

definition load_vocabulary :: "(string \<times> int) list option \<Rightarrow> spell_checker \<Rightarrow> spell_checker" where
  "load_vocabulary rows sc =
     (case rows of None \<Rightarrow> sc | Some rs \<Rightarrow> (index_rows rs 0 new_spell_checker)\<lparr>sk_ready := True\<rparr>)"

definition match_ids :: "spell_checker \<Rightarrow> string list \<Rightarrow> nat list" where
  "match_ids sc tgs = concat (map (sk_trigrams sc) tgs)"

definition match_count :: "spell_checker \<Rightarrow> string list \<Rightarrow> nat \<Rightarrow> nat" where
  "match_count sc tgs i = length (filter ((=) i) (match_ids sc tgs))"

definition top_candidates :: "spell_checker \<Rightarrow> string list \<Rightarrow> nat list \<Rightarrow> nat list" where
  "top_candidates sc tgs ids = take 100 (sort_key (\<lambda>i. - int (match_count sc tgs i)) ids)"

text \<open>The ranking loop; its state is the best term, the best score and the smallest distance so far.\<close>

type_synonym best = "string \<times> float64 \<times> nat"

fun rank_loop :: "spell_checker \<Rightarrow> string \<Rightarrow> nat \<Rightarrow> nat list \<Rightarrow> best \<Rightarrow> best option" where
  "rank_loop sc word max_dist [] b = Some b"
| "rank_loop sc word max_dist (i # ids) (best_term, best_score, min_dist) =
     (if length (sk_words sc) \<le> i \<or> length (sk_docs sc) \<le> i then None
      else (let term = sk_words sc ! i; doc = sk_docs sc ! i; dist = levenshtein word term
            in if dist \<le> max_dist then
                 (let score = 1000 / real (dist + 1) + real_of_int doc
                  in if dist < min_dist \<or> (dist = min_dist \<and> score > best_score)
                     then rank_loop sc word max_dist ids (term, score, dist)
                     else rank_loop sc word max_dist ids (best_term, best_score, min_dist))
               else rank_loop sc word max_dist ids (best_term, best_score, min_dist)))"

definition max_allowed_dist :: "rune list \<Rightarrow> nat" where
  "max_allowed_dist rs = (if 7 \<le> length rs then 3 else 2)"

definition suggest :: "stdlib \<Rightarrow> nat list \<Rightarrow> string \<Rightarrow> spell_checker \<Rightarrow> string option" where
  "suggest E ids word0 sc =
     (if \<not> sk_ready sc then Some []
      else (let word = to_lower E (trim_space word0); rs = rune_list word
            in if length rs < 4 then Some []
               else (let tgs = trigrams_of rs
                     in if match_ids sc tgs = [] then Some []
                        else map_option fst (rank_loop sc word (max_allowed_dist rs) (top_candidates sc tgs ids) ([], -1, 100)))))"

subsection \<open>The index\<close>

definition index_ok :: "spell_checker \<Rightarrow> bool" where
  "index_ok sc \<longleftrightarrow> length (sk_docs sc) = length (sk_words sc) \<and> (\<forall>tg. \<forall>i \<in> set (sk_trigrams sc tg). i < length (sk_words sc))"

lemma fold_trigrams:
  "i \<in> set (fold (\<lambda>tg m. m(tg := m tg @ [idx])) tgs m tg) \<Longrightarrow> i \<in> set (m tg) \<or> i = idx"
proof (induction tgs arbitrary: m)
  case (Cons a tgs)
  from Cons.IH [of "m(a := m a @ [idx])"] Cons.prems show ?case by (auto split: if_splits)
qed simp

lemma index_rows_ok: "index_ok sc \<Longrightarrow> idx = length (sk_words sc) \<Longrightarrow> index_ok (index_rows rows idx sc)"
proof (induction rows arbitrary: idx sc)
  case (Cons row rows)
  obtain w d where row: "row = (w, d)" by force
  let ?sc = "sc\<lparr>sk_words := sk_words sc @ [w], sk_docs := sk_docs sc @ [d],
    sk_trigrams := fold (\<lambda>tg m. m(tg := m tg @ [idx])) (trigrams_of (rune_list w)) (sk_trigrams sc)\<rparr>"
  have "i < Suc (length (sk_words sc))" if "i \<in> set (sk_trigrams ?sc tg)" for tg i
  proof -
    have "i \<in> set (sk_trigrams sc tg) \<or> i = idx" using fold_trigrams that by simp
    then show ?thesis
    proof
      assume "i \<in> set (sk_trigrams sc tg)"
      then have "i < length (sk_words sc)" using Cons.prems(1) unfolding index_ok_def by blast
      then show ?thesis by simp
    qed (use Cons.prems(2) in simp)
  qed
  then have "index_ok ?sc" using Cons.prems by (simp add: index_ok_def)
  then show ?case using Cons.IH [of ?sc "idx + 1"] Cons.prems row by simp
qed simp

lemma load_vocabulary_ok: "index_ok sc \<Longrightarrow> index_ok (load_vocabulary rows sc)"
  using index_rows_ok [of new_spell_checker 0] by (auto simp: load_vocabulary_def index_ok_def new_spell_checker_def split: option.splits)

subsection \<open>The ranking\<close>

definition best_ok :: "spell_checker \<Rightarrow> string \<Rightarrow> nat \<Rightarrow> nat list \<Rightarrow> best \<Rightarrow> bool" where
  "best_ok sc word m seen b \<longleftrightarrow> (case b of (t, s, d) \<Rightarrow>
     (d = 100 \<and> t = [] \<or> (\<exists>i \<in> set seen. t = sk_words sc ! i \<and> d = levenshtein word t \<and> d \<le> m))
     \<and> (\<forall>i \<in> set seen. levenshtein word (sk_words sc ! i) \<le> m \<longrightarrow> d \<le> levenshtein word (sk_words sc ! i)))"

lemma rank_loop_ok:
  assumes "m \<le> 3"
  shows "\<forall>i \<in> set ids. i < length (sk_words sc) \<and> i < length (sk_docs sc) \<Longrightarrow> best_ok sc word m seen b
    \<Longrightarrow> \<exists>b'. rank_loop sc word m ids b = Some b' \<and> best_ok sc word m (seen @ ids) b'"
proof (induction ids arbitrary: seen b)
  case (Cons i ids)
  obtain t s d where b: "b = (t, s, d)" by (cases b)
  let ?w = "sk_words sc ! i" and ?d = "levenshtein word (sk_words sc ! i)"
  let ?s = "1000 / real (?d + 1) + real_of_int (sk_docs sc ! i)"
  define b' where "b' = (if ?d \<le> m \<and> (?d < d \<or> ?d = d \<and> ?s > s) then (?w, ?s, ?d) else b)"
  have step: "rank_loop sc word m (i # ids) b = rank_loop sc word m ids b'"
    using Cons.prems(1) unfolding b b'_def by (auto simp: Let_def)
  have "best_ok sc word m (seen @ [i]) b'"
    using Cons.prems(2) assms unfolding b'_def b best_ok_def by auto
  from Cons.IH [OF _ this] Cons.prems(1) step show ?case by auto
qed simp

text \<open>
  C38. \<open>Suggest\<close> never indexes outside the vocabulary, and a non-empty suggestion is a vocabulary word
  within the allowed distance of the (trimmed, lower-cased) input, 2 for words of up to six runes and 3
  for longer ones, such that none of the ranked candidates is closer.
\<close>

theorem suggestion_is_closest_candidate:
  assumes "set ids = set (match_ids (load_vocabulary rows new_spell_checker) (trigrams_of (rune_list (to_lower E (trim_space word)))))"
  shows "\<exists>t. suggest E ids word (load_vocabulary rows new_spell_checker) = Some t \<and>
     (t \<noteq> [] \<longrightarrow>
        (let sc = load_vocabulary rows new_spell_checker; w = to_lower E (trim_space word); m = max_allowed_dist (rune_list w)
         in t \<in> set (sk_words sc) \<and> levenshtein w t \<le> m
            \<and> (\<forall>i \<in> set (top_candidates sc (trigrams_of (rune_list w)) ids).
                 levenshtein w (sk_words sc ! i) \<le> m \<longrightarrow> levenshtein w t \<le> levenshtein w (sk_words sc ! i))))"
proof -
  let ?sc = "load_vocabulary rows new_spell_checker" and ?w = "to_lower E (trim_space word)"
  let ?m = "max_allowed_dist (rune_list ?w)" and ?top = "top_candidates ?sc (trigrams_of (rune_list ?w)) ids"
  have ok: "index_ok ?sc" by (rule load_vocabulary_ok) (simp add: index_ok_def new_spell_checker_def)
  have "set ?top \<subseteq> set ids" unfolding top_candidates_def by (metis set_sort set_take_subset)
  then have range: "\<forall>i \<in> set ?top. i < length (sk_words ?sc) \<and> i < length (sk_docs ?sc)"
    using assms ok unfolding index_ok_def match_ids_def by fastforce
  have init: "best_ok ?sc ?w ?m [] ([], -1, 100)" by (simp add: best_ok_def)
  have m3: "?m \<le> 3" by (simp add: max_allowed_dist_def)
  obtain t s d where r: "rank_loop ?sc ?w ?m ?top ([], -1, 100) = Some (t, s, d)"
    and b: "best_ok ?sc ?w ?m ?top (t, s, d)"
    using rank_loop_ok [OF m3 range init] by auto
  show ?thesis
  proof (cases "suggest E ids word ?sc = Some []")
    case False
    then have "suggest E ids word ?sc = Some t" using r by (auto simp: suggest_def Let_def split: if_splits)
    then show ?thesis using b range by (auto simp: best_ok_def Let_def intro!: exI [of _ t])
  qed auto
qed


theorem suggestion_is_closest_candidate_witness:
  "\<exists>t. suggest ascii_stdlib [0] ''Kernal'' (load_vocabulary (Some [(''kernel'', 5)]) new_spell_checker) = Some t"
proof -
  have "match_ids (load_vocabulary (Some [(''kernel'', 5)]) new_spell_checker) (trigrams_of (rune_list (to_lower ascii_stdlib (trim_space ''Kernal''))))
      = [0, 0]"
    by code_simp
  then have "set [0] = set (match_ids (load_vocabulary (Some [(''kernel'', 5)]) new_spell_checker)
      (trigrams_of (rune_list (to_lower ascii_stdlib (trim_space ''Kernal'')))))" by simp
  from suggestion_is_closest_candidate [OF this] show ?thesis by blast
qed

end
