(* ===== verification/RenderBacklog.thy ===== *)
theory RenderBacklog
  imports Frontier Config
begin

text \<open>
  The browser-render backlog of \<open>internal/crawler/engine.go\<close>: the list of pages waiting for the browser
  and the set of keys that keeps a page from waiting twice. Both are guarded by \<open>renderMu\<close>, so every
  operation is one step. The attempt counter and the time at which an item becomes available are the
  fields the retry path changes.
\<close>

record render_item =
  ri_job :: job
  ri_url :: rawurl
  ri_reason :: string
  ri_attempts :: int
  ri_available :: gotime

record backlog =
  bl_items :: "render_item list"
  bl_keys :: "string set"

definition empty_backlog :: backlog where
  "empty_backlog = \<lparr>bl_items = [], bl_keys = {}\<rparr>"

definition rendering_enabled :: "rendering_config \<Rightarrow> bool" where
  "rendering_enabled c \<longleftrightarrow> re_enabled c \<and> re_mode c \<noteq> ''disabled''"

definition render_key :: "stdlib \<Rightarrow> rawurl \<Rightarrow> string \<Rightarrow> string" where
  "render_key E url reason = fingerprint_url E url @ '':'' @ reason"

definition item_key :: "stdlib \<Rightarrow> render_item \<Rightarrow> string" where
  "item_key E it = render_key E (ri_url it) (ri_reason it)"

definition key_queued :: "backlog \<Rightarrow> string \<Rightarrow> bool" where
  "key_queued b k \<longleftrightarrow> k \<in> bl_keys b"

definition queue_key :: "backlog \<Rightarrow> string \<Rightarrow> backlog" where
  "queue_key b k = b\<lparr>bl_keys := insert k (bl_keys b)\<rparr>"

definition append_item :: "stdlib \<Rightarrow> render_item \<Rightarrow> backlog \<Rightarrow> backlog" where
  "append_item E it b = (let b1 = queue_key b (item_key E it) in b1\<lparr>bl_items := bl_items b1 @ [it]\<rparr>)"

text \<open>
  \<open>enqueueRenderBacklog\<close>: true when the page waits for the browser afterwards. \<open>has_renderer\<close> is
  \<open>e.renderer != nil\<close>; the item holds a copy of the job.
\<close>

definition enqueue_render :: "stdlib \<Rightarrow> rendering_config \<Rightarrow> bool \<Rightarrow> gotime \<Rightarrow> job \<Rightarrow> rawurl \<Rightarrow> string \<Rightarrow> backlog \<Rightarrow> bool \<times> backlog" where
  "enqueue_render E cfg has_renderer now job target reason b =
     (if \<not> has_renderer \<or> \<not> rendering_enabled cfg then (False, b)
      else if is_non_indexable E target then (False, b)
      else (let target1 = (case canonicalize_url E target of None \<Rightarrow> target | Some (normalized, _) \<Rightarrow> normalized);
                key = render_key E target1 reason
            in if key_queued b key then (True, b)
               else (True, append_item E \<lparr>ri_job = job, ri_url = target1, ri_reason = reason, ri_attempts = 0, ri_available = now\<rparr> b)))"

definition pop_render :: "stdlib \<Rightarrow> backlog \<Rightarrow> (render_item \<times> backlog) option" where
  "pop_render E b =
     (case bl_items b of
        [] \<Rightarrow> None
      | it # rest \<Rightarrow> Some (it, b\<lparr>bl_items := rest, bl_keys := bl_keys b - {item_key E it}\<rparr>))"

definition push_render :: "stdlib \<Rightarrow> render_item \<Rightarrow> backlog \<Rightarrow> backlog" where
  "push_render E it b = (if key_queued b (item_key E it) then b else append_item E it b)"

subsection \<open>The key set is the keys of the waiting items\<close>

text \<open>The keys are a membership filter without false positives until an item is popped.\<close>

interpretation waiting: seen_filter key_queued queue_key
  by unfold_locales (simp_all add: key_queued_def queue_key_def)

definition backlog_wf :: "stdlib \<Rightarrow> backlog \<Rightarrow> bool" where
  "backlog_wf E b \<longleftrightarrow> distinct (map (item_key E) (bl_items b)) \<and> bl_keys b = set (map (item_key E) (bl_items b))"

lemma wf_empty_backlog: "backlog_wf E empty_backlog"
  by (simp add: backlog_wf_def empty_backlog_def)

lemma append_item_simps [simp]:
  "bl_items (append_item E it b) = bl_items b @ [it]"
  "bl_keys (append_item E it b) = insert (item_key E it) (bl_keys b)"
  by (simp_all add: append_item_def queue_key_def Let_def)

lemma wf_append: "backlog_wf E b \<Longrightarrow> \<not> key_queued b (item_key E it) \<Longrightarrow> backlog_wf E (append_item E it b)"
  by (simp add: backlog_wf_def key_queued_def)

lemma wf_push_render: "backlog_wf E b \<Longrightarrow> backlog_wf E (push_render E it b)"
  by (simp add: push_render_def wf_append)

lemma wf_pop_render: "backlog_wf E b \<Longrightarrow> pop_render E b = Some (it, b') \<Longrightarrow> backlog_wf E b' \<and> \<not> key_queued b' (item_key E it)"
  by (auto simp: pop_render_def backlog_wf_def key_queued_def split: list.splits)

definition render_target :: "stdlib \<Rightarrow> rawurl \<Rightarrow> rawurl" where
  "render_target E target = (case canonicalize_url E target of None \<Rightarrow> target | Some (normalized, _) \<Rightarrow> normalized)"

lemma enqueue_render_unfold:
  "enqueue_render E cfg has_renderer now job target reason b =
    (if \<not> has_renderer \<or> \<not> rendering_enabled cfg \<or> is_non_indexable E target then (False, b)
     else (True, push_render E \<lparr>ri_job = job, ri_url = render_target E target, ri_reason = reason, ri_attempts = 0, ri_available = now\<rparr> b))"
  by (simp add: enqueue_render_def push_render_def render_target_def item_key_def Let_def)

lemma wf_enqueue_render: "backlog_wf E b \<Longrightarrow> backlog_wf E (snd (enqueue_render E cfg r now job target reason b))"
  by (simp add: enqueue_render_unfold wf_push_render)

text \<open>The clients of the backlog: crawl workers add pages, workers without a job take them and may put them back.\<close>

inductive backlog_step for E cfg has_renderer where
  bs_enqueue: "backlog_step E cfg has_renderer b (snd (enqueue_render E cfg has_renderer now job target reason b))"
| bs_pop: "pop_render E b = Some (it, b') \<Longrightarrow> backlog_step E cfg has_renderer b b'"
| bs_push: "backlog_step E cfg has_renderer b (push_render E it b)"

lemma wf_backlog_steps: "(backlog_step E cfg r)\<^sup>*\<^sup>* b b' \<Longrightarrow> backlog_wf E b \<Longrightarrow> backlog_wf E b'"
proof (induction rule: rtranclp_induct)
  case (step b1 b2)
  from step(2) step.IH [OF step(4)] show ?case
    by (cases rule: backlog_step.cases) (auto simp: wf_enqueue_render wf_push_render dest: wf_pop_render)
qed simp

subsection \<open>Properties\<close>

text \<open>
  The render backlog never holds two items with the same key, its key set is exactly the keys of
  the waiting items (so no key blocks a page that is not waiting), and while a page waits queueing
  it again for the same reason answers true and changes nothing.
\<close>

theorem backlog_keys_exact:
  assumes "(backlog_step E cfg has_renderer)\<^sup>*\<^sup>* empty_backlog b"
  shows "distinct (map (item_key E) (bl_items b)) \<and> (\<forall>k. key_queued b k \<longleftrightarrow> (\<exists>it \<in> set (bl_items b). item_key E it = k))
    \<and> (\<forall>now job target reason b'. enqueue_render E cfg has_renderer now job target reason b = (True, b') \<longrightarrow>
         (\<forall>now' job'. enqueue_render E cfg has_renderer now' job' target reason b' = (True, b')))"
proof -
  have wf: "backlog_wf E b" using wf_backlog_steps [OF assms wf_empty_backlog] .
  have again: "enqueue_render E cfg has_renderer now' job' target reason b' = (True, b')"
    if "enqueue_render E cfg has_renderer now job target reason b = (True, b')" for now job target reason b' now' job'
    using that by (auto simp: enqueue_render_unfold push_render_def key_queued_def item_key_def split: if_splits)
  show ?thesis using wf again by (auto simp: backlog_wf_def key_queued_def)
qed

definition sample_rendering :: rendering_config where
  "sample_rendering = default_rendering\<lparr>re_enabled := True\<rparr>"

theorem backlog_keys_exact_witness:
  "let b = snd (enqueue_render ascii_stdlib sample_rendering True 5 (sample_job ''a.org'' 1) ''http://a.org/x'' ''force'' empty_backlog)
   in distinct (map (item_key ascii_stdlib) (bl_items b)) \<and> key_queued b ''http://a.org/x:force''"
proof -
  let ?b = "snd (enqueue_render ascii_stdlib sample_rendering True 5 (sample_job ''a.org'' 1) ''http://a.org/x'' ''force'' empty_backlog)"
  have "(backlog_step ascii_stdlib sample_rendering True)\<^sup>*\<^sup>* empty_backlog ?b"
    by (rule r_into_rtranclp, rule bs_enqueue)
  note ok = backlog_keys_exact [OF this]
  have ready: "\<not> is_non_indexable ascii_stdlib ''http://a.org/x''" "render_target ascii_stdlib ''http://a.org/x'' = ''http://a.org/x''"
    "fingerprint_url ascii_stdlib ''http://a.org/x'' = ''http://a.org/x''" by code_simp+
  have enabled: "rendering_enabled sample_rendering"
    by (simp add: rendering_enabled_def sample_rendering_def default_rendering_def)
  have "key_queued ?b ''http://a.org/x:force''"
    by (simp add: enqueue_render_unfold push_render_def item_key_def render_key_def ready enabled) (simp add: key_queued_def item_key_def render_key_def ready)
  with ok show ?thesis unfolding Let_def by blast
qed

end
