(* ===== verification/Proxy.thy ===== *)
theory Proxy
  imports GoUrl "HOL-Library.Word"
begin

text \<open>
  The proxy manager of \<open>internal/crawler/proxy_manager.go\<close>. A client is named by its position in the
  priority list, as the code names it by pointer; the status and the failure counter are atomics, so
  every operation on them is a step. Whether a SOCKS dialer can be made (\<open>proxy.FromURL\<close>) is an
  argument; transports, cookies and DNS caches are not modelled.
\<close>

datatype proxy_status = StatusHealthy | StatusDown

record proxy_client =
  px_url :: string
  px_direct :: bool
  px_status :: proxy_status
  px_failures :: "32 word"

definition proxy_fail_threshold :: int where
  "proxy_fail_threshold = 3"

text \<open>One round of the constructor's loop; \<open>None\<close> is a proxy that is ignored.\<close>

definition make_client :: "stdlib \<Rightarrow> (url \<Rightarrow> bool) \<Rightarrow> string \<Rightarrow> proxy_client option" where
  "make_client E socks_ok purl =
     (let client = \<lparr>px_url = purl, px_direct = False, px_status = StatusHealthy, px_failures = 0\<rparr>
      in if purl = ''direct'' \<or> purl = [] then Some (client\<lparr>px_direct := True, px_url := ''direct''\<rparr>)
         else (case url_parse E purl of
                 None \<Rightarrow> None
               | Some u \<Rightarrow>
                   if u_scheme u = ''socks5'' \<or> u_scheme u = ''socks5h''
                   then (if socks_ok u then Some client else None)
                   else Some client))"

fun make_clients :: "stdlib \<Rightarrow> (url \<Rightarrow> bool) \<Rightarrow> string list \<Rightarrow> proxy_client list" where
  "make_clients E socks_ok [] = []"
| "make_clients E socks_ok (purl # purls) =
     (case make_client E socks_ok purl of
        None \<Rightarrow> make_clients E socks_ok purls
      | Some p \<Rightarrow> p # make_clients E socks_ok purls)"

text \<open>\<open>NewProxyManager\<close>; the recursive call for the case without a valid proxy is written out.\<close>

definition new_proxy_manager :: "stdlib \<Rightarrow> (url \<Rightarrow> bool) \<Rightarrow> string list \<Rightarrow> proxy_client list" where
  "new_proxy_manager E socks_ok purls =
     (let proxies = make_clients E socks_ok (if purls = [] then [''direct''] else purls)
      in if proxies = [] then make_clients E socks_ok [''direct''] else proxies)"

fun first_healthy :: "proxy_client list \<Rightarrow> nat option" where
  "first_healthy [] = None"
| "first_healthy (p # ps) = (if px_status p = StatusHealthy then Some 0 else map_option Suc (first_healthy ps))"

text \<open>\<open>GetClient\<close>; \<open>None\<close> is the panic of indexing an empty list.\<close>

definition get_client :: "proxy_client list \<Rightarrow> nat option" where
  "get_client pm = (case first_healthy pm of Some i \<Rightarrow> Some i | None \<Rightarrow> if pm = [] then None else Some 0)"

definition mark_client :: "proxy_client \<Rightarrow> proxy_client" where
  "mark_client p =
     (if px_direct p then p
      else (let fails = px_failures p + 1; p1 = p\<lparr>px_failures := fails\<rparr>
            in if proxy_fail_threshold \<le> sint fails \<and> px_status p1 = StatusHealthy then p1\<lparr>px_status := StatusDown\<rparr> else p1))"

definition mark_down :: "nat \<Rightarrow> proxy_client list \<Rightarrow> proxy_client list" where
  "mark_down i pm = pm[i := mark_client (pm ! i)]"

definition reset_client :: "proxy_client \<Rightarrow> proxy_client" where
  "reset_client p = p\<lparr>px_failures := 0\<rparr>"

definition reset_failures :: "nat \<Rightarrow> proxy_client list \<Rightarrow> proxy_client list" where
  "reset_failures i pm = pm[i := reset_client (pm ! i)]"

text \<open>The health check of one client; \<open>None\<close> is an error of the request, otherwise the status code.\<close>

definition check_proxy :: "int option \<Rightarrow> proxy_client \<Rightarrow> proxy_client" where
  "check_proxy resp p =
     (case resp of
        None \<Rightarrow> (if px_status p = StatusHealthy then p\<lparr>px_status := StatusDown\<rparr> else p)
      | Some code \<Rightarrow>
          (let p1 = reset_client p
           in if px_status p = StatusDown then p1\<lparr>px_status := StatusHealthy\<rparr> else p1))"

text \<open>Every goroutine of a round works on its own client, so their order does not matter.\<close>

definition check_all_proxies :: "int option list \<Rightarrow> proxy_client list \<Rightarrow> proxy_client list" where
  "check_all_proxies resps pm = map2 check_proxy resps pm"

definition monitored :: "proxy_client list \<Rightarrow> bool" where
  "monitored pm \<longleftrightarrow> \<not> length pm \<le> 1"

definition primary_proxy_url :: "proxy_client list \<Rightarrow> string" where
  "primary_proxy_url pm = (if 0 < length pm \<and> \<not> px_direct (pm ! 0) then px_url (pm ! 0) else [])"

subsection \<open>There is always a client\<close>

lemma new_proxy_manager_nonempty: "new_proxy_manager E socks_ok purls \<noteq> []"
proof -
  have "make_clients E socks_ok [''direct''] \<noteq> []" by (simp add: make_client_def Let_def)
  then show ?thesis unfolding new_proxy_manager_def Let_def by presburger
qed

definition fresh_client :: "proxy_client \<Rightarrow> bool" where
  "fresh_client p \<longleftrightarrow> px_status p = StatusHealthy \<and> px_failures p = 0"

lemma make_client_fresh: "make_client E socks_ok purl = Some p \<Longrightarrow> fresh_client p"
  by (auto simp: make_client_def Let_def fresh_client_def split: option.splits if_splits)

lemma make_clients_fresh: "list_all fresh_client (make_clients E socks_ok purls)"
  by (induction purls) (auto split: option.split dest: make_client_fresh)

lemma new_proxy_manager_fresh: "list_all fresh_client (new_proxy_manager E socks_ok purls)"
  unfolding new_proxy_manager_def Let_def by (simp only: make_clients_fresh split: if_split) simp

lemma first_healthy_Some:
  "first_healthy pm = Some i \<longleftrightarrow>
    i < length pm \<and> px_status (pm ! i) = StatusHealthy \<and> (\<forall>j < i. px_status (pm ! j) = StatusDown)"
proof (induction pm arbitrary: i)
  case (Cons p pm)
  have "px_status p = StatusDown \<longleftrightarrow> px_status p \<noteq> StatusHealthy" by (cases "px_status p") auto
  then show ?case by (cases i) (auto simp: Cons.IH less_Suc_eq_0_disj)
qed simp

lemma first_healthy_None: "first_healthy pm = None \<longleftrightarrow> (\<forall>i < length pm. px_status (pm ! i) = StatusDown)"
proof (induction pm)
  case (Cons p pm)
  have "px_status p = StatusDown \<longleftrightarrow> px_status p \<noteq> StatusHealthy" by (cases "px_status p") auto
  then show ?case by (auto simp: Cons.IH less_Suc_eq_0_disj)
qed simp

subsection \<open>The failure threshold\<close>

text \<open>What the fetcher does to the clients: an error marks one, a success resets its counter.\<close>

datatype fetch_event = Failed nat | Worked nat

primrec event_client :: "fetch_event \<Rightarrow> nat" where
  "event_client (Failed i) = i"
| "event_client (Worked i) = i"

primrec apply_event :: "fetch_event \<Rightarrow> proxy_client list \<Rightarrow> proxy_client list" where
  "apply_event (Failed i) pm = mark_down i pm"
| "apply_event (Worked i) pm = reset_failures i pm"

text \<open>The number of failures since the last success of client \<open>i\<close>.\<close>

fun streak :: "nat \<Rightarrow> fetch_event list \<Rightarrow> nat" where
  "streak i [] = 0"
| "streak i (Failed j # es) = (if j = i then streak i es + 1 else streak i es)"
| "streak i (Worked j # es) = (if j = i then 0 else streak i es)"

lemma apply_event_length [simp]: "length (apply_event e pm) = length pm"
  by (cases e) (simp_all add: mark_down_def reset_failures_def)

lemma apply_event_other: "event_client e \<noteq> i \<Longrightarrow> apply_event e pm ! i = pm ! i"
  by (cases e) (simp_all add: mark_down_def reset_failures_def)

lemma foldr_events_length [simp]: "length (foldr apply_event es pm) = length pm"
  by (induction es) simp_all

lemma streak_le: "streak i es \<le> length es"
  by (induction i es rule: streak.induct) auto

lemma sint_Suc_32: "int n < 2 ^ 31 - 1 \<Longrightarrow> sint (word_of_nat n :: 32 word) = int n \<Longrightarrow> sint (word_of_nat n + 1 :: 32 word) = int n + 1"
  by (simp add: sint_word_ariths(1) signed_take_bit_int_eq_self)

lemma sint_nat_32: "int n < 2 ^ 31 \<Longrightarrow> sint (word_of_nat n :: 32 word) = int n"
proof (induction n)
  case (Suc n)
  then have "sint (word_of_nat n + 1 :: 32 word) = int n + 1" by (intro sint_Suc_32) simp_all
  then show ?case by (simp add: add.commute)
qed simp

text \<open>The events are listed last first, so that a run is a \<open>foldr\<close>.\<close>

lemma events_status:
  assumes "i < length pm" and "\<not> px_direct (pm ! i)" "px_status (pm ! i) = StatusHealthy" "px_failures (pm ! i) = 0"
    and "length es < 2 ^ 31"
  shows "px_failures (foldr apply_event es pm ! i) = word_of_nat (streak i es) \<and> \<not> px_direct (foldr apply_event es pm ! i)
    \<and> (px_status (foldr apply_event es pm ! i) = StatusDown \<longleftrightarrow> (\<exists>n. 3 \<le> streak i (drop n es)))"
  using assms(5)
proof (induction es)
  case Nil
  then show ?case using assms(2-4) by simp
next
  case (Cons e es)
  let ?p = "foldr apply_event es pm ! i"
  have ih: "px_failures ?p = word_of_nat (streak i es)" "\<not> px_direct ?p"
    "px_status ?p = StatusDown \<longleftrightarrow> (\<exists>n. 3 \<le> streak i (drop n es))" using Cons by simp_all
  have ex: "(\<exists>n. 3 \<le> streak i (drop n (e # es))) \<longleftrightarrow> 3 \<le> streak i (e # es) \<or> (\<exists>n. 3 \<le> streak i (drop n es))"
    by (metis drop0 drop_Suc_Cons not0_implies_Suc)
  have sint: "sint (word_of_nat (streak i es) + 1 :: 32 word) = int (streak i es) + 1"
    using sint_nat_32 [of "streak i es + 1"] streak_le [of i es] Cons.prems by (simp add: add.commute)
  have here: "i < length (foldr apply_event es pm)" using assms(1) by simp
  have two: "px_status ?p = StatusHealthy \<longleftrightarrow> px_status ?p \<noteq> StatusDown" by (cases "px_status ?p") auto
  show ?case
  proof (cases "event_client e = i")
    case False
    then have "streak i (e # es) = streak i es" by (cases e) auto
    with False ih ex show ?thesis by (simp add: apply_event_other) (metis drop0)
  next
    case True
    show ?thesis
    proof (cases e)
      case (Failed j)
      then have "apply_event e (foldr apply_event es pm) ! i = mark_client ?p"
        using True here by (simp add: mark_down_def)
      then show ?thesis using True Failed ih ex sint two
        by (auto simp: mark_client_def Let_def proxy_fail_threshold_def add.commute)
    next
      case (Worked j)
      then have "apply_event e (foldr apply_event es pm) ! i = reset_client ?p"
        using True here by (simp add: reset_failures_def)
      then show ?thesis using True Worked ih ex by (simp add: reset_client_def)
    qed
  qed
qed

lemma events_direct:
  assumes "i < length pm" and "px_direct (pm ! i)" "px_status (pm ! i) = StatusHealthy"
  shows "px_status (foldr apply_event es pm ! i) = StatusHealthy \<and> px_direct (foldr apply_event es pm ! i)"
proof (induction es)
  case (Cons e es)
  then show ?case
    using assms(1) by (cases e; cases "event_client e = i") (auto simp: mark_down_def reset_failures_def mark_client_def reset_client_def nth_list_update)
qed (use assms in simp)

lemma drop_rev_take: "(\<exists>n. P (drop n (rev es))) \<longleftrightarrow> (\<exists>n. P (rev (take n es)))"
proof
  assume "\<exists>n. P (drop n (rev es))"
  then obtain n where "P (drop n (rev es))" ..
  then have "P (rev (take (length es - n) es))" by (simp add: drop_rev)
  then show "\<exists>n. P (rev (take n es))" ..
next
  assume "\<exists>n. P (rev (take n es))"
  then obtain n where "P (rev (take n es))" ..
  then have "P (drop (length es - n) (rev es))" by (simp add: rev_take)
  then show "\<exists>n. P (drop n (rev es))" ..
qed

subsection \<open>Properties\<close>

text \<open>
  \<open>GetClient\<close> never panics on a manager made by \<open>NewProxyManager\<close>, whatever the status of
  its clients: it returns the first healthy client of the priority list, and the first client when all are down.
\<close>

theorem get_client_total:
  assumes "length pm = length (new_proxy_manager E socks_ok purls)"
  shows "\<exists>i. get_client pm = Some i \<and> i < length pm
    \<and> (if \<exists>j < length pm. px_status (pm ! j) = StatusHealthy
       then px_status (pm ! i) = StatusHealthy \<and> (\<forall>j < i. px_status (pm ! j) = StatusDown)
       else i = 0)"
proof -
  have ne: "pm \<noteq> []" using assms new_proxy_manager_nonempty [of E socks_ok purls] by auto
  show ?thesis
  proof (cases "first_healthy pm")
    case None
    then have "\<not> (\<exists>j < length pm. px_status (pm ! j) = StatusHealthy)" using first_healthy_None [of pm] by auto
    then show ?thesis using None ne by (simp add: get_client_def)
  next
    case (Some i)
    then show ?thesis using first_healthy_Some [of pm i] by (auto simp: get_client_def)
  qed
qed

theorem get_client_total_witness:
  "\<exists>i. get_client (mark_down 0 (new_proxy_manager ascii_stdlib (\<lambda>_. True) [])) = Some i"
  using get_client_total [of "mark_down 0 (new_proxy_manager ascii_stdlib (\<lambda>_. True) [])" ascii_stdlib "\<lambda>_. True" "[]"]
  by (auto simp: mark_down_def)

text \<open>
  C14. The fetcher takes a proxy out of service exactly after three failures in a row: after fewer than
  \<open>2 ^ 31\<close> events a proxy that started healthy is down if and only if at some moment three failures of
  it had come with no success of it between them. Events of the other clients do not matter, and a
  direct connection never goes down.
\<close>

theorem proxy_down_after_three:
  assumes "i < length (new_proxy_manager E socks_ok purls)" and "length es < 2 ^ 31"
  shows "px_status (fold apply_event es (new_proxy_manager E socks_ok purls) ! i) = StatusDown \<longleftrightarrow>
    \<not> px_direct (new_proxy_manager E socks_ok purls ! i) \<and> (\<exists>n. 3 \<le> streak i (rev (take n es)))"
proof -
  let ?pm = "new_proxy_manager E socks_ok purls"
  have fresh: "px_status (?pm ! i) = StatusHealthy" "px_failures (?pm ! i) = 0"
    using new_proxy_manager_fresh [of E socks_ok purls] assms(1) by (simp_all add: list_all_length fresh_client_def)
  show ?thesis
  proof (cases "px_direct (?pm ! i)")
    case True
    then show ?thesis using events_direct [OF assms(1) True fresh(1), of "rev es"] by (simp add: foldr_conv_fold)
  next
    case False
    show ?thesis using events_status [OF assms(1) False fresh, of "rev es"] assms(2) False drop_rev_take [of "\<lambda>xs. 3 \<le> streak i xs" es]
      by (simp add: foldr_conv_fold)
  qed
qed

theorem proxy_down_after_three_witness:
  "px_status (fold apply_event [Failed 0, Failed 1, Failed 0, Failed 0] (new_proxy_manager ascii_stdlib (\<lambda>_. True) [''http://p:1'', ''direct'']) ! 0)
    = StatusDown"
proof -
  let ?pm = "new_proxy_manager ascii_stdlib (\<lambda>_. True) [''http://p:1'', ''direct'']"
  let ?es = "[Failed 0, Failed 1, Failed 0, Failed 0]"
  have pm: "length ?pm = 2" "\<not> px_direct (?pm ! 0)" by code_simp+
  have "3 \<le> streak 0 (rev (take 4 ?es))" by simp
  then have "\<exists>n. 3 \<le> streak 0 (rev (take n ?es))" ..
  then show ?thesis using proxy_down_after_three [of 0 ascii_stdlib "\<lambda>_. True" "[''http://p:1'', ''direct'']" ?es] pm by simp
qed

end
