(* ===== verification/Fetcher.thy ===== *)
theory Fetcher
  imports Proxy Prelude
begin

text \<open>
  The HTTP fetcher of \<open>internal/crawler/fetcher.go\<close>: one request, the retry loop with its per-host
  backoff, and the content types. What the network answers is an argument: the outcome of an attempt
  through a client, the clock, the jitter, and whether the context ended while the loop waited.
\<close>

record fetch_result =
  rs_status :: int
  rs_body :: string
  rs_ctype :: string
  rs_final :: rawurl
  rs_duration :: duration
  rs_truncated :: bool
  rs_mode :: string
  rs_reason :: string

text \<open>
  What the loop asks of an error: whether it is a deadline, a cancellation, or a connection the target
  dropped (\<open>EOF\<close> or a reset).
\<close>

record net_error =
  ne_deadline :: bool
  ne_canceled :: bool
  ne_target_drop :: bool

text \<open>A response: the bytes the server sends, and the error that ends them, if any.\<close>

record http_response =
  hr_status :: int
  hr_ctype :: string
  hr_final :: rawurl
  hr_body :: string
  hr_read_err :: "net_error option"
  hr_duration :: duration

datatype once_error = OnceUnsupported | OnceNet net_error

subsection \<open>Content types\<close>

definition is_html_content_type :: "stdlib \<Rightarrow> string \<Rightarrow> bool" where
  "is_html_content_type E ct0 =
     (let ct = to_lower E ct0 in str_contains ct ''text/html'' \<or> str_contains ct ''application/xhtml+xml'')"

definition discovery_types :: "string list" where
  "discovery_types =
     [''text/css'',
      ''application/javascript'', ''text/javascript'', ''application/x-javascript'', ''application/ecmascript'',
      ''application/json'', ''application/ld+json'',
      ''application/xml'', ''text/xml'', ''application/rss+xml'', ''application/atom+xml'']"

definition is_allowed_content_type :: "stdlib \<Rightarrow> string \<Rightarrow> bool \<times> bool" where
  "is_allowed_content_type E ct0 =
     (let ct = to_lower E ct0
      in if str_contains ct ''text/html'' \<or> str_contains ct ''application/xhtml+xml'' then (True, True)
         else if \<exists>d \<in> set discovery_types. str_contains ct d then (False, True)
         else (False, False))"

subsection \<open>One request\<close>

definition body_limit :: "bool \<Rightarrow> int \<Rightarrow> int" where
  "body_limit html max_kb =
     (let max_bytes = max_kb * 1024
      in if \<not> html \<and> 256 * 1024 < max_bytes then 256 * 1024 else max_bytes)"

text \<open>
  \<open>fetchOnce\<close>. Reading through \<open>io.LimitReader\<close> meets the server's error only when the body is shorter
  than the limit; one further byte tells whether the body was cut.
\<close>

definition fetch_once :: "stdlib \<Rightarrow> int \<Rightarrow> net_error + http_response \<Rightarrow> fetch_result option \<times> once_error option" where
  "fetch_once E max_kb out =
     (case out of
        Inl e \<Rightarrow> (None, Some (OnceNet e))
      | Inr resp \<Rightarrow>
          (let (html, discovery) = is_allowed_content_type E (hr_ctype resp);
               result = \<lparr>rs_status = hr_status resp, rs_body = [], rs_ctype = hr_ctype resp, rs_final = hr_final resp,
                         rs_duration = hr_duration resp, rs_truncated = False, rs_mode = ''http'', rs_reason = []\<rparr>
           in if \<not> html \<and> \<not> discovery then (Some result, Some OnceUnsupported)
              else (let limit = nat (body_limit html max_kb)
                    in case hr_read_err resp of
                         Some e \<Rightarrow>
                           (if length (hr_body resp) < limit then (None, Some (OnceNet e))
                            else (Some (result\<lparr>rs_body := take limit (hr_body resp),
                                               rs_truncated := limit < length (hr_body resp)\<rparr>), None))
                       | None \<Rightarrow>
                           (Some (result\<lparr>rs_body := take limit (hr_body resp),
                                         rs_truncated := limit < length (hr_body resp)\<rparr>), None))))"

subsection \<open>Backoff\<close>

record backoff_entry =
  hb_4xx :: int
  hb_next :: gotime

record fetcher =
  ft_max_kb :: int
  ft_max_retries :: int
  ft_proxies :: "proxy_client list"
  ft_backoff :: "string \<rightharpoonup> backoff_entry"

definition backoff_base :: duration where "backoff_base = 2 * second"
definition backoff_max :: duration where "backoff_max = 60 * second"
definition backoff_jitter :: duration where "backoff_jitter = 500 * millisecond"

definition empty_entry :: backoff_entry where
  "empty_entry = \<lparr>hb_4xx = 0, hb_next = time_zero\<rparr>"

definition get_host_backoff :: "string \<Rightarrow> fetcher \<Rightarrow> backoff_entry \<times> fetcher" where
  "get_host_backoff host f =
     (case ft_backoff f host of
        Some entry \<Rightarrow> (entry, f)
      | None \<Rightarrow> (empty_entry, f\<lparr>ft_backoff := (ft_backoff f)(host \<mapsto> empty_entry)\<rparr>))"

definition record_success :: "string \<Rightarrow> fetcher \<Rightarrow> fetcher" where
  "record_success host f =
     (case ft_backoff f host of
        None \<Rightarrow> f
      | Some entry \<Rightarrow> f\<lparr>ft_backoff := (ft_backoff f)(host \<mapsto> entry\<lparr>hb_4xx := 0\<rparr>)\<rparr>)"

text \<open>\<open>jitter\<close> is the value of the variable of that name, from \<open>- 500 ms\<close> up to but excluding \<open>500 ms\<close>.\<close>

definition throttle_delay :: "int \<Rightarrow> duration \<Rightarrow> duration" where
  "throttle_delay n jitter =
     (let delay = backoff_base * 2 ^ nat (min n 5) + jitter
      in if backoff_max < delay then backoff_max else delay)"

definition record_throttle :: "gotime \<Rightarrow> duration \<Rightarrow> string \<Rightarrow> fetcher \<Rightarrow> fetcher" where
  "record_throttle now jitter host f =
     (let entry = (case ft_backoff f host of Some entry \<Rightarrow> entry | None \<Rightarrow> empty_entry);
          n = hb_4xx entry + 1
      in f\<lparr>ft_backoff := (ft_backoff f)(host \<mapsto> \<lparr>hb_4xx = n, hb_next = now + throttle_delay n jitter\<rparr>)\<rparr>)"

subsection \<open>The retry loop\<close>

datatype fetch_error = ErrParseURL | ErrContext | ErrUnsupported | ErrOnce once_error | ErrAttempts "once_error option" | FetchPanic

record fetch_env =
  fe_do :: "nat \<Rightarrow> nat \<Rightarrow> net_error + http_response"
  fe_done :: "nat \<Rightarrow> bool"
  fe_clock :: "nat \<Rightarrow> gotime"
  fe_jitter :: "nat \<Rightarrow> duration"

type_synonym attempt = "nat \<times> fetch_result option \<times> once_error option"

definition throttled_status :: "int \<Rightarrow> bool" where
  "throttled_status code \<longleftrightarrow> code = 429 \<or> code = 503"

definition proxy_fault :: "net_error \<Rightarrow> bool" where
  "proxy_fault e \<longleftrightarrow> \<not> ne_deadline e \<and> \<not> ne_canceled e \<and> \<not> ne_target_drop e"

definition with_proxies :: "(proxy_client list \<Rightarrow> proxy_client list) \<Rightarrow> fetcher \<Rightarrow> fetcher" where
  "with_proxies g f = f\<lparr>ft_proxies := g (ft_proxies f)\<rparr>"

text \<open>
  The loop of \<open>Fetch\<close> from attempt \<open>a\<close> on, with \<open>m\<close> attempts left. \<open>done\<close> stands for the context ending in
  one of the two waits before a retry. The third result lists the attempts made, the client of each and
  what \<open>fetchOnce\<close> returned.
\<close>

fun fetch_loop :: "stdlib \<Rightarrow> fetch_env \<Rightarrow> string \<Rightarrow> nat \<Rightarrow> nat \<Rightarrow> fetch_result option \<Rightarrow> once_error option \<Rightarrow> fetcher
    \<Rightarrow> (fetch_error + fetch_result) \<times> fetcher \<times> attempt list" where
  "fetch_loop E env host 0 a last_result last_err f =
     (case (last_result, last_err) of
        (Some r, None) \<Rightarrow> (Inr r, f, [])
      | _ \<Rightarrow> (Inl (ErrAttempts last_err), f, []))"
| "fetch_loop E env host (Suc m) a last_result last_err f =
     (let f1 = (if 0 < a then snd (get_host_backoff host f) else f)
      in if 0 < a \<and> fe_done env a then (Inl ErrContext, f1, [])
         else (case get_client (ft_proxies f1) of
                 None \<Rightarrow> (Inl FetchPanic, f1, [])
               | Some i \<Rightarrow>
                   (let (result, err) = fetch_once E (ft_max_kb f1) (fe_do env a i);
                        last_result1 = (if result \<noteq> None then result else last_result);
                        again = (\<lambda>f2. case fetch_loop E env host m (a + 1) last_result1 err f2 of
                                        (res, f3, made) \<Rightarrow> (res, f3, (i, result, err) # made))
                    in case err of
                         None \<Rightarrow>
                           (case result of
                              None \<Rightarrow> (Inl FetchPanic, f1, [(i, result, err)])
                            | Some r \<Rightarrow>
                                if throttled_status (rs_status r)
                                then (if int a = ft_max_retries f1
                                      then (Inr r, with_proxies (reset_failures i) f1, [(i, result, err)])
                                      else again (record_throttle (fe_clock env a) (fe_jitter env a) host f1))
                                else (Inr r, record_success host (with_proxies (reset_failures i) f1), [(i, result, err)]))
                       | Some OnceUnsupported \<Rightarrow>
                           (Inl ErrUnsupported, record_success host (with_proxies (reset_failures i) f1), [(i, result, err)])
                       | Some (OnceNet e) \<Rightarrow>
                           (case result of
                              Some r \<Rightarrow>
                                if 400 \<le> rs_status r \<and> rs_status r < 500
                                then (if rs_status r \<noteq> 429 then (Inl (ErrOnce (OnceNet e)), f1, [(i, result, err)])
                                      else again (record_throttle (fe_clock env a) (fe_jitter env a) host f1))
                                else again (if proxy_fault e then with_proxies (mark_down i) f1 else f1)
                            | None \<Rightarrow> again (if proxy_fault e then with_proxies (mark_down i) f1 else f1)))))"

definition fetch :: "stdlib \<Rightarrow> fetch_env \<Rightarrow> rawurl \<Rightarrow> fetcher \<Rightarrow> (fetch_error + fetch_result) \<times> fetcher \<times> attempt list" where
  "fetch E env target f =
     (case url_parse E target of
        None \<Rightarrow> (Inl ErrParseURL, f, [])
      | Some u \<Rightarrow> fetch_loop E env (url_hostname u) (nat (ft_max_retries f + 1)) 0 None None f)"


subsection \<open>One attempt\<close>

lemma get_client_Some: "pm \<noteq> [] \<Longrightarrow> \<exists>i. get_client pm = Some i"
  by (simp add: get_client_def split: option.split)

lemma fetch_once_cases:
  assumes "fetch_once E kb out = (result, err)"
  obtains r where "result = Some r" "err = None"
  | r where "result = Some r" "err = Some OnceUnsupported"
  | e where "result = None" "err = Some (OnceNet e)"
  using assms by (auto simp: fetch_once_def Let_def split: sum.splits prod.splits option.splits if_splits)

text \<open>The attempts after which the loop goes on, unless it was the last one and the server answered.\<close>

fun retryable :: "attempt \<Rightarrow> bool" where
  "retryable (i, result, None) = (case result of Some r \<Rightarrow> throttled_status (rs_status r) | None \<Rightarrow> False)"
| "retryable (i, result, Some OnceUnsupported) = False"
| "retryable (i, result, Some (OnceNet e)) = True"

fun attempt_events :: "bool \<Rightarrow> attempt \<Rightarrow> fetch_event list" where
  "attempt_events final (i, result, None) =
     (case result of None \<Rightarrow> [] | Some r \<Rightarrow> if throttled_status (rs_status r) \<and> \<not> final then [] else [Worked i])"
| "attempt_events final (i, result, Some OnceUnsupported) = [Worked i]"
| "attempt_events final (i, result, Some (OnceNet e)) = (if proxy_fault e then [Failed i] else [])"

text \<open>What a run of attempts reports to the proxy manager; an attempt is final when its number is \<open>maxRetries\<close>.\<close>

fun events_from :: "int \<Rightarrow> nat \<Rightarrow> attempt list \<Rightarrow> fetch_event list" where
  "events_from maxr a [] = []"
| "events_from maxr a (att # made) = attempt_events (int a = maxr) att @ events_from maxr (a + 1) made"

definition stopped :: "attempt \<Rightarrow> fetch_error + fetch_result" where
  "stopped att = (case att of (i, result, err) \<Rightarrow> (if err = None then Inr (the result) else Inl ErrUnsupported))"

lemma with_proxies_simps [simp]:
  "ft_proxies (with_proxies g f) = g (ft_proxies f)" "ft_max_retries (with_proxies g f) = ft_max_retries f"
  "ft_max_kb (with_proxies g f) = ft_max_kb f"
  by (simp_all add: with_proxies_def)

lemma backoff_frame [simp]:
  "ft_proxies (record_success host f) = ft_proxies f" "ft_max_retries (record_success host f) = ft_max_retries f"
  "ft_max_kb (record_success host f) = ft_max_kb f"
  "ft_proxies (record_throttle now j host f) = ft_proxies f" "ft_max_retries (record_throttle now j host f) = ft_max_retries f"
  "ft_max_kb (record_throttle now j host f) = ft_max_kb f"
  "ft_proxies (snd (get_host_backoff host f)) = ft_proxies f" "ft_max_retries (snd (get_host_backoff host f)) = ft_max_retries f"
  "ft_max_kb (snd (get_host_backoff host f)) = ft_max_kb f"
  by (simp_all add: record_success_def record_throttle_def get_host_backoff_def Let_def split: option.split)

text \<open>One turn of the loop: what it does to the clients, and whether it stops.\<close>

lemma fetch_loop_step:
  assumes "\<not> (0 < a \<and> fe_done env a)" and "get_client (ft_proxies f) = Some i"
    and "fetch_once E (ft_max_kb f) (fe_do env a i) = (result, err)"
  obtains f2 where "ft_proxies f2 = fold apply_event (attempt_events (int a = ft_max_retries f) (i, result, err)) (ft_proxies f)"
      and "ft_max_retries f2 = ft_max_retries f" and "ft_max_kb f2 = ft_max_kb f"
      and "fetch_loop E env host (Suc m) a last_result last_err f =
        (if retryable (i, result, err) \<and> \<not> (err = None \<and> int a = ft_max_retries f)
         then (case fetch_loop E env host m (a + 1) (if result \<noteq> None then result else last_result) err f2 of
                 (res, f3, made) \<Rightarrow> (res, f3, (i, result, err) # made))
         else (stopped (i, result, err), f2, [(i, result, err)]))"
proof -
  define f1 where "f1 = (if 0 < a then snd (get_host_backoff host f) else f)"
  have f1: "ft_proxies f1 = ft_proxies f" "ft_max_retries f1 = ft_max_retries f" "ft_max_kb f1 = ft_max_kb f"
    by (simp_all add: f1_def)
  have client: "get_client (ft_proxies f1) = Some i" "fetch_once E (ft_max_kb f1) (fe_do env a i) = (result, err)"
    using assms(2,3) f1 by simp_all
  note unf = fetch_loop.simps(2) [of E env host m a last_result last_err f, folded f1_def, unfolded Let_def client if_not_P [OF assms(1)]
      option.case prod.case]
  from assms(3) show thesis
  proof (cases rule: fetch_once_cases)
    case (1 r)
    then show thesis
    proof (cases "throttled_status (rs_status r) \<and> int a \<noteq> ft_max_retries f")
      case True
      show thesis
        by (rule that [of "record_throttle (fe_clock env a) (fe_jitter env a) host f1"]) (use True 1 unf f1 in simp_all)
    next
      case False
      then show thesis
        by (intro that [of "if throttled_status (rs_status r) then with_proxies (reset_failures i) f1
              else record_success host (with_proxies (reset_failures i) f1)"])
          (use 1 unf f1 in \<open>auto simp: stopped_def\<close>)
    qed
  next
    case (2 r)
    show thesis
      by (rule that [of "record_success host (with_proxies (reset_failures i) f1)"]) (use 2 unf f1 in \<open>simp_all add: stopped_def\<close>)
  next
    case (3 e)
    show thesis
      by (rule that [of "if proxy_fault e then with_proxies (mark_down i) f1 else f1"]) (use 3 unf f1 in simp_all)
  qed
qed

subsection \<open>A run of the loop\<close>

text \<open>What a result says of the attempts: \<open>m\<close> is the number of attempts the loop may make.\<close>

fun verdict :: "nat \<Rightarrow> attempt list \<Rightarrow> fetch_error + fetch_result \<Rightarrow> bool" where
  "verdict m made (Inr r) \<longleftrightarrow>
     made \<noteq> [] \<and> snd (last made) = (Some r, None) \<and> (throttled_status (rs_status r) \<longrightarrow> length made = m)"
| "verdict m made (Inl ErrUnsupported) \<longleftrightarrow> made \<noteq> [] \<and> snd (snd (last made)) = Some OnceUnsupported"
| "verdict m made (Inl (ErrAttempts err)) \<longleftrightarrow>
     length made = m \<and> (made \<noteq> [] \<longrightarrow> (\<exists>e. err = Some (OnceNet e) \<and> snd (last made) = (None, err)))"
| "verdict m made (Inl ErrContext) \<longleftrightarrow> length made < m \<and> list_all retryable made"
| "verdict m made (Inl _) \<longleftrightarrow> False"

lemma verdict_Cons:
  assumes "verdict m made res" and "retryable att" and "m = 0 \<longrightarrow> (\<exists>e. snd att = (None, Some (OnceNet e)))"
    and "made = [] \<Longrightarrow> \<forall>err. res = Inl (ErrAttempts err) \<longrightarrow> err = snd (snd att)"
  shows "verdict (Suc m) (att # made) res"
proof (cases res)
  case (Inl x)
  then show ?thesis using assms by (cases x) auto
qed (use assms in auto)

lemma loop_length_proxies: "length (fold apply_event es pm) = length pm"
  by (induction es arbitrary: pm) simp_all

lemma fetch_loop_run:
  assumes "fetch_loop E env host m a last_result last_err f = (res, f', made)" and "int a + int m = ft_max_retries f + 1"
    and "ft_proxies f \<noteq> []" and "m = 0 \<longrightarrow> (last_result = None \<or> last_err \<noteq> None)"
  shows "length made \<le> m \<and> verdict m made res \<and> list_all retryable (butlast made)
    \<and> (made = [] \<longrightarrow> (\<forall>err. res = Inl (ErrAttempts err) \<longrightarrow> err = last_err))
    \<and> ft_proxies f' = fold apply_event (events_from (ft_max_retries f) a made) (ft_proxies f)"
  using assms
proof (induction m arbitrary: a last_result last_err f res f' made)
  case 0
  then show ?case by (auto split: option.splits)
next
  case (Suc m)
  show ?case
  proof (cases "0 < a \<and> fe_done env a")
    case True
    then show ?thesis using Suc.prems(1) by (auto simp: Let_def)
  next
    case False
    obtain i where i: "get_client (ft_proxies f) = Some i" using get_client_Some [OF Suc.prems(3)] by blast
    obtain result err where once: "fetch_once E (ft_max_kb f) (fe_do env a i) = (result, err)" by (cases "fetch_once E (ft_max_kb f) (fe_do env a i)")
    define att where "att = (i, result, err)"
    obtain f2 where f2: "ft_proxies f2 = fold apply_event (attempt_events (int a = ft_max_retries f) att) (ft_proxies f)"
        "ft_max_retries f2 = ft_max_retries f"
      and step: "fetch_loop E env host (Suc m) a last_result last_err f =
        (if retryable att \<and> \<not> (err = None \<and> int a = ft_max_retries f)
         then (case fetch_loop E env host m (a + 1) (if result \<noteq> None then result else last_result) err f2 of
                 (res, f3, made) \<Rightarrow> (res, f3, att # made))
         else (stopped att, f2, [att]))"
      using fetch_loop_step [OF False i once, of host m last_result last_err] unfolding att_def by metis
    have last_attempt: "m = 0 \<longleftrightarrow> int a = ft_max_retries f" using Suc.prems(2) by auto
    show ?thesis
    proof (cases "retryable att \<and> \<not> (err = None \<and> int a = ft_max_retries f)")
      case True
      obtain made' where rest: "fetch_loop E env host m (a + 1) (if result \<noteq> None then result else last_result) err f2 = (res, f', made')"
        and made: "made = att # made'"
        using step True Suc.prems(1) by (cases "fetch_loop E env host m (a + 1) (if result \<noteq> None then result else last_result) err f2") auto
      have net: "m = 0 \<longrightarrow> (\<exists>e. snd att = (None, Some (OnceNet e)))"
        using True last_attempt fetch_once_cases [OF once] unfolding att_def by (metis option.distinct(1) retryable.simps(2) snd_conv)
      have ne: "ft_proxies f2 \<noteq> []" using f2(1) Suc.prems(3) loop_length_proxies by (metis length_0_conv)
      have ih: "length made' \<le> m \<and> verdict m made' res \<and> list_all retryable (butlast made')
          \<and> (made' = [] \<longrightarrow> (\<forall>err'. res = Inl (ErrAttempts err') \<longrightarrow> err' = err))
          \<and> ft_proxies f' = fold apply_event (events_from (ft_max_retries f2) (a + 1) made') (ft_proxies f2)"
        by (rule Suc.IH [OF rest]) (use Suc.prems(2) f2(2) ne net in \<open>auto simp: att_def\<close>)
      have "verdict (Suc m) (att # made') res"
        using ih True net by (intro verdict_Cons) (simp_all add: att_def)
      then show ?thesis using ih f2 True by (auto simp: made)
    next
      case stop: False
      then have r: "res = stopped att" "f' = f2" "made = [att]" using step Suc.prems(1) by auto
      from once show ?thesis
        by (cases rule: fetch_once_cases) (use stop r f2 last_attempt in \<open>auto simp: att_def stopped_def\<close>)
    qed
  qed
qed

subsection \<open>Properties\<close>

text \<open>
  C12. \<open>Fetch\<close> makes at most \<open>maxRetries + 1\<close> attempts and its answer is that of the last one. It retries only
  after a network error or a throttled answer (429, 503); it hands a throttled answer to the caller only
  after the last attempt, reports an unsupported content type at once, gives up with the last network
  error only when every attempt is used, and ends early only because the context ended. The remaining
  errors of the code (a 4xx answer together with an error, a panic for lack of a client) do not occur.
\<close>

theorem fetch_attempts:
  assumes "fetch E env target f = (res, f', made)" and "0 \<le> ft_max_retries f" and "ft_proxies f \<noteq> []"
  shows "int (length made) \<le> ft_max_retries f + 1 \<and> list_all retryable (butlast made)
    \<and> (case res of
         Inr r \<Rightarrow> made \<noteq> [] \<and> snd (last made) = (Some r, None)
           \<and> (throttled_status (rs_status r) \<longrightarrow> int (length made) = ft_max_retries f + 1)
       | Inl ErrUnsupported \<Rightarrow> made \<noteq> [] \<and> snd (snd (last made)) = Some OnceUnsupported
       | Inl (ErrAttempts err) \<Rightarrow> int (length made) = ft_max_retries f + 1
           \<and> (\<exists>e. err = Some (OnceNet e) \<and> snd (last made) = (None, err))
       | Inl ErrContext \<Rightarrow> int (length made) \<le> ft_max_retries f \<and> list_all retryable made
       | Inl ErrParseURL \<Rightarrow> url_parse E target = None \<and> made = []
       | Inl _ \<Rightarrow> False)"
proof (cases "url_parse E target")
  case None
  then show ?thesis using assms by (auto simp: fetch_def)
next
  case (Some u)
  define m where "m = nat (ft_max_retries f + 1)"
  have m: "int m = ft_max_retries f + 1" "m \<noteq> 0" using assms(2) by (auto simp: m_def)
  have run: "fetch_loop E env (url_hostname u) m 0 None None f = (res, f', made)"
    using assms(1) Some by (simp add: fetch_def m_def)
  have ok: "length made \<le> m" "verdict m made res" "list_all retryable (butlast made)"
    using fetch_loop_run [OF run _ assms(3)] m by simp_all
  show ?thesis
  proof (cases res)
    case (Inl x)
    then show ?thesis using ok m by (cases x) auto
  qed (use ok m in auto)
qed

text \<open>A fetcher with one proxy and a network that answers 503 twice and then a page, for the witnesses.\<close>

definition sample_response :: "int \<Rightarrow> http_response" where
  "sample_response code = \<lparr>hr_status = code, hr_ctype = ''text/html'', hr_final = ''http://a.org/'', hr_body = ''page'',
     hr_read_err = None, hr_duration = 1\<rparr>"

definition sample_env :: fetch_env where
  "sample_env = \<lparr>fe_do = (\<lambda>a i. Inr (sample_response (if a < 2 then 503 else 200))), fe_done = (\<lambda>_. False),
     fe_clock = (\<lambda>a. int a), fe_jitter = (\<lambda>_. 0)\<rparr>"

definition sample_fetcher :: fetcher where
  "sample_fetcher = \<lparr>ft_max_kb = 512, ft_max_retries = 3, ft_proxies = [\<lparr>px_url = ''http://p:1'', px_direct = False,
     px_status = StatusHealthy, px_failures = 1\<rparr>], ft_backoff = (\<lambda>_. None)\<rparr>"

lemma sample_fetcher_simps:
  "0 \<le> ft_max_retries sample_fetcher" "ft_proxies sample_fetcher \<noteq> []"
  by (simp_all add: sample_fetcher_def)

theorem fetch_attempts_witness:
  "case fetch ascii_stdlib sample_env ''http://a.org/'' sample_fetcher of
     (res, f', made) \<Rightarrow> list_all retryable (butlast made) \<and> length made \<le> 4"
proof -
  obtain res f' made where r: "fetch ascii_stdlib sample_env ''http://a.org/'' sample_fetcher = (res, f', made)" by (metis surj_pair)
  have "int (length made) \<le> 4 \<and> list_all retryable (butlast made)"
    using fetch_attempts [OF r sample_fetcher_simps] by (simp add: sample_fetcher_def)
  then show ?thesis unfolding r prod.case by linarith
qed


lemma attempt_events_worked:
  assumes "\<forall>e. snd (snd att) = Some (OnceNet e) \<longrightarrow> \<not> proxy_fault e" and "ev \<in> set (attempt_events final att)"
  shows "\<exists>i. ev = Worked i"
proof -
  obtain i result err where att: "att = (i, result, err)" by (cases att)
  show ?thesis
  proof (cases err)
    case (Some x)
    then show ?thesis using assms att by (cases x) auto
  qed (use assms att in \<open>auto split: option.splits if_splits\<close>)
qed

lemma events_from_worked:
  assumes "\<forall>att \<in> set made. \<forall>e. snd (snd att) = Some (OnceNet e) \<longrightarrow> \<not> proxy_fault e" and "ev \<in> set (events_from maxr a made)"
  shows "\<exists>i. ev = Worked i"
  using assms by (induction maxr a made rule: events_from.induct) (auto dest: attempt_events_worked)

lemma worked_status: "(\<And>ev. ev \<in> set es \<Longrightarrow> \<exists>i. ev = Worked i) \<Longrightarrow> map px_status (fold apply_event es pm) = map px_status pm"
proof (induction es arbitrary: pm)
  case (Cons e es)
  then obtain i where "e = Worked i" by auto
  then have "map px_status (apply_event e pm) = map px_status pm"
    by (cases "i < length pm") (auto simp: reset_failures_def reset_client_def map_update list_update_same_conv list_update_beyond)
  moreover have "map px_status (fold apply_event es (apply_event e pm)) = map px_status (apply_event e pm)"
    by (rule Cons.IH) (use Cons.prems in auto)
  ultimately show ?case by simp
qed simp

text \<open>
  What a fetch does to the proxies is exactly what its attempts report, in order: a delivered answer or
  an unsupported content type resets the failures of the client used, a network error counts against
  it, and deadlines, cancellations, dropped connections and retried throttled answers report nothing.
  So when every error is of those kinds no client changes its status.
\<close>

theorem fetch_proxy_effect:
  assumes "fetch E env target f = (res, f', made)" and "0 \<le> ft_max_retries f" and "ft_proxies f \<noteq> []"
  shows "ft_proxies f' = fold apply_event (events_from (ft_max_retries f) 0 made) (ft_proxies f)
    \<and> ((\<forall>att \<in> set made. \<forall>e. snd (snd att) = Some (OnceNet e) \<longrightarrow> \<not> proxy_fault e)
       \<longrightarrow> map px_status (ft_proxies f') = map px_status (ft_proxies f))"
proof -
  have "ft_proxies f' = fold apply_event (events_from (ft_max_retries f) 0 made) (ft_proxies f)"
  proof (cases "url_parse E target")
    case None
    then show ?thesis using assms by (auto simp: fetch_def)
  next
    case (Some u)
    then have run: "fetch_loop E env (url_hostname u) (nat (ft_max_retries f + 1)) 0 None None f = (res, f', made)"
      using assms(1) by (simp add: fetch_def)
    show ?thesis using fetch_loop_run [OF run _ assms(3)] assms(2) by simp
  qed
  then show ?thesis using worked_status [OF events_from_worked] by auto
qed

theorem fetch_proxy_effect_witness:
  "case fetch ascii_stdlib sample_env ''http://a.org/'' sample_fetcher of
     (res, f', made) \<Rightarrow> ft_proxies f' = fold apply_event (events_from 3 0 made) (ft_proxies sample_fetcher)"
proof -
  obtain res f' made where r: "fetch ascii_stdlib sample_env ''http://a.org/'' sample_fetcher = (res, f', made)" by (metis surj_pair)
  have "ft_proxies f' = fold apply_event (events_from (ft_max_retries sample_fetcher) 0 made) (ft_proxies sample_fetcher)"
    using fetch_proxy_effect [OF r sample_fetcher_simps] by blast
  then show ?thesis unfolding r prod.case by (simp add: sample_fetcher_def)
qed

text \<open>
  One request never keeps more than \<open>max_page_size_kb\<close> kilobytes, nor more than 256 of a page that is
  not HTML; the body is the beginning of what the server sent and it is flagged as truncated exactly
  when something was left out. A content type that is neither HTML nor for discovery keeps no body.
\<close>

theorem fetch_once_bounded:
  assumes "fetch_once E max_kb (Inr resp) = (Some r, err)" and "0 \<le> max_kb"
  shows "int (length (rs_body r)) \<le> max_kb * 1024 \<and> rs_status r = hr_status resp \<and> rs_final r = hr_final resp
    \<and> (if err = None
       then (\<exists>rest. hr_body resp = rs_body r @ rest \<and> (rs_truncated r \<longleftrightarrow> rest \<noteq> []))
         \<and> (is_html_content_type E (hr_ctype resp) \<or> int (length (rs_body r)) \<le> 256 * 1024)
       else err = Some OnceUnsupported \<and> rs_body r = [] \<and> \<not> is_html_content_type E (hr_ctype resp))"
proof -
  define html where "html = fst (is_allowed_content_type E (hr_ctype resp))"
  define n where "n = nat (body_limit html max_kb)"
  have n: "int n \<le> max_kb * 1024" "html \<or> int n \<le> 256 * 1024"
    using assms(2) by (auto simp: n_def body_limit_def Let_def)
  have html: "html \<longleftrightarrow> is_html_content_type E (hr_ctype resp)"
    by (simp add: html_def is_allowed_content_type_def is_html_content_type_def Let_def)
  have body: "\<exists>rest. hr_body resp = take n (hr_body resp) @ rest \<and> (n < length (hr_body resp) \<longleftrightarrow> rest \<noteq> [])"
    by (rule exI [of _ "drop n (hr_body resp)"]) (simp add: not_le)
  show ?thesis
  proof (cases "is_allowed_content_type E (hr_ctype resp) = (False, False)")
    case True
    then show ?thesis using assms html by (auto simp: fetch_once_def html_def)
  next
    case False
    then have "err = None \<and> rs_body r = take n (hr_body resp) \<and> rs_status r = hr_status resp \<and> rs_final r = hr_final resp
        \<and> (rs_truncated r \<longleftrightarrow> n < length (hr_body resp))"
      using assms(1) by (auto simp: fetch_once_def Let_def n_def html_def split: prod.splits option.splits if_splits)
    then show ?thesis using n html body by auto
  qed
qed

theorem fetch_once_bounded_witness:
  "\<exists>r err. fetch_once ascii_stdlib 1 (Inr (sample_response 200)) = (Some r, err) \<and> int (length (rs_body r)) \<le> 1024"
proof -
  obtain result err where r: "fetch_once ascii_stdlib 1 (Inr (sample_response 200)) = (result, err)" by (metis surj_pair)
  then have "result \<noteq> None" by (auto simp: fetch_once_def sample_response_def Let_def split: prod.splits if_splits)
  then obtain r where "result = Some r" by blast
  then show ?thesis using r fetch_once_bounded [of ascii_stdlib 1 "sample_response 200" r err] by auto
qed

lemma throttle_delay_values:
  "throttle_delay 1 j = (if backoff_max < 4 * second + j then backoff_max else 4 * second + j)"
  "throttle_delay 2 j = (if backoff_max < 8 * second + j then backoff_max else 8 * second + j)"
  "throttle_delay 3 j = (if backoff_max < 16 * second + j then backoff_max else 16 * second + j)"
  "throttle_delay 4 j = (if backoff_max < 32 * second + j then backoff_max else 32 * second + j)"
  "5 \<le> n \<Longrightarrow> throttle_delay n j = (if backoff_max < 64 * second + j then backoff_max else 64 * second + j)"
  by (simp_all add: throttle_delay_def backoff_base_def Let_def min_def)

text \<open>
  The backoff of a host that answers 429 or 503 lies between 3.5 and 60 seconds, is longer after each
  throttled answer than after the one before whatever the jitter, until it reaches 60 seconds at the fifth, and a
  success starts it again.
\<close>

theorem backoff_grows:
  assumes "1 \<le> n" and "- backoff_jitter \<le> j" "j < backoff_jitter" and "- backoff_jitter \<le> j'" "j' < backoff_jitter"
  shows "3500 * millisecond \<le> throttle_delay n j \<and> throttle_delay n j \<le> 60 * second
    \<and> (n < 5 \<longrightarrow> throttle_delay n j < throttle_delay (n + 1) j') \<and> (5 \<le> n \<longrightarrow> throttle_delay n j = 60 * second)
    \<and> (ft_backoff f host \<noteq> None \<longrightarrow>
        ft_backoff (record_throttle now j host (record_success host f)) host = Some \<lparr>hb_4xx = 1, hb_next = now + throttle_delay 1 j\<rparr>)"
proof -
  have again: "ft_backoff (record_throttle now j host (record_success host f)) host = Some \<lparr>hb_4xx = 1, hb_next = now + throttle_delay 1 j\<rparr>"
    if "ft_backoff f host \<noteq> None"
    using that by (auto simp: record_throttle_def record_success_def Let_def)
  have "n = 1 \<or> n = 2 \<or> n = 3 \<or> n = 4 \<or> 5 \<le> n" using assms(1) by linarith
  then show ?thesis
    using assms(2-) again by (elim disjE) (simp_all add: throttle_delay_values backoff_max_def backoff_jitter_def)
qed

theorem backoff_grows_witness: "throttle_delay 3 (- 5) < throttle_delay 4 7"
  using backoff_grows [of 3 "- 5" 7] by (simp add: backoff_jitter_def)

end
