(* ===== verification/Pages.thy ===== *)
theory Pages
  imports Prelude GoStrings "HOL-Library.Word"
begin

text \<open>
  The data a crawled page goes through: the parse result of \<open>internal/crawler/parser.go\<close>, the records of
  \<open>internal/storage/models.go\<close>, and the small functions of \<open>engine.go\<close> and \<open>utils/hash.go\<close> that fill them.
\<close>

record link_anchor =
  la_url :: rawurl
  la_text :: string

record image_meta =
  im_url :: rawurl
  im_alt :: string
  im_title :: string
  im_context :: string
  im_width :: int
  im_height :: int

record parse_result =
  pr_title :: string
  pr_h1 :: string
  pr_h2 :: string
  pr_desc :: string
  pr_content :: string
  pr_links :: "rawurl list"
  pr_anchors :: "link_anchor list"
  pr_canonical :: rawurl
  pr_lang :: string
  pr_images :: "image_meta list"
  pr_published :: gotime
  pr_schema_type :: string
  pr_schema_title :: string
  pr_schema_desc :: string
  pr_schema_image :: string
  pr_schema_author :: string
  pr_schema_keywords :: string
  pr_schema_rating :: float64

record page =
  pg_id :: int
  pg_url :: rawurl
  pg_hash :: "64 word"
  pg_domain :: domain
  pg_title :: string
  pg_h1 :: string
  pg_h2 :: string
  pg_desc :: string
  pg_content :: string
  pg_lang :: string
  pg_region :: string
  pg_status :: int
  pg_content_hash :: string
  pg_fp :: string
  pg_mode :: string
  pg_reason :: string
  pg_published :: gotime
  pg_crawled :: gotime
  pg_created :: gotime
  pg_updated :: gotime
  pg_schema_type :: string
  pg_schema_title :: string
  pg_schema_desc :: string
  pg_schema_image :: string
  pg_schema_author :: string
  pg_schema_keywords :: string
  pg_schema_rating :: float64
  pg_ingest_hits :: int
  pg_last_seen :: gotime

definition page0 :: page where
  "page0 = \<lparr>pg_id = 0, pg_url = [], pg_hash = 0, pg_domain = [], pg_title = [], pg_h1 = [], pg_h2 = [], pg_desc = [],
     pg_content = [], pg_lang = [], pg_region = [], pg_status = 0, pg_content_hash = [], pg_fp = [], pg_mode = [],
     pg_reason = [], pg_published = time_zero, pg_crawled = time_zero, pg_created = time_zero, pg_updated = time_zero,
     pg_schema_type = [], pg_schema_title = [], pg_schema_desc = [], pg_schema_image = [], pg_schema_author = [],
     pg_schema_keywords = [], pg_schema_rating = 0, pg_ingest_hits = 0, pg_last_seen = time_zero\<rparr>"

record outgoing_link =
  ol_url :: rawurl
  ol_hash :: "64 word"
  ol_text :: string

record image_record =
  ir_id :: int
  ir_url :: rawurl
  ir_page_url :: rawurl
  ir_page_id :: int
  ir_domain :: domain
  ir_alt :: string
  ir_title :: string
  ir_context :: string
  ir_width :: int
  ir_height :: int
  ir_crawled :: gotime

record discovered_resource =
  dr_id :: int
  dr_url :: rawurl
  dr_fp :: string
  dr_kind :: string
  dr_status :: int
  dr_crawled :: gotime

definition priority_normal :: float64 where "priority_normal = 10"
definition priority_recrawl :: float64 where "priority_recrawl = 5"

subsection \<open>Small functions\<close>

definition hash_step :: "char \<Rightarrow> 64 word \<Rightarrow> 64 word" where
  "hash_step c h = (xor h (of_nat (byte c))) * 1099511628211"

text \<open>\<open>HashURL\<close>: 64-bit FNV-1a; the cast to \<open>int64\<close> keeps the bits.\<close>

definition hash_url :: "rawurl \<Rightarrow> 64 word" where
  "hash_url url = fold hash_step url 14695981039346656037"

definition truncate_string :: "string \<Rightarrow> nat \<Rightarrow> string" where
  "truncate_string s max_len = (if length s \<le> max_len then s else take max_len s)"

definition infer_region :: "stdlib \<Rightarrow> domain \<Rightarrow> string" where
  "infer_region E d =
     (let parts = split_byte d CHR ''.''
      in if length parts < 2 then []
         else (let tld = last parts
               in if length tld = 2 \<and> tld \<noteq> ''io'' \<and> tld \<noteq> ''tv'' \<and> tld \<noteq> ''co'' \<and> tld \<noteq> ''me'' then to_lower E tld else []))"

definition kind_from_content_type :: "stdlib \<Rightarrow> string \<Rightarrow> string" where
  "kind_from_content_type E ct0 =
     (let ct = to_lower E ct0
      in if str_contains ct ''text/css'' then ''css''
         else if str_contains ct ''javascript'' \<or> str_contains ct ''ecmascript'' then ''js''
         else if str_contains ct ''json'' then ''json''
         else if str_contains ct ''rss'' then ''rss''
         else if str_contains ct ''atom'' then ''atom''
         else if str_contains ct ''xml'' then ''xml''
         else ''other'')"

text \<open>The decimal digits of a number, as \<open>%d\<close> and \<open>strconv.Itoa\<close> print it.\<close>

function nat_digits :: "nat \<Rightarrow> string" where
  "nat_digits n = (if n < 10 then [char_of (48 + n)] else nat_digits (n div 10) @ [char_of (48 + n mod 10)])"
  by pat_completeness auto
termination
  by (relation "measure id") auto

declare nat_digits.simps [simp del]

definition itoa :: "int \<Rightarrow> string" where
  "itoa n = (if n < 0 then ''-'' @ nat_digits (nat (- n)) else nat_digits (nat n))"

lemma length_truncate_string [simp]: "length (truncate_string s n) \<le> n"
  by (simp add: truncate_string_def)

end
