(* ===== verification/RenderDecider.thy ===== *)
theory RenderDecider
  imports RenderBacklog Fetcher Pages
begin

text \<open>
  When a page is rendered in the browser (\<open>internal/crawler/render_decider.go\<close>). The second component of a
  decision is the reason; it is empty when the answer is no.
\<close>

definition should_render_status :: "stdlib \<Rightarrow> rendering_config \<Rightarrow> fetch_result \<Rightarrow> bool \<times> string" where
  "should_render_status E cfg result =
     (if \<not> rendering_enabled cfg then (False, [])
      else if re_mode cfg = ''force'' \<and> is_html_content_type E (rs_ctype result) then (True, ''force'')
      else if rs_status result \<in> set (re_status_codes cfg) then (True, ''status_'' @ itoa (rs_status result))
      else (False, []))"

definition lower_body_sample :: "stdlib \<Rightarrow> string \<Rightarrow> string" where
  "lower_body_sample E body = to_lower E (if 128 * 1024 < length body then take (128 * 1024) body else body)"

definition javascript_markers :: "string list" where
  "javascript_markers =
     [''enable javascript'', ''javascript is required'', ''requires javascript'', ''please enable js'',
      ''please enable javascript'', ''necesitas activar javascript'', ''necesita activar javascript'',
      ''habilita javascript'', ''active javascript'']"

definition contains_javascript_required :: "string \<Rightarrow> bool" where
  "contains_javascript_required body = list_ex (str_contains body) javascript_markers"

definition interstitial_markers :: "string list" where
  "interstitial_markers =
     [''just a moment'', ''checking your browser'', ''verify you are human'', ''ddos-guard'',
      ''cf-browser-verification'', ''cf-challenge'']"

definition contains_known_interstitial :: "string \<Rightarrow> bool" where
  "contains_known_interstitial body = list_ex (str_contains body) interstitial_markers"

definition quoted :: "string \<Rightarrow> string" where
  "quoted s = [CHR 0x22] @ s @ [CHR 0x22]"

definition spa_markers :: "string list" where
  "spa_markers =
     [''id='' @ quoted ''root'', ''id='' @ quoted ''app'', ''id='' @ quoted ''__next'', ''id='' @ quoted ''__nuxt'',
      ''data-reactroot'', ''ng-version'']"

definition looks_like_empty_spa :: "string \<Rightarrow> parse_result \<Rightarrow> bool" where
  "looks_like_empty_spa body parsed =
     (if 200 \<le> length (trim_space (pr_content parsed)) \<or> 0 < length (pr_anchors parsed) then False
      else list_ex (str_contains body) spa_markers)"

definition should_render_parsed :: "stdlib \<Rightarrow> rendering_config \<Rightarrow> fetch_result \<Rightarrow> parse_result \<Rightarrow> bool \<times> string" where
  "should_render_parsed E cfg result parsed =
     (if \<not> rendering_enabled cfg then (False, [])
      else if re_mode cfg = ''force'' then (True, ''force'')
      else (let body = lower_body_sample E (rs_body result)
            in if contains_javascript_required body then (True, ''javascript_required_message'')
               else if contains_known_interstitial body then (True, ''browser_interstitial'')
               else if looks_like_empty_spa body parsed then (True, ''empty_spa_shell'')
               else if int (length (trim_space (pr_content parsed))) < re_min_text cfg \<and> int (length (pr_anchors parsed)) < re_min_links cfg
                    then (True, ''weak_http_parse'')
               else (False, [])))"

text \<open>A decision to render has a reason, and none is made while rendering is off.\<close>

lemma should_render_status_reason: "should_render_status E cfg r = (True, reason) \<Longrightarrow> rendering_enabled cfg \<and> reason \<noteq> []"
  by (auto simp: should_render_status_def split: if_splits)

lemma should_render_parsed_reason: "should_render_parsed E cfg r p = (True, reason) \<Longrightarrow> rendering_enabled cfg \<and> reason \<noteq> []"
  by (auto simp: should_render_parsed_def Let_def split: if_splits)

end
