(* ===== verification/Regex.thy ===== *)
theory Regex
  imports GoStrings
begin

text \<open>
  The part of Go's \<open>regexp\<close> that the link and date extraction uses: leftmost-first matching with greedy
  repetition and numbered groups. A configuration is the character before the position, the rest of the
  text and the groups captured so far; a match yields the configurations after it in order of preference.
  The expressions of the code only tell ASCII characters apart, so matching bytes agrees with matching
  runes; none of them matches the empty string.
\<close>

datatype re = REps | RSet "char \<Rightarrow> bool" | RSeq re re | RAlt re re | RStar re | RGroup nat re | RWordB | REnd

type_synonym re_conf = "char option \<times> string \<times> (nat \<times> string) list"

definition word_char :: "char option \<Rightarrow> bool" where
  "word_char c = (case c of None \<Rightarrow> False
     | Some x \<Rightarrow> ascii_upper x \<or> ascii_lower x \<or> ascii_digit x \<or> x = CHR ''_'')"

definition head_char :: "string \<Rightarrow> char option" where
  "head_char s = (case s of [] \<Rightarrow> None | x # _ \<Rightarrow> Some x)"

function re_step :: "re \<Rightarrow> re_conf \<Rightarrow> re_conf list" where
  "re_step REps c = [c]"
| "re_step (RSet p) (pv, s, g) = (case s of [] \<Rightarrow> [] | x # xs \<Rightarrow> if p x then [(Some x, xs, g)] else [])"
| "re_step (RSeq a b) c = concat (map (re_step b) (re_step a c))"
| "re_step (RAlt a b) c = re_step a c @ re_step b c"
| "re_step (RStar a) c =
     concat (map (re_step (RStar a)) (filter (\<lambda>d. length (fst (snd d)) < length (fst (snd c))) (re_step a c))) @ [c]"
| "re_step (RGroup n a) (pv, s, g) =
     map (\<lambda>(pv', s', g'). (pv', s', (n, take (length s - length s') s) # g')) (re_step a (pv, s, g))"
| "re_step RWordB (pv, s, g) = (if word_char pv \<noteq> word_char (head_char s) then [(pv, s, g)] else [])"
| "re_step REnd (pv, s, g) = (if s = [] then [(pv, s, g)] else [])"
  by pat_completeness auto
termination
  by (relation "measures [\<lambda>(r, c). size r, \<lambda>(r, c). length (fst (snd c))]") auto

text \<open>\<open>FindAllStringSubmatch\<close>: the groups of the successive non-overlapping matches.\<close>

function re_find_all :: "re \<Rightarrow> char option \<Rightarrow> string \<Rightarrow> (nat \<times> string) list list" where
  "re_find_all r pv s =
     (case re_step r (pv, s, []) of
        (pv', s', g) # _ \<Rightarrow>
          if length s' < length s then g # re_find_all r pv' s'
          else g # (case s of [] \<Rightarrow> [] | x # xs \<Rightarrow> re_find_all r (Some x) xs)
      | [] \<Rightarrow> (case s of [] \<Rightarrow> [] | x # xs \<Rightarrow> re_find_all r (Some x) xs))"
  by pat_completeness auto
termination
  by (relation "measure (\<lambda>(r, pv, s). length s)") auto

declare re_find_all.simps [simp del]

text \<open>Group \<open>n\<close> of a match; a group that took no part is the empty string.\<close>

definition re_group :: "nat \<Rightarrow> (nat \<times> string) list \<Rightarrow> string" where
  "re_group n g = (case map_of g n of Some t \<Rightarrow> t | None \<Rightarrow> [])"

definition find_all_group :: "re \<Rightarrow> nat \<Rightarrow> string \<Rightarrow> string list" where
  "find_all_group r n s = map (re_group n) (re_find_all r None s)"

subsection \<open>Abbreviations of the usual operators\<close>

fun re_lit :: "string \<Rightarrow> re" where
  "re_lit [] = REps"
| "re_lit [c] = RSet (\<lambda>x. x = c)"
| "re_lit (c # cs) = RSeq (RSet (\<lambda>x. x = c)) (re_lit cs)"

definition re_opt :: "re \<Rightarrow> re" where
  "re_opt r = RAlt r REps"

definition re_plus :: "re \<Rightarrow> re" where
  "re_plus r = RSeq r (RStar r)"

fun re_seq :: "re list \<Rightarrow> re" where
  "re_seq [] = REps"
| "re_seq [r] = r"
| "re_seq (r # rs) = RSeq r (re_seq rs)"

fun re_alts :: "re list \<Rightarrow> re" where
  "re_alts [] = RSet (\<lambda>_. False)"
| "re_alts [r] = r"
| "re_alts (r # rs) = RAlt r (re_alts rs)"

definition re_space :: re where
  "re_space = RSet (\<lambda>c. byte c \<in> {9, 10, 12, 13, 32})"

definition re_one_of :: "string \<Rightarrow> re" where
  "re_one_of cs = RSet (\<lambda>c. c \<in> set cs)"

definition re_none_of :: "string \<Rightarrow> re" where
  "re_none_of cs = RSet (\<lambda>c. c \<notin> set cs)"

end
