(* ===== verification/Resources.thy ===== *)
theory Resources
  imports Regex UrlFilter
begin

text \<open>
  Links in resources that are not pages (\<open>internal/crawler/resource_extractor.go\<close>) and the resolution of
  relative references (\<open>resolveURL\<close> of \<open>parser.go\<close>), with \<open>URL.ResolveReference\<close> of \<open>net/url\<close>.
\<close>

subsection \<open>Relative references\<close>

text \<open>The state of the loop of \<open>resolvePath\<close>: the output and the flag \<open>first\<close>.\<close>

fun resolve_elems :: "string list \<Rightarrow> string \<Rightarrow> bool \<Rightarrow> string" where
  "resolve_elems [] dst first = dst"
| "resolve_elems (e # es) dst first =
     (if e = ''.'' then resolve_elems es dst False
      else if e = ''..'' then
        (case last_index_byte (tl dst) CHR ''/'' of
           None \<Rightarrow> resolve_elems es ''/'' True
         | Some i \<Rightarrow> resolve_elems es (''/'' @ take i (tl dst)) first)
      else resolve_elems es (dst @ (if first then [] else ''/'') @ e) False)"

definition resolve_path :: "string \<Rightarrow> string \<Rightarrow> string" where
  "resolve_path base ref =
     (let full = (if ref = [] then base
                  else if hd ref \<noteq> CHR ''/''
                       then (case last_index_byte base CHR ''/'' of None \<Rightarrow> ref | Some i \<Rightarrow> take (i + 1) base @ ref)
                       else ref)
      in if full = [] then []
         else (let es = split_byte full CHR ''/'';
                   dst = resolve_elems es ''/'' True;
                   r = (if last es = ''.'' \<or> last es = ''..'' then dst @ ''/'' else dst)
               in if 1 < length r \<and> r ! 1 = CHR ''/'' then tl r else r))"

text \<open>\<open>ResolveReference\<close> ignores the error of \<open>setPath\<close>, which leaves the path as it was.\<close>

definition with_path :: "string \<Rightarrow> url \<Rightarrow> url" where
  "with_path p u = (case set_path p u of Some u' \<Rightarrow> u' | None \<Rightarrow> u)"

definition resolve_reference :: "url \<Rightarrow> url \<Rightarrow> url" where
  "resolve_reference u ref =
     (let r = (if u_scheme ref = [] then ref\<lparr>u_scheme := u_scheme u\<rparr> else ref)
      in if u_scheme ref \<noteq> [] \<or> u_host ref \<noteq> [] \<or> u_user ref \<noteq> None
         then with_path (resolve_path (escaped_path ref) []) r
         else if u_opaque ref \<noteq> [] then r\<lparr>u_opaque := u_opaque ref, u_user := None, u_host := [], u_path := []\<rparr>
         else (let r1 = (if u_path ref = [] \<and> \<not> u_forcequery ref \<and> u_rawquery ref = []
                         then (let r0 = r\<lparr>u_rawquery := u_rawquery u\<rparr>
                               in if u_fragment ref = []
                                  then r0\<lparr>u_fragment := u_fragment u, u_rawfragment := u_rawfragment u\<rparr> else r0)
                         else r)
               in if u_path ref = [] \<and> u_opaque u \<noteq> []
                  then r1\<lparr>u_opaque := u_opaque u, u_user := None, u_host := [], u_path := []\<rparr>
                  else with_path (resolve_path (escaped_path u) (escaped_path ref))
                         (r1\<lparr>u_host := u_host u, u_user := u_user u\<rparr>)))"

text \<open>\<open>resolveURL\<close>; the empty string is a reference that is dropped.\<close>

definition resolve_url :: "stdlib \<Rightarrow> url \<Rightarrow> string \<Rightarrow> rawurl" where
  "resolve_url E base href =
     (case url_parse E href of
        None \<Rightarrow> []
      | Some parsed \<Rightarrow>
          (let resolved = resolve_reference base parsed;
               scheme = to_lower E (u_scheme resolved)
           in if scheme \<noteq> ''http'' \<and> scheme \<noteq> ''https'' then []
              else url_string (resolved\<lparr>u_fragment := []\<rparr>)))"

subsection \<open>The expressions\<close>

definition quotes :: string where
  "quotes = [CHR 0x22, CHR 0x27]"

definition css_url_re :: re where
  "css_url_re = re_seq [RAlt (re_lit ''url'') (re_lit ''@import''), RStar re_space, re_lit ''('', RStar re_space,
     re_opt (re_one_of quotes), RGroup 1 (re_plus (re_none_of (quotes @ ''()''))), re_opt (re_one_of quotes), RStar re_space,
     re_lit '')'']"

definition quoted_url_re :: re where
  "quoted_url_re = re_seq [re_one_of quotes,
     RGroup 1 (re_seq [RGroup 2 (RAlt (re_seq [re_lit ''http'', re_opt (re_lit ''s''), re_lit ''://'']) (re_lit ''//'')),
       re_plus (re_none_of quotes)]),
     re_one_of quotes]"

definition root_relative_re :: re where
  "root_relative_re = re_seq [re_one_of quotes, RGroup 1 (re_seq [re_lit ''/'', re_plus (re_none_of quotes)]), re_one_of quotes]"

definition xml_attr_re :: re where
  "xml_attr_re = re_seq [RWordB, re_alts (map re_lit [''href'', ''src'', ''url'', ''loc'']), RStar re_space, re_lit ''='',
     RStar re_space, re_one_of quotes, RGroup 1 (re_plus (re_none_of quotes)), re_one_of quotes]"

subsection \<open>Extraction\<close>

text \<open>
  One link found: dropped when empty, seen before or binary. \<open>seen\<close> of the code holds exactly \<open>out\<close>.
  Then the loop over the matches of one expression. \<open>base = None\<close> is the nil pointer left by a base URL
  that does not parse: dereferencing it panics, which is \<open>None\<close> here, and happens for references without a scheme.
\<close>

definition add_link :: "stdlib \<Rightarrow> rawurl \<Rightarrow> rawurl list \<Rightarrow> rawurl list" where
  "add_link E resolved out =
     (if resolved = [] then out
      else if resolved \<in> set out then out
      else if is_binary_extension E resolved then out
      else out @ [resolved])"

fun collect_links :: "stdlib \<Rightarrow> url option \<Rightarrow> string list \<Rightarrow> rawurl list \<Rightarrow> rawurl list option" where
  "collect_links E base [] out = Some out"
| "collect_links E base (m # ms) out =
     (let raw = trim_space m
      in if raw = [] then collect_links E base ms out
         else (case (base, url_parse E raw) of
                 (None, Some parsed) \<Rightarrow>
                   if u_scheme parsed = [] then None
                   else collect_links E base ms (add_link E (resolve_url E url0 raw) out)
               | (None, None) \<Rightarrow> collect_links E base ms out
               | (Some b, _) \<Rightarrow> collect_links E base ms (add_link E (resolve_url E b raw) out)))"

definition extract_with_regexes :: "stdlib \<Rightarrow> string \<Rightarrow> rawurl \<Rightarrow> re list \<Rightarrow> rawurl list option" where
  "extract_with_regexes E body base_url regexes =
     collect_links E (url_parse E base_url) (concat (map (\<lambda>r. find_all_group r 1 body) regexes)) []"

definition extract_from_css :: "stdlib \<Rightarrow> string \<Rightarrow> rawurl \<Rightarrow> rawurl list option" where
  "extract_from_css E body base = extract_with_regexes E body base [css_url_re]"

definition extract_from_text :: "stdlib \<Rightarrow> string \<Rightarrow> rawurl \<Rightarrow> rawurl list option" where
  "extract_from_text E body base = extract_with_regexes E body base [quoted_url_re, root_relative_re]"

definition extract_from_xml :: "stdlib \<Rightarrow> string \<Rightarrow> rawurl \<Rightarrow> rawurl list option" where
  "extract_from_xml E body base = extract_with_regexes E body base [xml_attr_re]"

definition extract_resource_links :: "stdlib \<Rightarrow> string \<Rightarrow> string \<Rightarrow> rawurl \<Rightarrow> rawurl list option" where
  "extract_resource_links E body ctype base =
     (let ct = to_lower E ctype
      in if str_contains ct ''text/css'' then extract_from_css E body base
         else if str_contains ct ''javascript'' \<or> str_contains ct ''ecmascript'' \<or> str_contains ct ''json''
              then extract_from_text E body base
         else if str_contains ct ''xml'' \<or> str_contains ct ''rss'' \<or> str_contains ct ''atom'' then extract_from_xml E body base
         else Some [])"

subsection \<open>What is extracted\<close>

text \<open>A link the crawler may follow: assembled from an http or https URL without a fragment, and not binary.\<close>

definition web_link :: "stdlib \<Rightarrow> rawurl \<Rightarrow> bool" where
  "web_link E l \<longleftrightarrow> (\<exists>u. l = url_string u \<and> to_lower E (u_scheme u) \<in> {''http'', ''https''} \<and> u_fragment u = [])
     \<and> \<not> is_binary_extension E l"

lemma resolve_url_web:
  "resolve_url E base href \<noteq> [] \<Longrightarrow>
    \<exists>u. resolve_url E base href = url_string u \<and> to_lower E (u_scheme u) \<in> {''http'', ''https''} \<and> u_fragment u = []"
proof -
  assume "resolve_url E base href \<noteq> []"
  then obtain parsed where p: "url_parse E href = Some parsed"
      "to_lower E (u_scheme (resolve_reference base parsed)) \<in> {''http'', ''https''}"
      "resolve_url E base href = url_string ((resolve_reference base parsed)\<lparr>u_fragment := []\<rparr>)"
    by (auto simp: resolve_url_def Let_def split: option.splits if_splits)
  then show ?thesis by (intro exI [of _ "(resolve_reference base parsed)\<lparr>u_fragment := []\<rparr>"]) simp
qed

lemma add_link_ok:
  assumes "distinct out" "\<forall>l \<in> set out. web_link E l"
  shows "distinct (add_link E (resolve_url E base raw) out) \<and> (\<forall>l \<in> set (add_link E (resolve_url E base raw) out). web_link E l)"
  using assms resolve_url_web [of E base raw] by (auto simp: add_link_def web_link_def)

lemma collect_links_ok:
  "collect_links E base ms out = Some ls \<Longrightarrow> distinct out \<Longrightarrow> \<forall>l \<in> set out. web_link E l
    \<Longrightarrow> distinct ls \<and> (\<forall>l \<in> set ls. web_link E l)"
proof (induction ms arbitrary: out)
  case (Cons m ms)
  show ?case
  proof (cases "trim_space m = []")
    case True
    then show ?thesis using Cons by simp
  next
    case False
    consider "collect_links E base ms out = Some ls"
      | b where "collect_links E base ms (add_link E (resolve_url E b (trim_space m)) out) = Some ls"
      using Cons.prems(1) False by (auto simp: Let_def split: option.splits if_splits)
    then show ?thesis
      using Cons.IH Cons.prems(2,3) add_link_ok [of out E] by cases blast+
  qed
qed simp

lemma collect_links_total: "\<exists>ls. collect_links E (Some b) ms out = Some ls"
  by (induction ms arbitrary: out) (simp_all add: Let_def)

lemma extract_cases:
  "(\<exists>rs. extract_resource_links E body ctype base = extract_with_regexes E body base rs) \<or> extract_resource_links E body ctype base = Some []"
  by (auto simp: extract_resource_links_def Let_def extract_from_css_def extract_from_text_def extract_from_xml_def)

lemma extract_resource_ok:
  "extract_resource_links E body ctype base = Some ls \<Longrightarrow> distinct ls \<and> (\<forall>l \<in> set ls. web_link E l)"
  using extract_cases [of E body ctype base] collect_links_ok [of E "url_parse E base" _ "[]" ls]
  by (auto simp: extract_with_regexes_def)

lemma extract_resource_total: "url_parse E base \<noteq> None \<Longrightarrow> extract_resource_links E body ctype base \<noteq> None"
  using extract_cases [of E body ctype base] collect_links_total [of E] by (auto simp: extract_with_regexes_def)

end
