(* ===== verification/Robots.thy ===== *)
theory Robots
  imports Prelude GoStrings
begin

text \<open>
  The robots.txt cache of \<open>internal/crawler/robots.go\<close>. The parser of the files is a third-party package
  (\<open>temoto/robotstxt\<close>): the data it returns is a type parameter, and its two lookups (the group of a user
  agent, and the test of a group) are arguments. The per-domain mutex lets one goroutine fetch at a time;
  \<open>get_or_fetch\<close> is the sequence of its critical sections, with the cache as it is found by each.
\<close>

record 'd robots_entry =
  rb_data :: "'d option"
  rb_fetched :: gotime
  rb_err :: bool

record 'd robots_cache =
  rc_cache :: "domain \<rightharpoonup> 'd robots_entry"
  rc_locks :: "domain set"
  rc_ttl :: duration

text \<open>
  The answer to a request for a robots.txt: the request could not be made or failed, or a status code with the
  body, which may fail to arrive.
\<close>

datatype robots_response = NoRequest | RequestFailed | Response int "string option"

definition new_robots_cache :: "duration \<Rightarrow> 'd robots_cache" where
  "new_robots_cache ttl = \<lparr>rc_cache = (\<lambda>_. None), rc_locks = {}, rc_ttl = ttl\<rparr>"

definition store_entry :: "domain \<Rightarrow> 'd robots_entry \<Rightarrow> 'd robots_cache \<Rightarrow> 'd robots_cache" where
  "store_entry d e rc = rc\<lparr>rc_cache := (rc_cache rc)(d \<mapsto> e)\<rparr>"

definition fetched_entry :: "(string \<Rightarrow> 'd option) \<Rightarrow> gotime \<Rightarrow> robots_response \<Rightarrow> 'd robots_entry" where
  "fetched_entry from_bytes now resp =
     (case resp of
        NoRequest \<Rightarrow> \<lparr>rb_data = None, rb_fetched = now, rb_err = True\<rparr>
      | RequestFailed \<Rightarrow> \<lparr>rb_data = None, rb_fetched = now, rb_err = True\<rparr>
      | Response status body \<Rightarrow>
          if status \<noteq> 200 then \<lparr>rb_data = None, rb_fetched = now, rb_err = False\<rparr>
          else (case body of
                  None \<Rightarrow> \<lparr>rb_data = None, rb_fetched = now, rb_err = True\<rparr>
                | Some bytes \<Rightarrow>
                    (case from_bytes (take (512 * 1024) bytes) of
                       None \<Rightarrow> \<lparr>rb_data = None, rb_fetched = now, rb_err = True\<rparr>
                     | Some data \<Rightarrow> \<lparr>rb_data = Some data, rb_fetched = now, rb_err = False\<rparr>)))"

definition robots_fetch :: "(string \<Rightarrow> 'd option) \<Rightarrow> gotime \<Rightarrow> robots_response \<Rightarrow> domain \<Rightarrow> 'd robots_cache \<Rightarrow> 'd robots_entry \<times> 'd robots_cache" where
  "robots_fetch from_bytes now resp d rc =
     (let entry = fetched_entry from_bytes now resp in (entry, store_entry d entry rc))"

definition fresh :: "gotime \<Rightarrow> domain \<Rightarrow> 'd robots_cache \<Rightarrow> 'd robots_entry option" where
  "fresh now d rc =
     (case rc_cache rc d of
        None \<Rightarrow> None
      | Some entry \<Rightarrow> if now - rb_fetched entry < rc_ttl rc then Some entry else None)"

definition domain_fetch_mutex :: "domain \<Rightarrow> 'd robots_cache \<Rightarrow> 'd robots_cache" where
  "domain_fetch_mutex d rc = rc\<lparr>rc_locks := insert d (rc_locks rc)\<rparr>"

text \<open>
  \<open>getOrFetch\<close> when no other goroutine writes between its two looks at the cache; the flag tells whether
  a request was made.
\<close>

definition get_or_fetch :: "(string \<Rightarrow> 'd option) \<Rightarrow> gotime \<Rightarrow> (domain \<Rightarrow> robots_response) \<Rightarrow> domain \<Rightarrow> 'd robots_cache
    \<Rightarrow> bool \<times> 'd robots_entry \<times> 'd robots_cache" where
  "get_or_fetch from_bytes now ask d rc =
     (case fresh now d rc of
        Some entry \<Rightarrow> (False, entry, rc)
      | None \<Rightarrow>
          (let rc1 = domain_fetch_mutex d rc
           in case fresh now d rc1 of
                Some entry \<Rightarrow> (False, entry, rc1)
              | None \<Rightarrow> (True, robots_fetch from_bytes now (ask d) d rc1)))"

definition is_allowed :: "('d \<Rightarrow> 'g option) \<Rightarrow> ('g \<Rightarrow> string \<Rightarrow> bool) \<Rightarrow> (string \<Rightarrow> 'd option) \<Rightarrow> gotime \<Rightarrow> (domain \<Rightarrow> robots_response)
    \<Rightarrow> rawurl \<Rightarrow> domain \<Rightarrow> 'd robots_cache \<Rightarrow> bool \<times> 'd robots_cache" where
  "is_allowed find_group test from_bytes now ask target d rc =
     (case get_or_fetch from_bytes now ask d rc of
        (asked, entry, rc1) \<Rightarrow>
          (case rb_data entry of
             None \<Rightarrow> (True, rc1)
           | Some data \<Rightarrow> (case find_group data of None \<Rightarrow> (True, rc1) | Some g \<Rightarrow> (test g target, rc1))))"

definition get_crawl_delay :: "(string \<Rightarrow> 'd option) \<Rightarrow> gotime \<Rightarrow> (domain \<Rightarrow> robots_response) \<Rightarrow> domain \<Rightarrow> 'd robots_cache
    \<Rightarrow> duration \<times> 'd robots_cache" where
  "get_crawl_delay from_bytes now ask d rc = (case get_or_fetch from_bytes now ask d rc of (asked, entry, rc1) \<Rightarrow> (0, rc1))"

definition clear_domain :: "domain \<Rightarrow> 'd robots_cache \<Rightarrow> 'd robots_cache" where
  "clear_domain d rc = rc\<lparr>rc_cache := (rc_cache rc)(d := None), rc_locks := rc_locks rc - {d}\<rparr>"

subsection \<open>Cached answers\<close>

lemma fetched_entry_time [simp]: "rb_fetched (fetched_entry fb now resp) = now"
  by (simp add: fetched_entry_def split: robots_response.split option.split)

lemma fetched_entry_data: "rb_data (fetched_entry fb now resp) = Some data \<longleftrightarrow>
    (\<exists>bytes. resp = Response 200 (Some bytes) \<and> fb (take (512 * 1024) bytes) = Some data)"
  by (auto simp: fetched_entry_def split: robots_response.split option.split)

lemma fresh_mutex [simp]: "fresh now d (domain_fetch_mutex d' rc) = fresh now d rc"
  by (simp add: fresh_def domain_fetch_mutex_def split: option.split)

lemma get_or_fetch_cases:
  "get_or_fetch fb now ask d rc =
    (case fresh now d rc of
       Some entry \<Rightarrow> (False, entry, rc)
     | None \<Rightarrow> (True, robots_fetch fb now (ask d) d (domain_fetch_mutex d rc)))"
  by (simp add: get_or_fetch_def Let_def split: option.split)

text \<open>After a lookup the domain stays cached for the time to live.\<close>

lemma get_or_fetch_fresh:
  assumes "get_or_fetch fb now ask d rc = (asked, entry, rc')" and "0 < rc_ttl rc"
  shows "rc_cache rc' d = Some entry \<and> now - rb_fetched entry < rc_ttl rc \<and> rc_ttl rc' = rc_ttl rc"
  using assms by (auto simp: get_or_fetch_cases fresh_def robots_fetch_def store_entry_def domain_fetch_mutex_def Let_def
      split: option.splits if_splits)

subsection \<open>Concurrent lookups of one domain\<close>

text \<open>
  The goroutines that look one domain up, each at its place in \<open>getOrFetch\<close>: before the first look, waiting
  for the domain's mutex, holding it before the second look, downloading, or done. \<open>lk_log\<close> lists the
  times at which downloads were stored, last first; time passes between steps.
\<close>

datatype lookup_phase = Looking | Waiting | Holding | Downloading | Done

record 'd lookups =
  lk_cache :: "'d robots_cache"
  lk_now :: gotime
  lk_owner :: "nat option"
  lk_phase :: "nat \<Rightarrow> lookup_phase"
  lk_log :: "gotime list"

definition at_phase :: "nat \<Rightarrow> lookup_phase \<Rightarrow> 'd lookups \<Rightarrow> 'd lookups" where
  "at_phase i p s = s\<lparr>lk_phase := (lk_phase s)(i := p)\<rparr>"

inductive lookup_step :: "(string \<Rightarrow> 'd option) \<Rightarrow> domain \<Rightarrow> 'd lookups \<Rightarrow> 'd lookups \<Rightarrow> bool" for fb d where
  lk_hit: "lk_phase s i = Looking \<Longrightarrow> fresh (lk_now s) d (lk_cache s) \<noteq> None \<Longrightarrow> lookup_step fb d s (at_phase i Done s)"
| lk_miss: "lk_phase s i = Looking \<Longrightarrow> fresh (lk_now s) d (lk_cache s) = None \<Longrightarrow> lookup_step fb d s (at_phase i Waiting s)"
| lk_lock: "lk_phase s i = Waiting \<Longrightarrow> lk_owner s = None \<Longrightarrow>
    lookup_step fb d s (at_phase i Holding (s\<lparr>lk_owner := Some i, lk_cache := domain_fetch_mutex d (lk_cache s)\<rparr>))"
| lk_recheck_hit: "lk_phase s i = Holding \<Longrightarrow> fresh (lk_now s) d (lk_cache s) \<noteq> None \<Longrightarrow>
    lookup_step fb d s (at_phase i Done (s\<lparr>lk_owner := None\<rparr>))"
| lk_recheck_miss: "lk_phase s i = Holding \<Longrightarrow> fresh (lk_now s) d (lk_cache s) = None \<Longrightarrow> lookup_step fb d s (at_phase i Downloading s)"
| lk_store: "lk_phase s i = Downloading \<Longrightarrow>
    lookup_step fb d s (at_phase i Done (s\<lparr>lk_owner := None, lk_cache := snd (robots_fetch fb (lk_now s) resp d (lk_cache s)),
      lk_log := lk_now s # lk_log s\<rparr>))"
| lk_tick: "0 \<le> t \<Longrightarrow> lookup_step fb d s (s\<lparr>lk_now := lk_now s + t\<rparr>)"
| lk_again: "lk_phase s i = Done \<Longrightarrow> lookup_step fb d s (at_phase i Looking s)"
| lk_other: "d' \<noteq> d \<Longrightarrow> lookup_step fb d s (s\<lparr>lk_cache := store_entry d' entry (lk_cache s)\<rparr>)"

definition start_lookups :: "duration \<Rightarrow> gotime \<Rightarrow> 'd lookups" where
  "start_lookups ttl now = \<lparr>lk_cache = new_robots_cache ttl, lk_now = now, lk_owner = None, lk_phase = (\<lambda>_. Looking), lk_log = []\<rparr>"

fun spaced :: "duration \<Rightarrow> gotime list \<Rightarrow> bool" where
  "spaced ttl (t # t' # ts) \<longleftrightarrow> t' + ttl \<le> t \<and> spaced ttl (t' # ts)"
| "spaced ttl _ \<longleftrightarrow> True"

definition in_critical :: "lookup_phase \<Rightarrow> bool" where
  "in_critical p \<longleftrightarrow> p = Holding \<or> p = Downloading"

definition lookups_ok :: "duration \<Rightarrow> domain \<Rightarrow> 'd lookups \<Rightarrow> bool" where
  "lookups_ok ttl d s \<longleftrightarrow> rc_ttl (lk_cache s) = ttl \<and> spaced ttl (lk_log s)
     \<and> (\<forall>i. in_critical (lk_phase s i) \<longrightarrow> lk_owner s = Some i)
     \<and> (case lk_log s of [] \<Rightarrow> rc_cache (lk_cache s) d = None
        | t # _ \<Rightarrow> t \<le> lk_now s \<and> (\<exists>e. rc_cache (lk_cache s) d = Some e \<and> rb_fetched e = t)
            \<and> (\<forall>i. lk_phase s i = Downloading \<longrightarrow> t + ttl \<le> lk_now s))"

lemma at_phase_simps [simp]:
  "lk_cache (at_phase i p s) = lk_cache s" "lk_now (at_phase i p s) = lk_now s" "lk_owner (at_phase i p s) = lk_owner s"
  "lk_log (at_phase i p s) = lk_log s" "lk_phase (at_phase i p s) = (lk_phase s)(i := p)"
  by (simp_all add: at_phase_def)

lemma cache_simps [simp]:
  "rc_ttl (store_entry d e rc) = rc_ttl rc" "rc_cache (store_entry d e rc) = (rc_cache rc)(d \<mapsto> e)"
  "rc_ttl (domain_fetch_mutex d rc) = rc_ttl rc" "rc_cache (domain_fetch_mutex d rc) = rc_cache rc"
  "robots_fetch fb now resp d rc = (fetched_entry fb now resp, store_entry d (fetched_entry fb now resp) rc)"
  by (simp_all add: store_entry_def domain_fetch_mutex_def robots_fetch_def Let_def)

lemma fresh_None: "fresh now d rc = None \<longleftrightarrow> (\<forall>e. rc_cache rc d = Some e \<longrightarrow> rb_fetched e + rc_ttl rc \<le> now)"
  by (auto simp: fresh_def split: option.split)

lemma lookups_exclusive: "lookups_ok ttl d s \<Longrightarrow> in_critical (lk_phase s i) \<Longrightarrow> in_critical (lk_phase s j) \<Longrightarrow> i = j"
  unfolding lookups_ok_def by (metis option.inject)

lemma lookup_step_ok:
  assumes "lookup_step fb d s s'" and "lookups_ok ttl d s"
  shows "lookups_ok ttl d s'"
  using assms
proof (cases rule: lookup_step.cases)
  case (lk_store i resp)
  then have "in_critical (lk_phase s i)" by (simp add: in_critical_def)
  then have "in_critical (lk_phase s j) \<Longrightarrow> j = i" for j using lookups_exclusive [OF assms(2)] by blast
  then show ?thesis using assms(2) lk_store
    by (auto simp: lookups_ok_def in_critical_def split: list.splits)
next
  case (lk_recheck_miss i)
  then have "in_critical (lk_phase s i)" by (simp add: in_critical_def)
  then have "in_critical (lk_phase s j) \<Longrightarrow> j = i" for j using lookups_exclusive [OF assms(2)] by blast
  then show ?thesis using assms(2) lk_recheck_miss
    by (auto simp: lookups_ok_def in_critical_def fresh_None split: list.splits)
next
  case (lk_tick t)
  have "t' + ttl \<le> lk_now s + t" if "t' + ttl \<le> lk_now s" for t' using that lk_tick(2) by simp
  then show ?thesis using assms(2) lk_tick by (auto simp: lookups_ok_def split: list.splits)
next
  case (lk_recheck_hit i)
  then have "in_critical (lk_phase s i)" by (simp add: in_critical_def)
  then have "in_critical (lk_phase s j) \<Longrightarrow> j = i" for j using lookups_exclusive [OF assms(2)] by blast
  then show ?thesis using assms(2) lk_recheck_hit by (auto simp: lookups_ok_def in_critical_def split: list.splits)
next
  case (lk_other d' entry)
  then show ?thesis using assms(2) by (auto simp: lookups_ok_def split: list.splits)
qed (use assms(2) in \<open>auto simp: lookups_ok_def in_critical_def split: list.splits\<close>)

lemma has_prefix_hd: "has_prefix s p \<Longrightarrow> p \<noteq> [] \<Longrightarrow> s \<noteq> [] \<and> hd s = hd p"
  by (cases s; cases p) (simp_all add: has_prefix_def)

subsection \<open>Properties\<close>

text \<open>
  C17. However many goroutines look a domain up at the same time, downloads of its robots.txt are stored at
  least the time to live apart: the second look under the domain's mutex keeps those who waited from
  downloading again.
\<close>

theorem robots_downloads_spaced:
  assumes "(lookup_step fb d)\<^sup>*\<^sup>* (start_lookups ttl now) s"
  shows "spaced ttl (lk_log s) \<and> (\<forall>i j. in_critical (lk_phase s i) \<and> in_critical (lk_phase s j) \<longrightarrow> i = j)"
proof -
  have "lookups_ok ttl d s"
    using assms
  proof (induction rule: rtranclp_induct)
    case base
    show ?case by (simp add: lookups_ok_def start_lookups_def new_robots_cache_def in_critical_def)
  qed (rule lookup_step_ok)
  then show ?thesis using lookups_exclusive by (auto simp: lookups_ok_def)
qed

text \<open>
  Rules for a path never apply: the test of a group compares its rules with the beginning of its argument,
  and the code passes the whole URL, which begins with the scheme. So a group whose rules are paths below
  the root never forbids an http or https URL, whatever its robots.txt says.
\<close>

theorem path_rules_ignored:
  assumes documented: "\<And>g arg. \<not> test g arg \<Longrightarrow> \<exists>path \<in> set (rules g). has_prefix arg path"
    and paths: "\<And>g path. path \<in> set (rules g) \<Longrightarrow> has_prefix path ''/''"
    and target: "has_prefix target ''http''"
  shows "fst (is_allowed find_group test fb now ask target d rc)"
proof -
  have "test g target" for g
  proof (rule ccontr)
    assume "\<not> test g target"
    then obtain path where "path \<in> set (rules g)" "has_prefix target path" using documented by blast
    then show False using paths [of path g] target has_prefix_hd [of path "''/''"] has_prefix_hd [of target path]
      has_prefix_hd [of target "''http''"] by auto
  qed
  then show ?thesis by (simp add: is_allowed_def split: prod.split option.split)
qed

theorem robots_downloads_spaced_witness:
  "\<exists>s. (lookup_step (\<lambda>b. Some b) ''a.org'')\<^sup>*\<^sup>* (start_lookups 10 0) s \<and> spaced 10 (lk_log s) \<and> lk_log s = [3]"
proof -
  let ?s0 = "start_lookups 10 0 :: string lookups"
  let ?s1 = "?s0\<lparr>lk_now := lk_now ?s0 + 3\<rparr>"
  let ?s2 = "at_phase 0 Waiting ?s1"
  let ?s3 = "at_phase 0 Holding (?s2\<lparr>lk_owner := Some 0, lk_cache := domain_fetch_mutex ''a.org'' (lk_cache ?s2)\<rparr>)"
  let ?s4 = "at_phase 0 Downloading ?s3"
  let ?s5 = "at_phase 0 Done (?s4\<lparr>lk_owner := None, lk_cache := snd (robots_fetch (\<lambda>b. Some b) (lk_now ?s4) RequestFailed ''a.org'' (lk_cache ?s4)),
      lk_log := lk_now ?s4 # lk_log ?s4\<rparr>)"
  note start = start_lookups_def new_robots_cache_def fresh_None
  have "lookup_step (\<lambda>b. Some b) ''a.org'' ?s0 ?s1" by (rule lk_tick) simp
  moreover have "lookup_step (\<lambda>b. Some b) ''a.org'' ?s1 ?s2" by (rule lk_miss) (simp_all add: start)
  moreover have "lookup_step (\<lambda>b. Some b) ''a.org'' ?s2 ?s3" by (rule lk_lock) (simp_all add: start)
  moreover have "lookup_step (\<lambda>b. Some b) ''a.org'' ?s3 ?s4" by (rule lk_recheck_miss) (simp_all add: start)
  moreover have "lookup_step (\<lambda>b. Some b) ''a.org'' ?s4 ?s5" by (rule lk_store) simp
  ultimately have run: "(lookup_step (\<lambda>b. Some b) ''a.org'')\<^sup>*\<^sup>* ?s0 ?s5" by (meson converse_rtranclp_into_rtranclp rtranclp.rtrancl_refl)
  have "lk_log ?s5 = [3]" by (simp add: start_lookups_def)
  moreover have "spaced 10 (lk_log ?s5)" using robots_downloads_spaced [OF run] by (rule conjunct1)
  ultimately show ?thesis using run by blast
qed

theorem path_rules_ignored_witness:
  "fst (is_allowed (\<lambda>data. Some data) (\<lambda>g arg. \<not> (\<exists>path \<in> set g. has_prefix path ''/'' \<and> has_prefix arg path)) (\<lambda>bytes. Some [''/private''])
     0 (\<lambda>d. Response 200 (Some ''Disallow: /private'')) ''https://a.org/private/x'' ''a.org'' (new_robots_cache 10))"
proof (rule path_rules_ignored [where rules = "\<lambda>g. filter (\<lambda>path. has_prefix path ''/'') g"])
qed (auto simp: has_prefix_def)

end
