(* ===== verification/Engine.thy ===== *)
theory Engine
  imports RenderDecider Resources Robots RateLimit
begin

text \<open>
  The crawl engine of \<open>internal/crawler/engine.go\<close>: what a worker does with one job, with the results of a
  browser render, and what it tells the frontier, the rate limiter, the batch writer and the domain
  statistics. Handling one job is one step: other workers run before or after it. The HTML parser, the
  hash of the content and the robots.txt parser are arguments, and so is what the network, the browser
  and the clock do during the step.
\<close>

record ('b, 'd, 'g) engine_env =
  ee_std :: stdlib
  ee_cfg :: crawler_config
  ee_rcfg :: rendering_config
  ee_renderer :: bool
  ee_bloom_test :: "'b \<Rightarrow> string \<Rightarrow> bool"
  ee_bloom_add :: "'b \<Rightarrow> string \<Rightarrow> 'b"
  ee_score :: "job \<Rightarrow> float64"
  ee_existing :: "rawurl list \<Rightarrow> rawurl set option"
  ee_parse :: "string \<Rightarrow> string \<Rightarrow> rawurl \<Rightarrow> parse_result option"
  ee_sha256 :: "string \<Rightarrow> string"
  ee_find_group :: "'d \<Rightarrow> 'g option"
  ee_robots_test :: "'g \<Rightarrow> string \<Rightarrow> bool"
  ee_robots_parse :: "string \<Rightarrow> 'd option"

datatype render_error = RendererBusy | RenderFailed

record moment =
  mo_start :: gotime
  mo_now :: gotime
  mo_robots :: "domain \<Rightarrow> robots_response"
  mo_fetch :: fetch_env
  mo_render :: "rawurl \<Rightarrow> render_error + fetch_result"
  mo_pending :: nat
  mo_done :: bool

text \<open>What the engine writes: calls to the batch writer, the statistics collector and the store, in order.\<close>

datatype effect = WritePage page | WriteLinks rawurl "outgoing_link list" | WriteImages "image_record list"
  | RecordStats domain duration | UpsertResource discovered_resource

record ('b, 'd) engine =
  en_frontier :: "'b frontier"
  en_limiter :: limiter
  en_robots :: "'d robots_cache"
  en_fetcher :: fetcher
  en_backlog :: backlog
  en_crawled :: int
  en_errored :: int
  en_effects :: "effect list"

text \<open>How the handling of a job ends.\<close>

datatype disposition = Skipped | Failed | Retried | Backlogged | Indexed | Discovered | Panicked

definition no_follow_domains :: "stdlib \<Rightarrow> crawler_config \<Rightarrow> domain list" where
  "no_follow_domains E cfg = map (to_lower E) (cr_no_follow cfg)"

definition blacklisted_domains :: "stdlib \<Rightarrow> crawler_config \<Rightarrow> domain list" where
  "blacklisted_domains E cfg = map (to_lower E) (cr_blacklist cfg)"

definition is_no_follow_domain :: "('b, 'd, 'g) engine_env \<Rightarrow> domain \<Rightarrow> bool" where
  "is_no_follow_domain env d = domain_listed (no_follow_domains (ee_std env) (ee_cfg env)) d"

definition is_blacklisted_domain :: "('b, 'd, 'g) engine_env \<Rightarrow> domain \<Rightarrow> bool" where
  "is_blacklisted_domain env d = domain_listed (blacklisted_domains (ee_std env) (ee_cfg env)) d"

definition emit :: "effect \<Rightarrow> ('b, 'd) engine \<Rightarrow> ('b, 'd) engine" where
  "emit x e = e\<lparr>en_effects := en_effects e @ [x]\<rparr>"

definition count_error :: "('b, 'd) engine \<Rightarrow> ('b, 'd) engine" where
  "count_error e = e\<lparr>en_errored := en_errored e + 1\<rparr>"

subsection \<open>Retries and discovered links\<close>

definition retry_or_fail :: "('b, 'd, 'g) engine_env \<Rightarrow> job \<Rightarrow> ('b, 'd) engine \<Rightarrow> disposition \<times> ('b, 'd) engine" where
  "retry_or_fail env job e =
     (if j_retries job < cr_max_retries (ee_cfg env)
      then (Retried, e\<lparr>en_frontier := retry (job\<lparr>j_retries := j_retries job + 1\<rparr>) (en_frontier e)\<rparr>)
      else (Failed, count_error e))"

definition max_links :: nat where
  "max_links = 100"

definition link_contexts :: "stdlib \<Rightarrow> page option \<Rightarrow> link_anchor list \<Rightarrow> link_context list" where
  "link_contexts E src anchors =
     (let (title, schema, lang) = (case src of None \<Rightarrow> ([], [], []) | Some p \<Rightarrow> (pg_title p, pg_schema_type p, pg_lang p))
      in map (\<lambda>a. \<lparr>lc_url = la_url a, lc_anchor = la_text a, lc_title = title, lc_schema = schema, lc_lang = lang\<rparr>)
           (filter (\<lambda>a. \<not> is_non_indexable E (la_url a)) anchors))"

definition enqueue_discovered_links :: "('b, 'd, 'g) engine_env \<Rightarrow> link_anchor list \<Rightarrow> int \<Rightarrow> page option \<Rightarrow> ('b, 'd) engine \<Rightarrow> ('b, 'd) engine" where
  "enqueue_discovered_links env anchors depth src e =
     (let links = link_contexts (ee_std env) src anchors;
          links1 = (if max_links < length links then take max_links links else links)
      in if length links1 = 0 then e
         else e\<lparr>en_frontier := add_batch (ee_std env) (ee_bloom_test env) (ee_bloom_add env) (ee_existing env) (ee_score env)
                 links1 depth priority_normal (en_frontier e)\<rparr>)"

subsection \<open>Resources that only lead to links\<close>

definition discovery_anchors :: "stdlib \<Rightarrow> domain \<Rightarrow> rawurl list \<Rightarrow> link_anchor list" where
  "discovery_anchors E d links =
     map (\<lambda>l. \<lparr>la_url = l, la_text = []\<rparr>) (filter (\<lambda>l. \<not> is_non_indexable E l \<and> extract_domain E l = d) links)"

definition process_discovery_only :: "('b, 'd, 'g) engine_env \<Rightarrow> moment \<Rightarrow> job \<Rightarrow> fetch_result \<Rightarrow> ('b, 'd) engine \<Rightarrow> disposition \<times> ('b, 'd) engine" where
  "process_discovery_only env mo job result e =
     (case extract_resource_links (ee_std env) (rs_body result) (rs_ctype result) (rs_final result) of
        None \<Rightarrow> (Panicked, e)
      | Some links \<Rightarrow>
          if length links = 0 then (Discovered, e)
          else (let anchors = discovery_anchors (ee_std env) (j_domain job) links;
                    e1 = (if 0 < length anchors \<and> j_depth job < cr_max_depth (ee_cfg env) \<and> \<not> is_no_follow_domain env (j_domain job)
                          then enqueue_discovered_links env anchors (j_depth job + 1) None e else e)
                in (Discovered, emit (UpsertResource \<lparr>dr_id = 0, dr_url = j_url job, dr_fp = fingerprint_url (ee_std env) (j_url job),
                      dr_kind = kind_from_content_type (ee_std env) (rs_ctype result), dr_status = rs_status result,
                      dr_crawled = mo_now mo\<rparr>) e1)))"

subsection \<open>Pages\<close>

text \<open>The URL under which a page is stored: its canonical URL if that stays on the job's domain.\<close>

definition page_url_of :: "stdlib \<Rightarrow> domain \<Rightarrow> rawurl \<Rightarrow> rawurl \<Rightarrow> rawurl" where
  "page_url_of E d canonical final =
     (let u0 = (if canonical \<noteq> []
                  then (case canonicalize_url E canonical of
                          Some (c, cd) \<Rightarrow> if cd = d then c else final
                        | None \<Rightarrow> final)
                  else final)
      in case canonicalize_url E u0 of Some (n, _) \<Rightarrow> n | None \<Rightarrow> u0)"

definition build_page :: "('b, 'd, 'g) engine_env \<Rightarrow> moment \<Rightarrow> job \<Rightarrow> fetch_result \<Rightarrow> parse_result \<Rightarrow> page" where
  "build_page env mo job result parsed =
     (let E = ee_std env; url = page_url_of E (j_domain job) (pr_canonical parsed) (rs_final result)
      in page0\<lparr>pg_url := url, pg_domain := j_domain job, pg_title := truncate_string (pr_title parsed) 500,
           pg_h1 := truncate_string (pr_h1 parsed) 1000, pg_h2 := truncate_string (pr_h2 parsed) 2000,
           pg_desc := truncate_string (pr_desc parsed) 1000, pg_content := pr_content parsed, pg_lang := pr_lang parsed,
           pg_region := infer_region E (j_domain job), pg_status := rs_status result,
           pg_content_hash := ee_sha256 env (pr_content parsed), pg_fp := fingerprint_url E url,
           pg_mode := rs_mode result, pg_reason := rs_reason result, pg_published := pr_published parsed,
           pg_crawled := mo_now mo, pg_schema_type := pr_schema_type parsed,
           pg_schema_title := truncate_string (pr_schema_title parsed) 500,
           pg_schema_desc := truncate_string (pr_schema_desc parsed) 1000,
           pg_schema_image := truncate_string (pr_schema_image parsed) 2000,
           pg_schema_author := truncate_string (pr_schema_author parsed) 500,
           pg_schema_keywords := truncate_string (pr_schema_keywords parsed) 1000,
           pg_schema_rating := pr_schema_rating parsed\<rparr>)"

definition outgoing_links :: "stdlib \<Rightarrow> domain \<Rightarrow> link_anchor list \<Rightarrow> outgoing_link list" where
  "outgoing_links E d anchors =
     map (\<lambda>a. \<lparr>ol_url = la_url a, ol_hash = 0, ol_text = la_text a\<rparr>) (filter (\<lambda>a. extract_domain E (la_url a) \<noteq> d) anchors)"

definition image_records :: "domain \<Rightarrow> rawurl \<Rightarrow> gotime \<Rightarrow> image_meta list \<Rightarrow> image_record list" where
  "image_records d page_url now imgs =
     map (\<lambda>i. \<lparr>ir_id = 0, ir_url = im_url i, ir_page_url = page_url, ir_page_id = 0, ir_domain = d,
        ir_alt = truncate_string (im_alt i) 500, ir_title = truncate_string (im_title i) 500,
        ir_context = truncate_string (im_context i) 500, ir_width = im_width i, ir_height = im_height i, ir_crawled = now\<rparr>) imgs"

text \<open>The writes: the page, the links that leave the domain, the images.\<close>

definition persist_writes :: "('b, 'd, 'g) engine_env \<Rightarrow> moment \<Rightarrow> job \<Rightarrow> page \<Rightarrow> parse_result \<Rightarrow> ('b, 'd) engine \<Rightarrow> ('b, 'd) engine" where
  "persist_writes env mo job p parsed e =
     (let e1 = emit (WritePage p) e;
          e2 = e1\<lparr>en_crawled := en_crawled e1 + 1\<rparr>;
          e3 = (if 0 < length (pr_anchors parsed)
                then emit (WriteLinks (pg_url p) (outgoing_links (ee_std env) (j_domain job) (pr_anchors parsed))) e2 else e2)
      in if 0 < length (pr_images parsed)
         then emit (WriteImages (image_records (j_domain job) (pg_url p) (mo_now mo) (pr_images parsed))) e3 else e3)"

definition persist_parsed_page :: "('b, 'd, 'g) engine_env \<Rightarrow> moment \<Rightarrow> job \<Rightarrow> fetch_result \<Rightarrow> parse_result \<Rightarrow> ('b, 'd) engine
    \<Rightarrow> disposition \<times> ('b, 'd) engine" where
  "persist_parsed_page env mo job result parsed e =
     (let p = build_page env mo job result parsed;
          e4 = persist_writes env mo job p parsed e;
          e5 = (if j_depth job < cr_max_depth (ee_cfg env) \<and> 0 < length (pr_anchors parsed) \<and> \<not> is_no_follow_domain env (j_domain job)
                then enqueue_discovered_links env (pr_anchors parsed) (j_depth job + 1) (Some p) e4 else e4)
      in (Indexed, emit (RecordStats (j_domain job) (rs_duration result)) e5))"

subsection \<open>One job\<close>

definition try_backlog :: "('b, 'd, 'g) engine_env \<Rightarrow> moment \<Rightarrow> job \<Rightarrow> rawurl \<Rightarrow> bool \<times> string \<Rightarrow> ('b, 'd) engine \<Rightarrow> bool \<times> ('b, 'd) engine" where
  "try_backlog env mo job target decision e =
     (case decision of
        (False, _) \<Rightarrow> (False, e)
      | (True, reason) \<Rightarrow>
          (case enqueue_render (ee_std env) (ee_rcfg env) (ee_renderer env) (mo_now mo) job target reason (en_backlog e) of
             (queued, b) \<Rightarrow> (queued, e\<lparr>en_backlog := b\<rparr>)))"

definition demote :: "job \<Rightarrow> job" where
  "demote job = (let s = j_score job * (1 / 4) in job\<lparr>j_score := (if s < 1 then 1 else s)\<rparr>)"

definition process_bad_status :: "('b, 'd, 'g) engine_env \<Rightarrow> moment \<Rightarrow> job \<Rightarrow> fetch_result \<Rightarrow> ('b, 'd) engine \<Rightarrow> disposition \<times> ('b, 'd) engine" where
  "process_bad_status env mo job result e =
     (if 400 \<le> rs_status result \<and> rs_status result < 500 \<and> rs_status result \<noteq> 429 then (Failed, count_error e)
      else if rs_status result = 429
           then retry_or_fail env (demote job) (e\<lparr>en_limiter := mark_throttled (mo_now mo) (j_domain job) (en_limiter e)\<rparr>)
           else retry_or_fail env job e)"

definition process_good_result :: "('b, 'd, 'g) engine_env \<Rightarrow> moment \<Rightarrow> job \<Rightarrow> fetch_result \<Rightarrow> ('b, 'd) engine \<Rightarrow> disposition \<times> ('b, 'd) engine" where
  "process_good_result env mo job result e =
     (if is_non_indexable (ee_std env) (rs_final result) then (Skipped, e)
      else if \<not> is_html_content_type (ee_std env) (rs_ctype result) then process_discovery_only env mo job result e
      else (case ee_parse env (rs_body result) (rs_ctype result) (rs_final result) of
              None \<Rightarrow> retry_or_fail env job e
            | Some parsed \<Rightarrow>
                (case try_backlog env mo job (rs_final result) (should_render_parsed (ee_std env) (ee_rcfg env) result parsed) e of
                   (True, e1) \<Rightarrow> (Backlogged, e1)
                 | (False, e1) \<Rightarrow>
                     if is_non_indexable (ee_std env) (rs_final result) then (Skipped, e1)
                     else if contains_known_interstitial (lower_body_sample (ee_std env) (rs_body result)) then (Failed, count_error e1)
                     else persist_parsed_page env mo job result parsed e1)))"

definition ok_status :: "fetch_result \<Rightarrow> bool" where
  "ok_status result \<longleftrightarrow> \<not> (rs_status result < 200 \<or> 300 \<le> rs_status result)"

definition process_result :: "('b, 'd, 'g) engine_env \<Rightarrow> moment \<Rightarrow> job \<Rightarrow> fetch_result \<Rightarrow> ('b, 'd) engine \<Rightarrow> disposition \<times> ('b, 'd) engine" where
  "process_result env mo job result e =
     (if ok_status result then process_good_result env mo job result e
      else (case try_backlog env mo job (j_url job) (should_render_status (ee_std env) (ee_rcfg env) result) e of
              (True, e1) \<Rightarrow> (Backlogged, e1)
            | (False, e1) \<Rightarrow> process_bad_status env mo job result e1))"

definition robots_allow :: "('b, 'd, 'g) engine_env \<Rightarrow> moment \<Rightarrow> job \<Rightarrow> ('b, 'd) engine \<Rightarrow> bool \<times> ('b, 'd) engine" where
  "robots_allow env mo job e =
     (if cr_respect_robots (ee_cfg env)
      then (case is_allowed (ee_find_group env) (ee_robots_test env) (ee_robots_parse env) (mo_now mo) (mo_robots mo)
                   (j_url job) (j_domain job) (en_robots e) of
              (ok, rc) \<Rightarrow> (ok, e\<lparr>en_robots := rc\<rparr>))
      else (True, e))"

definition process_job :: "('b, 'd, 'g) engine_env \<Rightarrow> moment \<Rightarrow> job \<Rightarrow> ('b, 'd) engine \<Rightarrow> disposition \<times> ('b, 'd) engine" where
  "process_job env mo job e =
     (if is_non_indexable (ee_std env) (j_url job) then (Skipped, e)
      else if is_blacklisted_domain env (j_domain job) then (Skipped, e)
      else (case robots_allow env mo job e of
              (False, e1) \<Rightarrow> (Skipped, e1)
            | (True, e1) \<Rightarrow>
                (case fetch (ee_std env) (mo_fetch mo) (j_url job) (en_fetcher e1) of
                   (res, ft, _) \<Rightarrow>
                     (let e2 = e1\<lparr>en_fetcher := ft\<rparr>
                      in case res of
                           Inl ErrUnsupported \<Rightarrow> (Skipped, e2)
                         | Inl FetchPanic \<Rightarrow> (Panicked, e2)
                         | Inl _ \<Rightarrow> retry_or_fail env job e2
                         | Inr result \<Rightarrow> process_result env mo job result e2))))"

subsection \<open>The backlog\<close>

definition render_job :: "('b, 'd, 'g) engine_env \<Rightarrow> moment \<Rightarrow> rawurl \<Rightarrow> string \<Rightarrow> render_error + fetch_result" where
  "render_job env mo target reason =
     (if \<not> ee_renderer env then Inl RenderFailed
      else (case mo_render mo target of
              Inl err \<Rightarrow> Inl err
            | Inr r \<Rightarrow> Inr (r\<lparr>rs_mode := ''browser'', rs_reason := reason\<rparr>)))"

text \<open>
  \<open>processRenderBacklogItem\<close>, begun at \<open>mo_start\<close>: \<open>mo_done\<close> says that the context ended while the worker waited for the
  item to become available, and \<open>mo_pending\<close> is the number of pending jobs then.
\<close>

definition process_backlog_item :: "('b, 'd, 'g) engine_env \<Rightarrow> moment \<Rightarrow> render_item \<Rightarrow> ('b, 'd) engine \<Rightarrow> disposition \<times> ('b, 'd) engine" where
  "process_backlog_item env mo it e =
     (let E = ee_std env; cfg = ee_rcfg env; job = ri_job it
      in if mo_start mo < ri_available it \<and> mo_done mo then (Skipped, e)
         else if 0 < mo_pending mo then (Backlogged, e\<lparr>en_backlog := push_render E it (en_backlog e)\<rparr>)
         else (case render_job env mo (ri_url it) (ri_reason it) of
                 Inl RendererBusy \<Rightarrow>
                   if ri_attempts it < re_busy_attempts cfg
                   then (let n = ri_attempts it + 1;
                             delay = (if re_busy_max cfg < n * re_busy_base cfg then re_busy_max cfg else n * re_busy_base cfg);
                             it1 = it\<lparr>ri_attempts := n, ri_available := mo_now mo + delay\<rparr>
                         in (Backlogged, e\<lparr>en_backlog := push_render E it1 (en_backlog e)\<rparr>))
                   else retry_or_fail env job e
               | Inl RenderFailed \<Rightarrow> retry_or_fail env job e
               | Inr rendered \<Rightarrow>
                   if \<not> ok_status rendered then (Failed, count_error e)
                   else if is_non_indexable E (rs_final rendered) then (Skipped, e)
                   else if \<not> is_html_content_type E (rs_ctype rendered) then process_discovery_only env mo job rendered e
                   else (case ee_parse env (rs_body rendered) (rs_ctype rendered) (rs_final rendered) of
                           None \<Rightarrow> (Failed, count_error e)
                         | Some parsed \<Rightarrow>
                             if contains_known_interstitial (lower_body_sample E (rs_body rendered)) then (Failed, count_error e)
                             else persist_parsed_page env mo job rendered parsed e)))"

text \<open>
  One turn of a worker's loop while the context lives: with nothing pending it takes an item of the
  backlog, otherwise it asks the queue, whose readiness callback is the rate limiter. \<open>None\<close> as the
  disposition is a turn that found no work.
\<close>

definition worker_turn :: "('b, 'd, 'g) engine_env \<Rightarrow> moment \<Rightarrow> duration \<Rightarrow> domain list \<Rightarrow> ('b, 'd) engine \<Rightarrow> disposition option \<times> ('b, 'd) engine" where
  "worker_turn env mo jit ks e =
     (case (if queue_len ks (fr_queue (en_frontier e)) = 0 then pop_render (ee_std env) (en_backlog e) else None) of
        Some (it, b) \<Rightarrow> map_prod Some id (process_backlog_item env mo it (e\<lparr>en_backlog := b\<rparr>))
      | None \<Rightarrow>
          (case frontier_dequeue ks (try_wait (mo_now mo) jit) (en_limiter e) (en_frontier e) of
             (r, l, f) \<Rightarrow>
               (let e1 = e\<lparr>en_frontier := f, en_limiter := l\<rparr>
                in case r of
                     DqJob job \<Rightarrow> map_prod Some id (process_job env mo job e1)
                   | DqNone \<Rightarrow> (None, e1)
                   | DqPanic \<Rightarrow> (Some Panicked, e1))))"

subsection \<open>Accounting\<close>

fun pages_of :: "effect list \<Rightarrow> page list" where
  "pages_of [] = []"
| "pages_of (WritePage p # xs) = p # pages_of xs"
| "pages_of (_ # xs) = pages_of xs"

definition page_ok :: "('b, 'd, 'g) engine_env \<Rightarrow> job \<Rightarrow> page \<Rightarrow> bool" where
  "page_ok env job p \<longleftrightarrow> pg_domain p = j_domain job \<and> pg_fp p = fingerprint_url (ee_std env) (pg_url p)
     \<and> 200 \<le> pg_status p \<and> pg_status p < 300 \<and> length (pg_title p) \<le> 500 \<and> length (pg_h1 p) \<le> 1000
     \<and> length (pg_h2 p) \<le> 2000 \<and> length (pg_desc p) \<le> 1000"

text \<open>A step that ended with disposition \<open>d\<close> has counted and written what \<open>d\<close> says, and nothing else.\<close>

definition accounted :: "('b, 'd, 'g) engine_env \<Rightarrow> job \<Rightarrow> disposition \<Rightarrow> ('b, 'd) engine \<Rightarrow> ('b, 'd) engine \<Rightarrow> bool" where
  "accounted env job d e e' \<longleftrightarrow> en_crawled e' = en_crawled e + of_bool (d = Indexed) \<and> en_errored e' = en_errored e + of_bool (d = Failed)
     \<and> (\<exists>new. en_effects e' = en_effects e @ new \<and> length (pages_of new) = of_bool (d = Indexed) \<and> list_all (page_ok env job) (pages_of new))"

lemma pages_of_append [simp]: "pages_of (xs @ ys) = pages_of xs @ pages_of ys"
  by (induction xs rule: pages_of.induct) simp_all

lemma emit_simps [simp]:
  "en_frontier (emit x e) = en_frontier e" "en_backlog (emit x e) = en_backlog e" "en_crawled (emit x e) = en_crawled e"
  "en_errored (emit x e) = en_errored e" "en_effects (emit x e) = en_effects e @ [x]" "en_limiter (emit x e) = en_limiter e"
  by (simp_all add: emit_def)

lemma count_error_simps [simp]:
  "en_frontier (count_error e) = en_frontier e" "en_backlog (count_error e) = en_backlog e" "en_crawled (count_error e) = en_crawled e"
  "en_errored (count_error e) = en_errored e + 1" "en_effects (count_error e) = en_effects e"
  by (simp_all add: count_error_def)

lemma discovered_simps [simp]:
  "en_backlog (enqueue_discovered_links env as n src e) = en_backlog e" "en_crawled (enqueue_discovered_links env as n src e) = en_crawled e"
  "en_errored (enqueue_discovered_links env as n src e) = en_errored e" "en_effects (enqueue_discovered_links env as n src e) = en_effects e"
  by (simp_all add: enqueue_discovered_links_def Let_def)

lemma accounted_quiet:
  "en_crawled e' = en_crawled e \<Longrightarrow> en_errored e' = en_errored e \<Longrightarrow> en_effects e' = en_effects e
    \<Longrightarrow> d \<noteq> Indexed \<Longrightarrow> d \<noteq> Failed \<Longrightarrow> accounted env job d e e'"
  by (simp add: accounted_def)

lemma accounted_failed: "accounted env job Failed e (count_error e)"
  by (simp add: accounted_def)

lemma accounted_frame:
  "accounted env job d e1 e2 \<Longrightarrow> en_crawled e1 = en_crawled e \<Longrightarrow> en_errored e1 = en_errored e \<Longrightarrow> en_effects e1 = en_effects e
    \<Longrightarrow> accounted env job d e e2"
  by (simp add: accounted_def)

lemma accounted_job: "accounted env job' d e e' \<Longrightarrow> j_domain job' = j_domain job \<Longrightarrow> accounted env job d e e'"
proof -
  assume "accounted env job' d e e'" "j_domain job' = j_domain job"
  moreover from this(2) have "page_ok env job' = page_ok env job" by (intro ext) (simp add: page_ok_def)
  ultimately show ?thesis by (simp add: accounted_def)
qed

lemma retry_or_fail_accounted: "retry_or_fail env job e = (d, e') \<Longrightarrow> accounted env job d e e'"
  by (auto simp: retry_or_fail_def accounted_failed split: if_splits intro: accounted_quiet)

lemma process_discovery_accounted:
  assumes "process_discovery_only env mo job result e = (d, e')"
  shows "accounted env job d e e' \<and> d \<noteq> Indexed"
proof (cases "extract_resource_links (ee_std env) (rs_body result) (rs_ctype result) (rs_final result)")
  case None
  then show ?thesis using assms by (auto simp: process_discovery_only_def intro: accounted_quiet)
next
  case (Some links)
  show ?thesis
  proof (cases "length links = 0")
    case True
    then show ?thesis using assms Some by (auto simp: process_discovery_only_def intro: accounted_quiet)
  next
    case False
    then have "d = Discovered" "en_crawled e' = en_crawled e" "en_errored e' = en_errored e" "\<exists>x. en_effects e' = en_effects e @ [UpsertResource x]"
      using assms Some by (auto simp: process_discovery_only_def Let_def)
    then show ?thesis by (auto simp: accounted_def)
  qed
qed

lemma build_page_ok: "ok_status result \<Longrightarrow> page_ok env job (build_page env mo job result parsed)"
  by (simp add: page_ok_def build_page_def Let_def ok_status_def)

lemma persist_writes_frame:
  "en_frontier (persist_writes env mo job p parsed e) = en_frontier e" "en_backlog (persist_writes env mo job p parsed e) = en_backlog e"
  "en_crawled (persist_writes env mo job p parsed e) = en_crawled e + 1" "en_errored (persist_writes env mo job p parsed e) = en_errored e"
  by (simp_all add: persist_writes_def Let_def)

lemma persist_writes_effects:
  "\<exists>xs. en_effects (persist_writes env mo job p parsed e) = en_effects e @ WritePage p # xs \<and> pages_of xs = []"
  by (cases "0 < length (pr_anchors parsed)"; cases "0 < length (pr_images parsed)") (auto simp: persist_writes_def Let_def)

lemma persist_accounted:
  assumes "persist_parsed_page env mo job result parsed e = (d, e')" and "ok_status result"
  shows "accounted env job d e e' \<and> d = Indexed"
proof -
  let ?p = "build_page env mo job result parsed"
  obtain xs where xs: "en_effects (persist_writes env mo job ?p parsed e) = en_effects e @ WritePage ?p # xs" "pages_of xs = []"
    using persist_writes_effects by blast
  have "en_effects e' = en_effects e @ WritePage ?p # xs @ [RecordStats (j_domain job) (rs_duration result)]"
    using assms(1) xs by (auto simp: persist_parsed_page_def Let_def)
  moreover have "en_crawled e' = en_crawled e + 1 \<and> en_errored e' = en_errored e \<and> d = Indexed"
    using assms(1) by (auto simp: persist_parsed_page_def Let_def persist_writes_frame)
  ultimately show ?thesis using build_page_ok [OF assms(2)] xs(2) by (simp add: accounted_def)
qed

lemma try_backlog_frame:
  "try_backlog env mo job target dec e = (q, e') \<Longrightarrow>
    en_crawled e' = en_crawled e \<and> en_errored e' = en_errored e \<and> en_effects e' = en_effects e \<and> en_frontier e' = en_frontier e"
  by (auto simp: try_backlog_def split: bool.splits prod.splits)

lemma good_result_accounted:
  assumes "process_good_result env mo job result e = (d, e')" and "ok_status result"
  shows "accounted env job d e e'"
proof (cases "is_non_indexable (ee_std env) (rs_final result) \<or> \<not> is_html_content_type (ee_std env) (rs_ctype result)")
  case True
  then show ?thesis
    using assms process_discovery_accounted [of env mo job result e d e'] by (auto simp: process_good_result_def intro: accounted_quiet split: if_splits)
next
  case html: False
  show ?thesis
  proof (cases "ee_parse env (rs_body result) (rs_ctype result) (rs_final result)")
    case None
    then show ?thesis using assms html retry_or_fail_accounted by (auto simp: process_good_result_def)
  next
    case (Some parsed)
    obtain q e1 where b: "try_backlog env mo job (rs_final result) (should_render_parsed (ee_std env) (ee_rcfg env) result parsed) e = (q, e1)"
      by (cases "try_backlog env mo job (rs_final result) (should_render_parsed (ee_std env) (ee_rcfg env) result parsed) e")
    note frame = try_backlog_frame [OF b]
    show ?thesis
    proof (cases "q \<or> contains_known_interstitial (lower_body_sample (ee_std env) (rs_body result))")
      case True
      then show ?thesis using assms html Some b frame accounted_failed [of env job e1]
        by (cases q) (auto simp: process_good_result_def intro: accounted_quiet accounted_frame)
    next
      case False
      then have "persist_parsed_page env mo job result parsed e1 = (d, e')" using assms html Some b by (simp add: process_good_result_def)
      from persist_accounted [OF this assms(2)] frame show ?thesis by (auto intro: accounted_frame)
    qed
  qed
qed

lemma demote_simps [simp]: "j_domain (demote job) = j_domain job" "j_url (demote job) = j_url job" "j_fp (demote job) = j_fp job"
  "j_retries (demote job) = j_retries job"
  by (simp_all add: demote_def Let_def)

lemma bad_status_accounted:
  assumes "process_bad_status env mo job result e = (d, e')"
  shows "accounted env job d e e'"
proof -
  let ?e = "e\<lparr>en_limiter := mark_throttled (mo_now mo) (j_domain job) (en_limiter e)\<rparr>"
  have "accounted env job d e e'" if "retry_or_fail env (demote job) ?e = (d, e')"
    using accounted_job [OF retry_or_fail_accounted [OF that], of job] by (auto intro: accounted_frame)
  then show ?thesis using assms retry_or_fail_accounted [of env job e d e'] accounted_failed [of env job e]
    by (auto simp: process_bad_status_def split: if_splits)
qed

lemma process_result_accounted:
  assumes "process_result env mo job result e = (d, e')"
  shows "accounted env job d e e'"
proof (cases "ok_status result")
  case True
  then show ?thesis using assms good_result_accounted by (auto simp: process_result_def)
next
  case False
  obtain q e1 where b: "try_backlog env mo job (j_url job) (should_render_status (ee_std env) (ee_rcfg env) result) e = (q, e1)"
    by (cases "try_backlog env mo job (j_url job) (should_render_status (ee_std env) (ee_rcfg env) result) e")
  note frame = try_backlog_frame [OF b]
  show ?thesis
    using assms False b frame bad_status_accounted [of env mo job result e1 d e']
    by (cases q) (auto simp: process_result_def intro: accounted_quiet accounted_frame)
qed

lemma robots_allow_frame:
  "robots_allow env mo job e = (ok, e') \<Longrightarrow>
    en_crawled e' = en_crawled e \<and> en_errored e' = en_errored e \<and> en_effects e' = en_effects e \<and> en_frontier e' = en_frontier e \<and> en_backlog e' = en_backlog e"
  by (auto simp: robots_allow_def split: if_splits prod.splits)

lemma process_job_accounted:
  assumes "process_job env mo job e = (d, e')"
  shows "accounted env job d e e'"
proof (cases "is_non_indexable (ee_std env) (j_url job) \<or> is_blacklisted_domain env (j_domain job)")
  case True
  then show ?thesis using assms by (auto simp: process_job_def intro: accounted_quiet split: if_splits)
next
  case False
  obtain ok e1 where r: "robots_allow env mo job e = (ok, e1)" by (cases "robots_allow env mo job e")
  note frame = robots_allow_frame [OF r]
  obtain res ft made where f: "fetch (ee_std env) (mo_fetch mo) (j_url job) (en_fetcher e1) = (res, ft, made)" by (metis surj_pair)
  let ?e2 = "e1\<lparr>en_fetcher := ft\<rparr>"
  show ?thesis
  proof (cases ok)
    case False
    then show ?thesis using assms \<open>\<not> (_ \<or> _)\<close> r frame by (auto simp: process_job_def intro: accounted_quiet)
  next
    case True
    have "accounted env job d ?e2 e'"
    proof (cases res)
      case (Inl err)
      then show ?thesis
        using assms \<open>\<not> (_ \<or> _)\<close> r f True retry_or_fail_accounted [of env job ?e2 d e']
        by (cases err) (auto simp: process_job_def Let_def intro: accounted_quiet)
    next
      case (Inr result)
      then show ?thesis
        using assms \<open>\<not> (_ \<or> _)\<close> r f True process_result_accounted [of env mo job result ?e2 d e'] by (simp add: process_job_def Let_def)
    qed
    then show ?thesis using frame by (auto intro: accounted_frame)
  qed
qed

lemma ok_rendered: "render_job env mo target reason = Inr r \<Longrightarrow> \<exists>r0. mo_render mo target = Inr r0 \<and> rs_status r = rs_status r0 \<and> rs_mode r = ''browser''"
  by (auto simp: render_job_def split: if_splits sum.splits)

lemma backlog_item_accounted:
  assumes "process_backlog_item env mo it e = (d, e')"
  shows "accounted env (ri_job it) d e e'"
proof (cases "mo_start mo < ri_available it \<and> mo_done mo \<or> 0 < mo_pending mo")
  case True
  then show ?thesis using assms by (auto simp: process_backlog_item_def Let_def intro: accounted_quiet split: if_splits)
next
  case False
  show ?thesis
  proof (cases "render_job env mo (ri_url it) (ri_reason it)")
    case (Inl err)
    then show ?thesis using assms False retry_or_fail_accounted [of env "ri_job it" e d e']
      by (cases err) (auto simp: process_backlog_item_def Let_def intro: accounted_quiet split: if_splits)
  next
    case (Inr r)
    consider "\<not> ok_status r" | "ok_status r" "is_non_indexable (ee_std env) (rs_final r)"
      | "ok_status r" "\<not> is_non_indexable (ee_std env) (rs_final r)" "\<not> is_html_content_type (ee_std env) (rs_ctype r)"
      | "ok_status r" "\<not> is_non_indexable (ee_std env) (rs_final r)" "is_html_content_type (ee_std env) (rs_ctype r)" by blast
    then show ?thesis
    proof cases
      case 3
      then have "process_discovery_only env mo (ri_job it) r e = (d, e')"
        using assms False Inr by (auto simp: process_backlog_item_def Let_def)
      then show ?thesis using process_discovery_accounted by blast
    next
      case 4
      then show ?thesis
        using assms False Inr persist_accounted [of env mo "ri_job it" r _ e d e'] accounted_failed [of env "ri_job it" e]
        by (cases "ee_parse env (rs_body r) (rs_ctype r) (rs_final r)")
          (auto simp: process_backlog_item_def Let_def split: if_splits)
    qed (use assms False Inr accounted_failed [of env "ri_job it" e] in
          \<open>auto simp: process_backlog_item_def Let_def intro: accounted_quiet\<close>)
  qed
qed

end
