(* ===== verification/EngineSafety.thy ===== *)
theory EngineSafety
  imports Engine
begin

text \<open>
  What the engine keeps: every job it queues or leaves in the render backlog is admissible and within its
  retries, whatever the network answers. The lemmas follow the handlers of \<open>Engine\<close> one by one.
\<close>

subsection \<open>Jobs the frontier creates are fresh\<close>

definition few_retries :: "int \<Rightarrow> 'b queue \<Rightarrow> bool" where
  "few_retries mx q \<longleftrightarrow> (\<forall>j. j \<in># pending q \<longrightarrow> j_retries j \<le> mx)"

lemma few_retries_from:
  "pending_from jobs q q' \<Longrightarrow> \<forall>j \<in> set jobs. j_retries j \<le> mx \<Longrightarrow> few_retries mx q \<Longrightarrow> few_retries mx q'"
  by (fastforce simp: pending_from_def few_retries_def)

lemma few_retries_mark [simp]: "few_retries mx (mark_seen ba fp q) = few_retries mx q"
  by (simp add: few_retries_def mark_seen_def frame_simps)

lemma make_job_retries [simp]: "j_retries (make_job score c depth base l) = 0"
  by (simp add: make_job_def Let_def)

lemma build_jobs_fresh:
  "build_jobs ba score ex depth base cs f = (jobs, f') \<Longrightarrow>
    (\<forall>j \<in> set jobs. j_retries j = 0) \<and> (queue_wf (fr_queue f) \<longrightarrow> queue_wf (fr_queue f'))
    \<and> few_retries mx (fr_queue f') = few_retries mx (fr_queue f)"
proof (induction cs arbitrary: f jobs)
  case (Cons x cs)
  obtain c l where x: "x = (c, l)" by (cases x)
  show ?case
  proof (cases "fst c \<in> ex")
    case True
    then show ?thesis using Cons.IH [of "f\<lparr>fr_queue := mark_seen ba (snd (snd c)) (fr_queue f)\<rparr>" jobs] Cons.prems x
      by (simp add: wf_mark_seen)
  next
    case False
    obtain js f1 where "build_jobs ba score ex depth base cs f = (js, f1)" by force
    then show ?thesis using Cons.IH [of f js] Cons.prems x False by auto
  qed
qed simp

lemma add_batch_fresh:
  assumes "queue_wf (fr_queue f)" and "few_retries mx (fr_queue f)" and "0 \<le> mx"
  shows "few_retries mx (fr_queue (add_batch E bt ba fe score links depth base f))"
proof -
  obtain cs f1 where c: "collect E bt links f = (cs, f1)" by force
  have q1: "fr_queue f1 = fr_queue f" using collect_frame [OF c] by simp
  define ex where "ex = (case fe (map (\<lambda>c. fst (fst c)) cs) of None \<Rightarrow> {} | Some s \<Rightarrow> s)"
  obtain jobs f2 where b: "build_jobs ba score ex depth base cs f1 = (jobs, f2)" by force
  have 2: "\<forall>j \<in> set jobs. j_retries j = 0" "queue_wf (fr_queue f2)" "few_retries mx (fr_queue f2)"
    using build_jobs_fresh [OF b, of mx] assms q1 by auto
  have "few_retries mx (snd (enqueue_batch bt ba jobs (fr_queue f2)))"
    by (rule few_retries_from [OF enqueue_batch_from [OF 2(2)] _ 2(3)]) (use 2(1) assms(3) in auto)
  then show ?thesis using c b 2 assms(2) q1 by (simp add: add_batch_def ex_def [symmetric] Let_def)
qed

lemma direct_jobs_fresh: "j \<in> set (direct_jobs E bl score depth base raws) \<Longrightarrow> j_retries j = 0"
  by (induction raws) (auto split: option.splits)

lemma add_batch_direct_fresh:
  assumes "queue_wf (fr_queue f)" and "few_retries mx (fr_queue f)" and "0 \<le> mx"
  shows "few_retries mx (fr_queue (snd (add_batch_direct E score raws depth base f)))"
proof -
  have "few_retries mx (snd (enqueue_batch_direct (direct_jobs E (fr_black f) score depth base raws) (fr_queue f)))"
    by (rule few_retries_from [OF enqueue_batch_direct_from [OF assms(1)] _ assms(2)]) (use assms(3) direct_jobs_fresh in fastforce)
  then show ?thesis using assms(2) by (auto simp: add_batch_direct_def Let_def split: prod.splits)
qed

lemma add_fresh:
  assumes "queue_wf (fr_queue f)" and "few_retries mx (fr_queue f)" and "0 \<le> mx"
  shows "few_retries mx (fr_queue (snd (add E bt ba get_page score raw depth base f)))"
proof -
  have "few_retries mx (snd (enqueue bt ba (make_job score c depth base l) (fr_queue f)))" for c l
    by (rule few_retries_from [OF enqueue_from [OF assms(1)] _ assms(2)]) (use assms(3) in simp)
  then show ?thesis using assms(2)
    by (auto simp: add_def dest: reserve_fp_frame split: option.splits bool.splits)
qed

subsection \<open>The invariant\<close>

definition job_fit :: "('b, 'd, 'g) engine_env \<Rightarrow> domain list \<Rightarrow> job \<Rightarrow> bool" where
  "job_fit env bl j \<longleftrightarrow> admissible (ee_std env) bl j \<and> j_retries j \<le> cr_max_retries (ee_cfg env)"

definition engine_ok :: "('b, 'd, 'g) engine_env \<Rightarrow> ('b, 'd) engine \<Rightarrow> bool" where
  "engine_ok env e \<longleftrightarrow> frontier_ok (ee_std env) (en_frontier e) \<and> few_retries (cr_max_retries (ee_cfg env)) (fr_queue (en_frontier e))
     \<and> backlog_wf (ee_std env) (en_backlog e) \<and> (\<forall>it \<in> set (bl_items (en_backlog e)). job_fit env (fr_black (en_frontier e)) (ri_job it))"

definition keeps :: "('b, 'd, 'g) engine_env \<Rightarrow> ('b, 'd) engine \<Rightarrow> ('b, 'd) engine \<Rightarrow> bool" where
  "keeps env e e' \<longleftrightarrow> engine_ok env e' \<and> fr_black (en_frontier e') = fr_black (en_frontier e)"

lemma engine_ok_queue: "engine_ok env e \<Longrightarrow> queue_wf (fr_queue (en_frontier e))"
  by (simp add: engine_ok_def frontier_ok_def)

lemma keeps_refl: "engine_ok env e \<Longrightarrow> keeps env e e"
  by (simp add: keeps_def)

lemma keeps_frame:
  "keeps env e1 e2 \<Longrightarrow> en_frontier e1 = en_frontier e \<Longrightarrow> en_frontier e' = en_frontier e2 \<Longrightarrow> en_backlog e' = en_backlog e2 \<Longrightarrow> keeps env e e'"
  unfolding keeps_def engine_ok_def by metis

lemma engine_ok_frame:
  "engine_ok env e \<Longrightarrow> en_frontier e' = en_frontier e \<Longrightarrow> en_backlog e' = en_backlog e \<Longrightarrow> engine_ok env e'"
  by (simp add: engine_ok_def)

lemma keeps_frontier:
  assumes "engine_ok env e" and "frontier_ok (ee_std env) f" and "few_retries (cr_max_retries (ee_cfg env)) (fr_queue f)"
    and "fr_black f = fr_black (en_frontier e)"
  shows "keeps env e (e\<lparr>en_frontier := f\<rparr>)"
  using assms by (simp add: keeps_def engine_ok_def)

lemma keeps_backlog:
  assumes "engine_ok env e" and "backlog_wf (ee_std env) b"
    and "\<And>it. it \<in> set (bl_items b) \<Longrightarrow> it \<in> set (bl_items (en_backlog e)) \<or> job_fit env (fr_black (en_frontier e)) (ri_job it)"
  shows "keeps env e (e\<lparr>en_backlog := b\<rparr>)"
  using assms by (auto simp: keeps_def engine_ok_def)

lemma keeps_emit [simp]: "keeps env e (emit x e') = keeps env e e'"
  by (simp add: keeps_def engine_ok_def)

lemma keeps_count [simp]: "keeps env e (count_error e') = keeps env e e'"
  by (simp add: keeps_def engine_ok_def)

lemma keeps_trans: "keeps env e1 e2 \<Longrightarrow> keeps env e2 e3 \<Longrightarrow> keeps env e1 e3"
  by (simp add: keeps_def)

lemma keepsD: "keeps env e e' \<Longrightarrow> engine_ok env e'"
  by (simp add: keeps_def)

lemma keeps_fit: "keeps env e e' \<Longrightarrow> job_fit env (fr_black (en_frontier e)) job \<Longrightarrow> job_fit env (fr_black (en_frontier e')) job"
  by (simp add: keeps_def)

subsection \<open>Handlers\<close>

lemma retry_keeps:
  assumes "retry_or_fail env job e = (d, e')" and "engine_ok env e" and "job_fit env (fr_black (en_frontier e)) job"
  shows "keeps env e e'"
proof (cases "j_retries job < cr_max_retries (ee_cfg env)")
  case True
  let ?job = "job\<lparr>j_retries := j_retries job + 1\<rparr>"
  have e': "e' = e\<lparr>en_frontier := retry ?job (en_frontier e)\<rparr>" using assms(1) True by (simp add: retry_or_fail_def)
  have adm: "admissible (ee_std env) (fr_black (en_frontier e)) ?job" using assms(3) by (simp add: job_fit_def admissible_def)
  have ok: "frontier_ok (ee_std env) (en_frontier e)" using assms(2) by (simp add: engine_ok_def)
  have "few_retries (cr_max_retries (ee_cfg env)) (snd (enqueue_retry ?job (fr_queue (en_frontier e))))"
    by (rule few_retries_from [OF enqueue_retry_from [OF engine_ok_queue [OF assms(2)]]]) (use True assms(2) in \<open>simp_all add: engine_ok_def\<close>)
  then show ?thesis
    unfolding e' using retry_ok [OF ok adm] by (intro keeps_frontier [OF assms(2)]) (simp_all add: retry_def)
next
  case False
  then show ?thesis using assms by (auto simp: retry_or_fail_def count_error_def intro: keeps_frame [OF keeps_refl])
qed

lemma discovered_keeps:
  assumes "scorer_contract (ee_score env)" and "0 \<le> cr_max_retries (ee_cfg env)" and "engine_ok env e"
  shows "keeps env e (enqueue_discovered_links env anchors depth src e)"
proof -
  have ok: "frontier_ok (ee_std env) (en_frontier e)" "few_retries (cr_max_retries (ee_cfg env)) (fr_queue (en_frontier e))"
    using assms(3) by (simp_all add: engine_ok_def)
  show ?thesis
    using keeps_refl [OF assms(3)] add_batch_ok [OF assms(1) ok(1)] add_batch_fresh [OF engine_ok_queue [OF assms(3)] ok(2) assms(2)]
    by (auto simp: enqueue_discovered_links_def Let_def intro!: keeps_frontier [OF assms(3)])
qed

lemma discovery_keeps:
  assumes "scorer_contract (ee_score env)" and "0 \<le> cr_max_retries (ee_cfg env)" and "engine_ok env e"
    and "process_discovery_only env mo job result e = (d, e')"
  shows "keeps env e e'"
proof (cases "extract_resource_links (ee_std env) (rs_body result) (rs_ctype result) (rs_final result)")
  case None
  then show ?thesis using assms(4) keeps_refl [OF assms(3)] by (simp add: process_discovery_only_def)
next
  case (Some links)
  let ?as = "discovery_anchors (ee_std env) (j_domain job) links"
  have "keeps env e e'" if "en_frontier e' = en_frontier e1" "en_backlog e' = en_backlog e1" "e1 = e \<or> e1 = enqueue_discovered_links env ?as (j_depth job + 1) None e" for e1
    using that discovered_keeps [OF assms(1-3)] keeps_refl [OF assms(3)] by (auto intro: keeps_frame)
  then show ?thesis using assms(4) Some by (fastforce simp: process_discovery_only_def Let_def split: if_splits)
qed

lemma persist_keeps:
  assumes "scorer_contract (ee_score env)" and "0 \<le> cr_max_retries (ee_cfg env)" and "engine_ok env e"
    and "persist_parsed_page env mo job result parsed e = (d, e')"
  shows "keeps env e e'"
proof -
  let ?p = "build_page env mo job result parsed"
  let ?e4 = "persist_writes env mo job ?p parsed e"
  have frame: "en_frontier ?e4 = en_frontier e" "en_backlog ?e4 = en_backlog e" by (rule persist_writes_frame)+
  have ok: "engine_ok env ?e4" by (rule engine_ok_frame [OF assms(3) frame])
  have "keeps env ?e4 e'"
    using assms(4) keeps_refl [OF ok] discovered_keeps [OF assms(1,2) ok]
    by (auto simp: persist_parsed_page_def Let_def)
  then show ?thesis by (rule keeps_frame) (simp_all add: frame)
qed

lemma backlog_push_keeps:
  assumes "engine_ok env e" and "job_fit env (fr_black (en_frontier e)) (ri_job it)"
  shows "keeps env e (e\<lparr>en_backlog := push_render (ee_std env) it (en_backlog e)\<rparr>)"
proof (rule keeps_backlog [OF assms(1)])
  show "backlog_wf (ee_std env) (push_render (ee_std env) it (en_backlog e))"
    using assms(1) by (simp add: engine_ok_def wf_push_render)
qed (use assms(2) in \<open>auto simp: push_render_def split: if_splits\<close>)

lemma try_backlog_keeps:
  assumes "try_backlog env mo job target dec e = (q, e')" and "engine_ok env e" and "job_fit env (fr_black (en_frontier e)) job"
  shows "keeps env e e'"
proof (cases dec)
  case (Pair ok reason)
  obtain q' b where b: "enqueue_render (ee_std env) (ee_rcfg env) (ee_renderer env) (mo_now mo) job target reason (en_backlog e) = (q', b)"
    by force
  have wf: "backlog_wf (ee_std env) (en_backlog e)" using assms(2) by (simp add: engine_ok_def)
  have "keeps env e (e\<lparr>en_backlog := b\<rparr>)"
  proof (rule keeps_backlog [OF assms(2)])
    show "backlog_wf (ee_std env) b" using wf_enqueue_render [OF wf] b by (metis snd_conv)
    show "it \<in> set (bl_items (en_backlog e)) \<or> job_fit env (fr_black (en_frontier e)) (ri_job it)" if "it \<in> set (bl_items b)" for it
      using that b assms(3) by (auto simp: enqueue_render_unfold push_render_def split: if_splits)
  qed
  then show ?thesis using assms(1) b Pair keeps_refl [OF assms(2)] by (cases ok) (auto simp: try_backlog_def)
qed

lemma demote_fit: "job_fit env bl job \<Longrightarrow> job_fit env bl (demote job)"
  by (auto simp: job_fit_def admissible_def demote_def Let_def)

lemma bad_status_keeps:
  assumes "process_bad_status env mo job result e = (d, e')" and "engine_ok env e" and "job_fit env (fr_black (en_frontier e)) job"
  shows "keeps env e e'"
proof -
  let ?e = "e\<lparr>en_limiter := mark_throttled (mo_now mo) (j_domain job) (en_limiter e)\<rparr>"
  have "engine_ok env ?e" by (rule engine_ok_frame [OF assms(2)]) simp_all
  then have "keeps env e e'" if "retry_or_fail env (demote job) ?e = (d, e')"
    using retry_keeps [OF that] demote_fit [OF assms(3)] by (auto intro: keeps_frame)
  then show ?thesis using assms retry_keeps [of env job e d e'] keeps_refl [OF assms(2)]
    by (auto simp: process_bad_status_def split: if_splits)
qed

lemma good_result_keeps:
  assumes "scorer_contract (ee_score env)" and "0 \<le> cr_max_retries (ee_cfg env)"
    and "process_good_result env mo job result e = (d, e')" and "engine_ok env e" and "job_fit env (fr_black (en_frontier e)) job"
  shows "keeps env e e'"
proof (cases "is_non_indexable (ee_std env) (rs_final result) \<or> \<not> is_html_content_type (ee_std env) (rs_ctype result)")
  case True
  then show ?thesis using assms(3) discovery_keeps [OF assms(1,2,4), of mo job result d e'] keeps_refl [OF assms(4)]
    by (auto simp: process_good_result_def split: if_splits)
next
  case html: False
  show ?thesis
  proof (cases "ee_parse env (rs_body result) (rs_ctype result) (rs_final result)")
    case None
    then show ?thesis using assms html retry_keeps [of env job e d e'] by (simp add: process_good_result_def)
  next
    case (Some parsed)
    obtain q e1 where b: "try_backlog env mo job (rs_final result) (should_render_parsed (ee_std env) (ee_rcfg env) result parsed) e = (q, e1)"
      by force
    note k1 = try_backlog_keeps [OF b assms(4,5)]
    have "keeps env e1 e'"
      using assms(3) html Some b keeps_refl [OF keepsD [OF k1]] persist_keeps [OF assms(1,2) keepsD [OF k1], of mo job result parsed d e']
      by (cases q) (auto simp: process_good_result_def split: if_splits)
    then show ?thesis by (rule keeps_trans [OF k1])
  qed
qed

lemma process_result_keeps:
  assumes "scorer_contract (ee_score env)" and "0 \<le> cr_max_retries (ee_cfg env)"
    and "process_result env mo job result e = (d, e')" and "engine_ok env e" and "job_fit env (fr_black (en_frontier e)) job"
  shows "keeps env e e'"
proof (cases "ok_status result")
  case True
  then show ?thesis using assms good_result_keeps [OF assms(1,2) _ assms(4,5)] by (simp add: process_result_def)
next
  case False
  obtain q e1 where b: "try_backlog env mo job (j_url job) (should_render_status (ee_std env) (ee_rcfg env) result) e = (q, e1)" by force
  note k1 = try_backlog_keeps [OF b assms(4,5)]
  have "keeps env e1 e'"
    using assms(3) False b keeps_refl [OF keepsD [OF k1]] bad_status_keeps [OF _ keepsD [OF k1] keeps_fit [OF k1 assms(5)], of mo result d e']
    by (cases q) (auto simp: process_result_def)
  then show ?thesis by (rule keeps_trans [OF k1])
qed

lemma process_job_keeps:
  assumes "scorer_contract (ee_score env)" and "0 \<le> cr_max_retries (ee_cfg env)"
    and "process_job env mo job e = (d, e')" and "engine_ok env e" and "job_fit env (fr_black (en_frontier e)) job"
  shows "keeps env e e'"
proof -
  obtain ok e1 where r: "robots_allow env mo job e = (ok, e1)" by force
  note frame = robots_allow_frame [OF r]
  obtain res ft made where f: "fetch (ee_std env) (mo_fetch mo) (j_url job) (en_fetcher e1) = (res, ft, made)" by (metis surj_pair)
  let ?e2 = "e1\<lparr>en_fetcher := ft\<rparr>"
  have ok1: "engine_ok env e1" and ok2: "engine_ok env ?e2"
    by (rule engine_ok_frame [OF assms(4)]; simp add: frame)+
  have fit2: "job_fit env (fr_black (en_frontier ?e2)) job" using assms(5) frame by simp
  consider "e' = e" | "e' = e1" | "e' = ?e2" | "retry_or_fail env job ?e2 = (d, e')"
    | result where "process_result env mo job result ?e2 = (d, e')"
    using assms(3) r f by (auto simp: process_job_def Let_def split: if_splits bool.splits sum.splits fetch_error.splits)
  then have "keeps env e e' \<or> keeps env ?e2 e'"
    using keeps_refl [OF assms(4)] keeps_refl [OF ok1] keeps_refl [OF ok2] retry_keeps [OF _ ok2 fit2]
      process_result_keeps [OF assms(1,2) _ ok2 fit2] keeps_frame [OF keeps_refl [OF ok1], of e e1] frame
    by cases auto
  then show ?thesis using frame by (auto intro: keeps_frame)
qed

lemma backlog_item_keeps:
  assumes "scorer_contract (ee_score env)" and "0 \<le> cr_max_retries (ee_cfg env)"
    and "process_backlog_item env mo it e = (d, e')" and "engine_ok env e" and "job_fit env (fr_black (en_frontier e)) (ri_job it)"
  shows "keeps env e e'"
proof -
  have push: "keeps env e (e\<lparr>en_backlog := push_render (ee_std env) it' (en_backlog e)\<rparr>)" if "ri_job it' = ri_job it" for it'
    by (rule backlog_push_keeps [OF assms(4)]) (simp add: that assms(5))
  show ?thesis
    using assms(3) keeps_refl [OF assms(4)] retry_keeps [OF _ assms(4,5)] discovery_keeps [OF assms(1,2,4)] persist_keeps [OF assms(1,2,4)]
    by (auto simp: process_backlog_item_def Let_def intro!: push split: if_splits sum.splits render_error.splits option.splits)
qed

subsection \<open>Turns of a worker and the other clients\<close>

lemma scan_ready_job:
  "queue_wf q \<Longrightarrow> scan_ready rdy cs off is s q = (DqJob job, s', q') \<Longrightarrow> job \<in># pending q"
  by (induction "is" arbitrary: s) (auto simp: Let_def split: if_splits prod.splits bool.splits option.splits dest: pop_job_spec(2))

lemma frontier_dequeue_job:
  assumes "frontier_dequeue ks rdy s f = (DqJob job, s', f')" and "queue_wf (fr_queue f)"
  shows "job \<in># pending (fr_queue f)"
  using assms scan_ready_job [of "(fr_queue f)\<lparr>q_round := q_round (fr_queue f) + 1\<rparr>"]
  by (auto simp: frontier_dequeue_def dequeue_locked_def Let_def frame_simps split: prod.splits if_splits)

lemma frontier_dequeue_few:
  assumes "frontier_dequeue ks rdy s f = (r, s', f')" and "queue_wf (fr_queue f)" and "few_retries mx (fr_queue f)"
  shows "few_retries mx (fr_queue f')"
proof -
  have "pending (fr_queue f') \<subseteq># pending (fr_queue f)"
    using assms(1,2) scan_ready_pending [of "(fr_queue f)\<lparr>q_round := q_round (fr_queue f) + 1\<rparr>"]
    by (auto simp: frontier_dequeue_def dequeue_locked_def Let_def frame_simps split: prod.splits if_splits)
  then show ?thesis using assms(3) by (auto simp: few_retries_def dest: mset_subset_eqD)
qed

lemma worker_turn_keeps:
  assumes "scorer_contract (ee_score env)" and "0 \<le> cr_max_retries (ee_cfg env)"
    and "worker_turn env mo jit ks e = (d, e')" and "engine_ok env e"
  shows "keeps env e e'"
proof (cases "if queue_len ks (fr_queue (en_frontier e)) = 0 then pop_render (ee_std env) (en_backlog e) else None")
  case (Some pr)
  obtain it b where pr: "pr = (it, b)" by force
  then have pop: "pop_render (ee_std env) (en_backlog e) = Some (it, b)" using Some by (auto split: if_splits)
  then have items: "bl_items (en_backlog e) = it # bl_items b" by (auto simp: pop_render_def split: list.splits)
  have wf: "backlog_wf (ee_std env) b" using wf_pop_render [OF _ pop] assms(4) by (simp add: engine_ok_def)
  have k1: "keeps env e (e\<lparr>en_backlog := b\<rparr>)" by (rule keeps_backlog [OF assms(4) wf]) (simp add: items)
  have fit: "job_fit env (fr_black (en_frontier (e\<lparr>en_backlog := b\<rparr>))) (ri_job it)" using assms(4) items by (simp add: engine_ok_def)
  obtain d' where "process_backlog_item env mo it (e\<lparr>en_backlog := b\<rparr>) = (d', e')"
    using assms(3) Some pr by (cases "process_backlog_item env mo it (e\<lparr>en_backlog := b\<rparr>)") (simp add: worker_turn_def)
  from backlog_item_keeps [OF assms(1,2) this keepsD [OF k1] fit] show ?thesis by (rule keeps_trans [OF k1])
next
  case None
  obtain r l f where dq: "frontier_dequeue ks (try_wait (mo_now mo) jit) (en_limiter e) (en_frontier e) = (r, l, f)" by (metis surj_pair)
  let ?e1 = "e\<lparr>en_frontier := f, en_limiter := l\<rparr>"
  have ok: "frontier_ok (ee_std env) (en_frontier e)" "few_retries (cr_max_retries (ee_cfg env)) (fr_queue (en_frontier e))"
    using assms(4) by (simp_all add: engine_ok_def)
  have "keeps env e (e\<lparr>en_frontier := f\<rparr>)"
    using dequeue_ok [OF ok(1) dq] frontier_dequeue_few [OF dq engine_ok_queue [OF assms(4)] ok(2)] by (intro keeps_frontier [OF assms(4)]) simp_all
  then have k1: "keeps env e ?e1" by (rule keeps_frame) simp_all
  show ?thesis
  proof (cases r)
    case (DqJob job)
    have "job \<in># pending (fr_queue (en_frontier e))" 
      using frontier_dequeue_job [OF dq [unfolded DqJob] engine_ok_queue [OF assms(4)]] .
    then have fit: "job_fit env (fr_black (en_frontier ?e1)) job"
      using ok k1 by (simp add: job_fit_def frontier_ok_def few_retries_def keeps_def)
    obtain d' where "process_job env mo job ?e1 = (d', e')"
      using assms(3) None dq DqJob by (cases "process_job env mo job ?e1") (simp add: worker_turn_def Let_def)
    from process_job_keeps [OF assms(1,2) this keepsD [OF k1] fit] show ?thesis by (rule keeps_trans [OF k1])
  qed (use assms(3) None dq k1 in \<open>auto simp: worker_turn_def Let_def\<close>)
qed

text \<open>
  The engine as its clients see it: turns of its workers, the links and URLs that the API, the scheduler and
  the seeds add to the frontier, and the rate limiter's own steps.
\<close>

inductive engine_step :: "('b, 'd, 'g) engine_env \<Rightarrow> ('b, 'd) engine \<Rightarrow> ('b, 'd) engine \<Rightarrow> bool" for env where
  es_turn: "worker_turn env mo jit ks e = (d, e') \<Longrightarrow> engine_step env e e'"
| es_add: "engine_step env e (e\<lparr>en_frontier := snd (add (ee_std env) (ee_bloom_test env) (ee_bloom_add env) get_page (ee_score env)
    raw depth base (en_frontier e))\<rparr>)"
| es_direct: "engine_step env e (e\<lparr>en_frontier := snd (add_batch_direct (ee_std env) (ee_score env) raws depth base (en_frontier e))\<rparr>)"
| es_limiter: "engine_step env e (e\<lparr>en_limiter := l\<rparr>)"

definition start_engine :: "'b \<Rightarrow> domain list \<Rightarrow> int \<Rightarrow> limiter \<Rightarrow> duration \<Rightarrow> fetcher \<Rightarrow> ('b, 'd) engine" where
  "start_engine b bl mx l ttl ft = \<lparr>en_frontier = new_frontier (new_queue b) bl mx, en_limiter = l, en_robots = new_robots_cache ttl,
     en_fetcher = ft, en_backlog = empty_backlog, en_crawled = 0, en_errored = 0, en_effects = []\<rparr>"

lemma start_engine_ok: "engine_ok env (start_engine b bl mx l ttl ft)"
proof -
  have "queue_wf (new_queue b)" by (rule wf_new_queue)
  then show ?thesis
    by (simp add: engine_ok_def start_engine_def frontier_ok_def few_retries_def new_frontier_def wf_empty_backlog)
      (simp add: new_queue_def pending_def empty_backlog_def)
qed

lemma engine_step_keeps:
  assumes "scorer_contract (ee_score env)" and "0 \<le> cr_max_retries (ee_cfg env)" and "engine_step env e e'" and "engine_ok env e"
  shows "keeps env e e'"
  using assms(3)
proof cases
  case (es_turn mo jit ks d)
  then show ?thesis using worker_turn_keeps [OF assms(1,2) _ assms(4)] by blast
next
  case es_add
  have ok: "frontier_ok (ee_std env) (en_frontier e)" "few_retries (cr_max_retries (ee_cfg env)) (fr_queue (en_frontier e))"
    using assms(4) by (simp_all add: engine_ok_def)
  show ?thesis unfolding es_add
    using add_ok [OF assms(1) ok(1)] add_fresh [OF engine_ok_queue [OF assms(4)] ok(2) assms(2)] by (intro keeps_frontier [OF assms(4)]) simp_all
next
  case es_direct
  have ok: "frontier_ok (ee_std env) (en_frontier e)" "few_retries (cr_max_retries (ee_cfg env)) (fr_queue (en_frontier e))"
    using assms(4) by (simp_all add: engine_ok_def)
  show ?thesis unfolding es_direct
    using add_batch_direct_ok [OF assms(1) ok(1)] add_batch_direct_fresh [OF engine_ok_queue [OF assms(4)] ok(2) assms(2)]
    by (intro keeps_frontier [OF assms(4)]) simp_all
next
  case es_limiter
  then show ?thesis using keeps_refl [OF assms(4)] by (auto intro: keeps_frame)
qed

lemma engine_steps_keep:
  assumes "scorer_contract (ee_score env)" and "0 \<le> cr_max_retries (ee_cfg env)" and "(engine_step env)\<^sup>*\<^sup>* e e'" and "engine_ok env e"
  shows "keeps env e e'"
  using assms(3)
proof (induction rule: rtranclp_induct)
  case base
  show ?case by (rule keeps_refl [OF assms(4)])
next
  case (step e1 e2)
  show ?case by (rule keeps_trans [OF step.IH engine_step_keeps [OF assms(1,2) step(2) keepsD [OF step.IH]]])
qed

subsection \<open>Properties\<close>

text \<open>
  C8. Whatever the network, the browser and the clients do, every job the engine has queued or left in the
  render backlog has a canonical, indexable URL on a domain that is neither blacklisted nor below a blacklisted
  one, the fingerprint of its URL, a score that is not negative and at most \<open>max_retries\<close> retries, so no URL
  is retried for ever; and the backlog's keys stay exact.
\<close>

theorem engine_jobs_admissible:
  assumes "scorer_contract (ee_score env)" and "0 \<le> cr_max_retries (ee_cfg env)"
    and "(engine_step env)\<^sup>*\<^sup>* (start_engine b bl mx l ttl ft) e"
    and "job \<in># pending (fr_queue (en_frontier e)) \<or> job \<in> ri_job ` set (bl_items (en_backlog e))"
  shows "(\<exists>raw. canonicalize_url (ee_std env) raw = Some (j_url job, j_domain job)) \<and> \<not> is_non_indexable (ee_std env) (j_url job)
    \<and> (\<forall>x \<in> set bl. j_domain job \<noteq> x \<and> \<not> (\<exists>p. j_domain job = p @ ''.'' @ x))
    \<and> j_fp job = fingerprint_url (ee_std env) (j_url job) \<and> 0 \<le> j_score job \<and> j_retries job \<le> cr_max_retries (ee_cfg env)
    \<and> backlog_wf (ee_std env) (en_backlog e)"
proof -
  have k: "keeps env (start_engine b bl mx l ttl ft) e" by (rule engine_steps_keep [OF assms(1-3) start_engine_ok])
  then have bl: "fr_black (en_frontier e) = bl" by (simp add: keeps_def start_engine_def new_frontier_def)
  have "job_fit env bl job \<and> backlog_wf (ee_std env) (en_backlog e)"
    using keepsD [OF k] assms(4) bl by (auto simp: engine_ok_def job_fit_def frontier_ok_def few_retries_def)
  then show ?thesis by (auto simp: job_fit_def admissible_def domain_listed_iff)
qed


text \<open>A small engine for the witnesses: one proxy, a page without links, and one blacklisted domain.\<close>

definition sample_parsed :: parse_result where
  "sample_parsed = \<lparr>pr_title = ''T'', pr_h1 = [], pr_h2 = [], pr_desc = [], pr_content = ''text'', pr_links = [], pr_anchors = [],
     pr_canonical = [], pr_lang = ''en'', pr_images = [], pr_published = time_zero, pr_schema_type = [], pr_schema_title = [],
     pr_schema_desc = [], pr_schema_image = [], pr_schema_author = [], pr_schema_keywords = [], pr_schema_rating = 0\<rparr>"

definition sample_engine_env :: "(unit, unit, unit) engine_env" where
  "sample_engine_env = \<lparr>ee_std = ascii_stdlib,
     ee_cfg = default_crawler\<lparr>cr_blacklist := [''bad.org'']\<rparr>, ee_rcfg = default_rendering, ee_renderer = False,
     ee_bloom_test = (\<lambda>_ _. False), ee_bloom_add = (\<lambda>b _. b), ee_score = static_score (new_static 50 10 30 12),
     ee_existing = (\<lambda>_. None), ee_parse = (\<lambda>_ _ _. Some sample_parsed), ee_sha256 = id,
     ee_find_group = (\<lambda>_. None), ee_robots_test = (\<lambda>_ _. True), ee_robots_parse = (\<lambda>_. None)\<rparr>"

definition redirect_env :: fetch_env where
  "redirect_env = \<lparr>fe_do = (\<lambda>_ _. Inr \<lparr>hr_status = 200, hr_ctype = ''text/html'', hr_final = ''http://bad.org/x'',
     hr_body = ''text'', hr_read_err = None, hr_duration = 1\<rparr>), fe_done = (\<lambda>_. False), fe_clock = (\<lambda>_. 0), fe_jitter = (\<lambda>_. 0)\<rparr>"

definition sample_moment :: moment where
  "sample_moment = \<lparr>mo_start = 1, mo_now = 2, mo_robots = (\<lambda>_. RequestFailed), mo_fetch = redirect_env,
     mo_render = (\<lambda>_. Inl RenderFailed), mo_pending = 0, mo_done = False\<rparr>"

definition sample_engine :: "(unit, unit) engine" where
  "sample_engine = start_engine () [''bad.org''] 10000 (new_domain_limiter 1 0 1) 10
     \<lparr>ft_max_kb = 512, ft_max_retries = 3, ft_proxies = [\<lparr>px_url = ''direct'', px_direct = True, px_status = StatusHealthy, px_failures = 0\<rparr>],
      ft_backoff = (\<lambda>_. None)\<rparr>"

lemma sample_env_simps:
  "scorer_contract (ee_score sample_engine_env)" "0 \<le> cr_max_retries (ee_cfg sample_engine_env)"
  using static.scorer_contract_axioms by (simp_all add: sample_engine_env_def default_crawler_def)

theorem engine_jobs_admissible_witness:
  "\<exists>e job. job \<in># pending (fr_queue (en_frontier e)) \<and> j_retries job \<le> 3 \<and> (engine_step sample_engine_env)\<^sup>*\<^sup>* sample_engine e"
proof -
  let ?f = "en_frontier sample_engine" and ?c = "(''http://a.org/x'', ''a.org'', ''http://a.org/x'')"
  let ?add = "add (ee_std sample_engine_env) (ee_bloom_test sample_engine_env) (ee_bloom_add sample_engine_env) (\<lambda>_. Some False)
      (ee_score sample_engine_env) ''http://a.org/x'' 0 0 ?f"
  let ?e = "sample_engine\<lparr>en_frontier := snd ?add\<rparr>" and ?job = "make_job (ee_score sample_engine_env) ?c 0 0 (no_context ''http://a.org/x'')"
  have f: "?f = new_frontier (new_queue ()) [''bad.org''] 10000" by (simp add: sample_engine_def start_engine_def)
  have admit: "admit ascii_stdlib [''bad.org''] ''http://a.org/x'' = Some ?c" by code_simp
  have run: "(engine_step sample_engine_env)\<^sup>*\<^sup>* sample_engine ?e" by (rule r_into_rtranclp, rule es_add)
  have "lists_wf (new_queue ())" using wf_new_queue [of "()"] unfolding queue_wf_lists by (rule conjunct1)
  then have job: "?job\<lparr>j_id := 1\<rparr> \<in># pending (fr_queue (en_frontier ?e))"
    using admit by (simp add: f add_def new_frontier_def reserve_fp_def bump_def has_seen_def enqueue_def sample_engine_env_def
        Let_def frame_simps pending_push) (simp add: stamped_def new_queue_def)
  have "j_retries (?job\<lparr>j_id := 1\<rparr>) \<le> cr_max_retries (ee_cfg sample_engine_env)"
    using engine_jobs_admissible [OF sample_env_simps run [unfolded sample_engine_def], of "?job\<lparr>j_id := 1\<rparr>"] job
    unfolding sample_engine_def by blast
  then show ?thesis using job run by (intro exI [of _ ?e] exI [of _ "?job\<lparr>j_id := 1\<rparr>"]) (simp add: sample_engine_env_def default_crawler_def)
qed

definition redirect_result :: fetch_result where
  "redirect_result = \<lparr>rs_status = 200, rs_body = ''text'', rs_ctype = ''text/html'', rs_final = ''http://bad.org/x'', rs_duration = 1,
     rs_truncated = False, rs_mode = ''http'', rs_reason = []\<rparr>"

lemma redirect_once: "fetch_once ascii_stdlib 512 (fe_do redirect_env a i) = (Some redirect_result, None)"
proof -
  have "is_allowed_content_type ascii_stdlib ''text/html'' = (True, True)" by code_simp
  then show ?thesis by (simp add: fetch_once_def redirect_env_def redirect_result_def Let_def body_limit_def)
qed

lemma redirect_fetched: "\<exists>ft made. fetch ascii_stdlib redirect_env ''http://a.org'' (en_fetcher sample_engine) = (Inr redirect_result, ft, made)"
proof -
  have "url_parse ascii_stdlib ''http://a.org'' \<noteq> None" by code_simp
  then obtain u where u: "url_parse ascii_stdlib ''http://a.org'' = Some u" by blast
  obtain m where m: "nat (ft_max_retries (en_fetcher sample_engine) + 1) = Suc m"
    by (cases "nat (ft_max_retries (en_fetcher sample_engine) + 1)") (auto simp: sample_engine_def start_engine_def)
  have status: "rs_status redirect_result = 200" by (simp add: redirect_result_def)
  show ?thesis
    by (simp add: fetch_def u m Let_def) (simp add: sample_engine_def start_engine_def get_client_def redirect_once status throttled_status_def)
qed

lemma redirect_facts:
  "\<not> is_non_indexable ascii_stdlib ''http://a.org''" "\<not> is_non_indexable ascii_stdlib ''http://bad.org/x''"
  "\<not> domain_listed [''bad.org''] ''a.org''" "domain_listed [''bad.org''] ''bad.org''"
  "canonicalize_url ascii_stdlib ''http://bad.org/x'' = Some (''http://bad.org/x'', ''bad.org'')"
  "is_html_content_type ascii_stdlib ''text/html''" "map (to_lower ascii_stdlib) [''bad.org''] = [''bad.org'']"
  "\<not> contains_known_interstitial (to_lower ascii_stdlib ''text'')"
  by code_simp+



end
