(* ===== verification/Utf8.thy ===== *)
theory Utf8
  imports EditDistance
begin

text \<open>
  UTF-8 as the Go runtime reads and writes it: decoding yields Unicode scalar values, decoding an encoded
  scalar value gives it back, and so reading a string of encoded runes returns those runes. White space can
  then be cut off rune by rune.
\<close>

definition valid_rune :: "rune \<Rightarrow> bool" where
  "valid_rune r \<longleftrightarrow> r < 55296 \<or> (57344 \<le> r \<and> r < 1114112)"

lemma valid_rune_intros:
  "r < 128 \<Longrightarrow> valid_rune r" "valid_rune 65533"
  "x < 32 \<Longrightarrow> y < 64 \<Longrightarrow> valid_rune (x * 64 + y)"
  "x < 16 \<Longrightarrow> (x = 13 \<longrightarrow> y < 32) \<Longrightarrow> y < 64 \<Longrightarrow> z < 64 \<Longrightarrow> valid_rune (x * 4096 + y * 64 + z)"
  "x < 5 \<Longrightarrow> (x = 0 \<longrightarrow> 16 \<le> y) \<Longrightarrow> (x = 4 \<longrightarrow> y < 16) \<Longrightarrow> y < 64 \<Longrightarrow> z < 64 \<Longrightarrow> w < 64 \<Longrightarrow>
    valid_rune (x * 262144 + y * 4096 + z * 64 + w)"
  unfolding valid_rune_def by (linarith | (cases "x = 13"; cases "x < 13"; linarith) | (cases "x = 0"; cases "x = 4"; linarith))+

lemma valid_rune_branches:
  "(P \<Longrightarrow> valid_rune (fst a)) \<Longrightarrow> valid_rune (fst b) \<Longrightarrow> valid_rune (fst (if P then a else b))"
  "valid_rune (fst a) \<Longrightarrow> (\<And>y ys. valid_rune (fst (f y ys))) \<Longrightarrow>
    valid_rune (fst (case xs of [] \<Rightarrow> a | y # ys \<Rightarrow> f y ys))"
  by (auto split: list.splits)

lemma decode_rune_valid: "valid_rune (fst (decode_rune s))"
  unfolding decode_rune_def
  by (intro valid_rune_branches; simp only: fst_conv;
      (rule valid_rune_intros(5) | rule valid_rune_intros(4) | rule valid_rune_intros(3) | rule valid_rune_intros(2) | rule valid_rune_intros(1)); auto split: if_splits)
lemma byte_char_of: "n < 256 \<Longrightarrow> byte (char_of n) = (n::nat)"
  by simp

lemma decode_encode:
  assumes "valid_rune r"
  shows "decode_rune (encode_rune r @ s) = (r, length (encode_rune r))"
proof -
  have rd: "r = r div 64 * 64 + r mod 64" "r div 64 = r div 64 div 64 * 64 + r div 64 mod 64"
    "r div 4096 = r div 4096 div 64 * 64 + r div 4096 mod 64" "r div 64 div 64 = r div 4096" "r div 4096 div 64 = r div 262144"
    by (simp_all only: div_mult_mod_eq)
  consider "r < 128" | "128 \<le> r" "r < 2048" | "2048 \<le> r" "r < 65536" | "65536 \<le> r" "r < 1114112"
    using assms unfolding valid_rune_def by linarith
  then show ?thesis
  proof cases
    case 1
    then show ?thesis by (simp add: decode_rune_def encode_rune_def)
  next
    case 2
    define a where "a = r div 64"
    define b where "b = r mod 64"
    have "r = a * 64 + b" "b < 64" "2 \<le> a" "a < 32" using 2 by (auto simp: a_def b_def)
    then show ?thesis using 2 by (simp add: decode_rune_def encode_rune_def a_def [symmetric] b_def [symmetric])
  next
    case 3
    define a where "a = r div 4096"
    define b where "b = r div 64 mod 64"
    define c where "c = r mod 64"
    have r: "r = a * 4096 + b * 64 + c" using rd(1,2,4) unfolding a_def b_def c_def by linarith
    have bnd: "a < 16" "b < 64" "c < 64" using 3 by (auto simp: a_def b_def c_def)
    have e: "a = 0 \<Longrightarrow> 32 \<le> b" using 3(1) r bnd by linarith
    have d: "a = 13 \<Longrightarrow> b < 32" using assms r bnd unfolding valid_rune_def by linarith
    show ?thesis using 3 bnd e d
      by (auto simp: decode_rune_def encode_rune_def a_def [symmetric] b_def [symmetric] c_def [symmetric] r [symmetric])
  next
    case 4
    define a where "a = r div 262144"
    define b where "b = r div 4096 mod 64"
    define c where "c = r div 64 mod 64"
    define d where "d = r mod 64"
    have r: "r = a * 262144 + b * 4096 + c * 64 + d" using rd unfolding a_def b_def c_def d_def by linarith
    have bnd: "a \<le> 4" "b < 64" "c < 64" "d < 64" using 4 by (auto simp: a_def b_def c_def d_def)
    have e: "a = 0 \<Longrightarrow> 16 \<le> b" using 4(1) r bnd by linarith
    have f: "a = 4 \<Longrightarrow> b < 16" using 4(2) r bnd by linarith
    show ?thesis using 4 bnd e f
      by (auto simp: decode_rune_def encode_rune_def a_def [symmetric] b_def [symmetric] c_def [symmetric] d_def [symmetric] r [symmetric])
  qed
qed

lemma encode_rune_nonempty [simp]: "encode_rune r \<noteq> []"
  by (simp add: encode_rune_def)

lemma runes_nonempty: "s \<noteq> [] \<Longrightarrow>
  runes s = (fst (decode_rune s), take (snd (decode_rune s)) s) # runes (drop (snd (decode_rune s)) s)"
  by (cases s) auto

declare runes.simps(2) [simp del]

lemma runes_encode: "list_all valid_rune rs \<Longrightarrow> runes (runes_string rs @ s) = map (\<lambda>r. (r, encode_rune r)) rs @ runes s"
  by (induction rs) (simp_all add: runes_string_def runes_nonempty decode_encode)

lemma runes_of_string: "list_all valid_rune rs \<Longrightarrow> runes (runes_string rs) = map (\<lambda>r. (r, encode_rune r)) rs"
  using runes_encode [of rs "[]"] by simp

lemma rune_list_string [simp]: "list_all valid_rune rs \<Longrightarrow> rune_list (runes_string rs) = rs"
  by (simp add: rune_list_def runes_of_string comp_def)

lemma runes_bytes: "concat (map snd (runes s)) = s"
  by (induction s rule: runes.induct) (simp_all add: runes.simps)

lemma rune_list_valid: "list_all valid_rune (rune_list s)"
  unfolding rune_list_def
  by (induction s rule: runes.induct) (simp_all add: runes.simps decode_rune_valid)

lemma runes_string_append [simp]: "runes_string (xs @ ys) = runes_string xs @ runes_string ys"
  by (simp add: runes_string_def)

lemma runes_string_Nil [simp]: "runes_string [] = []"
  by (simp add: runes_string_def)

lemma runes_string_empty_iff [simp]: "runes_string rs = [] \<longleftrightarrow> rs = []"
  by (cases rs) (simp_all add: runes_string_def)

lemma encode_unique_prefix:
  assumes "valid_rune r" "valid_rune q" "encode_rune r @ s = encode_rune q @ t"
  shows "r = q"
  using decode_encode [OF assms(1), of s] decode_encode [OF assms(2), of t] assms(3) by simp

subsection \<open>White space\<close>

definition space_rune :: "rune \<Rightarrow> bool" where
  "space_rune r \<longleftrightarrow> r \<in> {9, 10, 11, 12, 13, 32, 133, 160, 5760, 8232, 8233, 8239, 8287, 12288} \<or> 8192 \<le> r \<and> r \<le> 8202"

definition wide_space_runes :: "rune list" where
  "wide_space_runes = [133, 160, 5760] @ [8192..<8203] @ [8232, 8233, 8239, 8287, 12288]"

lemma wide_spaces_encoded: "wide_spaces = map encode_rune wide_space_runes"
  by (simp add: wide_spaces_def wide_space_runes_def encode_rune_def)

lemma wide_space_runes_ok: "r \<in> set wide_space_runes \<Longrightarrow> valid_rune r \<and> space_rune r \<and> 128 \<le> r"
  by (auto simp: wide_space_runes_def valid_rune_def space_rune_def)

lemma encode_rune_ascii: "r < 128 \<Longrightarrow> encode_rune r = [char_of r]"
  by (simp add: encode_rune_def)

definition continuation :: "char \<Rightarrow> bool" where
  "continuation c \<longleftrightarrow> 128 \<le> byte c \<and> byte c < 192"

lemma encode_rune_shape:
  assumes "valid_rune r" "128 \<le> r"
  shows "\<exists>c cs. encode_rune r = c # cs \<and> cs \<noteq> [] \<and> 192 \<le> byte c \<and> list_all continuation cs"
proof -
  have "r div 262144 \<le> 4" "r < 65536 \<Longrightarrow> r div 4096 < 16" "r < 2048 \<Longrightarrow> r div 64 < 32" "\<And>n::nat. n mod 64 < 64"
    using assms(1) by (auto simp: valid_rune_def less_mult_imp_div_less)
  then show ?thesis using assms(2) by (auto simp: encode_rune_def continuation_def trans_less_add1)
qed

lemma last_continuation: "list_all continuation cs \<Longrightarrow> cs \<noteq> [] \<Longrightarrow> 128 \<le> byte (last cs)"
  by (metis continuation_def last_in_set list_all_iff)

lemma encode_unique_suffix:
  assumes r: "valid_rune r" "128 \<le> r" and q: "valid_rune q" "128 \<le> q" and eq: "s @ encode_rune r = t @ encode_rune q"
  shows "r = q"
proof -
  obtain c cs where c: "encode_rune r = c # cs" "192 \<le> byte c" "list_all continuation cs" using encode_rune_shape [OF r] by auto
  obtain d ds where d: "encode_rune q = d # ds" "192 \<le> byte d" "list_all continuation ds" using encode_rune_shape [OF q] by auto
  have no: False if "192 \<le> byte e" "list_all continuation (x @ e # es)" for x e es
    using that by (simp add: continuation_def)
  have "cs = ds \<and> c = d \<or> (\<exists>u. cs = u @ d # ds) \<or> (\<exists>u. ds = u @ c # cs)"
    using eq unfolding c(1) d(1) by (auto simp: append_eq_append_conv2 append_eq_Cons_conv Cons_eq_append_conv)
  moreover have "\<not> (\<exists>u. cs = u @ d # ds)" using no [OF d(2)] c(3) by blast
  moreover have "\<not> (\<exists>u. ds = u @ c # cs)" using no [OF c(2)] d(3) by blast
  ultimately have "encode_rune r @ [] = encode_rune q @ []" using c(1) d(1) by simp
  then show ?thesis using encode_unique_prefix [OF r(1) q(1)] by blast
qed

lemma find_only:
  assumes "\<And>y. y \<in> set xs \<Longrightarrow> P y \<longleftrightarrow> y = x"
  shows "find P xs = (if x \<in> set xs then Some x else None)"
  using assms by (induction xs) auto

lemma wide_space_member:
  assumes "valid_rune r" "128 \<le> r"
  shows "encode_rune r \<in> set wide_spaces \<longleftrightarrow> space_rune r"
proof
  assume "space_rune r"
  then have "r \<in> set wide_space_runes" using assms(2) unfolding space_rune_def wide_space_runes_def set_append set_upt by fastforce
  then show "encode_rune r \<in> set wide_spaces" by (simp add: wide_spaces_encoded)
next
  assume "encode_rune r \<in> set wide_spaces"
  then obtain q where q: "q \<in> set wide_space_runes" "encode_rune r = encode_rune q" by (auto simp: wide_spaces_encoded)
  then have "r = q" using encode_unique_prefix [OF assms(1), of q "[]" "[]"] wide_space_runes_ok [OF q(1)] by simp
  then show "space_rune r" using wide_space_runes_ok [OF q(1)] by simp
qed

lemma space_prefix_rune:
  assumes "valid_rune r"
  shows "space_prefix (encode_rune r @ s) = (if space_rune r then length (encode_rune r) else 0)"
proof (cases "r < 128")
  case True
  then show ?thesis by (auto simp: space_prefix_def encode_rune_ascii ascii_space_def space_rune_def)
next
  case False
  then obtain c cs where c: "encode_rune r = c # cs" "192 \<le> byte c" using encode_rune_shape [OF assms] by auto
  have "has_prefix (encode_rune r @ s) y \<longleftrightarrow> y = encode_rune r" if y: "y \<in> set wide_spaces" for y
  proof -
    obtain q where q: "q \<in> set wide_space_runes" "y = encode_rune q" using y unfolding wide_spaces_encoded set_map by blast
    show ?thesis
    proof
      assume "has_prefix (encode_rune r @ s) y"
      then have "encode_rune r @ s = encode_rune q @ drop (length y) (encode_rune r @ s)"
        unfolding has_prefix_def q(2) by (metis append_take_drop_id)
      then show "y = encode_rune r" using encode_unique_prefix [OF assms] wide_space_runes_ok [OF q(1)] q(2) by blast
    qed (simp add: has_prefix_def)
  qed
  from find_only [of wide_spaces, OF this] show ?thesis
    using False c wide_space_member [OF assms] by (auto simp: space_prefix_def ascii_space_def)
qed

lemma space_suffix_rune:
  assumes "valid_rune r"
  shows "space_suffix (s @ encode_rune r) = (if space_rune r then length (encode_rune r) else 0)"
proof (cases "r < 128")
  case True
  then show ?thesis by (auto simp: space_suffix_def encode_rune_ascii ascii_space_def space_rune_def)
next
  case False
  then obtain c cs where c: "encode_rune r = c # cs" "cs \<noteq> []" "list_all continuation cs" using encode_rune_shape [OF assms] by auto
  have "128 \<le> byte (last (s @ encode_rune r))" using c last_continuation by simp
  moreover have "has_suffix (s @ encode_rune r) y \<longleftrightarrow> y = encode_rune r" if y: "y \<in> set wide_spaces" for y
  proof -
    obtain q where q: "q \<in> set wide_space_runes" "y = encode_rune q" using y unfolding wide_spaces_encoded set_map by blast
    show ?thesis
    proof
      assume "has_suffix (s @ encode_rune r) y"
      then have "s @ encode_rune r = take (length (s @ encode_rune r) - length y) (s @ encode_rune r) @ encode_rune q"
        unfolding has_suffix_def q(2) by (metis append_take_drop_id)
      then show "y = encode_rune r" using encode_unique_suffix [OF assms] False wide_space_runes_ok [OF q(1)] q(2) by (metis not_less)
    qed (simp add: has_suffix_def)
  qed
  note find_only [of wide_spaces, OF this]
  ultimately show ?thesis
    using False wide_space_member [OF assms] by (auto simp: space_suffix_def ascii_space_def)
qed

lemma trim_space_word:
  assumes "valid_rune r" "\<not> space_rune r" "valid_rune q" "\<not> space_rune q"
    and "s = encode_rune r @ x" "s = y @ encode_rune q" and "a \<in> {[], '' ''}" "b \<in> {[], '' ''}"
  shows "trim_space (a @ s @ b) = s"
proof -
  have P: "space_prefix (s @ b) = 0" using space_prefix_rune [OF assms(1), of "x @ b"] assms(2,5) by simp
  have S: "space_suffix s = 0" using space_suffix_rune [OF assms(3), of y] assms(4,6) by simp
  have "trim_space_left (s @ b) = s @ b" by (subst trim_space_left.simps) (simp add: P)
  then have L: "trim_space_left (a @ s @ b) = s @ b"
    using assms(7) by (auto simp: trim_space_left.simps [of "CHR '' '' # _"] space_prefix_def ascii_space_def)
  have "trim_space_right s = s" by (subst trim_space_right.simps) (simp add: S)
  then have "trim_space_right (s @ b) = s"
    using assms(8) by (auto simp: trim_space_right.simps [of "_ @ '' ''"] space_suffix_def ascii_space_def)
  with L show ?thesis by (simp add: trim_space_def)
qed

end
