(* ===== verification/GoSort.thy ===== *)
theory GoSort
  imports Prelude
begin

text \<open>
  \<open>sort.SliceStable\<close> of the Go library: the insertion sort that it applies to up to 20 elements, with a
  comparison that need not be an order. For a strict weak order the result is sorted and keeps equivalent
  elements in place, which determines it, so the block merging of longer slices gives the same list.
\<close>

text \<open>The sorted part is held in reverse: the new element moves down past those it is less than.\<close>

fun shift_in :: "('a \<Rightarrow> 'a \<Rightarrow> bool) \<Rightarrow> 'a \<Rightarrow> 'a list \<Rightarrow> 'a list" where
  "shift_in lt x [] = [x]"
| "shift_in lt x (y # ys) = (if lt x y then y # shift_in lt x ys else x # y # ys)"

definition slice_stable :: "('a \<Rightarrow> 'a \<Rightarrow> bool) \<Rightarrow> 'a list \<Rightarrow> 'a list" where
  "slice_stable lt xs = rev (fold (shift_in lt) xs [])"

lemma mset_shift_in [simp]: "mset (shift_in lt x ys) = add_mset x (mset ys)"
  by (induction ys) auto

lemma set_shift_in [simp]: "set (shift_in lt x ys) = insert x (set ys)"
  by (metis mset_shift_in set_mset_add_mset_insert set_mset_mset)

lemma mset_slice_stable [simp]: "mset (slice_stable lt xs) = mset xs"
proof -
  have "mset (fold (shift_in lt) xs ys) = mset xs + mset ys" for ys
    by (induction xs arbitrary: ys) simp_all
  then show ?thesis by (simp add: slice_stable_def)
qed

lemma set_slice_stable [simp]: "set (slice_stable lt xs) = set xs"
  by (metis mset_slice_stable set_mset_mset)

lemma length_slice_stable [simp]: "length (slice_stable lt xs) = length xs"
  by (metis mset_slice_stable size_mset)

text \<open>A comparison function as \<open>sort\<close> expects it.\<close>

locale weak_order =
  fixes lt :: "'a \<Rightarrow> 'a \<Rightarrow> bool"
  assumes asym: "lt x y \<Longrightarrow> \<not> lt y x"
    and neg_trans: "\<not> lt x y \<Longrightarrow> \<not> lt y z \<Longrightarrow> \<not> lt x z"
begin

lemma shift_in_sorted: "sorted_wrt (\<lambda>a b. \<not> lt a b) ys \<Longrightarrow> sorted_wrt (\<lambda>a b. \<not> lt a b) (shift_in lt x ys)"
proof (induction ys)
  case (Cons y ys)
  show ?case
  proof (cases "lt x y")
    case True
    then show ?thesis using Cons asym [OF True] by simp
  next
    case False
    then have "\<forall>z \<in> set ys. \<not> lt x z" using Cons.prems neg_trans [OF False] by simp
    then show ?thesis using False Cons.prems by simp
  qed
qed simp

lemma fold_sorted: "sorted_wrt (\<lambda>a b. \<not> lt a b) ys \<Longrightarrow> sorted_wrt (\<lambda>a b. \<not> lt a b) (fold (shift_in lt) xs ys)"
  by (induction xs arbitrary: ys) (simp_all add: shift_in_sorted)

lemma slice_stable_sorted: "sorted_wrt (\<lambda>a b. \<not> lt b a) (slice_stable lt xs)"
  using fold_sorted [of "[]" xs] by (simp add: slice_stable_def sorted_wrt_rev)

lemma shift_in_class:
  "filter (\<lambda>y. \<not> lt x y \<and> \<not> lt y x) (shift_in lt z ys) = filter (\<lambda>y. \<not> lt x y \<and> \<not> lt y x) (z # ys)"
proof (induction ys)
  case (Cons y ys)
  show ?case
  proof (cases "lt z y")
    case True
    then have "\<not> (\<not> lt x y \<and> \<not> lt y x \<and> \<not> lt x z \<and> \<not> lt z x)" using neg_trans by blast
    with True Cons show ?thesis by auto
  qed simp
qed simp

lemma fold_class:
  "filter (\<lambda>y. \<not> lt x y \<and> \<not> lt y x) (fold (shift_in lt) zs ys) = rev (filter (\<lambda>y. \<not> lt x y \<and> \<not> lt y x) zs) @ filter (\<lambda>y. \<not> lt x y \<and> \<not> lt y x) ys"
proof (induction zs arbitrary: ys)
  case (Cons z zs)
  then show ?case using shift_in_class [of x z ys] by simp
qed simp

lemma slice_stable_class:
  "filter (\<lambda>y. \<not> lt x y \<and> \<not> lt y x) (slice_stable lt xs) = filter (\<lambda>y. \<not> lt x y \<and> \<not> lt y x) xs"
  using fold_class [of x xs "[]"] by (simp add: slice_stable_def rev_filter [symmetric])

end

end
