(* ===== verification/SearchText.thy ===== *)
theory SearchText
  imports Utf8 GoSort GoUrl Regex SiteHints
begin

text \<open>
  The text utilities of \<open>internal/storage/sqlite_search.go\<close>: normalisation of search text,
  stop words, domain-like queries, the split of a domain, home pages, token utilities, the builders of the
  full-text queries and the splitting of compound words. What comes from \<open>golang.org/x/text\<close> (removal of
  diacritics) and \<open>golang.org/x/net/publicsuffix\<close> is a field of \<open>search_env\<close>, as are the configured
  dictionaries and weights.
\<close>

record search_env =
  se_std :: stdlib
  se_fold :: "string \<Rightarrow> string option"
  se_etld1 :: "string \<Rightarrow> string option"
  se_site_types :: "string set"
  se_platforms :: "string set"
  se_language_boost :: float64
  se_secondary_language :: string
  se_secondary_boost :: float64
  se_equal_fold :: "string \<Rightarrow> string \<Rightarrow> bool"

text \<open>\<open>strings.EqualFold\<close>; \<open>se_equal_fold\<close> is the case folding of non-ASCII text.\<close>

definition str_equal_fold :: "search_env \<Rightarrow> string \<Rightarrow> string \<Rightarrow> bool" where
  "str_equal_fold V a b = (if is_ascii a \<and> is_ascii b then map lower_char a = map lower_char b else se_equal_fold V a b)"

subsection \<open>Fields of a string\<close>

text \<open>\<open>strings.FieldsFunc\<close>: \<open>cur\<close> is the field being read, empty outside a field.\<close>

fun fields_loop :: "(rune \<Rightarrow> bool) \<Rightarrow> string \<Rightarrow> (rune \<times> string) list \<Rightarrow> string list" where
  "fields_loop sep cur [] = (if cur = [] then [] else [cur])"
| "fields_loop sep cur ((r, b) # rs) =
     (if sep r then (if cur = [] then fields_loop sep [] rs else cur # fields_loop sep [] rs)
      else fields_loop sep (cur @ b) rs)"

definition fields_func :: "(rune \<Rightarrow> bool) \<Rightarrow> string \<Rightarrow> string list" where
  "fields_func sep s = fields_loop sep [] (runes s)"

definition str_fields :: "string \<Rightarrow> string list" where
  "str_fields s = fields_func space_rune s"

subsection \<open>Normalised search text\<close>

text \<open>The loop of \<open>normalizeSearchText\<close>; \<open>sp\<close> is \<open>lastSpace\<close>.\<close>

fun squash :: "stdlib \<Rightarrow> rune list \<Rightarrow> bool \<Rightarrow> string" where
  "squash E [] sp = []"
| "squash E (r # rs) sp =
     (if is_letter E r \<or> is_digit E r then encode_rune r @ squash E rs False
      else if sp then squash E rs sp
      else '' '' @ squash E rs True)"

definition normalize_search_text :: "search_env \<Rightarrow> string \<Rightarrow> string" where
  "normalize_search_text V value =
     (let v1 = to_lower (se_std V) (trim_space value)
      in if v1 = [] then []
         else (let v2 = (case se_fold V v1 of Some n \<Rightarrow> n | None \<Rightarrow> v1)
               in trim_space (squash (se_std V) (rune_list v2) False)))"

definition search_stopwords :: "string list" where
  "search_stopwords =
     [''a'', ''al'', ''con'', ''de'', ''del'', ''el'', ''en'', ''es'', ''la'', ''las'', ''lo'', ''los'', ''le'', ''les'',
      ''me'', ''mi'', ''no'', ''nos'', ''o'', ''por'', ''que'', ''se'', ''si'', ''sin'', ''su'', ''sus'', ''te'', ''tu'',
      ''tus'', ''un'', ''una'', ''y'', ''ya'',
      ''como'', ''cual'', ''donde'', ''este'', ''esta'', ''esto'', ''ese'', ''esa'', ''eso'', ''para'', ''pero'',
      ''mas'', ''muy'', ''fue'', ''hay'', ''ser'', ''cuando'', ''cuanto'', ''quien'', ''quienes'', ''cuyo'',
      ''sobre'', ''entre'', ''hasta'', ''desde'', ''tras'',
      ''an'', ''and'', ''are'', ''as'', ''at'', ''be'', ''but'', ''by'', ''do'', ''for'', ''from'', ''had'', ''has'', ''have'',
      ''he'', ''her'', ''him'', ''his'', ''how'', ''if'', ''in'', ''is'', ''it'', ''its'', ''my'', ''not'', ''of'', ''on'',
      ''or'', ''our'', ''she'', ''so'', ''the'', ''to'', ''up'', ''us'', ''was'', ''we'', ''who'', ''you'',
      ''when'', ''what'', ''where'', ''which'', ''why'', ''with'', ''about'', ''into'', ''through'', ''during'',
      ''before'', ''after'', ''above'', ''below'', ''than'']"

definition media_title_stopwords :: "string list" where
  "media_title_stopwords =
     [''from'', ''the'', ''it'', ''you'', ''we'', ''her'', ''him'', ''us'', ''me'', ''my'', ''up'', ''in'', ''on'', ''el'', ''la'',
      ''lo'', ''los'', ''las'', ''un'', ''una'', ''su'', ''si'', ''no'', ''ya'']"

definition filter_stopwords_context :: "string list \<Rightarrow> bool \<Rightarrow> string list" where
  "filter_stopwords_context tokens media =
     (if length tokens \<le> 1 then tokens
      else (let filtered = filter (\<lambda>t. t \<notin> set search_stopwords \<or> media \<and> t \<in> set media_title_stopwords) tokens
            in if length filtered = 0 then tokens else filtered))"

definition filter_stopwords :: "string list \<Rightarrow> string list" where
  "filter_stopwords tokens = filter_stopwords_context tokens False"

subsection \<open>Domains and home pages\<close>

definition normalize_domain_like_query :: "search_env \<Rightarrow> string \<Rightarrow> string" where
  "normalize_domain_like_query V query =
     (let value = to_lower (se_std V) (trim_space query)
      in if value = [] then []
         else (let v1 =
                 (if str_contains value ''://'' \<or> (str_contains value ''.'' \<and> \<not> str_contains value '' '')
                  then (let v = (if str_contains value ''://'' then value else ''https://'' @ value)
                        in case url_parse (se_std V) v of
                             Some u \<Rightarrow> if url_hostname u \<noteq> [] then url_hostname u else v
                           | None \<Rightarrow> v)
                  else value);
                 v2 = trim_prefix v1 ''www.''
               in if \<not> str_contains v2 ''.'' then [] else trim_set v2 ''. /''))"

record search_domain_info =
  di_effective :: string
  di_root :: string
  di_is_root :: bool

definition classify_search_domain :: "search_env \<Rightarrow> string \<Rightarrow> search_domain_info" where
  "classify_search_domain V domain0 =
     (let domain = to_lower (se_std V) (trim_space (trim_prefix domain0 ''www.''))
      in if domain = [] then \<lparr>di_effective = [], di_root = [], di_is_root = False\<rparr>
         else (let effective = (case se_etld1 V domain of Some r \<Rightarrow> r | None \<Rightarrow> domain);
                   root = (case index_byte effective CHR ''.'' of Some dot \<Rightarrow> take dot effective | None \<Rightarrow> effective)
               in \<lparr>di_effective = effective, di_root = root, di_is_root = (domain = effective)\<rparr>))"

text \<open>The expression \<open>^[a-z]{2}(-[a-zA-Z0-9]{2,4})?$\<close>.\<close>

definition is_language_path_segment :: "string \<Rightarrow> bool" where
  "is_language_path_segment s \<longleftrightarrow>
     2 \<le> length s \<and> list_all ascii_lower (take 2 s) \<and>
     (let rest = drop 2 s
      in rest = [] \<or> (hd rest = CHR ''-'' \<and> 3 \<le> length rest \<and> length rest \<le> 5
           \<and> list_all (\<lambda>c. ascii_lower c \<or> ascii_upper c \<or> ascii_digit c) (tl rest)))"

definition is_search_homepage :: "stdlib \<Rightarrow> rawurl \<Rightarrow> bool" where
  "is_search_homepage E raw =
     (case url_parse E raw of
        None \<Rightarrow> False
      | Some u \<Rightarrow>
          if u_rawquery u \<noteq> [] \<or> u_fragment u \<noteq> [] then False
          else if u_path u = [] \<or> u_path u = ''/'' then True
          else (let path = trim_set (u_path u) ''/''
                in \<not> str_contains path ''/'' \<and> is_language_path_segment path))"

subsection \<open>Token utilities\<close>

fun unique_loop :: "string list \<Rightarrow> string set \<Rightarrow> string list" where
  "unique_loop [] seen = []"
| "unique_loop (v # vs) seen =
     (if v = [] then unique_loop vs seen
      else if v \<in> seen then unique_loop vs seen
      else v # unique_loop vs (insert v seen))"

definition unique_strings :: "string list \<Rightarrow> string list" where
  "unique_strings vs = unique_loop vs {}"

definition is_numeric_token :: "stdlib \<Rightarrow> string \<Rightarrow> bool" where
  "is_numeric_token E t \<longleftrightarrow> list_all (is_digit E) (rune_list t) \<and> 0 < length t"

definition idf_of :: "(string \<rightharpoonup> float64) \<Rightarrow> string \<Rightarrow> float64" where
  "idf_of idf t = (case idf t of Some v \<Rightarrow> v | None \<Rightarrow> 0)"

definition more_relevant :: "(string \<rightharpoonup> float64) \<Rightarrow> string \<Rightarrow> string \<Rightarrow> bool" where
  "more_relevant idf a b =
     (if \<bar>idf_of idf a - idf_of idf b\<bar> > 1 / 1000 then idf_of idf a > idf_of idf b
      else length (rune_list a) > length (rune_list b))"

definition sort_tokens_by_relevance :: "string list \<Rightarrow> (string \<rightharpoonup> float64) \<Rightarrow> string list" where
  "sort_tokens_by_relevance tokens idf = (if length tokens = 0 then tokens else slice_stable (more_relevant idf) tokens)"

definition token_frequency :: "string list \<Rightarrow> string \<Rightarrow> nat" where
  "token_frequency tokens t = length (filter (\<lambda>x. x \<noteq> [] \<and> x = t) tokens)"

definition weighted_token_frequency :: "string list \<Rightarrow> (string \<rightharpoonup> float64) \<Rightarrow> string list \<Rightarrow> float64 \<Rightarrow> nat \<Rightarrow> float64" where
  "weighted_token_frequency qs idf field weight cap =
     (if length qs = 0 \<or> (\<forall>t \<in> set field. t = []) then 0
      else sum_list (map (\<lambda>t. let n = token_frequency field t; n1 = (if cap > 0 \<and> n > cap then cap else n)
                              in real n1 * weight * token_weight idf t) qs))"

definition fixed_weighted_term_frequency :: "string list \<Rightarrow> (string \<rightharpoonup> float64) \<Rightarrow> string \<Rightarrow> string \<Rightarrow> string \<Rightarrow> string \<Rightarrow> float64" where
  "fixed_weighted_term_frequency qs idf title h1 h2 desc =
     (if length qs = 0 then 0
      else (let u = unique_strings qs
            in weighted_token_frequency u idf (str_fields title) 3 4 + weighted_token_frequency u idf (str_fields h1) 2 5
             + weighted_token_frequency u idf (str_fields h2) 2 5 + weighted_token_frequency u idf (str_fields desc) 2 5))"

subsection \<open>Full-text queries\<close>

definition escape_fts5_token :: "string \<Rightarrow> string" where
  "escape_fts5_token t = concat (map (\<lambda>c. if c = CHR 0x22 then [CHR 0x22, CHR 0x22] else [c]) t)"

definition quote_fts5_token :: "string \<Rightarrow> string" where
  "quote_fts5_token t = CHR 0x22 # escape_fts5_token t @ [CHR 0x22]"

definition build_fts_phrase_query :: "string list \<Rightarrow> string" where
  "build_fts_phrase_query tokens =
     (if length tokens = 0 then [] else CHR 0x22 # str_join (map escape_fts5_token tokens) '' '' @ [CHR 0x22])"

definition build_fts_exact_query :: "string list \<Rightarrow> string" where
  "build_fts_exact_query tokens = (if length tokens = 0 then [] else str_join (map quote_fts5_token tokens) '' '')"

definition build_fts_core_query :: "string list \<Rightarrow> (string \<rightharpoonup> float64) \<Rightarrow> string" where
  "build_fts_core_query tokens idf =
     (if length tokens = 0 then []
      else (let ordered = sort_tokens_by_relevance tokens idf;
                core = (if length ordered > 2 then take 2 ordered else ordered)
            in str_join (map quote_fts5_token core) '' AND ''))"

definition add_new_part :: "string \<Rightarrow> string list \<Rightarrow> string list" where
  "add_new_part p parts = (if p \<in> set parts then parts else parts @ [p])"

text \<open>\<open>parts\<close> holds exactly the keys of \<open>seen\<close>, so it serves as both.\<close>

fun relaxed_parts :: "string list \<Rightarrow> string list \<Rightarrow> string list" where
  "relaxed_parts [] parts = parts"
| "relaxed_parts (t # ts) parts =
     (let parts1 = add_new_part (quote_fts5_token t) parts;
          parts2 = (if 4 \<le> length (rune_list t) then add_new_part (escape_fts5_token t @ ''*'') parts1 else parts1)
      in relaxed_parts ts parts2)"

definition build_fts_relaxed_query :: "string list \<Rightarrow> (string \<rightharpoonup> float64) \<Rightarrow> string" where
  "build_fts_relaxed_query tokens idf =
     (if length tokens = 0 then []
      else (let ordered = sort_tokens_by_relevance tokens idf;
                significant = (if length ordered > 4 then take 4 ordered else ordered)
            in str_join (relaxed_parts significant []) '' OR ''))"

subsection \<open>Compound words\<close>

definition compound_candidates :: "string list \<Rightarrow> string list" where
  "compound_candidates tokens = filter (\<lambda>t. 7 \<le> length (rune_list t)) tokens"

definition splits_of :: "string \<Rightarrow> (string \<times> string) list" where
  "splits_of t =
     (let rs = rune_list t
      in map (\<lambda>i. (runes_string (take i rs), runes_string (drop i rs))) [3..<length rs - 3 + 1])"

definition token_splits :: "string list \<Rightarrow> string \<Rightarrow> (string \<times> string) list" where
  "token_splits cands t = concat (map splits_of (filter (\<lambda>c. c = t) cands))"

definition best_split :: "(string \<Rightarrow> bool) \<Rightarrow> (string \<times> string) list \<Rightarrow> string \<times> string" where
  "best_split known sps =
     fold (\<lambda>sp best. if known (fst sp) \<and> known (snd sp) \<and> length (rune_list (fst best)) < length (rune_list (fst sp))
                     then sp else best) sps ([], [])"

text \<open>
  \<open>splitCompoundTokens\<close>: \<open>known\<close> tells the words the vocabulary query returned; none when it failed.
\<close>

definition split_compound_tokens :: "(string \<Rightarrow> bool) \<Rightarrow> string list \<Rightarrow> string list" where
  "split_compound_tokens known tokens =
     (let cands = compound_candidates tokens
      in if length cands = 0 then tokens
         else concat (map (\<lambda>t.
                let splits = token_splits cands t
                in if splits = [] \<or> known t then [t]
                   else (let (l, r) = best_split known splits in if l \<noteq> [] \<and> r \<noteq> [] then [l, r] else [t])) tokens))"

subsection \<open>Normalised text is made of words\<close>

definition word_rune :: "stdlib \<Rightarrow> rune \<Rightarrow> bool" where
  "word_rune E r \<longleftrightarrow> is_letter E r \<or> is_digit E r"

text \<open>A non-empty, correctly encoded sequence of letters and digits.\<close>

definition search_word :: "stdlib \<Rightarrow> string \<Rightarrow> bool" where
  "search_word E w \<longleftrightarrow> w \<noteq> [] \<and> list_all (\<lambda>(r, b). word_rune E r \<and> b = encode_rune r) (runes w)"

text \<open>What the model assumes of the Unicode tables: no letter or digit is white space.\<close>

definition tables_ok :: "stdlib \<Rightarrow> bool" where
  "tables_ok E \<longleftrightarrow> (\<forall>r. word_rune E r \<longrightarrow> \<not> space_rune r)"

lemma tables_ok_ascii: "tables_ok ascii_stdlib"
  by (auto simp: tables_ok_def word_rune_def is_letter_def is_digit_def ascii_stdlib_def space_rune_def)

lemma search_word_runes:
  assumes "search_word E w"
  shows "w = runes_string (rune_list w)" and "rune_list w \<noteq> []" and "list_all (word_rune E) (rune_list w)"
proof -
  have "map snd (runes w) = map encode_rune (rune_list w)"
    using assms by (auto simp: search_word_def rune_list_def list_all_iff)
  then show "w = runes_string (rune_list w)" using runes_bytes [of w] by (simp add: runes_string_def)
  show "rune_list w \<noteq> []" using assms by (simp add: search_word_def rune_list_nonempty)
  show "list_all (word_rune E) (rune_list w)" using assms by (auto simp: search_word_def rune_list_def list_all_iff)
qed

lemma search_wordI: "rs \<noteq> [] \<Longrightarrow> list_all valid_rune rs \<Longrightarrow> list_all (word_rune E) rs \<Longrightarrow> search_word E (runes_string rs)"
  by (simp add: search_word_def runes_of_string list_all_iff)

lemma search_word_Cons: "search_word E w \<Longrightarrow> valid_rune r \<Longrightarrow> word_rune E r \<Longrightarrow> search_word E (encode_rune r @ w)"
  using search_wordI [of "r # rune_list w" E] search_word_runes [of E w] rune_list_valid [of w]
  by (simp add: runes_string_def)

lemma search_word_single: "valid_rune r \<Longrightarrow> word_rune E r \<Longrightarrow> search_word E (encode_rune r)"
  using search_wordI [of "[r]" E] by (simp add: runes_string_def)

lemma squash_words:
  assumes "list_all valid_rune rs"
  shows "\<exists>a ws b. squash E rs sp = a @ str_join ws '' '' @ b \<and> list_all (search_word E) ws \<and> a \<in> {[], '' ''} \<and> b \<in> {[], '' ''}
    \<and> (sp \<longrightarrow> a = []) \<and> (ws = [] \<longrightarrow> b = [])"
  using assms
proof (induction rs arbitrary: sp)
  case Nil
  have "squash E [] sp = [] @ str_join [] '' '' @ []" "list_all (search_word E) []" by simp_all
  then show ?case by blast
next
  case (Cons r rs)
  show ?case
  proof (cases "word_rune E r")
    case True
    have v: "list_all valid_rune rs" using Cons.prems by simp
    obtain a ws b where I: "squash E rs False = a @ str_join ws '' '' @ b" "list_all (search_word E) ws"
      "a \<in> {[], '' ''}" "b \<in> {[], '' ''}" "ws = [] \<longrightarrow> b = []" using Cons.IH [OF v, of False] by blast
    have sq: "squash E (r # rs) sp = encode_rune r @ squash E rs False" using True by (simp add: word_rune_def)
    have w: "search_word E (encode_rune r)" using Cons.prems True search_word_single by simp
    consider "ws = []" | w' ws' where "ws = w' # ws'" "a = []" | w' ws' where "ws = w' # ws'" "a = '' ''" using I(3) by (cases ws) auto
    then show ?thesis
    proof cases
      case 1
      then have "squash E (r # rs) sp = [] @ str_join [encode_rune r] '' '' @ a" using sq I by simp
      moreover have "list_all (search_word E) [encode_rune r]" using w by simp
      ultimately show ?thesis using I(3) by blast
    next
      case 2
      then have "squash E (r # rs) sp = [] @ str_join ((encode_rune r @ w') # ws') '' '' @ b" using sq I by (cases ws') simp_all
      moreover have "list_all (search_word E) ((encode_rune r @ w') # ws')" using 2 I(2) Cons.prems True search_word_Cons by simp
      ultimately show ?thesis using I(4) by blast
    next
      case 3
      then have "squash E (r # rs) sp = [] @ str_join (encode_rune r # w' # ws') '' '' @ b" using sq I by simp
      moreover have "list_all (search_word E) (encode_rune r # w' # ws')" using 3 I(2) w by simp
      ultimately show ?thesis using I(4) by blast
    qed
  next
    case False
    have v: "list_all valid_rune rs" using Cons.prems by simp
    obtain ws b where I: "squash E rs True = str_join ws '' '' @ b" "list_all (search_word E) ws" "b \<in> {[], '' ''}" "ws = [] \<longrightarrow> b = []"
      using Cons.IH [OF v, of True] by auto
    have "squash E (r # rs) sp = (if sp then [] else '' '') @ str_join ws '' '' @ b" using False I(1) by (simp add: word_rune_def)
    moreover have "(if sp then [] else '' '') \<in> {[], '' ''}" "sp \<longrightarrow> (if sp then [] else '' '') = []" by simp_all
    ultimately show ?thesis using I(2-4) by blast
  qed
qed


lemma join_words_ends:
  assumes "list_all (search_word E) ws" "ws \<noteq> []"
  shows "\<exists>r x. str_join ws '' '' = encode_rune r @ x \<and> valid_rune r \<and> word_rune E r"
    and "\<exists>q y. str_join ws '' '' = y @ encode_rune q \<and> valid_rune q \<and> word_rune E q"
proof -
  obtain w ws' where ws: "ws = w # ws'" using assms(2) by (cases ws) auto
  have w: "search_word E w" "search_word E (last ws)" using assms ws by (auto simp: list_all_iff)
  obtain r rs where r: "rune_list w = r # rs" using search_word_runes(2) [OF w(1)] by (cases "rune_list w") auto
  have "w = encode_rune r @ runes_string rs" using search_word_runes(1) [OF w(1)] r by (simp add: runes_string_def)
  then have "str_join ws '' '' = encode_rune r @ (if ws' = [] then runes_string rs else runes_string rs @ '' '' @ str_join ws' '' '')"
    using ws by (cases ws') simp_all
  then show "\<exists>r x. str_join ws '' '' = encode_rune r @ x \<and> valid_rune r \<and> word_rune E r"
    using search_word_runes(3) [OF w(1)] rune_list_valid [of w] r by auto
  have last_join: "\<exists>y. str_join ws '' '' = y @ last ws" if "ws \<noteq> []" for ws
    using that
  proof (induction ws rule: induct_list012)
    case (3 a b ws)
    then show ?case by (auto intro!: exI [of _ "a @ '' '' @ _"])
  qed auto
  let ?l = "last ws"
  obtain q qs where q: "rune_list ?l = qs @ [q]" using search_word_runes(2) [OF w(2)] by (metis append_butlast_last_id)
  have "?l = runes_string qs @ encode_rune q" using search_word_runes(1) [OF w(2)] q by (simp add: runes_string_def)
  moreover obtain y where "str_join ws '' '' = y @ ?l" using last_join [OF assms(2)] by blast
  ultimately have "str_join ws '' '' = (y @ runes_string qs) @ encode_rune q" by simp
  moreover have "valid_rune q" "word_rune E q" using search_word_runes(3) [OF w(2)] rune_list_valid [of ?l] q by simp_all
  ultimately show "\<exists>q y. str_join ws '' '' = y @ encode_rune q \<and> valid_rune q \<and> word_rune E q" by blast
qed

declare runes.simps(2) [simp del]

lemma fields_loop_word:
  assumes "tables_ok E" "search_word E w"
  shows "fields_loop space_rune cur (runes (w @ s)) = fields_loop space_rune (cur @ w) (runes s)"
proof -
  have "list_all (word_rune E) rs \<Longrightarrow> fields_loop space_rune cur (map (\<lambda>r. (r, encode_rune r)) rs @ z)
      = fields_loop space_rune (cur @ runes_string rs) z" for rs cur z
    using assms(1) by (induction rs arbitrary: cur) (simp_all add: tables_ok_def runes_string_def)
  then show ?thesis
    using runes_encode [OF rune_list_valid [of w], of s] search_word_runes [OF assms(2)] by simp
qed

lemma fields_join:
  assumes "tables_ok E" "list_all (search_word E) ws"
  shows "str_fields (str_join ws '' '') = ws"
proof -
  have sp: "runes (CHR '' '' # s) = (32, '' '') # runes s" for s
    by (simp add: runes.simps decode_rune_def)
  have s32: "space_rune 32" by (simp add: space_rune_def)
  have w: "w \<noteq> []" if "search_word E w" for w using that by (simp add: search_word_def)
  have "fields_loop space_rune [] (runes (str_join ws '' '')) = ws"
    using assms(2)
  proof (induction ws rule: induct_list012)
    case (2 a)
    then show ?case using fields_loop_word [OF assms(1), of a "[]" "[]"] w [of a] by simp
  next
    case (3 a b ws)
    then show ?case using fields_loop_word [OF assms(1), of a "[]" "CHR '' '' # str_join (b # ws) '' ''"] w [of a]
      by (simp add: sp s32)
  qed simp
  then show ?thesis by (simp add: str_fields_def fields_func_def)
qed

text \<open>The words of a normalised text.\<close>

lemma normalized_words:
  assumes "tables_ok (se_std V)"
  shows "\<exists>ws. normalize_search_text V value = str_join ws '' '' \<and> list_all (search_word (se_std V)) ws"
proof (cases "to_lower (se_std V) (trim_space value) = []")
  case True
  then have "normalize_search_text V value = str_join [] '' '' \<and> list_all (search_word (se_std V)) []"
    by (simp add: normalize_search_text_def)
  then show ?thesis by blast
next
  case False
  define v where "v = (case se_fold V (to_lower (se_std V) (trim_space value)) of Some n \<Rightarrow> n | None \<Rightarrow> to_lower (se_std V) (trim_space value))"
  have n: "normalize_search_text V value = trim_space (squash (se_std V) (rune_list v) False)"
    using False by (simp add: normalize_search_text_def v_def Let_def)
  obtain a ws b where s: "squash (se_std V) (rune_list v) False = a @ str_join ws '' '' @ b" "list_all (search_word (se_std V)) ws"
    "a \<in> {[], '' ''}" "b \<in> {[], '' ''}" "ws = [] \<longrightarrow> b = []"
    using squash_words [OF rune_list_valid [of v], of "se_std V" False] by auto
  show ?thesis
  proof (cases "ws = []")
    case True
    have "trim_space [] = []" "trim_space '' '' = []" by code_simp+
    with True have "normalize_search_text V value = str_join [] '' ''" using n s by auto
    moreover have "list_all (search_word (se_std V)) []" by simp
    ultimately show ?thesis by blast
  next
    case False
    obtain r x where r: "str_join ws '' '' = encode_rune r @ x" "valid_rune r" "word_rune (se_std V) r" using join_words_ends(1) [OF s(2) False] by blast
    obtain q y where q: "str_join ws '' '' = y @ encode_rune q" "valid_rune q" "word_rune (se_std V) q" using join_words_ends(2) [OF s(2) False] by blast
    have "\<not> space_rune r" "\<not> space_rune q" using assms r(3) q(3) by (auto simp: tables_ok_def)
    with trim_space_word [OF r(2) _ q(2) _ r(1) q(1) s(3,4)] show ?thesis using n s(1,2) by auto
  qed
qed

text \<open>
  Normalised search text is exactly its words joined by single spaces: splitting it and joining the
  fields gives it back, and every field is a non-empty sequence of letters and digits.
\<close>

theorem normalized_text_roundtrip:
  assumes "tables_ok (se_std V)"
  shows "str_join (str_fields (normalize_search_text V value)) '' '' = normalize_search_text V value
    \<and> (\<forall>w \<in> set (str_fields (normalize_search_text V value)). search_word (se_std V) w)"
proof -
  obtain ws where "normalize_search_text V value = str_join ws '' ''" "list_all (search_word (se_std V)) ws"
    using normalized_words [OF assms] by blast
  then show ?thesis using fields_join [OF assms] by (simp add: list_all_iff)
qed

definition plain_search_env :: search_env where
  "plain_search_env = \<lparr>se_std = ascii_stdlib, se_fold = (\<lambda>s. Some s), se_etld1 = (\<lambda>_. None), se_site_types = {''wiki'', ''news''},
     se_platforms = {''reddit'', ''github''}, se_language_boost = 3000, se_secondary_language = ''en'', se_secondary_boost = 0, se_equal_fold = (\<lambda>a b. a = b)\<rparr>"

theorem normalized_text_roundtrip_witness:
  "normalize_search_text plain_search_env ''  Go: the  Gopher's guide! '' = ''go the gopher s guide''
   \<and> str_join (str_fields (normalize_search_text plain_search_env ''  Go: the  Gopher's guide! '')) '' '' = ''go the gopher s guide''"
proof -
  have "normalize_search_text plain_search_env ''  Go: the  Gopher's guide! '' = ''go the gopher s guide''" by code_simp
  moreover have "tables_ok (se_std plain_search_env)" by (simp add: plain_search_env_def tables_ok_ascii)
  ultimately show ?thesis using normalized_text_roundtrip [of plain_search_env "''  Go: the  Gopher's guide! ''"] by simp
qed


subsection \<open>Full-text queries built from words\<close>

lemma word_rune_bytes:
  assumes "valid_rune r" "word_rune E r"
  shows "list_all (\<lambda>c. ascii_alnum c \<or> 128 \<le> byte c) (encode_rune r)"
proof (cases "r < 128")
  case True
  then show ?thesis using assms(2)
    by (auto simp: encode_rune_ascii word_rune_def is_letter_def is_digit_def ascii_alnum_def ascii_lower_def ascii_upper_def ascii_digit_def)
next
  case False
  then obtain c cs where "encode_rune r = c # cs" "192 \<le> byte c" "list_all continuation cs" using encode_rune_shape [OF assms(1)] by auto
  then show ?thesis by (auto simp: list_all_iff continuation_def)
qed

lemma search_word_bytes:
  assumes "search_word E w"
  shows "list_all (\<lambda>c. ascii_alnum c \<or> 128 \<le> byte c) w"
proof -
  have "list_all valid_rune rs \<Longrightarrow> list_all (word_rune E) rs \<Longrightarrow> list_all (\<lambda>c. ascii_alnum c \<or> 128 \<le> byte c) (runes_string rs)" for rs
    by (induction rs) (auto simp: runes_string_def intro: word_rune_bytes)
  then show ?thesis using search_word_runes [OF assms] rune_list_valid by metis
qed

lemma escape_search_word: "search_word E w \<Longrightarrow> escape_fts5_token w = w"
proof -
  assume "search_word E w"
  then have "list_all (\<lambda>c. c \<noteq> CHR 0x22) w"
    using search_word_bytes by (fastforce simp: list_all_iff ascii_alnum_def ascii_lower_def ascii_upper_def ascii_digit_def)
  then show ?thesis by (induction w) (simp_all add: escape_fts5_token_def)
qed

text \<open>A term of a full-text query: a quoted word, or a bare word followed by the prefix operator.\<close>

definition fts_term :: "stdlib \<Rightarrow> string \<Rightarrow> bool" where
  "fts_term E p \<longleftrightarrow>
     (2 < length p \<and> hd p = CHR 0x22 \<and> last p = CHR 0x22 \<and> search_word E (butlast (tl p)))
     \<or> (1 < length p \<and> last p = CHR ''*'' \<and> search_word E (butlast p))"

lemma quoted_term: "search_word E w \<Longrightarrow> fts_term E (quote_fts5_token w)"
  by (auto simp: fts_term_def quote_fts5_token_def escape_search_word search_word_def)

lemma prefix_term: "search_word E w \<Longrightarrow> fts_term E (escape_fts5_token w @ ''*'')"
  by (auto simp: fts_term_def escape_search_word search_word_def)

lemma add_new_part_simps [simp]:
  "set (add_new_part p ps) = insert p (set ps)" "add_new_part p ps \<noteq> []" "distinct (add_new_part p ps) \<longleftrightarrow> distinct ps"
  by (auto simp: add_new_part_def)

lemma relaxed_parts_terms:
  "list_all (search_word E) ts \<Longrightarrow> list_all (fts_term E) parts \<Longrightarrow>
   list_all (fts_term E) (relaxed_parts ts parts) \<and> (ts \<noteq> [] \<or> parts \<noteq> [] \<longrightarrow> relaxed_parts ts parts \<noteq> [])
   \<and> (distinct parts \<longrightarrow> distinct (relaxed_parts ts parts))"
proof (induction ts arbitrary: parts)
  case (Cons t ts)
  let ?p1 = "add_new_part (quote_fts5_token t) parts"
  let ?p2 = "if 4 \<le> length (rune_list t) then add_new_part (escape_fts5_token t @ ''*'') ?p1 else ?p1"
  have "list_all (fts_term E) ?p2 \<and> ?p2 \<noteq> [] \<and> (distinct parts \<longrightarrow> distinct ?p2)"
    using Cons.prems quoted_term [of E t] prefix_term [of E t] by (auto simp: list_all_iff)
  moreover have "relaxed_parts (t # ts) parts = relaxed_parts ts ?p2" by (simp add: Let_def)
  ultimately show ?case using Cons.IH [of ?p2] Cons.prems by simp
qed simp

lemma sort_tokens_mset: "mset (sort_tokens_by_relevance tokens idf) = mset tokens"
  by (simp add: sort_tokens_by_relevance_def)

lemma sort_tokens_words: "list_all (search_word E) tokens \<Longrightarrow> list_all (search_word E) (sort_tokens_by_relevance tokens idf)"
  by (simp add: sort_tokens_by_relevance_def list_all_iff)

lemma sort_tokens_Nil: "tokens \<noteq> [] \<Longrightarrow> sort_tokens_by_relevance tokens idf \<noteq> []"
  by (metis sort_tokens_mset mset.simps(1) mset_zero_iff)

lemma take_words: "list_all P xs \<Longrightarrow> list_all P (take n xs)"
  by (auto simp: list_all_iff dest: in_set_takeD)

text \<open>The shape of the four queries that are built from words.\<close>

definition joined_terms :: "stdlib \<Rightarrow> string \<Rightarrow> string \<Rightarrow> bool" where
  "joined_terms E sep q \<longleftrightarrow> (\<exists>ps. ps \<noteq> [] \<and> list_all (fts_term E) ps \<and> q = str_join ps sep)"

lemma exact_query_shape:
  "list_all (search_word E) ts \<Longrightarrow> build_fts_exact_query ts = [] \<and> ts = [] \<or> joined_terms E '' '' (build_fts_exact_query ts) \<and> ts \<noteq> []"
  unfolding joined_terms_def build_fts_exact_query_def
  by (auto simp: list_all_iff quoted_term intro!: exI [of _ "map quote_fts5_token ts"])

lemma core_query_shape:
  assumes "list_all (search_word E) ts"
  shows "build_fts_core_query ts idf = [] \<and> ts = [] \<or> joined_terms E '' AND '' (build_fts_core_query ts idf) \<and> ts \<noteq> []"
proof (cases "ts = []")
  case False
  let ?o = "sort_tokens_by_relevance ts idf"
  let ?c = "if length ?o > 2 then take 2 ?o else ?o"
  have "list_all (search_word E) ?c" "?c \<noteq> []"
    using sort_tokens_words [OF assms, of idf] sort_tokens_Nil [OF False, of idf] by (auto simp: take_words)
  then have "map quote_fts5_token ?c \<noteq> []" "list_all (fts_term E) (map quote_fts5_token ?c)" by (auto simp: list_all_iff quoted_term)
  then have "joined_terms E '' AND '' (str_join (map quote_fts5_token ?c) '' AND '')" unfolding joined_terms_def by blast
  then show ?thesis using False by (simp add: build_fts_core_query_def Let_def)
qed (simp add: build_fts_core_query_def)

lemma relaxed_query_shape:
  assumes "list_all (search_word E) ts"
  shows "build_fts_relaxed_query ts idf = [] \<and> ts = [] \<or> joined_terms E '' OR '' (build_fts_relaxed_query ts idf) \<and> ts \<noteq> []"
proof (cases "ts = []")
  case False
  let ?o = "sort_tokens_by_relevance ts idf"
  let ?c = "if length ?o > 4 then take 4 ?o else ?o"
  have "list_all (search_word E) ?c" "?c \<noteq> []"
    using sort_tokens_words [OF assms, of idf] sort_tokens_Nil [OF False, of idf] by (auto simp: take_words)
  then have "relaxed_parts ?c [] \<noteq> []" "list_all (fts_term E) (relaxed_parts ?c [])" using relaxed_parts_terms [of E ?c "[]"] by auto
  then have "joined_terms E '' OR '' (str_join (relaxed_parts ?c []) '' OR '')" unfolding joined_terms_def by blast
  then show ?thesis using False by (simp add: build_fts_relaxed_query_def Let_def)
qed (simp add: build_fts_relaxed_query_def)

lemma phrase_query_shape:
  assumes "list_all (search_word E) ts"
  shows "build_fts_phrase_query ts = (if ts = [] then [] else CHR 0x22 # str_join ts '' '' @ [CHR 0x22])"
proof -
  have "map escape_fts5_token ts = ts" using assms by (induction ts) (auto intro: escape_search_word)
  then show ?thesis by (simp add: build_fts_phrase_query_def)
qed

subsection \<open>Splitting compound words keeps the text\<close>

lemma splits_of_parts:
  assumes "(l, r) \<in> set (splits_of t)"
  shows "\<exists>i. 3 \<le> i \<and> i + 3 \<le> length (rune_list t) \<and> l = runes_string (take i (rune_list t)) \<and> r = runes_string (drop i (rune_list t))"
  using assms by (auto simp: splits_of_def Let_def)

lemma fold_pick:
  assumes "\<And>x b. P x b \<Longrightarrow> Q x"
  shows "fold (\<lambda>x b. if P x b then x else b) xs b = b
    \<or> (fold (\<lambda>x b. if P x b then x else b) xs b \<in> set xs \<and> Q (fold (\<lambda>x b. if P x b then x else b) xs b))"
proof (induction xs arbitrary: b)
  case (Cons a xs)
  show ?case using Cons.IH [of a] Cons.IH [of b] assms [of a b] by (cases "P a b") auto
qed simp

lemma best_split_member:
  "best_split known sps = ([], []) \<or> (best_split known sps \<in> set sps \<and> known (fst (best_split known sps)) \<and> known (snd (best_split known sps)))"
  unfolding best_split_def by (rule fold_pick) simp

definition split_one :: "(string \<Rightarrow> bool) \<Rightarrow> string list \<Rightarrow> string \<Rightarrow> string list" where
  "split_one known cands t =
     (let splits = token_splits cands t
      in if splits = [] \<or> known t then [t]
         else (let (l, r) = best_split known splits in if l \<noteq> [] \<and> r \<noteq> [] then [l, r] else [t]))"

lemma split_compound_unfold:
  "split_compound_tokens known tokens =
     (if compound_candidates tokens = [] then tokens else concat (map (split_one known (compound_candidates tokens)) tokens))"
  by (simp add: split_compound_tokens_def split_one_def [abs_def] Let_def)

lemma split_one_cases:
  assumes "search_word E t"
  shows "split_one known cands t = [t]
    \<or> (\<exists>l r. split_one known cands t = [l, r] \<and> known l \<and> known r \<and> \<not> known t \<and> search_word E l \<and> search_word E r \<and> l @ r = t)"
proof -
  let ?b = "best_split known (token_splits cands t)"
  have "split_one known cands t = [t] \<or> (split_one known cands t = [fst ?b, snd ?b] \<and> \<not> known t \<and> ?b \<noteq> ([], []))"
    by (auto simp: split_one_def Let_def split: prod.splits)
  moreover have "known (fst ?b) \<and> known (snd ?b) \<and> search_word E (fst ?b) \<and> search_word E (snd ?b) \<and> fst ?b @ snd ?b = t" if "?b \<noteq> ([], [])"
  proof -
    have m: "?b \<in> set (token_splits cands t)" "known (fst ?b)" "known (snd ?b)" using best_split_member [of known "token_splits cands t"] that by auto
    then have "(fst ?b, snd ?b) \<in> set (splits_of t)" by (auto simp: token_splits_def)
    from splits_of_parts [OF this] obtain i where i: "3 \<le> i" "i + 3 \<le> length (rune_list t)"
      "fst ?b = runes_string (take i (rune_list t))" "snd ?b = runes_string (drop i (rune_list t))" by blast
    have "take i (rune_list t) \<noteq> []" "drop i (rune_list t) \<noteq> []" using i by auto
    moreover have "list_all valid_rune (take i (rune_list t))" "list_all valid_rune (drop i (rune_list t))"
      "list_all (word_rune E) (take i (rune_list t))" "list_all (word_rune E) (drop i (rune_list t))"
      using rune_list_valid [of t] search_word_runes(3) [OF assms] by (auto simp: list_all_iff dest: in_set_takeD in_set_dropD)
    ultimately have "search_word E (fst ?b)" "search_word E (snd ?b)" unfolding i(3,4) by (simp_all add: search_wordI)
    moreover have "fst ?b @ snd ?b = t" unfolding i(3,4) runes_string_append [symmetric] append_take_drop_id
      using search_word_runes(1) [OF assms] by simp
    ultimately show ?thesis using m by simp
  qed
  ultimately show ?thesis by blast
qed

lemma split_compound_words:
  assumes "list_all (search_word E) tokens"
  shows "list_all (search_word E) (split_compound_tokens known tokens)
    \<and> concat (split_compound_tokens known tokens) = concat tokens
    \<and> (\<forall>t \<in> set (split_compound_tokens known tokens). t \<in> set tokens \<or> known t)
    \<and> (tokens \<noteq> [] \<longrightarrow> split_compound_tokens known tokens \<noteq> [])"
proof -
  have "list_all (search_word E) (concat (map (split_one known cands) ts)) \<and> concat (concat (map (split_one known cands) ts)) = concat ts
    \<and> (\<forall>t \<in> set (concat (map (split_one known cands) ts)). t \<in> set ts \<or> known t) \<and> (ts \<noteq> [] \<longrightarrow> concat (map (split_one known cands) ts) \<noteq> [])"
    if "list_all (search_word E) ts" for ts cands
    using that
  proof (induction ts)
    case (Cons t ts)
    then have "search_word E t" by simp
    from split_one_cases [OF this, of known cands] Cons show ?case by auto
  qed simp
  with assms show ?thesis by (auto simp: split_compound_unfold)
qed

end
