(* ===== verification/Sql.thy ===== *)
theory Sql
  imports EditDistance
begin

text \<open>
  What the queries of \<open>internal/storage\<close> use of SQL expressions: the \<open>LIKE\<close> operator of SQLite, which
  compares characters, folds the case of ASCII letters and has the wildcards \<open>%\<close> and \<open>_\<close>.
\<close>

definition fold_rune :: "rune \<Rightarrow> rune" where
  "fold_rune r = (if 65 \<le> r \<and> r \<le> 90 then r + 32 else r)"

fun like_runes :: "rune list \<Rightarrow> rune list \<Rightarrow> bool" where
  "like_runes [] t = (t = [])"
| "like_runes (p # ps) [] = (p = 37 \<and> like_runes ps [])"
| "like_runes (p # ps) (c # t) =
     (if p = 37 then like_runes ps (c # t) \<or> like_runes (p # ps) t
      else (p = 95 \<or> fold_rune p = fold_rune c) \<and> like_runes ps t)"

definition sql_like :: "string \<Rightarrow> string \<Rightarrow> bool" where
  "sql_like text pattern = like_runes (rune_list pattern) (rune_list text)"

lemma like_percent: "like_runes [37] t"
  by (induction t) simp_all

lemma like_percent_append: "like_runes ps t \<Longrightarrow> like_runes (37 # ps) (s @ t)"
  by (induction s) (cases t; simp)+

lemma like_self: "like_runes t t"
proof (induction t)
  case (Cons c t)
  then show ?case using like_percent_append [of t t "[]"] by auto
qed simp

end
