(* ===== verification/SearchQuery.thy ===== *)
theory SearchQuery
  imports SearchText Sql
begin

text \<open>
  Query parsing and intent classification of \<open>internal/storage/sqlite_search.go\<close>:
  \<open>newSearchQuery\<close>, \<open>classifyQueryIntent\<close> and \<open>enrichQueryWithDomainLookup\<close>. The vocabulary
  of the full-text index is an argument (\<open>known\<close>: the word is in it), as are the domains of the stored pages.
\<close>

datatype query_intent = Navigational | Informational

record search_query =
  sq_raw :: string
  sq_lowered :: string
  sq_normalized :: string
  sq_tokens :: "string list"
  sq_fts_tokens :: "string list"
  sq_phrase_tokens :: "string list"
  sq_nav :: string
  sq_domain :: string
  sq_intent :: query_intent
  sq_idf :: "string \<rightharpoonup> float64"
  sq_site :: string
  sq_platform :: string
  sq_fresh :: bool
  sq_date :: bool

subsection \<open>Dates in the query\<close>

definition digit_re :: re where
  "digit_re = RSet ascii_digit"

definition digits_re :: "nat \<Rightarrow> re" where
  "digits_re n = re_seq (replicate n digit_re)"

text \<open>\<open>\<bsol>b(19[9][0-9]|20[0-9]{2}|2100)\<bsol>b\<close>\<close>

definition explicit_year_pattern :: re where
  "explicit_year_pattern =
     re_seq [RWordB, re_alts [RSeq (re_lit ''199'') digit_re, RSeq (re_lit ''20'') (digits_re 2), re_lit ''2100''], RWordB]"

text \<open>\<open>\<bsol>b\<bsol>d{1,2}[-/]\<bsol>d{1,2}[-/]\<bsol>d{2,4}\<bsol>b|\<bsol>b\<bsol>d{4}[-/]\<bsol>d{1,2}[-/]\<bsol>d{1,2}\<bsol>b\<close>\<close>

definition explicit_date_pattern :: re where
  "explicit_date_pattern =
     (let one_two = RSeq digit_re (re_opt digit_re); dash = re_one_of ''-/''
      in RAlt (re_seq [RWordB, one_two, dash, one_two, dash, digits_re 2, re_opt (RSeq digit_re (re_opt digit_re)), RWordB])
              (re_seq [RWordB, digits_re 4, dash, one_two, dash, one_two, RWordB]))"

definition re_match_string :: "re \<Rightarrow> string \<Rightarrow> bool" where
  "re_match_string r s \<longleftrightarrow> re_find_all r None s \<noteq> []"

definition fresh_terms :: "string list" where
  "fresh_terms = [''noticia'', ''noticias'', ''news'', ''actualidad'', ''reciente'', ''recientes'', ''ultimo'', ''ultimos'',
     ''ultima'', ''ultimas'', ''hoy'', ''today'', ''latest'']"

definition detect_freshness_intent :: "string list \<Rightarrow> bool" where
  "detect_freshness_intent tokens \<longleftrightarrow> list_ex (\<lambda>t. t \<in> set fresh_terms) tokens"

definition month_terms :: "string list" where
  "month_terms = [''enero'', ''febrero'', ''marzo'', ''abril'', ''mayo'', ''junio'', ''julio'', ''agosto'', ''septiembre'',
     ''setiembre'', ''octubre'', ''noviembre'', ''diciembre'', ''january'', ''february'', ''march'', ''april'', ''may'', ''june'',
     ''july'', ''august'', ''september'', ''october'', ''november'', ''december'']"

definition detect_explicit_date_intent :: "string \<Rightarrow> string list \<Rightarrow> bool" where
  "detect_explicit_date_intent raw tokens \<longleftrightarrow>
     re_match_string explicit_year_pattern raw \<or> re_match_string explicit_date_pattern raw
     \<or> list_ex (\<lambda>t. t \<in> set month_terms) tokens"

subsection \<open>Intent\<close>

definition classify_query_intent :: "string list \<Rightarrow> string \<Rightarrow> string \<Rightarrow> string \<Rightarrow> query_intent" where
  "classify_query_intent tokens dl nav platform =
     (if dl \<noteq> [] then Navigational
      else if platform \<noteq> [] then Navigational
      else if length tokens = 1 then Navigational
      else if length tokens = 2 \<and> nav \<noteq> [] then Navigational
      else Informational)"

definition media_keywords :: "string list" where
  "media_keywords = [''serie'', ''series'', ''tv'', ''pelicula'', ''peliculas'', ''film'', ''films'', ''movie'', ''movies'', ''show'',
     ''shows'', ''anime'', ''manga'', ''dorama'', ''novela'', ''novelas'', ''documental'', ''documentales'', ''documentary'']"

definition remove_spaces :: "string \<Rightarrow> string" where
  "remove_spaces s = filter (\<lambda>c. c \<noteq> CHR '' '') s"

definition root_term :: "search_env \<Rightarrow> string \<Rightarrow> string" where
  "root_term V d = remove_spaces (normalize_search_text V (di_root (classify_search_domain V d)))"

text \<open>The platforms and the site types at the edges of the query, in order.\<close>

definition edge_tokens :: "string list \<Rightarrow> string list" where
  "edge_tokens toks = map (\<lambda>i. toks ! i) (filter (\<lambda>i. i = 0 \<or> i + 1 = length toks) [0..<length toks])"

definition found_platforms :: "search_env \<Rightarrow> string list \<Rightarrow> string list" where
  "found_platforms V toks = filter (\<lambda>t. t \<in> se_platforms V) (edge_tokens toks)"

definition found_site_types :: "search_env \<Rightarrow> string list \<Rightarrow> string list" where
  "found_site_types V toks = filter (\<lambda>t. t \<notin> se_platforms V \<and> t \<in> se_site_types V) (edge_tokens toks)"

definition query_domain :: "search_env \<Rightarrow> string \<Rightarrow> string list \<Rightarrow> string" where
  "query_domain V query toks =
     (let d = normalize_domain_like_query V query
      in if d = [] \<and> length toks = 2
         then (let candidate = toks ! 0 @ ''.'' @ toks ! 1
               in if se_etld1 V candidate = Some candidate then candidate else d)
         else d)"

definition without_intents :: "string list \<Rightarrow> string \<Rightarrow> string \<Rightarrow> string list" where
  "without_intents toks platform site = filter (\<lambda>t. t \<noteq> platform \<and> t \<noteq> site) toks"

definition new_search_query :: "search_env \<Rightarrow> (string \<Rightarrow> bool) \<Rightarrow> string \<Rightarrow> search_query" where
  "new_search_query V known query =
     (let normalized = normalize_search_text V query;
          all_toks = str_fields normalized;
          dl0 = query_domain V query all_toks;
          fresh0 = detect_freshness_intent all_toks;
          date = detect_explicit_date_intent query all_toks;
          nav0 = (if dl0 \<noteq> [] then root_term V dl0 else []);
          plats = found_platforms V all_toks;
          sites = found_site_types V all_toks;
          platform = (if length plats = 1 then plats ! 0 else []);
          site = (if length sites = 1 \<and> platform = [] then sites ! 0 else []);
          nav = (if platform \<noteq> [] then platform else nav0);
          dl = (if platform \<noteq> [] \<and> dl0 \<noteq> [] \<and> has_suffix dl0 (''.'' @ platform) then [] else dl0);
          media = list_ex (\<lambda>t. t \<in> set media_keywords) all_toks;
          filtered = filter_stopwords_context all_toks media;
          toks0 = without_intents filtered platform site;
          toks1 = (if length toks0 = 0 then filtered else toks0);
          ph0 = without_intents all_toks platform site;
          phrase = (if length ph0 = 0 then all_toks else ph0);
          toks = split_compound_tokens known toks1;
          fresh = (if site = ''noticias'' \<or> site = ''news'' then True else fresh0);
          intent0 = classify_query_intent toks dl nav platform;
          intent1 = (if platform = [] \<and> dl = [] \<and> site \<noteq> [] then Informational else intent0);
          intent = (if fresh \<and> platform = [] then Informational else intent1)
      in \<lparr>sq_raw = query, sq_lowered = to_lower (se_std V) (trim_space query), sq_normalized = normalized,
          sq_tokens = toks, sq_fts_tokens = toks, sq_phrase_tokens = phrase, sq_nav = nav, sq_domain = dl,
          sq_intent = intent, sq_idf = Map.empty, sq_site = site, sq_platform = platform, sq_fresh = fresh, sq_date = date\<rparr>)"

subsection \<open>Recovering a navigational intent from the stored domains\<close>

definition adjacent_pairs :: "string list \<Rightarrow> string list" where
  "adjacent_pairs ts = map (\<lambda>i. ts ! i @ ts ! (i + 1)) [0..<length ts - 1]"

definition lookup_candidates :: "(string \<Rightarrow> bool) \<Rightarrow> search_query \<Rightarrow> string list" where
  "lookup_candidates known q =
     filter (\<lambda>t. 4 \<le> length (rune_list t) \<and> \<not> (t \<noteq> [] \<and> known t)) (sq_tokens q @ adjacent_pairs (str_fields (sq_normalized q)))"

definition domain_matches :: "string \<Rightarrow> string \<Rightarrow> bool" where
  "domain_matches c d \<longleftrightarrow>
     d = c \<or> sql_like d (c @ ''.%'') \<or> sql_like d (''www.'' @ c @ ''.%'') \<or> sql_like d (''%.%.'' @ c @ ''.%'')"

text \<open>
  \<open>doms\<close> are the domains of the pages in the order the database visits them; \<open>None\<close> when the query
  fails.
\<close>

definition enrich_query :: "search_env \<Rightarrow> (string \<Rightarrow> bool) \<Rightarrow> domain list option \<Rightarrow> search_query \<Rightarrow> search_query" where
  "enrich_query V known doms q =
     (if sq_intent q = Navigational then q
      else if sq_fresh q \<or> sq_site q \<noteq> [] then q
      else if length (sq_tokens q) = 0 then q
      else (let cands = lookup_candidates known q
            in if length cands = 0 then q
               else (case doms of
                       None \<Rightarrow> q
                     | Some ds \<Rightarrow>
                         (case find (\<lambda>d. list_ex (\<lambda>c. domain_matches c d) cands) ds of
                            None \<Rightarrow> q
                          | Some d \<Rightarrow> if d = [] then q
                              else q\<lparr>sq_intent := Navigational, sq_domain := d, sq_nav := di_root (classify_search_domain V d)\<rparr>))))"


subsection \<open>What the parsed query satisfies\<close>

lemma filter_stopwords_words:
  "set (filter_stopwords_context ts media) \<subseteq> set ts \<and> (ts \<noteq> [] \<longrightarrow> filter_stopwords_context ts media \<noteq> [])"
  by (auto simp: filter_stopwords_context_def Let_def)

definition kept_tokens :: "string list \<Rightarrow> string \<Rightarrow> string \<Rightarrow> string list" where
  "kept_tokens ts platform site = (let k = without_intents ts platform site in if length k = 0 then ts else k)"

lemma kept_tokens_words: "set (kept_tokens ts p s) \<subseteq> set ts \<and> (ts \<noteq> [] \<longrightarrow> kept_tokens ts p s \<noteq> [])"
  by (auto simp: kept_tokens_def without_intents_def Let_def)

lemma new_query_tokens:
  defines "toks V query \<equiv> str_fields (normalize_search_text V query)"
  shows "sq_tokens (new_search_query V known query) = split_compound_tokens known
      (kept_tokens (filter_stopwords_context (toks V query) (list_ex (\<lambda>t. t \<in> set media_keywords) (toks V query)))
         (sq_platform (new_search_query V known query)) (sq_site (new_search_query V known query)))"
    and "sq_phrase_tokens (new_search_query V known query) =
      kept_tokens (toks V query) (sq_platform (new_search_query V known query)) (sq_site (new_search_query V known query))"
    and "sq_fts_tokens (new_search_query V known query) = sq_tokens (new_search_query V known query)"
    and "sq_normalized (new_search_query V known query) = normalize_search_text V query"
  by (simp_all add: new_search_query_def kept_tokens_def toks_def Let_def)

lemma all_search_words_subset: "list_all (search_word E) ts \<Longrightarrow> set us \<subseteq> set ts \<Longrightarrow> list_all (search_word E) us"
  by (auto simp: list_all_iff)

lemma new_query_words:
  assumes "tables_ok (se_std V)"
  shows "list_all (search_word (se_std V)) (sq_tokens (new_search_query V known query))
    \<and> list_all (search_word (se_std V)) (sq_phrase_tokens (new_search_query V known query))
    \<and> (normalize_search_text V query = [] \<longrightarrow> sq_tokens (new_search_query V known query) = [] \<and> sq_phrase_tokens (new_search_query V known query) = [])
    \<and> (normalize_search_text V query \<noteq> [] \<longrightarrow> sq_tokens (new_search_query V known query) \<noteq> [] \<and> sq_phrase_tokens (new_search_query V known query) \<noteq> [])"
proof -
  let ?q = "new_search_query V known query" and ?toks = "str_fields (normalize_search_text V query)"
  let ?f = "filter_stopwords_context ?toks (list_ex (\<lambda>t. t \<in> set media_keywords) ?toks)"
  let ?k = "kept_tokens ?f (sq_platform ?q) (sq_site ?q)"
  obtain ws where ws: "normalize_search_text V query = str_join ws '' ''" "list_all (search_word (se_std V)) ws"
    using normalized_words [OF assms] by blast
  then have t: "?toks = ws" using fields_join [OF assms] by simp
  have none: "normalize_search_text V query = [] \<longleftrightarrow> ws = []"
    using ws by (cases ws rule: list.exhaust; cases "tl ws") (auto simp: search_word_def)
  have k: "list_all (search_word (se_std V)) ?k" "ws \<noteq> [] \<longrightarrow> ?k \<noteq> []"
    using kept_tokens_words [of ?f "sq_platform ?q" "sq_site ?q"] filter_stopwords_words [of ?toks] ws(2) t
    by (auto simp: list_all_iff)
  have p: "list_all (search_word (se_std V)) (kept_tokens ?toks (sq_platform ?q) (sq_site ?q))" "ws \<noteq> [] \<longrightarrow> kept_tokens ?toks (sq_platform ?q) (sq_site ?q) \<noteq> []"
    using kept_tokens_words [of ?toks "sq_platform ?q" "sq_site ?q"] ws(2) t by (auto simp: list_all_iff)
  have empty: "ws = [] \<Longrightarrow> sq_tokens ?q = [] \<and> sq_phrase_tokens ?q = []"
    using t by (simp add: new_query_tokens kept_tokens_def without_intents_def filter_stopwords_context_def
        split_compound_tokens_def compound_candidates_def)
  show ?thesis
    using split_compound_words [OF k(1), of known] k(2) p none empty by (simp add: new_query_tokens(1,2))
qed

text \<open>
  C16. Whatever text the user enters, the four full-text queries built from it are empty exactly when the
  normalised query is, and otherwise well-formed: one quoted phrase of words, or quoted words and bare words
  with the prefix operator, joined by a space, AND, or OR. No input can break out of the quotes.
\<close>

theorem fts_queries_well_formed:
  assumes "tables_ok (se_std V)"
  shows "let q = new_search_query V known query in
    (if sq_normalized q = []
     then build_fts_phrase_query (sq_phrase_tokens q) = [] \<and> build_fts_exact_query (sq_tokens q) = []
        \<and> build_fts_core_query (sq_fts_tokens q) idf = [] \<and> build_fts_relaxed_query (sq_fts_tokens q) idf = []
     else list_all (search_word (se_std V)) (sq_phrase_tokens q)
        \<and> build_fts_phrase_query (sq_phrase_tokens q) = CHR 0x22 # str_join (sq_phrase_tokens q) '' '' @ [CHR 0x22]
        \<and> joined_terms (se_std V) '' '' (build_fts_exact_query (sq_tokens q))
        \<and> joined_terms (se_std V) '' AND '' (build_fts_core_query (sq_fts_tokens q) idf)
        \<and> joined_terms (se_std V) '' OR '' (build_fts_relaxed_query (sq_fts_tokens q) idf))"
proof (cases "normalize_search_text V query = []")
  case True
  then show ?thesis using new_query_words [OF assms, of known query]
    by (simp add: Let_def new_query_tokens(3,4) build_fts_phrase_query_def build_fts_exact_query_def build_fts_core_query_def build_fts_relaxed_query_def)
next
  case False
  let ?q = "new_search_query V known query"
  have w: "list_all (search_word (se_std V)) (sq_tokens ?q)" "sq_tokens ?q \<noteq> []"
    "list_all (search_word (se_std V)) (sq_phrase_tokens ?q)" "sq_phrase_tokens ?q \<noteq> []"
    using new_query_words [OF assms, of known query] False by auto
  show ?thesis
    using exact_query_shape [OF w(1)] core_query_shape [OF w(1), of idf] relaxed_query_shape [OF w(1), of idf] phrase_query_shape [OF w(3)] w False
    by (simp add: Let_def new_query_tokens(3,4))
qed

theorem fts_queries_well_formed_witness:
  "joined_terms ascii_stdlib '' '' (build_fts_exact_query (sq_tokens (new_search_query plain_search_env (\<lambda>_. False) (''rust'' @ [CHR 0x22] @ ''; OR wiki''))))"
proof -
  have "normalize_search_text plain_search_env (''rust'' @ [CHR 0x22] @ ''; OR wiki'') \<noteq> []" by code_simp
  moreover have E: "se_std plain_search_env = ascii_stdlib" by (simp add: plain_search_env_def)
  ultimately show ?thesis
    using fts_queries_well_formed [of plain_search_env "\<lambda>_. False" "''rust'' @ [CHR 0x22] @ ''; OR wiki''"] tables_ok_ascii
    unfolding Let_def E new_query_tokens(4) by simp
qed

text \<open>
  The intent of a parsed query: navigational exactly when the query names a platform at its edge, or
  else asks for nothing recent and is a domain, or a single token that is not accompanied by a site type.
  A platform and a site type are never set together.
\<close>

theorem query_intent_decision:
  "let q = new_search_query V known query in
     (sq_intent q = Navigational \<longleftrightarrow>
        0 < length (sq_platform q) \<or> (\<not> sq_fresh q \<and> (0 < length (sq_domain q) \<or> (sq_site q = [] \<and> length (sq_tokens q) = 1))))
     \<and> (sq_platform q = [] \<or> sq_site q = [])"
  by (simp add: new_search_query_def Let_def classify_query_intent_def)

lemma enrich_query_effect:
  "enrich_query V known doms q = q
   \<or> (sq_intent q = Informational \<and> \<not> sq_fresh q \<and> sq_site q = [] \<and> (\<exists>d. enrich_query V known doms q
        = q\<lparr>sq_intent := Navigational, sq_domain := d, sq_nav := di_root (classify_search_domain V d)\<rparr> \<and> d \<noteq> []))"
proof (cases "sq_intent q")
  case Informational
  then show ?thesis by (auto simp: enrich_query_def Let_def split: option.splits)
qed (simp add: enrich_query_def)

lemma enrich_query_tokens [simp]:
  "sq_tokens (enrich_query V known doms q) = sq_tokens q" "sq_normalized (enrich_query V known doms q) = sq_normalized q"
  "sq_fts_tokens (enrich_query V known doms q) = sq_fts_tokens q" "sq_phrase_tokens (enrich_query V known doms q) = sq_phrase_tokens q"
  "sq_platform (enrich_query V known doms q) = sq_platform q" "sq_site (enrich_query V known doms q) = sq_site q"
  using enrich_query_effect [of V known doms q] by auto

end
