(* ===== verification/GoTime.thy ===== *)
theory GoTime
  imports GoStrings
begin

text \<open>
  What the code uses of Go's \<open>time\<close> package to read dates: \<open>time.Parse\<close> for the layouts of
  the code, calendar arithmetic, and the saturating difference of two times.
\<close>

definition leap_year :: "int \<Rightarrow> bool" where
  "leap_year y \<longleftrightarrow> y mod 4 = 0 \<and> (y mod 100 \<noteq> 0 \<or> y mod 400 = 0)"

definition days_in_month :: "int \<Rightarrow> int \<Rightarrow> int" where
  "days_in_month y m = (if m = 2 then (if leap_year y then 29 else 28) else if m \<in> {4, 6, 9, 11} then 30 else 31)"

text \<open>Days from 1 January of year 1 to 1 January of year \<open>y\<close>, and to a date of the calendar.\<close>

definition days_before_year :: "int \<Rightarrow> int" where
  "days_before_year y = 365 * (y - 1) + (y - 1) div 4 - (y - 1) div 100 + (y - 1) div 400"

definition date_days :: "int \<Rightarrow> int \<Rightarrow> int \<Rightarrow> int" where
  "date_days y m d = days_before_year y + sum_list (map (days_in_month y) [1..m - 1]) + d - 1"

abbreviation day_ns :: duration where "day_ns \<equiv> 86400000000000"

definition digit_of :: "char \<Rightarrow> int" where
  "digit_of c = of_char c - 48"

definition digits_value :: "string \<Rightarrow> int" where
  "digits_value s = foldl (\<lambda>n c. 10 * n + digit_of c) 0 s"

text \<open>A number of exactly \<open>n\<close> digits, and one of one or two digits (\<open>getnum\<close>).\<close>

definition fixed_num :: "nat \<Rightarrow> string \<Rightarrow> (int \<times> string) option" where
  "fixed_num n s = (if n \<le> length s \<and> list_all ascii_digit (take n s) then Some (digits_value (take n s), drop n s) else None)"

definition short_num :: "string \<Rightarrow> (int \<times> string) option" where
  "short_num s = (case fixed_num 2 s of Some r \<Rightarrow> Some r | None \<Rightarrow> fixed_num 1 s)"

definition expect :: "char \<Rightarrow> string \<Rightarrow> string option" where
  "expect c s = (case s of x # xs \<Rightarrow> if x = c then Some xs else None | [] \<Rightarrow> None)"

text \<open>Fractional seconds may follow the seconds whatever the layout.\<close>

definition parse_fraction :: "string \<Rightarrow> int \<times> string" where
  "parse_fraction s =
     (case s of
        p # d # _ \<Rightarrow>
          if p \<in> {CHR ''.'', CHR '',''} \<and> ascii_digit d
          then (let ds = takeWhile ascii_digit (tl s); kept = take 9 ds
                in (digits_value kept * 10 ^ (9 - length kept), drop (length ds) (tl s)))
          else (0, s)
      | _ \<Rightarrow> (0, s))"

subsection \<open>Layouts\<close>

text \<open>
  A layout is split into the literal text and the elements that \<open>nextStdChunk\<close> recognises. Only the elements
  that the layouts of the code hold are listed, the longer ones first.
\<close>

datatype time_element = El_year | El_month | El_zero_month | El_long_month | El_short_month | El_day | El_zero_day
  | El_hour | El_minute | El_second | El_fraction | El_zone bool bool | El_text char

definition layout_elements :: "(string \<times> time_element) list" where
  "layout_elements =
     [(''January'', El_long_month), (''Jan'', El_short_month), (''2006'', El_year), (''01'', El_zero_month), (''02'', El_zero_day),
      (''04'', El_minute), (''05'', El_second), (''15'', El_hour), (''1'', El_month), (''2'', El_day),
      (''Z07:00'', El_zone True True), (''-07:00'', El_zone False True), (''-0700'', El_zone False False),
      (''.999999999'', El_fraction)]"

fun parse_layout :: "string \<Rightarrow> time_element list" where
  "parse_layout [] = []"
| "parse_layout (c # cs) =
     (case filter (\<lambda>(e, _). has_prefix (c # cs) e) layout_elements of
        (e, el) # _ \<Rightarrow> el # parse_layout (drop (length e - 1) cs)
      | [] \<Rightarrow> El_text c # parse_layout cs)"

text \<open>What has been read of a date so far. The zone is its offset from UTC in nanoseconds.\<close>

record civil =
  cv_year :: int
  cv_month :: int
  cv_day :: int
  cv_clock :: duration
  cv_zone :: duration

definition no_civil :: civil where
  "no_civil = \<lparr>cv_year = 0, cv_month = 1, cv_day = 1, cv_clock = 0, cv_zone = 0\<rparr>"

definition month_names :: "string list" where
  "month_names = [''January'', ''February'', ''March'', ''April'', ''May'', ''June'', ''July'', ''August'', ''September'',
     ''October'', ''November'', ''December'']"

text \<open>\<open>lookup\<close>: the first name that starts the text, ASCII case aside, as the number of the month.\<close>

fun lookup_name :: "int \<Rightarrow> string list \<Rightarrow> string \<Rightarrow> (int \<times> string) option" where
  "lookup_name n [] s = None"
| "lookup_name n (m # ms) s =
     (if has_prefix (map lower_char s) (map lower_char m) then Some (n, drop (length m) s) else lookup_name (n + 1) ms s)"

text \<open>A zone: \<open>Z\<close> where the layout has one, or a sign with two digits each for hours and minutes.\<close>

definition parse_zone :: "bool \<Rightarrow> bool \<Rightarrow> string \<Rightarrow> (duration \<times> string) option" where
  "parse_zone zulu colon s =
     (if zulu \<and> s \<noteq> [] \<and> hd s = CHR ''Z'' then Some (0, tl s)
      else if s \<noteq> [] \<and> (hd s = CHR ''+'' \<or> hd s = CHR ''-'')
      then Option.bind (fixed_num 2 (tl s)) (\<lambda>(h, s1). Option.bind (if colon then expect CHR '':'' s1 else Some s1) (\<lambda>s2.
           Option.bind (fixed_num 2 s2) (\<lambda>(m, s3).
             if h \<le> 24 \<and> m \<le> 60 then Some ((if hd s = CHR ''-'' then -1 else 1) * (h * 60 + m) * 60 * second, s3) else None)))
      else None)"

definition in_range :: "int \<Rightarrow> int \<Rightarrow> int \<times> string \<Rightarrow> (int \<times> string) option" where
  "in_range lo hi r = (if lo \<le> fst r \<and> fst r < hi then Some r else None)"

definition parse_element :: "time_element \<Rightarrow> civil \<Rightarrow> string \<Rightarrow> (civil \<times> string) option" where
  "parse_element el c s =
     (case el of
        El_year \<Rightarrow> map_option (\<lambda>(y, r). (c\<lparr>cv_year := y\<rparr>, r)) (fixed_num 4 s)
      | El_month \<Rightarrow> map_option (\<lambda>(m, r). (c\<lparr>cv_month := m\<rparr>, r)) (Option.bind (short_num s) (in_range 1 13))
      | El_zero_month \<Rightarrow> map_option (\<lambda>(m, r). (c\<lparr>cv_month := m\<rparr>, r)) (Option.bind (fixed_num 2 s) (in_range 1 13))
      | El_long_month \<Rightarrow> map_option (\<lambda>(m, r). (c\<lparr>cv_month := m\<rparr>, r)) (lookup_name 1 month_names s)
      | El_short_month \<Rightarrow> map_option (\<lambda>(m, r). (c\<lparr>cv_month := m\<rparr>, r)) (lookup_name 1 (map (take 3) month_names) s)
      | El_day \<Rightarrow> map_option (\<lambda>(d, r). (c\<lparr>cv_day := d\<rparr>, r)) (short_num s)
      | El_zero_day \<Rightarrow> map_option (\<lambda>(d, r). (c\<lparr>cv_day := d\<rparr>, r)) (fixed_num 2 s)
      | El_hour \<Rightarrow> map_option (\<lambda>(h, r). (c\<lparr>cv_clock := cv_clock c + h * 3600 * second\<rparr>, r)) (Option.bind (short_num s) (in_range 0 24))
      | El_minute \<Rightarrow> map_option (\<lambda>(m, r). (c\<lparr>cv_clock := cv_clock c + m * 60 * second\<rparr>, r)) (Option.bind (fixed_num 2 s) (in_range 0 60))
      | El_second \<Rightarrow>
          map_option (\<lambda>(n, r). let (ns, r') = parse_fraction r in (c\<lparr>cv_clock := cv_clock c + n * second + ns\<rparr>, r'))
            (Option.bind (fixed_num 2 s) (in_range 0 60))
      | El_fraction \<Rightarrow> Some (c, s)
      | El_zone zulu colon \<Rightarrow> map_option (\<lambda>(z, r). (c\<lparr>cv_zone := z\<rparr>, r)) (parse_zone zulu colon s)
      | El_text x \<Rightarrow>
          if x = CHR '' ''
          then (if s \<noteq> [] \<and> hd s \<noteq> CHR '' '' then None else Some (c, dropWhile (\<lambda>y. y = CHR '' '') s))
          else map_option (Pair c) (expect x s))"

text \<open>
  Spaces of the layout match any number of spaces, none only at the end of the text: after the first
  of several spaces of a layout has taken them all, none of the others is left, and no layout has two in a row.
\<close>

fun parse_elements :: "time_element list \<Rightarrow> civil \<Rightarrow> string \<Rightarrow> civil option" where
  "parse_elements [] c s = (if s = [] then Some c else None)"
| "parse_elements (el # els) c s = Option.bind (parse_element el c s) (\<lambda>(c', r). parse_elements els c' r)"

type_synonym time_layout = string

definition parse_civil :: "time_layout \<Rightarrow> string \<Rightarrow> civil option" where
  "parse_civil l s =
     Option.bind (parse_elements (parse_layout l) no_civil s) (\<lambda>c.
       if 1 \<le> cv_day c \<and> cv_day c \<le> days_in_month (cv_year c) (cv_month c) then Some c else None)"

text \<open>The instant of a date. \<open>Year\<close> of a parsed time is \<open>cv_year\<close>, the year as it was written.\<close>

definition civil_time :: "civil \<Rightarrow> gotime" where
  "civil_time c = date_days (cv_year c) (cv_month c) (cv_day c) * day_ns + cv_clock c - cv_zone c"

definition time_parse :: "time_layout \<Rightarrow> string \<Rightarrow> gotime option" where
  "time_parse l s = map_option civil_time (parse_civil l s)"

text \<open>The layouts \<open>time.RFC3339\<close> and \<open>time.RFC3339Nano\<close>.\<close>

definition rfc3339 :: time_layout where "rfc3339 = ''2006-01-02T15:04:05Z07:00''"
definition rfc3339_nano :: time_layout where "rfc3339_nano = ''2006-01-02T15:04:05.999999999Z07:00''"

definition max_duration :: duration where "max_duration = 9223372036854775807"
definition min_duration :: duration where "min_duration = - 9223372036854775808"

definition time_sub :: "gotime \<Rightarrow> gotime \<Rightarrow> duration" where
  "time_sub t u = max min_duration (min max_duration (t - u))"

definition duration_days :: "duration \<Rightarrow> float64" where
  "duration_days d = real_of_int d / 3600000000000 / 24"

end
