(* ===== verification/SearchScore.thy ===== *)
theory SearchScore
  imports SearchQuery GoTime
begin

text \<open>
  The scoring of search candidates of \<open>internal/storage/sqlite_search.go\<close>: the candidate with its
  search result, reading a row of the database, the score components and \<open>scoreSearchCandidate\<close>, which adds
  them up. The database is a parameter: what a query returns is a list of rows. The rules of the site-hint
  registry are visited in the order \<open>rules\<close>.
\<close>

datatype search_mode = NavigationalMode | PhraseMode | ExactMode | CoreMode | RelaxedMode | RecentMode | NoMode

record search_candidate =
  sc_id :: int
  sc_url :: rawurl
  sc_title :: string
  sc_desc :: string
  sc_snippet :: string
  sc_domain :: domain
  sc_language :: string
  sc_region :: string
  sc_crawled :: gotime
  sc_updated :: "gotime option"
  sc_published_at :: "gotime option"
  sc_rank :: float64
  sc_refdoms :: int
  sc_pagerank :: float64
  sc_schema_type :: string
  sc_schema_image :: string
  sc_schema_author :: string
  sc_schema_keywords :: string
  sc_schema_rating :: float64
  sc_h1 :: string
  sc_h2 :: string
  sc_body :: string
  sc_sql :: float64
  sc_content_len :: int
  sc_mode :: search_mode
  sc_published :: gotime

text \<open>A row as the queries select it; nullable columns are options.\<close>

record search_row =
  sr_id :: int
  sr_url :: rawurl
  sr_title :: string
  sr_h1 :: string
  sr_h2 :: string
  sr_desc :: string
  sr_snippet :: "string option"
  sr_domain :: domain
  sr_language :: string
  sr_region :: string
  sr_crawled :: "gotime option"
  sr_published :: "string option"
  sr_updated :: "string option"
  sr_score :: float64
  sr_content_len :: int
  sr_schema_type :: "string option"
  sr_schema_image :: "string option"
  sr_schema_author :: "string option"
  sr_schema_keywords :: "string option"
  sr_schema_rating :: "float64 option"
  sr_refdoms :: int
  sr_pagerank :: float64
  sr_clicks :: int

subsection \<open>Reading rows\<close>

definition flexible_layouts :: "time_layout list" where
  "flexible_layouts = [rfc3339_nano, rfc3339, ''2006-01-02T15:04:05Z07:00'', ''2006-01-02T15:04:05'', ''2006-01-02 15:04:05'', ''2006-01-02'']"

fun first_time :: "time_layout list \<Rightarrow> string \<Rightarrow> gotime" where
  "first_time [] s = time_zero"
| "first_time (l # ls) s = (case time_parse l s of Some t \<Rightarrow> if t \<noteq> time_zero then t else first_time ls s | None \<Rightarrow> first_time ls s)"

definition parse_flexible_time :: "string \<Rightarrow> gotime" where
  "parse_flexible_time s = first_time flexible_layouts s"

definition text_of :: "string option \<Rightarrow> string" where
  "text_of s = (case s of Some t \<Rightarrow> t | None \<Rightarrow> [])"

definition row_time :: "string option \<Rightarrow> gotime option" where
  "row_time s =
     (case s of
        None \<Rightarrow> None
      | Some t \<Rightarrow> if t = [] then None
                  else (let x = parse_flexible_time t in if x \<noteq> time_zero then Some x else None))"

text \<open>
  The loop body shared by the retrieval functions; \<open>fallback\<close> is set where an empty snippet is replaced by
  the description.
\<close>

definition scan_row :: "search_mode \<Rightarrow> bool \<Rightarrow> search_row \<Rightarrow> search_candidate" where
  "scan_row mode fallback r =
     (let snippet = text_of (sr_snippet r)
      in \<lparr>sc_id = sr_id r, sc_url = sr_url r, sc_title = sr_title r, sc_desc = sr_desc r,
          sc_snippet = (if fallback \<and> snippet = [] then sr_desc r else snippet),
          sc_domain = sr_domain r, sc_language = sr_language r, sc_region = sr_region r,
          sc_crawled = (case sr_crawled r of Some t \<Rightarrow> t | None \<Rightarrow> time_zero),
          sc_updated = row_time (sr_updated r), sc_published_at = row_time (sr_published r), sc_rank = 0,
          sc_refdoms = sr_refdoms r, sc_pagerank = sr_pagerank r,
          sc_schema_type = text_of (sr_schema_type r), sc_schema_image = text_of (sr_schema_image r),
          sc_schema_author = text_of (sr_schema_author r), sc_schema_keywords = text_of (sr_schema_keywords r),
          sc_schema_rating = (case sr_schema_rating r of Some x \<Rightarrow> x | None \<Rightarrow> 0),
          sc_h1 = sr_h1 r, sc_h2 = sr_h2 r, sc_body = [], sc_sql = sr_score r + of_int (sr_clicks r) * 50,
          sc_content_len = sr_content_len r, sc_mode = mode,
          sc_published = (case row_time (sr_published r) of Some t \<Rightarrow> t | None \<Rightarrow> time_zero)\<rparr>)"

subsection \<open>Inverse document frequency\<close>

text \<open>
  \<open>getSearchIDFMap\<close>: \<open>ndocs\<close> is what the first query returns, \<open>cached\<close> the values of the cache,
  \<open>vocab\<close> the document counts of the vocabulary query, \<open>None\<close> when it fails.
\<close>

definition get_search_idf_map :: "float64 option \<Rightarrow> (string \<rightharpoonup> float64) \<Rightarrow> (string \<rightharpoonup> float64) option \<Rightarrow> string list \<Rightarrow> (string \<rightharpoonup> float64)" where
  "get_search_idf_map ndocs cached vocab tokens =
     (if length tokens = 0 then Map.empty
      else (let t0 = (case ndocs of Some n \<Rightarrow> n | None \<Rightarrow> 10000);
                docs = (if t0 \<le> 0 then 1 else t0);
                dflt = ln (docs / 1)
            in (\<lambda>t. if t \<notin> set tokens then None
                    else case cached t of
                           Some v \<Rightarrow> Some v
                         | None \<Rightarrow> (case vocab of
                             None \<Rightarrow> Some dflt
                           | Some m \<Rightarrow> (case m t of
                               Some n \<Rightarrow> if n > 0 then Some (ln (docs / n)) else Some dflt
                             | None \<Rightarrow> Some dflt)))))"

subsection \<open>Components\<close>

definition score_authority :: "float64 \<Rightarrow> int \<Rightarrow> float64" where
  "score_authority pagerank refdoms =
     (if pagerank > 0 then min (ln (1 + pagerank)) 4 * 100
      else if refdoms > 0 then min (ln (1 + of_int refdoms)) 3 * 70
      else 0)"

definition path_separator :: "rune \<Rightarrow> bool" where
  "path_separator r \<longleftrightarrow> r \<in> {47, 45, 95, 46, 63, 61, 38}"

definition gub_uy :: "domain \<Rightarrow> bool" where
  "gub_uy d \<longleftrightarrow> has_suffix d ''.gub.uy'' \<or> has_suffix d ''.gov.uy''"

definition gub_any :: "domain \<Rightarrow> bool" where
  "gub_any d \<longleftrightarrow> str_contains d ''.gub.'' \<or> str_contains d ''.gov.''"

text \<open>The query tokens and a site type of at least three bytes, and those that make up much of a root label.\<close>

definition brand_tokens :: "search_query \<Rightarrow> string list" where
  "brand_tokens q = sq_tokens q @ (if sq_site q \<noteq> [] \<and> 3 \<le> length (sq_site q) then [sq_site q] else [])"

definition brand_matches :: "stdlib \<Rightarrow> string \<Rightarrow> string list \<Rightarrow> nat" where
  "brand_matches E label toks =
     (let lower = to_lower E label; rlen = length (rune_list lower)
      in length (filter (\<lambda>t. let n = length (rune_list t) in 3 \<le> n \<and> str_contains lower t \<and> 40 \<le> n * 100 div rlen) toks))"

definition url_token_matches :: "string list \<Rightarrow> string list \<Rightarrow> nat" where
  "url_token_matches toks paths =
     length (filter (\<lambda>t. 3 \<le> length t \<and> list_ex (\<lambda>p. p = t \<or> str_contains p t \<or> str_contains t p) paths) toks)"

definition score_url_signal :: "search_env \<Rightarrow> search_query \<Rightarrow> rawurl \<Rightarrow> search_domain_info \<Rightarrow> domain \<Rightarrow> float64" where
  "score_url_signal V q url info dl =
     (let E = se_std V; homepage = is_search_homepage E url; lower = to_lower E url;
          s1 = (if sq_intent q = Informational \<and> 0 < length (sq_tokens q)
                then (let paths = fields_func path_separator (trim_set lower ''/'');
                          m = url_token_matches (sq_tokens q) paths;
                          slashes = int (count_byte url CHR ''/'') - 2
                      in (if 0 < m then real m * 200 + (if m = length (sq_tokens q) then 300 else 0) else 0)
                         + (if slashes \<le> 1 then 60 else if slashes \<le> 2 then 30 else 0))
                else 0);
          s2 = (if sq_intent q = Informational then (if gub_uy dl then 150 else if gub_any dl then 80 else 0) else 0);
          s3 = (if 0 < length (sq_tokens q) \<and> di_root info \<noteq> []
                then (let m = brand_matches E (di_root info) (brand_tokens q)
                      in if 0 < m then real m * 400 + (if 2 \<le> m then 800 else 0) else 0)
                else 0);
          s4 = (if sq_intent q = Navigational
                then (if homepage \<and> di_is_root info then 200 else if homepage then 100 else 0) else 0)
      in s1 + s2 + s3 + s4)"

definition score_freshness :: "gotime \<Rightarrow> gotime \<Rightarrow> gotime \<Rightarrow> float64" where
  "score_freshness now crawled published =
     (let best = (if published \<noteq> time_zero then published else crawled)
      in if best = time_zero then 0
         else max 0 (50 - duration_days (time_sub now best) * (15 / 100)))"

definition score_news_recency :: "gotime \<Rightarrow> gotime \<Rightarrow> bool \<Rightarrow> float64" where
  "score_news_recency now published explicit =
     (if explicit then 0
      else if published = time_zero then -4000
      else (let days = duration_days (time_sub now published)
            in if days < 0 then 12000
               else if days \<le> 1 then 12000
               else if days \<le> 3 then 10000
               else if days \<le> 7 then 8000
               else if days \<le> 14 then 5000
               else if days \<le> 30 then 2000
               else if days \<le> 90 then -1000
               else if days \<le> 180 then -5000
               else if days \<le> 365 then -10000
               else if days \<le> 730 then -16000
               else -22000))"

definition score_user_signals :: "float64 \<Rightarrow> float64" where
  "score_user_signals sql = min sql 500 * (10 / 100)"

definition search_mode_bonus :: "search_mode \<Rightarrow> float64" where
  "search_mode_bonus m =
     (case m of NavigationalMode \<Rightarrow> 120 | PhraseMode \<Rightarrow> 180 | ExactMode \<Rightarrow> 140 | CoreMode \<Rightarrow> 100 | RelaxedMode \<Rightarrow> 60
      | RecentMode \<Rightarrow> 220 | NoMode \<Rightarrow> 0)"

subsection \<open>Content relevance\<close>

text \<open>The normalised and tokenised fields of a candidate.\<close>

record search_fields =
  sf_title :: string
  sf_title_toks :: "string list"
  sf_h1 :: string
  sf_h1_toks :: "string list"
  sf_h2 :: string
  sf_h2_toks :: "string list"
  sf_desc :: string
  sf_desc_toks :: "string list"
  sf_url :: string
  sf_url_toks :: "string list"
  sf_domain :: string
  sf_domain_toks :: "string list"
  sf_effective :: string
  sf_root :: string

text \<open>The penalty for query tokens that no field matches: the share of the weight that is matched.\<close>

definition coverage_ratio :: "search_query \<Rightarrow> bool list list \<Rightarrow> float64" where
  "coverage_ratio q flags =
     (let toks = sq_tokens q; w = token_weight (sq_idf q)
      in sum_list (map (\<lambda>i. w (toks ! i)) (filter (\<lambda>i. list_ex (\<lambda>fl. fl ! i) flags) [0..<length toks]))
         / sum_list (map w toks))"

definition score_content_relevance :: "search_query \<Rightarrow> search_fields \<Rightarrow> domain \<Rightarrow> float64" where
  "score_content_relevance q f dl =
     (let ph = (\<lambda>norm toks. best_field_phrase_score (sq_normalized q) (sq_tokens q) norm toks);
          dph = max (max (ph (sf_domain f) (sf_domain_toks f)) (ph (sf_effective f) (str_fields (sf_effective f))))
                    (ph (sf_root f) (str_fields (sf_root f)));
          s1 = 560 * ph (sf_title f) (sf_title_toks f) + 360 * ph (sf_h1 f) (sf_h1_toks f) + 360 * ph (sf_h2 f) (sf_h2_toks f)
             + 240 * ph (sf_desc f) (sf_desc_toks f) + 260 * dph + 90 * ph (sf_url f) (sf_url_toks f);
          cv = (\<lambda>toks. search_token_coverage (sq_tokens q) toks (sq_idf q));
          ct = cv (sf_title_toks f); c1 = cv (sf_h1_toks f); c2 = cv (sf_h2_toks f); cd = cv (sf_desc_toks f);
          cdom = cv (sf_domain_toks f); cu = cv (sf_url_toks f);
          avg = (3 * cv_avg ct + 2 * cv_avg c1 + 2 * cv_avg c2 + 2 * cv_avg cd) / 9;
          cov = (3 * cv_coverage ct + 2 * cv_coverage c1 + 2 * cv_coverage c2 + 2 * cv_coverage cd) / 9;
          s2 = s1 + 430 * avg + 180 * cov + 200 * cv_avg cdom + 60 * cv_coverage cdom + 130 * cv_avg cu + 40 * cv_coverage cu;
          s3 = s2 + 55 * fixed_weighted_term_frequency (sq_tokens q) (sq_idf q) (sf_title f) (sf_h1 f) (sf_h2 f) (sf_desc f);
          s4 = (if 0 < length (sq_tokens q) \<and> cv_exact ct = length (sq_tokens q) then s3 + 180 else s3)
      in if 2 \<le> length (sq_tokens q)
         then (let r = coverage_ratio q [cv_flags ct, cv_flags c1, cv_flags c2, cv_flags cd, cv_flags cu]
               in if r < 5 / 10
                  then (if gub_uy dl \<or> gub_any dl then s4 * (75 / 100 + r * (25 / 100)) else s4 * (r * 2))
                  else s4)
         else s4)"


subsection \<open>Boosts\<close>

definition apply_navigational_boosts :: "search_candidate \<Rightarrow> search_query \<Rightarrow> search_domain_info \<Rightarrow> string \<Rightarrow> string list \<Rightarrow> bool \<Rightarrow> bool \<Rightarrow> float64" where
  "apply_navigational_boosts c q info dnorm dtoks profile homepage =
     (let phrase = best_field_phrase_score (sq_normalized q) (sq_tokens q) dnorm dtoks;
          b1 = (if sq_domain q \<noteq> [] \<or> sq_nav q \<noteq> []
                then (let cd = trim_prefix (sc_domain c) ''www.'';
                          match = (if sq_domain q = [] then sq_nav q else sq_domain q)
                      in if cd = match then (if \<not> profile then 8000 + (if homepage then 6000 else 0) else 0)
                         else if di_is_root info \<and> di_root info = match
                         then (if \<not> profile then 6000 + (if homepage then 5000 else 0) else 0)
                         else 0)
                else 0);
          b2 = (if homepage \<and> phrase \<ge> 75 / 100 \<and> \<not> profile then (if di_is_root info then 15000 else 8000) else 0)
      in b1 + b2)"

definition apply_platform_intent_boosts :: "search_env \<Rightarrow> search_candidate \<Rightarrow> search_query \<Rightarrow> search_domain_info \<Rightarrow> string list \<Rightarrow> bool \<Rightarrow> bool \<Rightarrow> float64" where
  "apply_platform_intent_boosts V c q info utoks profile homepage =
     (if di_root info \<noteq> sq_platform q then 0
      else if profile then 2000
      else (let hint = classify (se_std V) platform_rules (sc_url c) (sq_platform q);
                b1 = (if hm_hub hint
                      then 16000 + hm_boost hint
                           + (if hm_name hint \<noteq> [] \<and> list_ex (\<lambda>t. str_equal_fold V t (hm_name hint)) (sq_tokens q) then 30000 else 0)
                      else (let b = 16000 - hm_penalty hint in if b < 10000 then 10000 else b));
                b2 = (if homepage then 4000 else 0);
                b3 = (if 0 < length (sq_tokens q)
                      then (let avg = cv_avg (search_token_coverage (sq_tokens q) utoks (sq_idf q)) in if avg > 0 then 3000 * avg else 0)
                      else 0)
            in b1 + b2 + b3))"

definition gov_or_edu :: "domain \<Rightarrow> bool" where
  "gov_or_edu d \<longleftrightarrow> str_contains d ''.gub.'' \<or> str_contains d ''.gov.'' \<or> str_contains d ''.edu.''"

definition in_path :: "stdlib \<Rightarrow> string \<Rightarrow> string \<Rightarrow> bool" where
  "in_path E path t \<longleftrightarrow> 3 \<le> length t \<and> \<not> is_numeric_token E t \<and> str_contains path t"

text \<open>The size of the IDF map, whose keys are the tokens of the query.\<close>

definition idf_size :: "search_query \<Rightarrow> nat" where
  "idf_size q = length (remdups (filter (\<lambda>t. sq_idf q t \<noteq> None) (sq_tokens q)))"

definition apply_government_source_boosts :: "search_env \<Rightarrow> search_candidate \<Rightarrow> search_query \<Rightarrow> domain \<Rightarrow> bool \<Rightarrow> float64" where
  "apply_government_source_boosts V c q dl homepage =
     (if \<not> gov_or_edu dl then 0
      else (let path = to_lower (se_std V) (sc_url c);
                n = length (filter (in_path (se_std V) path) (sq_tokens q));
                ordered = sort_tokens_by_relevance (sq_tokens q) (sq_idf q);
                primary = (if 0 < length ordered then ordered ! 0 else []);
                has_primary = (primary \<noteq> [] \<and> in_path (se_std V) path primary);
                specific = (if has_primary \<and> 2 \<le> length (sq_tokens q) \<and> 2 \<le> idf_size q \<and> 2 \<le> length ordered
                            then \<not> idf_of (sq_idf q) (ordered ! 0) < idf_of (sq_idf q) (ordered ! 1) * (15 / 10) else True)
            in if has_primary \<and> 2 \<le> n \<and> specific then 8000 + real n * 800 + (if homepage then 2000 else 0)
               else if has_primary \<and> specific then 6000 + real n * 800 + (if homepage then 2000 else 0)
               else if has_primary \<and> 2 \<le> n then 2000 + real n * 400
               else if has_primary then 800
               else if 2 \<le> n then 1000 + real n * 400
               else if 1 \<le> n then 400
               else 0))"

definition apply_brand_match_boosts :: "search_env \<Rightarrow> search_query \<Rightarrow> search_domain_info \<Rightarrow> float64" where
  "apply_brand_match_boosts V q info =
     (if 0 < length (sq_tokens q) \<and> di_root info \<noteq> []
      then (let m = brand_matches (se_std V) (di_root info) (brand_tokens q)
            in if 2 \<le> m then real m * 2000 + (if m = length (brand_tokens q) then 5000 else 0) else 0)
      else 0)"

text \<open>The block for a site type, by the group of words the type belongs to.\<close>

definition schema_has :: "string \<Rightarrow> string list \<Rightarrow> bool" where
  "schema_has schema words = list_ex (str_contains schema) words"

definition docs_words :: "string list" where
  "docs_words = [''docs'', ''documentacion'', ''documentation'', ''guide'', ''guides'', ''guia'', ''guias'', ''api'']"

definition site_type_boost :: "string \<Rightarrow> string \<Rightarrow> float64 \<Rightarrow> float64 \<Rightarrow> float64" where
  "site_type_boost site schema fresh news =
     (if site \<in> {''noticias'', ''news''} then
        (if schema_has schema [''newsarticle'', ''report''] then 12000 else if schema_has schema [''article''] then 8000 else 0)
        + (if schema_has schema [''jobposting''] then -15000 else 0)
        + (if schema_has schema [''product'', ''offer''] then -8000 else 0)
        + fresh * 40 + news
      else if site \<in> set docs_words then
        (if schema_has schema [''techarticle'', ''apireference'', ''howto'', ''softwaresourcecode''] then 12000
         else if schema_has schema [''article''] then 4000 else 0)
        + (if schema_has schema [''jobposting''] then -15000 else 0)
        + (if schema_has schema [''product'', ''offer''] then -8000 else 0)
      else if site = ''blog'' then
        (if schema_has schema [''blogposting'', ''blog''] then 12000 else if schema_has schema [''article''] then 6000 else 0)
        + fresh * 10
      else if site \<in> {''foro'', ''forum'', ''forums'', ''comunidad'', ''community''} then
        (if schema_has schema [''discussionforumposting'', ''qapage'', ''comment''] then 12000 else 0)
      else if site \<in> {''soporte'', ''support'', ''ayuda'', ''help''} then
        (if schema_has schema [''faqpage'', ''qapage'', ''howto'', ''techarticle''] then 10000 else 0)
      else if site \<in> {''tienda'', ''store''} then
        (if schema_has schema [''product'', ''offer'', ''store'', ''itempage''] then 12000 else 0)
        + (if schema_has schema [''article'', ''newsarticle''] then -8000 else 0)
      else if site = ''wiki'' then (if schema_has schema [''article''] then 6000 else 0)
      else 0)"

definition type_in_domain_boost :: "search_candidate \<Rightarrow> search_query \<Rightarrow> search_domain_info \<Rightarrow> bool \<Rightarrow> float64" where
  "type_in_domain_boost c q info homepage =
     (if str_contains (sc_domain c) (sq_site q) \<or> str_contains (di_effective info) (sq_site q) \<or> str_contains (di_root info) (sq_site q)
      then (if homepage then 12000 else 4000) else 0)"

subsection \<open>The score of a candidate\<close>

definition is_profile_url :: "string \<Rightarrow> bool" where
  "is_profile_url u = list_ex (str_contains u) [''/user/'', ''/profile/'', ''/u/'', ''/people/'', ''/member/'', ''/author/'', ''/accounts/'']"

definition candidate_host :: "search_env \<Rightarrow> search_candidate \<Rightarrow> domain" where
  "candidate_host V c =
     trim_prefix (case url_parse (se_std V) (sc_url c) of
                    Some u \<Rightarrow> if url_hostname u \<noteq> [] then url_hostname u else sc_domain c
                  | None \<Rightarrow> sc_domain c) ''www.''"

definition candidate_fields :: "search_env \<Rightarrow> search_candidate \<Rightarrow> search_fields" where
  "candidate_fields V c =
     (let norm = normalize_search_text V; info = classify_search_domain V (candidate_host V c);
          eff = norm (di_effective info); rlabel = norm (di_root info); toks = (\<lambda>s. unique_strings (str_fields s));
          dtoks = unique_strings (str_fields (norm (sc_domain c)) @ str_fields eff)
      in \<lparr>sf_title = norm (sc_title c), sf_title_toks = toks (norm (sc_title c)),
          sf_h1 = norm (sc_h1 c), sf_h1_toks = toks (norm (sc_h1 c)),
          sf_h2 = norm (sc_h2 c), sf_h2_toks = toks (norm (sc_h2 c)),
          sf_desc = norm (sc_desc c), sf_desc_toks = toks (norm (sc_desc c)),
          sf_url = norm (sc_url c), sf_url_toks = toks (norm (sc_url c)),
          sf_domain = norm (sc_domain c), sf_domain_toks = unique_strings (dtoks @ str_fields rlabel),
          sf_effective = eff, sf_root = rlabel\<rparr>)"

definition language_boost :: "search_env \<Rightarrow> string \<Rightarrow> search_candidate \<Rightarrow> float64" where
  "language_boost V lang c =
     (if lang \<noteq> [] \<and> sc_language c = lang then se_language_boost V
      else if lang \<noteq> [] \<and> se_secondary_boost V > 0 \<and> lang \<noteq> se_secondary_language V \<and> sc_language c = se_secondary_language V
      then se_secondary_boost V else 0)"

definition score_search_candidate :: "search_env \<Rightarrow> gotime \<Rightarrow> search_candidate \<Rightarrow> search_query \<Rightarrow> string \<Rightarrow> float64 \<times> bool" where
  "score_search_candidate V now c q lang =
     (let f = candidate_fields V c; dl = candidate_host V c; info = classify_search_domain V dl;
          content = score_content_relevance q f dl;
          authority = score_authority (sc_pagerank c) (sc_refdoms c);
          url = score_url_signal V q (sc_url c) info dl;
          fresh = score_freshness now (sc_crawled c) (sc_published c);
          user = score_user_signals (sc_sql c);
          t1 = (if sq_intent q = Navigational
                then content * (30 / 100) + authority * (20 / 100) + url * (35 / 100) + fresh * (5 / 100) + user * (10 / 100)
                else content * (50 / 100) + authority * (15 / 100) + url * (10 / 100) + fresh * (15 / 100) + user * (10 / 100));
          t2 = t1 + sc_sql c * 200 * (20 / 100);
          t3 = t2 + search_mode_bonus (sc_mode c);
          t4 = t3 + language_boost V lang c;
          homepage = is_search_homepage (se_std V) (sc_url c);
          profile = is_profile_url (to_lower (se_std V) (sc_url c));
          t5 = t4 + (if sq_intent q = Navigational
                     then apply_navigational_boosts c q info (sf_domain f) (sf_domain_toks f) profile homepage else 0);
          t6 = t5 + (if sq_platform q \<noteq> []
                     then apply_platform_intent_boosts V c q info (sf_url_toks f) profile homepage else 0);
          t7 = t6 + (if sq_site q \<noteq> []
                     then site_type_boost (sq_site q) (to_lower (se_std V) (sc_schema_type c)) fresh
                            (score_news_recency now (sc_published c) (sq_date q))
                          + type_in_domain_boost c q info homepage
                     else 0);
          t8 = t7 + (if sq_intent q = Informational
                     then apply_government_source_boosts V c q dl homepage + apply_brand_match_boosts V q info else 0)
      in (t8, True))"


subsection \<open>Clicks\<close>

lemma candidate_host_frame [frame_simps]: "candidate_host V (c\<lparr>sc_sql := x\<rparr>) = candidate_host V c"
  by (auto simp: candidate_host_def split: option.splits)

lemma score_frame [frame_simps]:
  "candidate_fields V (c\<lparr>sc_sql := x\<rparr>) = candidate_fields V c"
  "language_boost V lang (c\<lparr>sc_sql := x\<rparr>) = language_boost V lang c"
  "apply_navigational_boosts (c\<lparr>sc_sql := x\<rparr>) q info dn dt pr hp = apply_navigational_boosts c q info dn dt pr hp"
  "apply_platform_intent_boosts V (c\<lparr>sc_sql := x\<rparr>) q info ut pr hp = apply_platform_intent_boosts V c q info ut pr hp"
  "apply_government_source_boosts V (c\<lparr>sc_sql := x\<rparr>) q dl hp = apply_government_source_boosts V c q dl hp"
  "type_in_domain_boost (c\<lparr>sc_sql := x\<rparr>) q info hp = type_in_domain_boost c q info hp"
  by (simp_all add: candidate_host_frame candidate_fields_def language_boost_def apply_navigational_boosts_def
      apply_platform_intent_boosts_def apply_government_source_boosts_def type_in_domain_boost_def)

lemma score_of_sql:
  "fst (score_search_candidate V now (c\<lparr>sc_sql := x\<rparr>) q lang) - fst (score_search_candidate V now c q lang)
     = (score_user_signals x - score_user_signals (sc_sql c)) / 10 + (x - sc_sql c) * 40"
  by (simp add: score_search_candidate_def frame_simps Let_def field_simps)

text \<open>
  The signal of the users is capped at 50 points, but each click also enters the text score: one more
  click on a result raises its total by at least 2000, without a limit.
\<close>

theorem click_adds_2000:
  "score_user_signals x \<le> 50
   \<and> fst (score_search_candidate V now (scan_row m fb (r\<lparr>sr_clicks := n + int k\<rparr>)) q lang)
       \<ge> fst (score_search_candidate V now (scan_row m fb (r\<lparr>sr_clicks := n\<rparr>)) q lang) + 2000 * real k"
proof -
  define c where "c = scan_row m fb (r\<lparr>sr_clicks := n\<rparr>)"
  define x where "x = sc_sql c + 50 * real k"
  have d: "scan_row m fb (r\<lparr>sr_clicks := n + int k\<rparr>) = c\<lparr>sc_sql := x\<rparr>"
    by (simp add: x_def c_def scan_row_def Let_def)
  have "score_user_signals (sc_sql c) \<le> score_user_signals x" by (simp add: score_user_signals_def x_def)
  moreover have "(x - sc_sql c) * 40 = 2000 * real k" by (simp add: x_def)
  ultimately have "fst (score_search_candidate V now c q lang) + 2000 * real k \<le> fst (score_search_candidate V now (c\<lparr>sc_sql := x\<rparr>) q lang)"
    using score_of_sql [where V = V and now = now and c = c and x = x and q = q and lang = lang] by argo
  then show ?thesis unfolding d c_def [symmetric] by (simp add: score_user_signals_def)
qed

subsection \<open>Freshness\<close>

lemma time_sub_exact: "min_duration \<le> t - u \<Longrightarrow> t - u \<le> max_duration \<Longrightarrow> time_sub t u = t - u"
  by (simp add: time_sub_def)

lemma duration_days_whole: "duration_days (n * day_ns) = of_int n"
  by (simp add: duration_days_def)

text \<open>
  Freshness is at most 50 for a page dated in the past, but a date in the future is not cut off: a page
  that claims to be published \<open>n\<close> days from now scores \<open>50 + 0.15 n\<close>.
\<close>

theorem future_dates_score_higher:
  assumes "0 < n" and "n \<le> 100000" and "now + n * day_ns \<noteq> time_zero" and "published \<le> now"
  shows "score_freshness now crawled (now + n * day_ns) = 50 + of_int n * (15 / 100)
    \<and> (published \<noteq> time_zero \<longrightarrow> score_freshness now crawled published \<le> 50)"
proof -
  have "time_sub now (now + n * day_ns) = - n * day_ns"
    using assms(1,2) by (subst time_sub_exact) (simp_all add: min_duration_def max_duration_def)
  then have "duration_days (time_sub now (now + n * day_ns)) = - of_int n" using duration_days_whole [of "- n"] by simp
  then have "score_freshness now crawled (now + n * day_ns) = 50 + of_int n * (15 / 100)"
    using assms(1,3) by (simp add: score_freshness_def Let_def)
  moreover have "0 \<le> duration_days (time_sub now published)"
    using assms(4) by (simp add: duration_days_def time_sub_def min_duration_def max_duration_def)
  ultimately show ?thesis by (simp add: score_freshness_def Let_def)
qed

theorem future_dates_score_higher_witness:
  "score_freshness 63900000000000000000 0 (63900000000000000000 + 3650 * day_ns) = 597.5
   \<and> score_freshness 63900000000000000000 0 63900000000000000000 \<le> 50"
proof -
  have s: "(597.5 :: real) = 50 + of_int 3650 * (15 / 100)" by simp
  show ?thesis unfolding s
    using future_dates_score_higher [of 3650 63900000000000000000 63900000000000000000 0] by (simp add: time_zero_def)
qed

subsection \<open>Bounds of the components\<close>

lemma authority_bounds [bound_intros]: "0 \<le> score_authority pr rd \<and> score_authority pr rd \<le> 400"
  by (auto simp: score_authority_def min_def)

lemma news_bounds [bound_intros]: "-22000 \<le> score_news_recency now p e \<and> score_news_recency now p e \<le> 12000"
  by (simp add: score_news_recency_def Let_def)

lemma url_signal_nonneg [bound_intros]: "0 \<le> score_url_signal V q u info dl"
proof -
  have add: "0 \<le> a \<Longrightarrow> 0 \<le> b \<Longrightarrow> 0 \<le> c \<Longrightarrow> 0 \<le> d \<Longrightarrow> 0 \<le> a + b + c + d" for a b c d :: real by simp
  show ?thesis unfolding score_url_signal_def Let_def by (intro add) auto
qed

lemma navigational_bounds [bound_intros]:
  "0 \<le> apply_navigational_boosts c q info dn dt pr hp \<and> apply_navigational_boosts c q info dn dt pr hp \<le> 29000"
  by (simp add: apply_navigational_boosts_def Let_def)

lemma platform_bounds [bound_intros]:
  "0 \<le> apply_platform_intent_boosts V c q info ut pr hp \<and> apply_platform_intent_boosts V c q info ut pr hp \<le> 59000"
proof -
  define h where "h = classify (se_std V) platform_rules (sc_url c) (sq_platform q)"
  have h: "0 \<le> hm_boost h" "hm_boost h \<le> 6000" "0 \<le> hm_penalty h"
    using classify_hint_ok [of "se_std V" "sc_url c" "sq_platform q"] by (auto simp: h_def hint_ok_def split: if_splits)
  define a where "a = cv_avg (search_token_coverage (sq_tokens q) ut (sq_idf q))"
  have a: "a \<le> 1" using coverage_range [of "sq_tokens q" ut "sq_idf q"] by (simp add: a_def)
  show ?thesis using h a unfolding apply_platform_intent_boosts_def h_def [symmetric] a_def [symmetric] Let_def by auto
qed

text \<open>
  Each bounded component of a score stays in its range: authority in [0, 400], the recency of news in
  [-22000, 12000], navigational boosts in [0, 29000], and the URL signal is never negative.
\<close>

theorem component_bounds:
  "score_authority pr rd \<in> {0..400} \<and> score_news_recency now p e \<in> {-22000..12000}
   \<and> apply_navigational_boosts c q info dn dt prof hp \<in> {0..29000}
   \<and> apply_platform_intent_boosts V c q info ut prof hp \<in> {0..59000}
   \<and> apply_government_source_boosts V c q dl hp \<ge> 0 \<and> score_url_signal V q u info dl \<ge> 0"
  using authority_bounds news_bounds navigational_bounds platform_bounds url_signal_nonneg
  by (auto simp: apply_government_source_boosts_def Let_def)

text \<open>
  A word of every document has the inverse document frequency 0, which the scores replace by the weight 1:
  it then counts more than any word found in more than a fraction \<open>1/e\<close> of the documents.
\<close>

lemma ubiquitous_word_outweighs:
  assumes "0 < n" and "a \<in> set toks" and "b \<in> set toks" and "vocab a = Some n" and "vocab b = Some k" and "0 < k"
    and "k < n" and "n < exp 1 * k"
  shows "token_weight (get_search_idf_map (Some n) Map.empty (Some vocab) toks) a = 1
    \<and> token_weight (get_search_idf_map (Some n) Map.empty (Some vocab) toks) b < 1"
proof -
  let ?m = "get_search_idf_map (Some n) Map.empty (Some vocab) toks"
  have t: "toks \<noteq> []" using assms(2) by auto
  have "?m a = Some 0" using assms(1,2,4) t by (simp add: get_search_idf_map_def Let_def)
  moreover have "?m b = Some (ln (n / k))" using assms(1,3,5,6) t by (simp add: get_search_idf_map_def Let_def)
  moreover have "0 < ln (n / k)" using assms(6,7) by simp
  moreover have "ln (n / k) < 1"
  proof -
    have "n / k < exp 1" using assms(6,8) by (simp add: divide_less_eq)
    then have "ln (n / k) < ln (exp 1)" using assms(1,6) by (subst ln_less_cancel_iff) simp_all
    then show ?thesis by simp
  qed
  ultimately show ?thesis by (simp add: token_weight_def)
qed

end
