(* ===== verification/SearchRank.thy ===== *)
theory SearchRank
  imports SearchScore
begin

text \<open>
  What \<open>SearchPages\<close> of \<open>internal/storage/sqlite_search.go\<close> does with candidates: merging the plans,
  re-ranking, promotion of a language, filters, diversification of domains, and the page of results that is
  returned. The database is a parameter: \<open>fts\<close> gives the rows of a full-text query.
\<close>

subsection \<open>Merging\<close>

text \<open>One step of \<open>mergeSearchCandidates\<close>; the map is keyed by the identifier.\<close>

definition merge_one :: "search_candidate \<Rightarrow> (int \<rightharpoonup> search_candidate) \<Rightarrow> (int \<rightharpoonup> search_candidate)" where
  "merge_one c m =
     (case m (sc_id c) of
        None \<Rightarrow> m(sc_id c \<mapsto> c)
      | Some e \<Rightarrow>
          if sc_sql c > sc_sql e \<or> (sc_snippet e = [] \<and> sc_snippet c \<noteq> [])
          then m(sc_id c \<mapsto> (if sc_snippet c = [] then c\<lparr>sc_snippet := sc_snippet e\<rparr> else c))
          else m)"

text \<open>The candidates of the map sorted by identifier, which are its keys.\<close>

definition merge_candidates :: "search_candidate list list \<Rightarrow> search_candidate list" where
  "merge_candidates groups =
     (let m = fold merge_one (concat groups) Map.empty
      in map (\<lambda>i. the (m i)) (sort (remdups (map sc_id (concat groups)))))"

subsection \<open>Re-ranking\<close>

definition rank_less :: "stdlib \<Rightarrow> search_candidate \<Rightarrow> search_candidate \<Rightarrow> bool" where
  "rank_less E a b =
     (if sc_rank a = sc_rank b
      then (let ha = is_search_homepage E (sc_url a); hb = is_search_homepage E (sc_url b)
            in if ha \<noteq> hb then ha
               else if sc_crawled a \<noteq> sc_crawled b then sc_crawled a > sc_crawled b
               else sc_url a < sc_url b)
      else sc_rank a > sc_rank b)"

definition rank_candidate :: "search_env \<Rightarrow> gotime \<Rightarrow> search_query \<Rightarrow> string \<Rightarrow> search_candidate \<Rightarrow> search_candidate" where
  "rank_candidate V now q lang c = c\<lparr>sc_rank := fst (score_search_candidate V now c q lang)\<rparr>"

definition rerank_candidates :: "search_env \<Rightarrow> gotime \<Rightarrow> search_query \<Rightarrow> string \<Rightarrow> search_candidate list \<Rightarrow> search_candidate list" where
  "rerank_candidates V now q lang cs =
     slice_stable (rank_less (se_std V))
       (map (rank_candidate V now q lang) (filter (\<lambda>c. snd (score_search_candidate V now c q lang)) cs))"

subsection \<open>Language promotion\<close>

definition group_of :: "search_env \<Rightarrow> search_candidate \<Rightarrow> string" where
  "group_of V c = (let d = di_effective (classify_search_domain V (sc_domain c)) in if d = [] then sc_domain c else d)"

definition language_score :: "string \<Rightarrow> string \<Rightarrow> search_candidate \<Rightarrow> nat" where
  "language_score lang secondary c =
     (if sc_language c = lang then 2 else if secondary \<noteq> [] \<and> sc_language c = secondary then 1 else 0)"

text \<open>The first loop: for each group the index of its first candidate with the highest score above 0.\<close>

fun best_loop :: "(search_candidate \<Rightarrow> string) \<Rightarrow> (search_candidate \<Rightarrow> nat) \<Rightarrow> search_candidate list \<Rightarrow> nat
    \<Rightarrow> (string \<rightharpoonup> nat) \<Rightarrow> (string \<Rightarrow> nat) \<Rightarrow> (string \<rightharpoonup> nat)" where
  "best_loop grp sco [] i bi bs = bi"
| "best_loop grp sco (c # cs) i bi bs =
     (if sco c > bs (grp c) then best_loop grp sco cs (i + 1) (bi(grp c \<mapsto> i)) (bs(grp c := sco c))
      else best_loop grp sco cs (i + 1) bi bs)"

text \<open>The second loop: \<open>all\<close> is the whole list, \<open>cs\<close> what is left of it from index \<open>i\<close>.\<close>

fun promote_loop :: "(search_candidate \<Rightarrow> string) \<Rightarrow> (string \<rightharpoonup> nat) \<Rightarrow> search_candidate list \<Rightarrow> search_candidate list \<Rightarrow> nat
    \<Rightarrow> nat set \<Rightarrow> string set \<Rightarrow> search_candidate list" where
  "promote_loop grp best all [] i seen doms = []"
| "promote_loop grp best all (c # cs) i seen doms =
     (let d = grp c;
          (pre, seen1) = (if d \<notin> doms
                          then (case best d of
                                  Some b \<Rightarrow> if b \<noteq> i then ([all ! b], insert b seen) else ([], seen)
                                | None \<Rightarrow> ([], seen))
                          else ([], seen))
      in pre @ (if i \<in> seen1 then [] else [c]) @ promote_loop grp best all cs (i + 1) seen1 (insert d doms))"

definition promote_language :: "search_env \<Rightarrow> string \<Rightarrow> search_candidate list \<Rightarrow> search_candidate list" where
  "promote_language V lang cs =
     (if length cs \<le> 1 then cs
      else (let best = best_loop (group_of V) (language_score lang (se_secondary_language V)) cs 0 Map.empty (\<lambda>_. 0)
            in promote_loop (group_of V) best cs cs 0 {} {}))"

subsection \<open>Domain diversity\<close>

definition max_per_domain :: "nat \<Rightarrow> nat" where
  "max_per_domain pos = (if pos < 3 then 1 else if pos < 10 then 2 else 3)"

definition host_count :: "search_candidate list \<Rightarrow> domain \<Rightarrow> nat" where
  "host_count cs d = length (filter (\<lambda>c. sc_domain c = d) cs)"

text \<open>One pass: the result so far (whose domains \<open>domainCount\<close> counts) and the candidates put off.\<close>

fun diversify_pass :: "search_candidate list \<Rightarrow> search_candidate list \<Rightarrow> search_candidate list \<times> search_candidate list" where
  "diversify_pass [] res = (res, [])"
| "diversify_pass (c # cs) res =
     (if host_count res (sc_domain c) < max_per_domain (length res) then diversify_pass cs (res @ [c])
      else (let (r, deferred) = diversify_pass cs res in (r, c # deferred)))"

lemma diversify_pass_length: "diversify_pass cs res = (r, d) \<Longrightarrow> length r + length d = length res + length cs \<and> length res \<le> length r"
proof (induction cs arbitrary: res r d)
  case (Cons c cs)
  show ?case
  proof (cases "host_count res (sc_domain c) < max_per_domain (length res)")
    case True
    with Cons.prems Cons.IH [of "res @ [c]" r d] show ?thesis by simp
  next
    case False
    with Cons.prems obtain d' where "diversify_pass cs res = (r, d')" "d = c # d'" by (auto split: prod.splits)
    with Cons.IH [of res r d'] show ?thesis by simp
  qed
qed simp

text \<open>The passes over the deferred candidates end when a pass places none.\<close>

function diversify_rest :: "search_candidate list \<Rightarrow> search_candidate list \<Rightarrow> search_candidate list" where
  "diversify_rest deferred res =
     (if length deferred = 0 then res
      else (let (r, remaining) = diversify_pass deferred res
            in if length r = length res then r @ remaining else diversify_rest remaining r))"
  by pat_completeness auto
termination
proof (relation "measure (length \<circ> fst)")
  fix deferred res r remaining and p
  assume "p = diversify_pass deferred res" "(r, remaining) = p" "length r \<noteq> length res"
  then show "((remaining, r), (deferred, res)) \<in> measure (length \<circ> fst)"
    using diversify_pass_length [of deferred res r remaining] by simp
qed simp

declare diversify_rest.simps [simp del]

definition diversify_by_domain :: "search_candidate list \<Rightarrow> search_candidate list" where
  "diversify_by_domain cs =
     (if length cs \<le> 3 then cs else (let (r, deferred) = diversify_pass cs [] in diversify_rest deferred r))"

definition filter_and_diversify :: "search_env \<Rightarrow> search_candidate list \<Rightarrow> string \<Rightarrow> string \<Rightarrow> search_candidate list" where
  "filter_and_diversify V cs dl schema =
     (if length cs = 0 then cs
      else (let c1 = (if dl \<noteq> [] then filter (\<lambda>c. str_equal_fold V (sc_domain c) dl) cs else cs);
                c2 = (if schema \<noteq> [] then filter (\<lambda>c. str_equal_fold V (sc_schema_type c) schema) c1 else c1)
            in if dl = [] then diversify_by_domain c2 else c2))"


subsection \<open>Merging keeps one candidate per page\<close>

lemma merge_one_dom: "dom (merge_one c m) = insert (sc_id c) (dom m)"
  by (auto simp: merge_one_def split: option.splits if_splits)

lemma fold_merge_dom: "dom (fold merge_one cs m) = sc_id ` set cs \<union> dom m"
  by (induction cs arbitrary: m) (auto simp: merge_one_dom)

definition merged_from :: "search_candidate set \<Rightarrow> (int \<rightharpoonup> search_candidate) \<Rightarrow> bool" where
  "merged_from S m \<longleftrightarrow> (\<forall>i e. m i = Some e \<longrightarrow> sc_id e = i \<and> (\<exists>c \<in> S. e = c\<lparr>sc_snippet := sc_snippet e\<rparr>))"

lemma merge_one_from: "merged_from S m \<Longrightarrow> merged_from (insert c S) (merge_one c m)"
  by (auto simp: merged_from_def merge_one_def split: option.splits if_splits)

lemma fold_merge_from: "merged_from S m \<Longrightarrow> merged_from (set cs \<union> S) (fold merge_one cs m)"
proof (induction cs arbitrary: m S)
  case (Cons c cs)
  then show ?case using Cons.IH [OF merge_one_from [OF Cons.prems]] by simp
qed simp

lemma merge_candidates_facts:
  "map sc_id (merge_candidates groups) = sort (remdups (map sc_id (concat groups)))
   \<and> (\<forall>e \<in> set (merge_candidates groups). \<exists>c \<in> set (concat groups). e = c\<lparr>sc_snippet := sc_snippet e\<rparr>)"
proof -
  let ?m = "fold merge_one (concat groups) Map.empty" and ?ids = "sort (remdups (map sc_id (concat groups)))"
  have mf: "merged_from (set (concat groups)) ?m" using fold_merge_from [of "{}" Map.empty "concat groups"] by (simp add: merged_from_def)
  have ids: "\<exists>e. ?m i = Some e" if "i \<in> set ?ids" for i
  proof -
    have "i \<in> dom ?m" using that unfolding fold_merge_dom by auto
    then show ?thesis by auto
  qed
  have key: "sc_id (the (?m i)) = i" "\<exists>c \<in> set (concat groups). the (?m i) = c\<lparr>sc_snippet := sc_snippet (the (?m i))\<rparr>" if "i \<in> set ?ids" for i
    using ids [OF that] mf unfolding merged_from_def by force+
  have "map (\<lambda>i. sc_id (the (?m i))) ?ids = map (\<lambda>i. i) ?ids" by (rule map_cong) (use key(1) in auto)
  with key(2) show ?thesis unfolding merge_candidates_def Let_def by (auto simp: comp_def)
qed

subsection \<open>Re-ranking sorts\<close>

interpretation ranking: weak_order "rank_less E"
  by unfold_locales (auto simp: rank_less_def Let_def split: if_splits)

text \<open>
  Re-ranking keeps every candidate, sets its rank to its score, and sorts by descending rank: of two
  with one rank the home page comes first, then the one crawled later, then the smaller URL; candidates equal
  in all of these keep their order.
\<close>

theorem rerank_sorted:
  "mset (rerank_candidates V now q lang cs) = mset (map (rank_candidate V now q lang) cs)
   \<and> sorted_wrt (\<lambda>a b. \<not> rank_less (se_std V) b a) (rerank_candidates V now q lang cs)
   \<and> sorted_desc sc_rank (rerank_candidates V now q lang cs)
   \<and> filter (\<lambda>b. \<not> rank_less (se_std V) a b \<and> \<not> rank_less (se_std V) b a) (rerank_candidates V now q lang cs)
     = filter (\<lambda>b. \<not> rank_less (se_std V) a b \<and> \<not> rank_less (se_std V) b a) (map (rank_candidate V now q lang) cs)"
proof -
  have keep: "filter (\<lambda>c. snd (score_search_candidate V now c q lang)) cs = cs"
    by (simp add: score_search_candidate_def Let_def)
  let ?r = "slice_stable (rank_less (se_std V)) (map (rank_candidate V now q lang) cs)"
  have s: "sorted_wrt (\<lambda>a b. \<not> rank_less (se_std V) b a) ?r" by (rule ranking.slice_stable_sorted)
  then have "sorted_desc sc_rank ?r"
    by (rule sorted_wrt_mono_rel [rotated]) (auto simp: rank_less_def Let_def split: if_splits)
  with s show ?thesis unfolding rerank_candidates_def keep by (simp add: ranking.slice_stable_class)
qed


subsection \<open>Diversification\<close>

text \<open>Each candidate of the list was within the limit of its domain when it was placed.\<close>

definition capped :: "search_candidate list \<Rightarrow> bool" where
  "capped res \<longleftrightarrow> (\<forall>i < length res. host_count (take i res) (sc_domain (res ! i)) < max_per_domain i)"

definition full_domains :: "search_candidate list \<Rightarrow> search_candidate list \<Rightarrow> bool" where
  "full_domains res cs \<longleftrightarrow> (\<forall>c \<in> set cs. max_per_domain (length res) \<le> host_count res (sc_domain c))"

lemma capped_snoc: "capped res \<Longrightarrow> host_count res (sc_domain c) < max_per_domain (length res) \<Longrightarrow> capped (res @ [c])"
  by (auto simp: capped_def nth_append less_Suc_eq)

lemma diversify_pass_spec:
  "diversify_pass cs res = (r, d) \<Longrightarrow> capped res \<Longrightarrow>
    capped r \<and> mset r + mset d = mset res + mset cs \<and> (\<exists>x. r = res @ x) \<and> (length r = length res \<longrightarrow> full_domains res d \<and> d = cs)"
proof (induction cs arbitrary: res r d)
  case (Cons c cs)
  show ?case
  proof (cases "host_count res (sc_domain c) < max_per_domain (length res)")
    case True
    then have p: "diversify_pass cs (res @ [c]) = (r, d)" using Cons.prems by simp
    have "length r \<noteq> length res" using diversify_pass_length [OF p] by simp
    then show ?thesis using Cons.IH [OF p capped_snoc [OF Cons.prems(2) True]] by auto
  next
    case False
    with Cons.prems(1) obtain d' where p: "diversify_pass cs res = (r, d')" "d = c # d'" by (auto split: prod.splits)
    then show ?thesis using Cons.IH [OF p(1) Cons.prems(2)] False by (auto simp: full_domains_def)
  qed
qed (simp add: full_domains_def)

lemma diversify_rest_spec:
  "capped res \<Longrightarrow> mset (diversify_rest deferred res) = mset res + mset deferred
    \<and> (\<exists>x y. diversify_rest deferred res = (res @ x) @ y \<and> capped (res @ x) \<and> full_domains (res @ x) y)"
proof (induction deferred res rule: diversify_rest.induct)
  case (1 deferred res)
  show ?case
  proof (cases "deferred = []")
    case True
    have "diversify_rest deferred res = (res @ []) @ []" "full_domains (res @ []) []" "capped (res @ [])"
      using True 1(2) by (simp_all add: diversify_rest.simps full_domains_def)
    then show ?thesis using True by (metis append_Nil2 mset.simps(1) add.right_neutral)
  next
    case False
    obtain r d where p: "diversify_pass deferred res = (r, d)" by fastforce
    from diversify_pass_spec [OF p 1(2)] obtain x where x: "capped r" "mset r + mset d = mset res + mset deferred" "r = res @ x"
      "length r = length res \<longrightarrow> full_domains res d \<and> d = deferred" by blast
    show ?thesis
    proof (cases "length r = length res")
      case True
      have "diversify_rest deferred res = (res @ x) @ d" using False True p x(3) by (subst diversify_rest.simps) simp
      moreover have "full_domains (res @ x) d" using True x(3,4) by auto
      ultimately show ?thesis using x(1-3) by (metis mset_append)
    next
      case nl: False
      have e: "diversify_rest deferred res = diversify_rest d r" using False nl p by (subst diversify_rest.simps) simp
      have "deferred \<noteq> []" using False .
      from 1(1) [OF _ p [symmetric] _ nl x(1)] False
      obtain z y where "mset (diversify_rest d r) = mset r + mset d" "diversify_rest d r = (r @ z) @ y" "capped (r @ z)" "full_domains (r @ z) y"
        by auto
      then show ?thesis using e x(2,3) by (metis append_assoc)
    qed
  qed
qed

lemma diversify_mset: "mset (diversify_by_domain cs) = mset cs"
proof -
  obtain r d where p: "diversify_pass cs [] = (r, d)" by fastforce
  have c0: "capped []" by (simp add: capped_def)
  from diversify_pass_spec [OF p c0] have "capped r" "mset r + mset d = mset cs" by auto
  with diversify_rest_spec [of r d] p show ?thesis by (simp add: diversify_by_domain_def)
qed


definition sample_candidate :: "int \<Rightarrow> domain \<Rightarrow> search_candidate" where
  "sample_candidate i d = \<lparr>sc_id = i, sc_url = [], sc_title = [], sc_desc = [], sc_snippet = [], sc_domain = d, sc_language = ''en'',
     sc_region = [], sc_crawled = 0, sc_updated = None, sc_published_at = None, sc_rank = 0, sc_refdoms = 0, sc_pagerank = 0,
     sc_schema_type = [], sc_schema_image = [], sc_schema_author = [], sc_schema_keywords = [], sc_schema_rating = 0,
     sc_h1 = [], sc_h2 = [], sc_body = [], sc_sql = 0, sc_content_len = 0, sc_mode = NoMode, sc_published = 0\<rparr>"

definition sample_candidates :: "search_candidate list" where
  "sample_candidates = [sample_candidate 1 ''a'', sample_candidate 2 ''a'', sample_candidate 3 ''b'', sample_candidate 4 ''c'', sample_candidate 5 ''a'']"

lemma sample_diversified:
  "diversify_by_domain sample_candidates
    = [sample_candidate 1 ''a'', sample_candidate 3 ''b'', sample_candidate 4 ''c'', sample_candidate 5 ''a'', sample_candidate 2 ''a'']"
proof -
  have p: "diversify_pass sample_candidates [] = ([sample_candidate 1 ''a'', sample_candidate 3 ''b'', sample_candidate 4 ''c'', sample_candidate 5 ''a''], [sample_candidate 2 ''a''])"
    by (simp add: sample_candidates_def host_count_def max_per_domain_def sample_candidate_def)
  show ?thesis using p by (simp add: diversify_by_domain_def diversify_rest.simps [of "[_]"] sample_candidates_def host_count_def max_per_domain_def sample_candidate_def)
qed



subsection \<open>Language promotion\<close>

text \<open>What the first loop computes: the best index of each group of \<open>all\<close>, if its score is above 0.\<close>

definition winner_ok :: "(search_candidate \<Rightarrow> string) \<Rightarrow> (search_candidate \<Rightarrow> nat) \<Rightarrow> search_candidate list \<Rightarrow> (string \<rightharpoonup> nat) \<Rightarrow> bool" where
  "winner_ok grp sco all best \<longleftrightarrow>
     (\<forall>d. case best d of
            None \<Rightarrow> \<forall>c \<in> set all. grp c = d \<longrightarrow> sco c = 0
          | Some b \<Rightarrow> b < length all \<and> grp (all ! b) = d \<and> (\<forall>c \<in> set all. grp c = d \<longrightarrow> sco c \<le> sco (all ! b)))"

lemma winner_okD:
  assumes "winner_ok grp sco all best"
  shows "best d = Some b \<Longrightarrow> b < length all \<and> grp (all ! b) = d \<and> (\<forall>c \<in> set all. grp c = d \<longrightarrow> sco c \<le> sco (all ! b))"
    and "best d = None \<Longrightarrow> \<forall>c \<in> set all. grp c = d \<longrightarrow> sco c = 0"
  using assms [unfolded winner_ok_def, rule_format, of d] by simp_all

lemma best_loop_ok:
  assumes "winner_ok grp sco pre bi" and "\<forall>d. bs d = (case bi d of None \<Rightarrow> 0 | Some b \<Rightarrow> sco (pre ! b))"
  shows "winner_ok grp sco (pre @ cs) (best_loop grp sco cs (length pre) bi bs)"
  using assms
proof (induction cs arbitrary: pre bi bs)
  case (Cons c cs)
  have step: "winner_ok grp sco ((pre @ [c]) @ cs) (best_loop grp sco cs (length (pre @ [c])) bi' bs')"
    if "winner_ok grp sco (pre @ [c]) bi'" "\<forall>d. bs' d = (case bi' d of None \<Rightarrow> 0 | Some b \<Rightarrow> sco ((pre @ [c]) ! b))" for bi' bs'
    using Cons.IH [OF that] .
  have bnd: "b < length pre" if "bi d = Some b" for d b
    using winner_okD(1) [OF Cons.prems(1) that] by simp
  show ?case
  proof (cases "sco c > bs (grp c)")
    case True
    let ?bi = "bi(grp c \<mapsto> length pre)" and ?bs = "bs(grp c := sco c)"
    have inv: "case bi d of None \<Rightarrow> \<forall>c \<in> set pre. grp c = d \<longrightarrow> sco c = 0
        | Some b \<Rightarrow> b < length pre \<and> grp (pre ! b) = d \<and> (\<forall>c \<in> set pre. grp c = d \<longrightarrow> sco c \<le> sco (pre ! b))" for d
      using Cons.prems(1) unfolding winner_ok_def by blast
    have "bs (grp c) = (case bi (grp c) of None \<Rightarrow> 0 | Some b \<Rightarrow> sco (pre ! b))" using Cons.prems(2) by simp
    then have low: "\<forall>x \<in> set pre. grp x = grp c \<longrightarrow> sco x \<le> sco c"
      using inv [of "grp c"] True by (cases "bi (grp c)") force+
    have "winner_ok grp sco (pre @ [c]) ?bi"
      unfolding winner_ok_def
    proof (rule allI)
      fix d
      show "case ?bi d of None \<Rightarrow> \<forall>x \<in> set (pre @ [c]). grp x = d \<longrightarrow> sco x = 0
          | Some b \<Rightarrow> b < length (pre @ [c]) \<and> grp ((pre @ [c]) ! b) = d \<and> (\<forall>x \<in> set (pre @ [c]). grp x = d \<longrightarrow> sco x \<le> sco ((pre @ [c]) ! b))"
        using low inv [of d] by (cases "d = grp c"; cases "bi d") (auto simp: nth_append)
    qed
    moreover have "\<forall>d. ?bs d = (case ?bi d of None \<Rightarrow> 0 | Some b \<Rightarrow> sco ((pre @ [c]) ! b))"
      using Cons.prems(2) bnd by (auto simp: nth_append split: option.splits)
    ultimately show ?thesis using step [of ?bi ?bs] True by simp
  next
    case False
    have "winner_ok grp sco (pre @ [c]) bi"
      unfolding winner_ok_def
    proof (rule allI)
      fix d
      have 1: "case bi d of None \<Rightarrow> \<forall>c \<in> set pre. grp c = d \<longrightarrow> sco c = 0
          | Some b \<Rightarrow> b < length pre \<and> grp (pre ! b) = d \<and> (\<forall>c \<in> set pre. grp c = d \<longrightarrow> sco c \<le> sco (pre ! b))"
        using Cons.prems(1) unfolding winner_ok_def by blast
      have 2: "bs d = (case bi d of None \<Rightarrow> 0 | Some b \<Rightarrow> sco (pre ! b))" "grp c = d \<Longrightarrow> sco c \<le> bs d"
        using Cons.prems(2) False by auto
      show "case bi d of None \<Rightarrow> \<forall>x \<in> set (pre @ [c]). grp x = d \<longrightarrow> sco x = 0
          | Some b \<Rightarrow> b < length (pre @ [c]) \<and> grp ((pre @ [c]) ! b) = d \<and> (\<forall>x \<in> set (pre @ [c]). grp x = d \<longrightarrow> sco x \<le> sco ((pre @ [c]) ! b))"
        using 1 2 by (cases "bi d") (auto simp: nth_append)
    qed
    moreover have "\<forall>d. bs d = (case bi d of None \<Rightarrow> 0 | Some b \<Rightarrow> sco ((pre @ [c]) ! b))"
      using Cons.prems(2) bnd by (auto simp: nth_append split: option.splits)
    ultimately have "winner_ok grp sco ((pre @ [c]) @ cs) (best_loop grp sco cs (length (pre @ [c])) bi bs)" by (rule step)
    then show ?thesis using False by simp
  qed
qed simp

text \<open>The indices the second loop emits at position \<open>i\<close>: a group's best at the group's first position.\<close>

definition first_of :: "(search_candidate \<Rightarrow> string) \<Rightarrow> search_candidate list \<Rightarrow> nat \<Rightarrow> bool" where
  "first_of grp all i \<longleftrightarrow> (\<forall>j < i. grp (all ! j) \<noteq> grp (all ! i))"

definition moved :: "(search_candidate \<Rightarrow> string) \<Rightarrow> (string \<rightharpoonup> nat) \<Rightarrow> search_candidate list \<Rightarrow> nat \<Rightarrow> bool" where
  "moved grp best all i \<longleftrightarrow> best (grp (all ! i)) = Some i \<and> \<not> first_of grp all i"

definition emitted :: "(search_candidate \<Rightarrow> string) \<Rightarrow> (string \<rightharpoonup> nat) \<Rightarrow> search_candidate list \<Rightarrow> nat \<Rightarrow> nat list" where
  "emitted grp best all i =
     (case best (grp (all ! i)) of Some b \<Rightarrow> if first_of grp all i \<and> b \<noteq> i then [b] else [] | None \<Rightarrow> [])
     @ (if moved grp best all i then [] else [i])"

lemma promote_loop_emits:
  assumes ok: "winner_ok grp sco all best"
    and "i \<le> length all" and "doms = grp ` set (take i all)"
    and "\<forall>b. b \<in> seen \<longleftrightarrow> b < length all \<and> moved grp best all b \<and> grp (all ! b) \<in> doms"
  shows "promote_loop grp best all (drop i all) i seen doms = concat (map (\<lambda>k. map ((!) all) (emitted grp best all k)) [i..<length all])"
  using assms(2-)
proof (induction "length all - i" arbitrary: i seen doms)
  case 0
  then show ?case by simp
next
  case (Suc n)
  then have i: "i < length all" by simp
  let ?d = "grp (all ! i)"
  have dr: "drop i all = all ! i # drop (i + 1) all" using i by (simp add: Cons_nth_drop_Suc)
  have "doms = (\<lambda>j. grp (all ! j)) ` {0..<i}" unfolding Suc.prems(2) nth_image [of i all, OF less_imp_le [OF i], symmetric] image_image ..
  then have fst: "?d \<notin> doms \<longleftrightarrow> first_of grp all i" unfolding first_of_def by (auto 4 4 simp: image_iff dest: sym)
  define pre where "pre = (case best ?d of Some b \<Rightarrow> if first_of grp all i \<and> b \<noteq> i then [b] else [] | None \<Rightarrow> [])"
  define seen1 where "seen1 = seen \<union> set pre"
  have bd: "b < length all \<and> grp (all ! b) = d" if "best d = Some b" for b d
    using winner_okD(1) [OF ok that] by simp
  have not_first: "\<not> first_of grp all b" if "best ?d = Some b" "first_of grp all i" "b \<noteq> i" for b
  proof -
    have "i < b" using bd [OF that(1)] that(2,3) unfolding first_of_def by (metis nat_neq_iff)
    then show ?thesis using bd [OF that(1)] unfolding first_of_def by auto
  qed
  have doms': "insert ?d doms = grp ` set (take (i + 1) all)" using i Suc.prems(2) by (simp add: take_Suc_conv_app_nth)
  have seen': "\<forall>b. b \<in> seen1 \<longleftrightarrow> b < length all \<and> moved grp best all b \<and> grp (all ! b) \<in> insert ?d doms"
  proof (intro allI iffI)
    fix b assume "b \<in> seen1"
    then show "b < length all \<and> moved grp best all b \<and> grp (all ! b) \<in> insert ?d doms"
      using Suc.prems(3) bd not_first unfolding seen1_def pre_def moved_def by (auto split: option.splits if_splits)
  next
    fix b assume b: "b < length all \<and> moved grp best all b \<and> grp (all ! b) \<in> insert ?d doms"
    show "b \<in> seen1"
    proof (cases "grp (all ! b) \<in> doms")
      case False
      then have "grp (all ! b) = ?d" "first_of grp all i" "b \<noteq> i" "best ?d = Some b" using b fst unfolding moved_def by auto
      then show ?thesis by (simp add: seen1_def pre_def)
    qed (use b Suc.prems(3) in \<open>simp add: seen1_def\<close>)
  qed
  have "i \<in> seen1 \<longleftrightarrow> moved grp best all i" using seen' i by auto
  moreover have "promote_loop grp best all (drop i all) i seen doms
      = map ((!) all) pre @ (if i \<in> seen1 then [] else [all ! i]) @ promote_loop grp best all (drop (i + 1) all) (i + 1) seen1 (insert ?d doms)"
    unfolding dr promote_loop.simps Let_def fst pre_def seen1_def
    by (cases "best ?d"; cases "first_of grp all i"; cases "the (best ?d) = i") simp_all
  moreover have "promote_loop grp best all (drop (i + 1) all) (i + 1) seen1 (insert ?d doms)
      = concat (map (\<lambda>k. map ((!) all) (emitted grp best all k)) [i + 1..<length all])"
    using Suc.hyps(1) [of "i + 1"] Suc.hyps(2) i doms' seen' by simp
  ultimately show ?case using i by (simp add: upt_conv_Cons [of i] emitted_def pre_def [symmetric])
qed


lemma sum_list_indicator: "k < n \<Longrightarrow> sum_list (map (\<lambda>i. if i = k then 1 else (0::nat)) [0..<n]) = 1"
proof (induction n)
  case (Suc n)
  have "sum_list (map (\<lambda>i. if i = k then 1 else (0::nat)) [0..<k]) = 0" by (induction k) auto
  moreover have "sum_list (map (\<lambda>i. if i = n then 1 else (0::nat)) [0..<n]) = 0" by (auto simp: sum_list_eq_0_iff)
  ultimately show ?case using Suc by (cases "k = n") auto
qed simp

definition group_first :: "(search_candidate \<Rightarrow> string) \<Rightarrow> search_candidate list \<Rightarrow> nat \<Rightarrow> nat" where
  "group_first grp all i = (LEAST j. grp (all ! j) = grp (all ! i))"

lemma group_first:
  "grp (all ! group_first grp all i) = grp (all ! i)" "group_first grp all i \<le> i" "first_of grp all (group_first grp all i)"
  "first_of grp all j \<Longrightarrow> grp (all ! j) = grp (all ! i) \<Longrightarrow> j = group_first grp all i"
proof -
  show 1: "grp (all ! group_first grp all i) = grp (all ! i)" unfolding group_first_def by (rule LeastI) (rule refl)
  show "group_first grp all i \<le> i" unfolding group_first_def by (rule Least_le) (rule refl)
  show 2: "first_of grp all (group_first grp all i)"
    unfolding first_of_def 1 using not_less_Least unfolding group_first_def by blast
  show "first_of grp all j \<Longrightarrow> grp (all ! j) = grp (all ! i) \<Longrightarrow> j = group_first grp all i"
    using 1 2 unfolding first_of_def by (metis nat_neq_iff)
qed

text \<open>Each index is emitted once: where it stands, or at the first position of its group.\<close>

lemma emitted_count:
  assumes "winner_ok grp sco all best" and "x < length all" and "i < length all"
  shows "count_list (emitted grp best all i) x = (if i = (if moved grp best all x then group_first grp all x else x) then 1 else 0)"
proof -
  have bd: "grp (all ! b) = d" if "best d = Some b" for b d using winner_okD(1) [OF assms(1) that] by simp
  have A: "best (grp (all ! i)) = Some x \<and> first_of grp all i \<and> x \<noteq> i \<longleftrightarrow> moved grp best all x \<and> i = group_first grp all x"
    using bd [of "grp (all ! i)" x] group_first [of grp all x] group_first(4) [of grp all i x] unfolding moved_def by metis
  have B: "moved grp best all x \<Longrightarrow> group_first grp all x \<noteq> x" using group_first(3) [of grp all x] unfolding moved_def by metis
  have "count_list (emitted grp best all i) x
      = (if best (grp (all ! i)) = Some x \<and> first_of grp all i \<and> x \<noteq> i then 1 else 0) + (if i = x \<and> \<not> moved grp best all x then 1 else 0)"
  proof -
    show ?thesis
    proof (cases "best (grp (all ! i))")
      case None
      then show ?thesis unfolding emitted_def option.case by (cases "moved grp best all i"; cases "i = x") simp_all
    next
      case (Some b)
      then show ?thesis unfolding emitted_def option.case Some
        by (cases "moved grp best all i"; cases "i = x"; cases "b = x"; cases "first_of grp all i"; cases "b = i") simp_all
    qed
  qed
  then show ?thesis unfolding A using B by auto
qed

lemma emitted_perm:
  assumes "winner_ok grp sco all best"
  shows "mset (concat (map (emitted grp best all) [0..<length all])) = mset [0..<length all]"
proof (rule multiset_eqI)
  fix x :: nat
  have bnd: "y < length all" if "i < length all" "y \<in> set (emitted grp best all i)" for i y
    using that winner_okD(1) [OF assms] by (auto simp: emitted_def split: option.splits if_splits)
  have cnt: "count (mset (concat (map f is))) x = sum_list (map (\<lambda>i. count_list (f i) x) is)" for f and "is" :: "nat list"
    by (induction "is") (auto simp: count_mset)
  show "count (mset (concat (map (emitted grp best all) [0..<length all]))) x = count (mset [0..<length all]) x"
  proof (cases "x < length all")
    case True
    define k where "k = (if moved grp best all x then group_first grp all x else x)"
    have k: "k < length all" using True group_first(2) [of grp all x] by (simp add: k_def)
    have "map (\<lambda>i. count_list (emitted grp best all i) x) [0..<length all] = map (\<lambda>i. if i = k then 1 else 0) [0..<length all]"
      by (rule map_cong) (auto simp: emitted_count [OF assms True] k_def)
    with sum_list_indicator [OF k] have "sum_list (map (\<lambda>i. count_list (emitted grp best all i) x) [0..<length all]) = 1" by (simp only:)
    then show ?thesis using True unfolding cnt by (simp add: distinct_count_atmost_1)
  next
    case False
    then have "x \<notin> set (concat (map (emitted grp best all) [0..<length all]))" using bnd by fastforce
    then show ?thesis using False by (simp add: count_mset count_list_0_iff del: set_concat)
  qed
qed

lemma promote_loop_all:
  assumes "winner_ok grp sco all best"
  shows "promote_loop grp best all all 0 {} {} = map ((!) all) (concat (map (emitted grp best all) [0..<length all]))"
  using promote_loop_emits [OF assms, of 0 "{}" "{}"] by (simp add: map_concat comp_def)

lemma promote_language_emits:
  assumes "1 < length cs"
  obtains best where "winner_ok (group_of V) (language_score lang (se_secondary_language V)) cs best"
    and "promote_language V lang cs = map ((!) cs) (concat (map (emitted (group_of V) best cs) [0..<length cs]))"
proof -
  let ?best = "best_loop (group_of V) (language_score lang (se_secondary_language V)) cs 0 Map.empty (\<lambda>_. 0)"
  have "winner_ok (group_of V) (language_score lang (se_secondary_language V)) [] Map.empty" by (simp add: winner_ok_def)
  from best_loop_ok [OF this, of "\<lambda>_. 0" cs] have ok: "winner_ok (group_of V) (language_score lang (se_secondary_language V)) cs ?best" by simp
  with promote_loop_all [OF ok] assms that show ?thesis by (simp add: promote_language_def Let_def)
qed


lemma emitted_group:
  assumes "winner_ok grp sco all best" "y \<in> set (emitted grp best all i)"
  shows "grp (all ! y) = grp (all ! i)"
  using assms(2) winner_okD(1) [OF assms(1)] by (auto simp: emitted_def split: option.splits if_splits)

lemma emitted_first:
  assumes ok: "winner_ok grp sco all best" and "first_of grp all i" and "i < length all"
  shows "\<exists>y ys. emitted grp best all i = y # ys \<and> (\<forall>c \<in> set all. grp c = grp (all ! i) \<longrightarrow> sco c \<le> sco (all ! y))"
proof (cases "best (grp (all ! i))")
  case None
  then have "emitted grp best all i = [i]" using assms(2) by (simp add: emitted_def moved_def)
  then show ?thesis using winner_okD(2) [OF ok None] by auto
next
  case (Some b)
  show ?thesis
  proof (cases "b = i")
    case True
    then have "emitted grp best all i = [i]" using Some assms(2) by (simp add: emitted_def moved_def)
    then show ?thesis using winner_okD(1) [OF ok Some] True by auto
  next
    case False
    then have "\<exists>ys. emitted grp best all i = b # ys" using Some assms(2) by (simp add: emitted_def)
    then show ?thesis using winner_okD(1) [OF ok Some] by auto
  qed
qed

lemma first_of_group_best:
  assumes ok: "winner_ok grp sco all best" and "c \<in> set all"
  shows "sco c \<le> sco (hd (filter (\<lambda>x. grp x = grp c) (map ((!) all) (concat (map (emitted grp best all) [0..<length all])))))"
proof -
  obtain i where i: "i < length all" "c = all ! i" using assms(2) by (auto simp: in_set_conv_nth)
  define f where "f = group_first grp all i"
  have f: "grp (all ! f) = grp c" "f < length all" "first_of grp all f" using group_first [of grp all i] i by (auto simp: f_def)
  let ?P = "\<lambda>x. grp x = grp c"
  have upto: "[0..<length all] = [0..<f] @ f # [Suc f..<length all]"
    using upt_add_eq_append [of 0 f "length all - f"] f(2) by (simp add: upt_conv_Cons)
  have "\<forall>k < f. filter ?P (map ((!) all) (emitted grp best all k)) = []"
    using emitted_group [OF ok] f(1,3) by (auto simp: filter_empty_conv first_of_def)
  then have e: "filter ?P (map ((!) all) (concat (map (emitted grp best all) [0..<f]))) = []"
    by (auto simp: filter_empty_conv)
  obtain y ys where y: "emitted grp best all f = y # ys" "\<forall>c' \<in> set all. grp c' = grp (all ! f) \<longrightarrow> sco c' \<le> sco (all ! y)"
    using emitted_first [OF ok f(3,2)] by blast
  have "grp (all ! y) = grp c" using emitted_group [OF ok, of y f] y(1) f(1) by simp
  then have "hd (filter ?P (map ((!) all) (concat (map (emitted grp best all) [0..<length all])))) = all ! y"
    unfolding upto using e y(1) by simp
  then show ?thesis using y(2) f(1) assms(2) by simp
qed

lemma promote_language_mset: "mset (promote_language V lang cs) = mset cs"
proof (cases "1 < length cs")
  case True
  from promote_language_emits [OF True] obtain best
    where ok: "winner_ok (group_of V) (language_score lang (se_secondary_language V)) cs best"
      and e: "promote_language V lang cs = map ((!) cs) (concat (map (emitted (group_of V) best cs) [0..<length cs]))"
    by blast
  have "mset (promote_language V lang cs) = image_mset ((!) cs) (mset [0..<length cs])"
    unfolding e mset_map emitted_perm [OF ok] ..
  also have "\<dots> = mset cs" by (metis map_nth mset_map)
  finally show ?thesis .
qed (simp add: promote_language_def)

text \<open>
  Promoting a language only reorders the results, and in every group of one registrable domain the
  first result then has the best language the group offers: the requested one, else the secondary one.
\<close>

theorem promote_language_spec:
  "mset (promote_language V lang cs) = mset cs
   \<and> (\<forall>c \<in> set cs. 1 < length cs \<longrightarrow>
        language_score lang (se_secondary_language V) c
          \<le> language_score lang (se_secondary_language V) (hd (filter (\<lambda>x. group_of V x = group_of V c) (promote_language V lang cs))))"
proof (cases "1 < length cs")
  case False
  then show ?thesis by (simp add: promote_language_def)
next
  case True
  from promote_language_emits [OF True] obtain best
    where ok: "winner_ok (group_of V) (language_score lang (se_secondary_language V)) cs best"
      and e: "promote_language V lang cs = map ((!) cs) (concat (map (emitted (group_of V) best cs) [0..<length cs]))"
    by blast
  show ?thesis using first_of_group_best [OF ok] promote_language_mset [of V lang cs] unfolding e by blast
qed

theorem promote_language_spec_witness:
  "mset (promote_language plain_search_env ''es'' sample_candidates) = mset sample_candidates"
  using promote_language_spec [of plain_search_env "''es''" sample_candidates] by blast


lemma filter_and_diversify_mset:
  "mset (filter_and_diversify V cs dl schema)
     = mset (filter (\<lambda>c. (dl = [] \<or> str_equal_fold V (sc_domain c) dl) \<and> (schema = [] \<or> str_equal_fold V (sc_schema_type c) schema)) cs)"
  by (cases "dl = []"; cases "schema = []") (simp_all add: filter_and_diversify_def Let_def diversify_mset)

end
