(* ===== verification/SearchPages.thy ===== *)
theory SearchPages
  imports SearchRank Pages "HOL-Library.Product_Lexorder"
begin

text \<open>
  \<open>SearchPages\<close> of \<open>internal/storage/sqlite_search.go\<close>: retrieval by the plans of a query and the
  three supplements, and the page of results, with its cache. The database is a parameter: for a full-text
  query the rows that match it; the conditions, order and limit of the SQL statements on those rows are
  modelled. Ties of an order are left in the order of the rows. The contexts with their time limits are
  parameters too: \<open>search_done i\<close> tells whether the context of the search has ended at its check \<open>i\<close>.
\<close>

text \<open>The outcome of a query: rows, or an error with the state of the search context and of its own context.\<close>

datatype 'a query_outcome = Rows 'a | QueryError bool bool

record search_db =
  db_match :: "string \<Rightarrow> search_row list query_outcome"
  db_count :: "string \<Rightarrow> nat option"
  db_recent :: "string \<Rightarrow> search_row list query_outcome"
  db_other :: "string \<Rightarrow> search_row list query_outcome"
  db_nav :: "search_row list query_outcome"
  db_ago :: "nat \<Rightarrow> string"
  db_done :: "nat \<Rightarrow> bool"

definition sql_lower :: "string \<Rightarrow> string" where
  "sql_lower s = map lower_char s"

definition search_candidate_limit :: "int \<Rightarrow> int \<Rightarrow> int" where
  "search_candidate_limit limit offset =
     (let want = offset + (limit * 8) + 30
      in let w1 = (if want < 300 then 300 else want) in if w1 > 500 then 500 else w1)"

subsection \<open>Retrieval\<close>

definition bm25_of :: "search_row \<Rightarrow> float64" where
  "bm25_of r = - sr_score r"

text \<open>The order of \<open>searchFTSCandidates\<close>: the text score and the boost of the domain that is asked for.\<close>

definition domain_boost :: "search_query \<Rightarrow> search_row \<Rightarrow> float64" where
  "domain_boost q r =
     (let exact = (if sq_domain q = [] then sq_nav q else sq_domain q);
          prefix = (if exact \<noteq> [] then exact @ ''.%'' else []);
          d = sql_lower (sr_domain r)
      in (if exact \<noteq> [] \<and> d = exact then 30 else 0) + (if prefix \<noteq> [] \<and> sql_like d prefix then 15 else 0))"

definition search_fts_candidates :: "search_mode \<Rightarrow> search_query \<Rightarrow> int \<Rightarrow> search_row list \<Rightarrow> search_candidate list" where
  "search_fts_candidates mode q limit rows =
     map (scan_row mode True) (take (nat limit) (sort_key (\<lambda>r. bm25_of r - domain_boost q r) rows))"

definition published_day :: "search_row \<Rightarrow> string" where
  "published_day r = take 10 (text_of (sr_published r))"

definition recent_boost :: "(nat \<Rightarrow> string) \<Rightarrow> search_row \<Rightarrow> float64" where
  "recent_boost ago r =
     (let d = published_day r
      in if d \<ge> ago 1 then 60 else if d \<ge> ago 7 then 45 else if d \<ge> ago 30 then 25 else if d \<ge> ago 90 then 10 else 0)"

definition search_recent_candidates :: "(nat \<Rightarrow> string) \<Rightarrow> int \<Rightarrow> search_row list \<Rightarrow> search_candidate list" where
  "search_recent_candidates ago limit rows =
     map (scan_row RecentMode True)
       (take (nat limit) (sort_key (\<lambda>r. bm25_of r - recent_boost ago r)
          (filter (\<lambda>r. sr_published r \<noteq> None \<and> published_day r \<ge> ago 180) rows)))"

definition search_other_candidates :: "search_mode \<Rightarrow> int \<Rightarrow> domain \<Rightarrow> search_row list \<Rightarrow> search_candidate list" where
  "search_other_candidates mode limit excluded rows =
     map (scan_row mode True)
       (take (nat limit) (sort_key bm25_of
          (filter (\<lambda>r. sql_lower (sr_domain r) \<noteq> excluded \<and> \<not> sql_like (sql_lower (sr_domain r)) (''%'' @ excluded)) rows)))"

text \<open>
  \<open>searchNavigationalCandidates\<close>: \<open>rows\<close> are the rows the statement matches, each with its
  \<open>sql_score\<close>, and a missing crawl time sorts last; the query is not made without a term and a domain.
\<close>

definition search_navigational_candidates :: "search_env \<Rightarrow> search_query \<Rightarrow> int \<Rightarrow> search_row list \<Rightarrow> search_candidate list" where
  "search_navigational_candidates V q limit rows =
     (if limit \<le> 0 then []
      else (let nav = (if sq_nav q = [] \<and> sq_domain q \<noteq> [] then root_term V (sq_domain q) else sq_nav q)
            in if nav = [] \<and> sq_domain q = [] then []
               else map (scan_row NavigationalMode False)
                      (take (nat limit) (sort_key (\<lambda>r. (- (sr_score r + of_int (sr_clicks r) * 50), case sr_crawled r of Some t \<Rightarrow> - t | None \<Rightarrow> 1)) rows))))"

definition search_plans :: "search_query \<Rightarrow> (search_mode \<times> string) list" where
  "search_plans q =
     [(PhraseMode, build_fts_phrase_query (sq_phrase_tokens q)), (ExactMode, build_fts_exact_query (sq_tokens q)),
      (CoreMode, build_fts_core_query (sq_fts_tokens q) (sq_idf q)), (RelaxedMode, build_fts_relaxed_query (sq_fts_tokens q) (sq_idf q))]"

definition early_exit :: "int \<Rightarrow> int" where
  "early_exit limit = (let t = limit div 2 in if t > 100 then 100 else t)"

text \<open>The loop over the plans; \<open>None\<close> is an error that ends the search.\<close>

fun run_plans :: "search_db \<Rightarrow> search_query \<Rightarrow> int \<Rightarrow> nat \<Rightarrow> (search_mode \<times> string) list \<Rightarrow> search_candidate list \<Rightarrow> int
    \<Rightarrow> (search_candidate list \<times> int) option" where
  "run_plans D q limit i [] cs tot = Some (cs, tot)"
| "run_plans D q limit i ((mode, fq) # ps) cs tot =
     (if db_done D i then Some (cs, tot)
      else if fq = [] then run_plans D q limit (i + 1) ps cs tot
      else (case db_match D fq of
              QueryError searchdone plandone \<Rightarrow>
                if searchdone then Some (cs, tot)
                else if plandone then run_plans D q limit (i + 1) ps cs tot
                else None
            | Rows rows \<Rightarrow>
                (let results = search_fts_candidates mode q limit rows
                 in if length results = 0 then run_plans D q limit (i + 1) ps cs tot
                    else (let count = (case db_count D fq of Some n \<Rightarrow> int n | None \<Rightarrow> int (length results));
                              cs1 = merge_candidates [cs, results]
                          in if int (length cs1) \<ge> early_exit limit then Some (cs1, count)
                             else run_plans D q limit (i + 1) ps cs1 count))))"

definition best_plan :: "search_query \<Rightarrow> (search_mode \<times> string) option" where
  "best_plan q = find (\<lambda>p. snd p \<noteq> []) (search_plans q)"

definition add_recent :: "search_db \<Rightarrow> search_query \<Rightarrow> int \<Rightarrow> search_candidate list \<Rightarrow> search_candidate list" where
  "add_recent D q limit cs =
     (if sq_fresh q \<and> \<not> sq_date q \<and> \<not> db_done D 4
      then (case best_plan q of
              None \<Rightarrow> cs
            | Some (_, fq) \<Rightarrow>
                (case db_recent D fq of
                   Rows rows \<Rightarrow> (let r = search_recent_candidates (db_ago D) (min limit 300) rows
                                 in if 0 < length r then merge_candidates [cs, r] else cs)
                 | QueryError _ _ \<Rightarrow> cs))
      else cs)"

definition add_other_domains :: "search_db \<Rightarrow> search_query \<Rightarrow> int \<Rightarrow> search_candidate list \<Rightarrow> search_candidate list" where
  "add_other_domains D q limit cs =
     (if sq_platform q \<noteq> [] \<and> \<not> db_done D 5
      then (let l0 = min (limit div 3) 100; l1 = (if l0 < 30 then 30 else l0)
            in case best_plan q of
                 None \<Rightarrow> cs
               | Some (mode, fq) \<Rightarrow>
                   (let excluded = (if sq_domain q \<noteq> [] then sq_domain q else sq_platform q @ ''.com'')
                    in case db_other D fq of
                         Rows rows \<Rightarrow> (let r = search_other_candidates mode l1 excluded rows
                                       in if 0 < length r then merge_candidates [cs, r] else cs)
                       | QueryError _ _ \<Rightarrow> cs))
      else cs)"

definition add_navigational :: "search_env \<Rightarrow> search_db \<Rightarrow> search_query \<Rightarrow> int \<Rightarrow> search_candidate list \<Rightarrow> search_candidate list" where
  "add_navigational V D q limit cs =
     (if sq_intent q = Navigational \<and> length cs < 30
      then (case db_nav D of
              Rows rows \<Rightarrow> merge_candidates [cs, search_navigational_candidates V q (min limit 60) rows]
            | QueryError _ _ \<Rightarrow> cs)
      else cs)"

definition retrieve_candidates :: "search_env \<Rightarrow> search_db \<Rightarrow> search_query \<Rightarrow> int \<Rightarrow> int \<Rightarrow> (search_candidate list \<times> int) option" where
  "retrieve_candidates V D q limit offset =
     (let cl = search_candidate_limit limit offset
      in case run_plans D q cl 0 (search_plans q) [] 0 of
           None \<Rightarrow> None
         | Some (c0, tot) \<Rightarrow>
             (let c1 = add_recent D q cl c0; c2 = add_other_domains D q cl c1; c3 = add_navigational V D q cl c2
              in if db_done D 6 \<and> length c3 = 0 then None else Some (c3, tot)))"

subsection \<open>The page of results\<close>

text \<open>\<open>bodies\<close> gives the stored texts (at most 4000 characters) the final query returns.\<close>

definition with_body :: "(int \<Rightarrow> string option) \<Rightarrow> search_candidate \<Rightarrow> search_candidate" where
  "with_body bodies c =
     (case bodies (sc_id c) of
        None \<Rightarrow> c
      | Some body \<Rightarrow>
          (let c1 = c\<lparr>sc_body := body\<rparr>
           in if sc_snippet c1 = []
              then (if sc_desc c1 \<noteq> [] then c1\<lparr>sc_snippet := sc_desc c1\<rparr>
                    else (let rs = rune_list body
                          in if length rs > 240 then c1\<lparr>sc_snippet := runes_string (take 240 rs)\<rparr> else c1\<lparr>sc_snippet := body\<rparr>))
              else c1))"

definition cache_key :: "string \<Rightarrow> string \<Rightarrow> domain \<Rightarrow> string \<Rightarrow> int \<Rightarrow> int \<Rightarrow> string" where
  "cache_key normalized lang dl schema offset limit =
     ''q:'' @ normalized @ ''|l:'' @ lang @ ''|d:'' @ dl @ ''|s:'' @ schema @ ''|o:'' @ itoa offset @ ''|lim:'' @ itoa limit"

type_synonym search_cache = "string \<rightharpoonup> search_candidate list \<times> int"

text \<open>The outcome of a search; a panic of the slice expression is one of them.\<close>

datatype search_outcome = Found "search_candidate list" int | SearchFailed | SearchPanic

definition page_of :: "(int \<Rightarrow> string option) \<Rightarrow> search_candidate list \<Rightarrow> int \<Rightarrow> int \<Rightarrow> int \<Rightarrow> search_outcome" where
  "page_of bodies ranked tot limit offset =
     (if offset \<ge> int (length ranked) then Found [] tot
      else (let end = min (offset + limit) (int (length ranked))
            in if offset < 0 \<or> end < offset then SearchPanic
               else Found (map (with_body bodies) (take (nat (end - offset)) (drop (nat offset) ranked))) tot))"

text \<open>Scoring and post-processing, and the total that is reported.\<close>

definition ranked_results :: "search_env \<Rightarrow> gotime \<Rightarrow> search_query \<Rightarrow> string \<Rightarrow> domain \<Rightarrow> string \<Rightarrow> search_candidate list \<Rightarrow> search_candidate list" where
  "ranked_results V now q lang dl schema cs =
     (let r0 = rerank_candidates V now q lang cs;
          r1 = (if lang \<noteq> [] then promote_language V lang r0 else r0)
      in filter_and_diversify V r1 dl schema)"

definition reported_total :: "domain \<Rightarrow> string \<Rightarrow> int \<Rightarrow> search_candidate list \<Rightarrow> int" where
  "reported_total dl schema counted rs =
     (if dl \<noteq> [] \<or> schema \<noteq> [] then int (length rs) else if counted < int (length rs) then int (length rs) else counted)"

definition search_pages :: "search_env \<Rightarrow> search_db \<Rightarrow> (string \<Rightarrow> bool) \<Rightarrow> domain list option \<Rightarrow> (string list \<Rightarrow> (string \<rightharpoonup> float64))
    \<Rightarrow> (int \<Rightarrow> string option) \<Rightarrow> gotime \<Rightarrow> string \<Rightarrow> int \<Rightarrow> int \<Rightarrow> string \<Rightarrow> domain \<Rightarrow> string \<Rightarrow> search_cache
    \<Rightarrow> search_outcome \<times> search_cache" where
  "search_pages V D known doms idf bodies now query limit offset lang dl schema cache =
     (let q0 = new_search_query V known query
      in if sq_normalized q0 = [] then (Found [] 0, cache)
         else (let key = cache_key (sq_normalized q0) lang dl schema offset limit
               in case cache key of
                    Some (rs, tot) \<Rightarrow> (Found rs tot, cache)
                  | None \<Rightarrow>
                      (let q1 = enrich_query V known doms q0;
                           q = q1\<lparr>sq_idf := idf (sq_tokens q1)\<rparr>
                       in case retrieve_candidates V D q limit offset of
                            None \<Rightarrow> (SearchFailed, cache)
                          | Some (cs, total0) \<Rightarrow>
                              (let rs = ranked_results V now q lang dl schema cs; t = reported_total dl schema total0 rs
                               in if offset \<ge> int (length rs) then (Found [] t, cache)
                                  else (case page_of bodies rs t limit offset of
                                          Found page n \<Rightarrow> (Found page n, cache(key \<mapsto> (page, n)))
                                        | other \<Rightarrow> (other, cache))))))"

subsection \<open>Every page of the pool at most once\<close>

abbreviation ids_distinct :: "search_candidate list \<Rightarrow> bool" where
  "ids_distinct cs \<equiv> distinct (map sc_id cs)"

lemma merge_distinct [intro]: "ids_distinct (merge_candidates gs)"
  using merge_candidates_facts [of gs] by simp

lemma run_plans_distinct: "run_plans D q limit i ps cs tot = Some (cs', t') \<Longrightarrow> ids_distinct cs \<Longrightarrow> ids_distinct cs'"
proof (induction ps arbitrary: i cs tot)
  case (Cons p ps)
  from Cons.prems show ?case
    by (cases p) (auto simp: Let_def merge_distinct split: if_splits query_outcome.splits option.splits
        dest: Cons.IH Cons.IH [OF _ merge_distinct])
qed simp

lemma supplements_distinct:
  "ids_distinct cs \<Longrightarrow> ids_distinct (add_recent D q limit cs)"
  "ids_distinct cs \<Longrightarrow> ids_distinct (add_other_domains D q limit cs)"
  "ids_distinct cs \<Longrightarrow> ids_distinct (add_navigational V D q limit cs)"
  by (auto simp: add_recent_def add_other_domains_def add_navigational_def Let_def intro: merge_distinct
      split: option.splits query_outcome.splits prod.splits)

lemma retrieve_distinct: "retrieve_candidates V D q limit offset = Some (cs, t) \<Longrightarrow> ids_distinct cs"
  by (auto simp: retrieve_candidates_def Let_def split: option.splits if_splits
      intro!: supplements_distinct dest: run_plans_distinct)

lemma ids_mset: "mset cs = mset ds \<Longrightarrow> ids_distinct cs = ids_distinct ds"
  by (metis mset_map mset_eq_imp_distinct_iff)

lemma rerank_ids: "mset (map sc_id (rerank_candidates V now q lang cs)) = mset (map sc_id cs)"
proof -
  have "filter (\<lambda>c. snd (score_search_candidate V now c q lang)) cs = cs"
    by (simp add: score_search_candidate_def Let_def)
  then have "mset (map sc_id (rerank_candidates V now q lang cs)) = image_mset sc_id (mset (map (rank_candidate V now q lang) cs))"
    by (simp add: rerank_candidates_def)
  also have "\<dots> = mset (map sc_id cs)" by (simp add: rank_candidate_def multiset.map_comp comp_def)
  finally show ?thesis .
qed

lemma with_body_frame [simp]:
  "sc_id (with_body b c) = sc_id c" "sc_domain (with_body b c) = sc_domain c" "sc_schema_type (with_body b c) = sc_schema_type c"
  by (simp_all add: with_body_def Let_def split: option.split)

definition passes :: "search_env \<Rightarrow> domain \<Rightarrow> string \<Rightarrow> search_candidate \<Rightarrow> bool" where
  "passes V dl schema c \<longleftrightarrow> (dl = [] \<or> str_equal_fold V (sc_domain c) dl) \<and> (schema = [] \<or> str_equal_fold V (sc_schema_type c) schema)"

lemma page_of_spec:
  assumes "0 \<le> offset" "0 \<le> limit"
  obtains rs where "page_of bodies cs t limit offset = Found rs t" and "int (length rs) \<le> limit"
    and "rs = [] \<or> offset + int (length rs) \<le> int (length cs)"
    and "ids_distinct cs \<longrightarrow> ids_distinct rs" and "list_all (passes V dl schema) cs \<longrightarrow> list_all (passes V dl schema) rs"
proof (cases "offset \<ge> int (length cs)")
  case True
  then show ?thesis using that [of "[]"] assms by (simp add: page_of_def)
next
  case False
  define e where "e = min (offset + limit) (int (length cs))"
  let ?rs = "map (with_body bodies) (take (nat (e - offset)) (drop (nat offset) cs))"
  have e: "offset \<le> e" "e \<le> offset + limit" "e \<le> int (length cs)" using False assms by (auto simp: e_def)
  have p: "page_of bodies cs t limit offset = Found ?rs t" using False assms e by (simp add: page_of_def e_def [symmetric] Let_def)
  have l: "int (length ?rs) = e - offset" using e assms by simp
  have "map sc_id ?rs = take (nat (e - offset)) (drop (nat offset) (map sc_id cs))" by (simp add: take_map drop_map comp_def)
  then have "ids_distinct cs \<longrightarrow> ids_distinct ?rs" by simp
  moreover have "list_all (passes V dl schema) cs \<longrightarrow> list_all (passes V dl schema) ?rs"
    by (auto simp: list_all_iff passes_def dest!: in_set_takeD in_set_dropD)
  ultimately show ?thesis using that [OF p] l e by simp
qed

lemma filter_and_diversify_facts:
  "ids_distinct cs \<Longrightarrow> ids_distinct (filter_and_diversify V cs dl schema) \<and> list_all (passes V dl schema) (filter_and_diversify V cs dl schema)"
proof -
  assume d: "ids_distinct cs"
  have m: "mset (filter_and_diversify V cs dl schema) = mset (filter (passes V dl schema) cs)"
    using filter_and_diversify_mset [of V cs dl schema] unfolding passes_def .
  have "ids_distinct (filter (passes V dl schema) cs)" using d by (simp add: distinct_map inj_on_filter_key_eq inj_on_def)
  then have 1: "ids_distinct (filter_and_diversify V cs dl schema)" using ids_mset [OF m] by simp
  have "set (filter_and_diversify V cs dl schema) = set (filter (passes V dl schema) cs)" using m by (rule mset_eq_setD)
  then show ?thesis using 1 by (auto simp: list_all_iff)
qed

lemma ranked_results_facts:
  assumes "ids_distinct cs"
  shows "ids_distinct (ranked_results V now q lang dl schema cs) \<and> list_all (passes V dl schema) (ranked_results V now q lang dl schema cs)"
proof -
  define r0 where "r0 = rerank_candidates V now q lang cs"
  have "ids_distinct r0" using assms rerank_ids [of V now q lang cs] unfolding r0_def by (metis mset_eq_imp_distinct_iff)
  then have "ids_distinct (if lang \<noteq> [] then promote_language V lang r0 else r0)" using ids_mset [OF promote_language_mset [of V lang r0]] by simp
  from filter_and_diversify_facts [OF this] show ?thesis by (simp add: ranked_results_def r0_def [symmetric] Let_def)
qed

lemma search_pages_facts:
  assumes "0 \<le> offset" and "0 \<le> limit"
    and "cache (cache_key (sq_normalized (new_search_query V known query)) lang dl schema offset limit) = None"
  shows "case search_pages V D known doms idf bodies now query limit offset lang dl schema cache of
      (Found rs t, cache') \<Rightarrow> int (length rs) \<le> limit \<and> ids_distinct rs \<and> list_all (passes V dl schema) rs
         \<and> (rs = [] \<or> offset + int (length rs) \<le> t)
    | (SearchFailed, cache') \<Rightarrow> cache' = cache
    | (SearchPanic, cache') \<Rightarrow> False"
proof (cases "sq_normalized (new_search_query V known query) = []")
  case True
  then show ?thesis using assms(2) by (simp add: search_pages_def Let_def)
next
  case False
  define q where "q = (enrich_query V known doms (new_search_query V known query))\<lparr>sq_idf := idf (sq_tokens (enrich_query V known doms (new_search_query V known query)))\<rparr>"
  show ?thesis
  proof (cases "retrieve_candidates V D q limit offset")
    case None
    then show ?thesis using False unfolding search_pages_def Let_def q_def [symmetric] assms(3) by simp
  next
    case (Some r)
    then obtain cs t0 where r: "retrieve_candidates V D q limit offset = Some (cs, t0)" by (cases r) auto
    define ws where "ws = ranked_results V now q lang dl schema cs"
    define t where "t = reported_total dl schema t0 ws"
    have ws: "ids_distinct ws" "list_all (passes V dl schema) ws" using ranked_results_facts [OF retrieve_distinct [OF r]] by (auto simp: ws_def)
    obtain rs where p: "page_of bodies ws t limit offset = Found rs t" "int (length rs) \<le> limit"
      "rs = [] \<or> offset + int (length rs) \<le> int (length ws)" "ids_distinct rs" "list_all (passes V dl schema) rs"
      using page_of_spec [OF assms(1,2), of bodies ws t V dl schema] ws by metis
    have t: "int (length ws) \<le> t" by (simp add: t_def reported_total_def)
    let ?key = "cache_key (sq_normalized (new_search_query V known query)) lang dl schema offset limit"
    have "search_pages V D known doms idf bodies now query limit offset lang dl schema cache
        = (if offset \<ge> int (length ws) then (Found [] t, cache) else (Found rs t, cache(?key \<mapsto> (rs, t))))"
      using False r p(1) unfolding search_pages_def Let_def q_def [symmetric] assms(3) by (simp add: ws_def t_def)
    then show ?thesis using p t assms(2) by auto
  qed
qed


definition empty_db :: search_db where
  "empty_db = \<lparr>db_match = (\<lambda>_. Rows []), db_count = (\<lambda>_. None), db_recent = (\<lambda>_. Rows []), db_other = (\<lambda>_. Rows []), db_nav = Rows [],
     db_ago = (\<lambda>_. []), db_done = (\<lambda>_. False)\<rparr>"


text \<open>
  The cache is keyed by the normalised query, not by the query: whatever was stored for one query is
  returned for every other query with the same normalised text, although the two may differ in intent.
\<close>

theorem cache_conflates_queries:
  assumes "normalize_search_text V b = normalize_search_text V a" and "normalize_search_text V a \<noteq> []"
    and "cache (cache_key (normalize_search_text V a) lang dl schema offset limit) = Some (rs, t)"
  shows "search_pages V D known doms idf bodies now b limit offset lang dl schema cache = (Found rs t, cache)"
  using assms by (simp add: search_pages_def Let_def new_query_tokens(4))

theorem cache_conflates_queries_witness:
  "fst (search_pages plain_search_env empty_db (\<lambda>_. False) None (\<lambda>_. Map.empty) (\<lambda>_. None) 1 ''go dev'' 10 0 [] [] []
      [cache_key ''go dev'' [] [] [] 0 10 \<mapsto> ([], 7)]) = Found [] 7
   \<and> normalize_domain_like_query plain_search_env ''go.dev'' = ''go.dev'' \<and> normalize_domain_like_query plain_search_env ''go dev'' = []"
proof -
  have n: "normalize_search_text plain_search_env ''go.dev'' = ''go dev''" "normalize_search_text plain_search_env ''go dev'' = ''go dev''"
    "normalize_domain_like_query plain_search_env ''go.dev'' = ''go.dev''" "normalize_domain_like_query plain_search_env ''go dev'' = []"
    by code_simp+
  show ?thesis
    using cache_conflates_queries [of plain_search_env "''go dev''" "''go.dev''" "[cache_key ''go dev'' [] [] [] 0 10 \<mapsto> ([], 7)]" "[]" "[]" "[]" 0 10 "[]" 7] n
    by simp
qed

end
