(* ===== verification/SearchStore.thy ===== *)
theory SearchStore
  imports SearchPages
begin

text \<open>
  The click table and the image search of \<open>internal/storage/sqlite_search.go\<close>. The table
  \<open>search_clicks\<close> is a map from the pair of its key columns to the number of clicks; \<open>db_ok\<close>
  tells whether the statement succeeds.
\<close>

type_synonym click_table = "(string \<times> rawurl) \<rightharpoonup> int"

definition record_click :: "search_env \<Rightarrow> bool \<Rightarrow> string \<Rightarrow> rawurl \<Rightarrow> click_table \<Rightarrow> bool \<times> click_table" where
  "record_click V db_ok query url m =
     (let n = normalize_search_text V query
      in if n = [] \<or> url = [] then (True, m)
         else if \<not> db_ok then (False, m)
         else (True, m((n, url) \<mapsto> (case m (n, url) of None \<Rightarrow> 1 | Some k \<Rightarrow> k + 1))))"

text \<open>The join \<open>sc.url = p.url AND sc.query = ?\<close> of the retrieval queries, with \<open>query.raw\<close> as its argument.\<close>

definition joined_clicks :: "click_table \<Rightarrow> search_query \<Rightarrow> rawurl \<Rightarrow> int" where
  "joined_clicks m q url = (case m (sq_raw q, url) of Some k \<Rightarrow> k | None \<Rightarrow> 0)"

record image_result =
  irs_id :: int
  irs_url :: rawurl
  irs_page_url :: rawurl
  irs_domain :: domain
  irs_alt :: string
  irs_title :: string
  irs_context :: string
  irs_width :: int
  irs_height :: int
  irs_rank :: float64

text \<open>
  \<open>SearchImages\<close>: \<open>matched\<close> gives the images that match a full-text query, \<open>None\<close> for a failed
  query; a negative limit is none in SQLite.
\<close>

definition search_images :: "search_env \<Rightarrow> (string \<Rightarrow> bool) \<Rightarrow> (string \<Rightarrow> image_result list option) \<Rightarrow> string \<Rightarrow> int \<Rightarrow> int
    \<Rightarrow> (image_result list \<times> int) option" where
  "search_images V known matched query limit offset =
     (let q = new_search_query V known query
      in if sq_normalized q = [] \<or> length (sq_tokens q) = 0 then Some ([], 0)
         else (let fq = build_fts_relaxed_query (sq_tokens q) (sq_idf q)
               in if fq = [] then Some ([], 0)
                  else (case matched fq of
                          None \<Rightarrow> None
                        | Some rows \<Rightarrow>
                            if length rows = 0 then Some ([], 0)
                            else (let rs = drop (nat offset) (sort_key irs_rank rows)
                                  in Some (if limit < 0 then rs else take (nat limit) rs, int (length rows))))))"

text \<open>\<open>n\<close> clicks on one result of one query.\<close>

fun clicks :: "search_env \<Rightarrow> string \<Rightarrow> rawurl \<Rightarrow> nat \<Rightarrow> click_table" where
  "clicks V query url 0 = Map.empty"
| "clicks V query url (Suc n) = snd (record_click V True query url (clicks V query url n))"

lemma clicks_table:
  assumes "normalize_search_text V query \<noteq> []" and "url \<noteq> []"
  shows "clicks V query url n = (if n = 0 then Map.empty else [(normalize_search_text V query, url) \<mapsto> int n])"
  using assms by (induction n) (auto simp: record_click_def Let_def)

lemma raw_of_query: "sq_raw (new_search_query V known query) = query"
  by (simp add: new_search_query_def Let_def)

text \<open>
  Clicks are stored under the normalised query but looked up under the query as it was typed: they count
  for a later search with the same text only if that text is already normalised, and are otherwise ignored.
\<close>

theorem clicks_need_normalized_query:
  assumes "normalize_search_text V query \<noteq> []" and "url \<noteq> []"
  shows "joined_clicks (clicks V query url n) (new_search_query V known query) url
    = (if normalize_search_text V query = query then int n else 0)"
  using assms by (simp add: joined_clicks_def clicks_table raw_of_query)

theorem clicks_need_normalized_query_witness:
  "joined_clicks (clicks plain_search_env ''Rust'' ''https://rust-lang.org/'' 5) (new_search_query plain_search_env (\<lambda>_. False) ''Rust'') ''https://rust-lang.org/'' = 0"
proof -
  have "normalize_search_text plain_search_env ''Rust'' = ''rust''" by code_simp
  then show ?thesis using clicks_need_normalized_query [of plain_search_env "''Rust''" "''https://rust-lang.org/''" 5 "\<lambda>_. False"] by simp
qed

lemma search_images_bounds:
  assumes "search_images V known matched query limit offset = Some (rs, t)" and "0 \<le> limit" and "0 \<le> offset"
  shows "int (length rs) \<le> limit \<and> (rs = [] \<or> offset + int (length rs) \<le> t)"
  using assms by (auto simp: search_images_def Let_def split: if_splits option.splits)

end
