(* ===== verification/Table.thy ===== *)
theory Table
  imports Prelude
begin

text \<open>
  The tables of the SQLite databases: rows in the order of their ids, and the next id an \<open>AUTOINCREMENT\<close>
  column gives out. A table has a unique column, the key; \<open>upsert\<close> is
  \<open>INSERT ... ON CONFLICT(key) DO UPDATE\<close>, and \<open>INSERT OR IGNORE\<close> is an upsert that keeps the old row.
  SQLite may skip ids after a conflict; no result depends on how far the counter moves.
\<close>

record 'r table =
  tb_rows :: "'r list"
  tb_next :: int

definition empty_table :: "'r table" where
  "empty_table = \<lparr>tb_rows = [], tb_next = 1\<rparr>"

definition lookup_row :: "('r \<Rightarrow> 'k) \<Rightarrow> 'k \<Rightarrow> 'r table \<Rightarrow> 'r option" where
  "lookup_row key k t = find (\<lambda>r. key r = k) (tb_rows t)"

definition upsert :: "('r \<Rightarrow> 'k) \<Rightarrow> (int \<Rightarrow> 'v \<Rightarrow> 'r) \<Rightarrow> ('v \<Rightarrow> 'r \<Rightarrow> 'r) \<Rightarrow> ('v \<Rightarrow> 'k) \<Rightarrow> 'v \<Rightarrow> 'r table \<Rightarrow> 'r table" where
  "upsert key mk merge vkey v t =
     (if vkey v \<in> key ` set (tb_rows t)
      then t\<lparr>tb_rows := map (\<lambda>r. if key r = vkey v then merge v r else r) (tb_rows t)\<rparr>
      else t\<lparr>tb_rows := tb_rows t @ [mk (tb_next t) v], tb_next := tb_next t + 1\<rparr>)"

text \<open>\<open>UPDATE\<close> and \<open>DELETE\<close> with the number of affected rows.\<close>

definition update_where :: "('r \<Rightarrow> bool) \<Rightarrow> ('r \<Rightarrow> 'r) \<Rightarrow> 'r table \<Rightarrow> int \<times> 'r table" where
  "update_where P f t = (int (length (filter P (tb_rows t))), t\<lparr>tb_rows := map (\<lambda>r. if P r then f r else r) (tb_rows t)\<rparr>)"

definition delete_where :: "('r \<Rightarrow> bool) \<Rightarrow> 'r table \<Rightarrow> int \<times> 'r table" where
  "delete_where P t = (int (length (filter P (tb_rows t))), t\<lparr>tb_rows := filter (\<lambda>r. \<not> P r) (tb_rows t)\<rparr>)"

text \<open>\<open>LIMIT\<close>: a negative limit is none.\<close>

definition sql_limit :: "int \<Rightarrow> 'r list \<Rightarrow> 'r list" where
  "sql_limit n rs = (if n < 0 then rs else take (nat n) rs)"

subsection \<open>Well-formed tables\<close>

definition table_wf :: "('r \<Rightarrow> int) \<Rightarrow> ('r \<Rightarrow> 'k) \<Rightarrow> 'r table \<Rightarrow> bool" where
  "table_wf rid key t \<longleftrightarrow> sorted_wrt (<) (map rid (tb_rows t)) \<and> (\<forall>r \<in> set (tb_rows t). rid r < tb_next t) \<and> distinct (map key (tb_rows t))"

lemma table_wf_empty [simp]: "table_wf rid key empty_table"
  by (simp add: table_wf_def empty_table_def)

lemma table_wf_ids: "table_wf rid key t \<Longrightarrow> distinct (map rid (tb_rows t))"
  by (auto simp: table_wf_def strict_sorted_iff)

lemma lookup_row_Some:
  assumes "table_wf rid key t"
  shows "lookup_row key k t = Some r \<longleftrightarrow> r \<in> set (tb_rows t) \<and> key r = k"
proof
  show "lookup_row key k t = Some r \<Longrightarrow> r \<in> set (tb_rows t) \<and> key r = k"
    by (auto simp: lookup_row_def find_Some_iff)
next
  assume r: "r \<in> set (tb_rows t) \<and> key r = k"
  then have "lookup_row key k t \<noteq> None" by (auto simp: lookup_row_def find_None_iff)
  then obtain r' where r': "lookup_row key k t = Some r'" by blast
  then have "r' \<in> set (tb_rows t)" "key r' = k" by (auto simp: lookup_row_def find_Some_iff)
  moreover have "inj_on key (set (tb_rows t))" using assms by (simp add: table_wf_def distinct_map)
  ultimately have "r' = r" using r by (auto dest: inj_onD)
  then show "lookup_row key k t = Some r" using r' by simp
qed

lemma lookup_row_None: "lookup_row key k t = None \<longleftrightarrow> k \<notin> key ` set (tb_rows t)"
  by (auto simp: lookup_row_def find_None_iff)

lemma table_wf_update:
  assumes wf: "table_wf rid key t" and "\<And>r. rid (f r) = rid r" and "\<And>r. key (f r) = key r"
  shows "table_wf rid key (snd (update_where P f t))"
proof -
  have m: "map rid (map (\<lambda>r. if P r then f r else r) (tb_rows t)) = map rid (tb_rows t)"
    "map key (map (\<lambda>r. if P r then f r else r) (tb_rows t)) = map key (tb_rows t)"
    using assms(2,3) by auto
  then show ?thesis using wf assms(2) by (auto simp: table_wf_def update_where_def simp del: map_map)
qed

lemma sorted_wrt_filter_map: "sorted_wrt P (map f xs) \<Longrightarrow> sorted_wrt P (map f (filter Q xs))"
  by (induction xs) auto

lemma table_wf_delete: "table_wf rid key t \<Longrightarrow> table_wf rid key (snd (delete_where P t))"
  by (auto simp: table_wf_def delete_where_def distinct_map_filter sorted_wrt_filter_map)

subsection \<open>Tables with an upsert\<close>

text \<open>
  What an upsert relies on: \<open>mk\<close> fills a new row with its id and key, \<open>merge\<close> changes neither in an
  existing row of the same key.
\<close>

locale keyed_table =
  fixes rid :: "'r \<Rightarrow> int" and key :: "'r \<Rightarrow> 'k" and mk :: "int \<Rightarrow> 'v \<Rightarrow> 'r" and merge :: "'v \<Rightarrow> 'r \<Rightarrow> 'r" and vkey :: "'v \<Rightarrow> 'k"
  assumes mk_id: "rid (mk i v) = i" and mk_key: "key (mk i v) = vkey v"
    and merge_id: "rid (merge v r) = rid r" and merge_key: "key r = vkey v \<Longrightarrow> key (merge v r) = vkey v"
begin

lemma upsert_wf:
  assumes "table_wf rid key t"
  shows "table_wf rid key (upsert key mk merge vkey v t)"
proof (cases "vkey v \<in> key ` set (tb_rows t)")
  case True
  let ?f = "\<lambda>r. if key r = vkey v then merge v r else r"
  have "map rid (map ?f (tb_rows t)) = map rid (tb_rows t)" "map key (map ?f (tb_rows t)) = map key (tb_rows t)"
    using merge_id merge_key by auto
  then show ?thesis using True assms merge_id by (auto simp: table_wf_def upsert_def simp del: map_map)
next
  case False
  then show ?thesis using assms mk_id mk_key
    by (fastforce simp: table_wf_def upsert_def sorted_wrt_append)
qed

lemma lookup_upsert:
  "lookup_row key k (upsert key mk merge vkey v t)
   = (if k = vkey v then Some (case lookup_row key k t of None \<Rightarrow> mk (tb_next t) v | Some r \<Rightarrow> merge v r)
      else lookup_row key k t)"
proof (cases "vkey v \<in> key ` set (tb_rows t)")
  case True
  have "find (\<lambda>r. key r = k) (map (\<lambda>r. if key r = vkey v then merge v r else r) rs)
      = (if k = vkey v then map_option (merge v) (find (\<lambda>r. key r = k) rs) else find (\<lambda>r. key r = k) rs)" for rs
    by (induction rs) (auto simp: merge_key)
  moreover have "k = vkey v \<Longrightarrow> find (\<lambda>r. key r = k) (tb_rows t) \<noteq> None" using True by (auto simp: find_None_iff)
  ultimately show ?thesis using True by (auto simp: lookup_row_def upsert_def split: option.splits)
next
  case False
  have "find (\<lambda>r. key r = k) (rs @ [x]) = (case find (\<lambda>r. key r = k) rs of None \<Rightarrow> if key x = k then Some x else None | Some r \<Rightarrow> Some r)" for rs x
    by (induction rs) auto
  moreover have "k = vkey v \<Longrightarrow> find (\<lambda>r. key r = k) (tb_rows t) = None" using False
    by (auto simp: find_None_iff intro: rev_image_eqI)
  ultimately show ?thesis using False by (auto simp: lookup_row_def upsert_def mk_key split: option.splits)
qed

lemma keys_upsert: "key ` set (tb_rows (upsert key mk merge vkey v t)) = insert (vkey v) (key ` set (tb_rows t))"
proof -
  have "k \<in> key ` set (tb_rows t') \<longleftrightarrow> lookup_row key k t' \<noteq> None" for k and t' :: "'r table"
    by (simp add: lookup_row_None)
  then show ?thesis by (auto simp only: lookup_upsert set_eq_iff insert_iff split: if_splits)
qed

lemma next_upsert: "tb_next t \<le> tb_next (upsert key mk merge vkey v t)"
  by (simp add: upsert_def)

lemma fold_upsert_wf: "table_wf rid key t \<Longrightarrow> table_wf rid key (fold (upsert key mk merge vkey) vs t)"
  by (induction vs arbitrary: t) (auto simp: upsert_wf)

lemma keys_fold_upsert: "key ` set (tb_rows (fold (upsert key mk merge vkey) vs t)) = vkey ` set vs \<union> key ` set (tb_rows t)"
  by (induction vs arbitrary: t) (auto simp: keys_upsert)

lemma upsert_row_origin:
  assumes "r \<in> set (tb_rows (upsert key mk merge vkey v t))"
  shows "(\<exists>r0 \<in> set (tb_rows t). rid r0 = rid r \<and> key r0 = key r) \<or> tb_next t \<le> rid r"
  using assms by (auto simp: upsert_def mk_id merge_id merge_key split: if_splits)

text \<open>The rows that a series of upserts adds get ids that no row had.\<close>

lemma fold_upsert_row_origin:
  "r \<in> set (tb_rows (fold (upsert key mk merge vkey) vs t))
   \<Longrightarrow> (\<exists>r0 \<in> set (tb_rows t). rid r0 = rid r \<and> key r0 = key r) \<or> tb_next t \<le> rid r"
proof (induction vs arbitrary: t)
  case (Cons v vs)
  then consider r1 where "r1 \<in> set (tb_rows (upsert key mk merge vkey v t))" "rid r1 = rid r" "key r1 = key r"
    | "tb_next (upsert key mk merge vkey v t) \<le> rid r" by fastforce
  then show ?case
  proof cases
    case 1
    then show ?thesis using upsert_row_origin [OF 1(1)] by simp
  next
    case 2
    then show ?thesis using next_upsert [of t v] by linarith
  qed
qed auto

text \<open>After a series of upserts the row of a key is what its last upsert wrote.\<close>

lemma lookup_fold_upsert:
  "lookup_row key k (fold (upsert key mk merge vkey) vs t)
   = (case find (\<lambda>v. vkey v = k) (rev vs) of
        None \<Rightarrow> lookup_row key k t
      | Some v \<Rightarrow> lookup_row key k (fold (upsert key mk merge vkey) vs t))"
  "find (\<lambda>v. vkey v = k) (rev vs) = Some v
   \<Longrightarrow> \<exists>r. lookup_row key k (fold (upsert key mk merge vkey) vs t) = Some r \<and> (r \<in> range (merge v) \<or> r \<in> range (\<lambda>i. mk i v))"
proof (induction vs rule: rev_induct)
  case (snoc w vs)
  { case 1 then show ?case using snoc.IH(1) by (auto simp: lookup_upsert split: option.splits) }
  { case 2 then show ?case using snoc.IH(2) by (auto simp: lookup_upsert split: if_splits option.splits) }
qed simp_all

end

text \<open>Upserts that write the same row however often they run.\<close>

locale idempotent_table = keyed_table +
  assumes merge_mk: "merge v (mk i v) = mk i v" and merge_merge: "merge v (merge v r) = merge v r"
begin

lemma upsert_idem: "upsert key mk merge vkey v (upsert key mk merge vkey v t) = upsert key mk merge vkey v t"
proof (cases "vkey v \<in> key ` set (tb_rows t)")
  case True
  let ?f = "\<lambda>r. if key r = vkey v then merge v r else r"
  have "?f (?f r) = ?f r" for r by (simp add: merge_key merge_merge)
  then have "map ?f (map ?f (tb_rows t)) = map ?f (tb_rows t)" by simp
  moreover have "vkey v \<in> key ` set (map ?f (tb_rows t))"
  proof -
    obtain r where "r \<in> set (tb_rows t)" "key r = vkey v" using True by auto
    then show ?thesis by (intro image_eqI [of _ _ "merge v r"]) (auto simp: merge_key intro!: image_eqI [of _ _ r])
  qed
  ultimately show ?thesis using True by (simp add: upsert_def del: map_map)
next
  case False
  then have "map (\<lambda>r. if key r = vkey v then merge v r else r) (tb_rows t) = tb_rows t"
    by (intro map_idI) (auto intro: rev_image_eqI)
  then show ?thesis using False by (simp add: upsert_def mk_key merge_mk)
qed

end

end
