(* ===== verification/CrawlDb.thy ===== *)
theory CrawlDb
  imports Table Frontier
begin

text \<open>
  The crawler database of \<open>internal/storage/sqlite_crawler.go\<close>: the tables \<open>crawl_queue\<close>,
  \<open>domains\<close> and \<open>seed_urls\<close>. Every statement runs in a transaction of its own or in one that is
  rolled back on an error: an operation takes the error \<open>e\<close> the driver reports (\<open>None\<close> for none), and
  then leaves the tables as they are. The text that wraps an error is left out. Rows of equal rank come in
  the order of their ids.
\<close>

type_synonym db_error = string

definition job_status_pending :: string where "job_status_pending = ''pending''"
definition job_status_in_progress :: string where "job_status_in_progress = ''in_progress''"
definition job_status_done :: string where "job_status_done = ''done''"
definition job_status_failed :: string where "job_status_failed = ''failed''"

lemmas job_status_defs = job_status_pending_def job_status_in_progress_def job_status_done_def job_status_failed_def

subsection \<open>The crawl queue\<close>

record crawl_job =
  cj_id :: int
  cj_url :: rawurl
  cj_domain :: domain
  cj_depth :: int
  cj_score :: float64
  cj_status :: string
  cj_retries :: int
  cj_error :: string
  cj_added :: gotime
  cj_locked :: gotime

record queue_row =
  cq_id :: int
  cq_url :: rawurl
  cq_domain :: domain
  cq_depth :: int
  cq_score :: float64
  cq_status :: string
  cq_retries :: int
  cq_error :: string
  cq_added :: gotime
  cq_locked :: "gotime option"

type_synonym new_job = "rawurl \<times> domain \<times> int \<times> float64"

text \<open>\<open>INSERT OR IGNORE INTO crawl_queue\<close> with the column defaults.\<close>

definition queue_row_of :: "gotime \<Rightarrow> int \<Rightarrow> new_job \<Rightarrow> queue_row" where
  "queue_row_of now i v = (case v of (u, d, depth, sc) \<Rightarrow>
     \<lparr>cq_id = i, cq_url = u, cq_domain = d, cq_depth = depth, cq_score = sc, cq_status = job_status_pending,
      cq_retries = 0, cq_error = [], cq_added = now, cq_locked = None\<rparr>)"

definition insert_job :: "gotime \<Rightarrow> new_job \<Rightarrow> queue_row table \<Rightarrow> queue_row table" where
  "insert_job now = upsert cq_url (queue_row_of now) (\<lambda>_ r. r) fst"

definition job_values :: "crawl_job \<Rightarrow> new_job" where
  "job_values j = (cj_url j, cj_domain j, cj_depth j, cj_score j)"

definition enqueue_url :: "gotime \<Rightarrow> db_error option \<Rightarrow> crawl_job \<Rightarrow> queue_row table \<Rightarrow> (db_error + unit) \<times> queue_row table" where
  "enqueue_url now e j t = (case e of Some x \<Rightarrow> (Inl x, t) | None \<Rightarrow> (Inr (), insert_job now (job_values j) t))"

definition enqueue_urls :: "gotime \<Rightarrow> db_error option \<Rightarrow> crawl_job list \<Rightarrow> queue_row table \<Rightarrow> (db_error + unit) \<times> queue_row table" where
  "enqueue_urls now e js t =
     (if js = [] then (Inr (), t)
      else (case e of Some x \<Rightarrow> (Inl x, t) | None \<Rightarrow> (Inr (), fold (\<lambda>j. insert_job now (job_values j)) js t)))"

fun direct_rows :: "stdlib \<Rightarrow> gotime \<Rightarrow> int \<Rightarrow> float64 \<Rightarrow> rawurl list \<Rightarrow> queue_row table \<Rightarrow> int \<times> queue_row table" where
  "direct_rows E now depth base [] t = (0, t)"
| "direct_rows E now depth base (u # us) t =
     (case url_parse E u of
        None \<Rightarrow> direct_rows E now depth base us t
      | Some p \<Rightarrow>
          if url_hostname p = [] then direct_rows E now depth base us t
          else (let t' = insert_job now (u, trim_prefix (url_hostname p) ''www.'', depth, base) t;
                    affected = (if u \<in> cq_url ` set (tb_rows t) then 0 else 1)
                in (case direct_rows E now depth base us t' of (n, t'') \<Rightarrow> (n + affected, t''))))"

definition enqueue_urls_directly :: "stdlib \<Rightarrow> gotime \<Rightarrow> db_error option \<Rightarrow> rawurl list \<Rightarrow> int \<Rightarrow> float64 \<Rightarrow> queue_row table
    \<Rightarrow> (db_error + int) \<times> queue_row table" where
  "enqueue_urls_directly E now e us depth base t =
     (if us = [] then (Inr 0, t)
      else (case e of
              Some x \<Rightarrow> (Inl x, t)
            | None \<Rightarrow> (case direct_rows E now depth base us t of (n, t') \<Rightarrow> (Inr n, t'))))"

text \<open>The pending rows in the order \<open>score DESC, added_at ASC\<close>, and their claim.\<close>

definition claim_order :: "queue_row list \<Rightarrow> queue_row list" where
  "claim_order rs = sort_key (\<lambda>r. - cq_score r) (sort_key cq_added rs)"

definition claimed_job :: "gotime \<Rightarrow> queue_row \<Rightarrow> crawl_job" where
  "claimed_job now r = \<lparr>cj_id = cq_id r, cj_url = cq_url r, cj_domain = cq_domain r, cj_depth = cq_depth r, cj_score = cq_score r,
     cj_status = job_status_in_progress, cj_retries = cq_retries r, cj_error = [], cj_added = time_zero, cj_locked = now\<rparr>"

definition lock_row :: "gotime \<Rightarrow> queue_row \<Rightarrow> queue_row" where
  "lock_row now r = r\<lparr>cq_status := job_status_in_progress, cq_locked := Some now\<rparr>"

definition claim_rows :: "gotime \<Rightarrow> queue_row list \<Rightarrow> queue_row table \<Rightarrow> crawl_job list \<times> queue_row table" where
  "claim_rows now rs t = (map (claimed_job now) rs, fold (\<lambda>r t. snd (update_where (\<lambda>r'. cq_id r' = cq_id r) (lock_row now) t)) rs t)"

definition dequeue_urls :: "gotime \<Rightarrow> db_error option \<Rightarrow> int \<Rightarrow> queue_row table \<Rightarrow> (db_error + crawl_job list) \<times> queue_row table" where
  "dequeue_urls now e limit t =
     (case e of
        Some x \<Rightarrow> (Inl x, t)
      | None \<Rightarrow> (case claim_rows now (sql_limit limit (claim_order (filter (\<lambda>r. cq_status r = job_status_pending) (tb_rows t)))) t
                of (js, t') \<Rightarrow> (Inr js, t')))"

definition dequeue_urls_excluding :: "gotime \<Rightarrow> db_error option \<Rightarrow> int \<Rightarrow> domain list \<Rightarrow> queue_row table
    \<Rightarrow> (db_error + crawl_job list) \<times> queue_row table" where
  "dequeue_urls_excluding now e limit excl t =
     (if excl = [] then dequeue_urls now e limit t
      else (case e of
        Some x \<Rightarrow> (Inl x, t)
      | None \<Rightarrow> (case claim_rows now (sql_limit limit (claim_order
                    (filter (\<lambda>r. cq_status r = job_status_pending \<and> cq_domain r \<notin> set excl) (tb_rows t)))) t
                of (js, t') \<Rightarrow> (Inr js, t'))))"

definition complete_job :: "db_error option \<Rightarrow> int \<Rightarrow> string option \<Rightarrow> queue_row table \<Rightarrow> (db_error + unit) \<times> queue_row table" where
  "complete_job e i crawl_err t =
     (case e of
        Some x \<Rightarrow> (Inl x, t)
      | None \<Rightarrow> (Inr (), snd (case crawl_err of
          None \<Rightarrow> delete_where (\<lambda>r. cq_id r = i) t
        | Some m \<Rightarrow> update_where (\<lambda>r. cq_id r = i)
            (\<lambda>r. r\<lparr>cq_status := job_status_failed, cq_error := m, cq_retries := cq_retries r + 1\<rparr>) t)))"

definition return_job :: "db_error option \<Rightarrow> int \<Rightarrow> queue_row table \<Rightarrow> (db_error + unit) \<times> queue_row table" where
  "return_job e i t =
     (case e of
        Some x \<Rightarrow> (Inl x, t)
      | None \<Rightarrow> (Inr (), snd (update_where (\<lambda>r. cq_id r = i \<and> cq_status r = job_status_in_progress)
                  (\<lambda>r. r\<lparr>cq_status := job_status_pending, cq_locked := None\<rparr>) t)))"

definition locked_before :: "gotime \<Rightarrow> queue_row \<Rightarrow> bool" where
  "locked_before cutoff r = (case cq_locked r of None \<Rightarrow> False | Some l \<Rightarrow> l < cutoff)"

definition reset_stalled_jobs :: "gotime \<Rightarrow> db_error option \<Rightarrow> duration \<Rightarrow> queue_row table \<Rightarrow> (db_error + int) \<times> queue_row table" where
  "reset_stalled_jobs now e after t =
     (case e of
        Some x \<Rightarrow> (Inl x, t)
      | None \<Rightarrow> (case update_where (\<lambda>r. cq_status r = job_status_in_progress \<and> locked_before (now - after) r)
                  (\<lambda>r. r\<lparr>cq_status := job_status_pending, cq_locked := None\<rparr>) t of (n, t') \<Rightarrow> (Inr n, t')))"

record job_counts =
  qs_pending :: int
  qs_in_progress :: int
  qs_done :: int
  qs_failed :: int
  qs_total :: int

definition status_count :: "string \<Rightarrow> queue_row table \<Rightarrow> int" where
  "status_count s t = int (length (filter (\<lambda>r. cq_status r = s) (tb_rows t)))"

definition get_queue_stats :: "queue_row table \<Rightarrow> job_counts" where
  "get_queue_stats t = \<lparr>qs_pending = status_count job_status_pending t, qs_in_progress = status_count job_status_in_progress t,
     qs_done = status_count job_status_done t, qs_failed = status_count job_status_failed t, qs_total = int (length (tb_rows t))\<rparr>"

subsection \<open>Domains\<close>

definition time_column :: "gotime \<Rightarrow> gotime option" where
  "time_column t = (if t = time_zero then None else Some t)"

definition column_time :: "gotime option \<Rightarrow> gotime" where
  "column_time c = (case c of None \<Rightarrow> time_zero | Some t \<Rightarrow> t)"

record domain_info =
  dn_id :: int
  dn_domain :: domain
  dn_robots :: string
  dn_robots_fetched :: gotime
  dn_last_crawled :: gotime
  dn_recrawled :: gotime
  dn_pages :: int
  dn_avg_ms :: int
  dn_created :: gotime

record domain_row =
  dm_id :: int
  dm_domain :: domain
  dm_robots :: string
  dm_robots_fetched :: "gotime option"
  dm_last_crawled :: "gotime option"
  dm_pages :: int
  dm_avg_ms :: int
  dm_created :: gotime
  dm_recrawled :: "gotime option"

definition domain_row_of :: "gotime \<Rightarrow> int \<Rightarrow> domain_info \<Rightarrow> domain_row" where
  "domain_row_of now i d = \<lparr>dm_id = i, dm_domain = dn_domain d, dm_robots = dn_robots d,
     dm_robots_fetched = time_column (dn_robots_fetched d), dm_last_crawled = time_column (dn_last_crawled d),
     dm_pages = dn_pages d, dm_avg_ms = dn_avg_ms d, dm_created = now, dm_recrawled = None\<rparr>"

definition merge_domain :: "domain_info \<Rightarrow> domain_row \<Rightarrow> domain_row" where
  "merge_domain d r = r\<lparr>dm_robots := (if dn_robots d \<noteq> [] then dn_robots d else dm_robots r),
     dm_robots_fetched := (if time_column (dn_robots_fetched d) \<noteq> None then time_column (dn_robots_fetched d) else dm_robots_fetched r),
     dm_last_crawled := (if time_column (dn_last_crawled d) \<noteq> None then time_column (dn_last_crawled d) else dm_last_crawled r),
     dm_pages := dn_pages d, dm_avg_ms := dn_avg_ms d\<rparr>"

definition upsert_domain :: "gotime \<Rightarrow> db_error option \<Rightarrow> domain_info \<Rightarrow> domain_row table \<Rightarrow> (db_error + unit) \<times> domain_row table" where
  "upsert_domain now e d t =
     (case e of Some x \<Rightarrow> (Inl x, t) | None \<Rightarrow> (Inr (), upsert dm_domain (domain_row_of now) merge_domain dn_domain d t))"

definition scan_domain :: "domain_row \<Rightarrow> domain_info" where
  "scan_domain r = \<lparr>dn_id = dm_id r, dn_domain = dm_domain r, dn_robots = dm_robots r,
     dn_robots_fetched = column_time (dm_robots_fetched r), dn_last_crawled = column_time (dm_last_crawled r),
     dn_recrawled = column_time (dm_recrawled r), dn_pages = dm_pages r, dn_avg_ms = dm_avg_ms r, dn_created = dm_created r\<rparr>"

text \<open>\<open>GetDomain\<close>: \<open>Inr None\<close> is the nil result for an unknown domain.\<close>

definition get_domain :: "db_error option \<Rightarrow> domain \<Rightarrow> domain_row table \<Rightarrow> db_error + domain_info option" where
  "get_domain e d t = (case e of Some x \<Rightarrow> Inl x | None \<Rightarrow> Inr (map_option scan_domain (lookup_row dm_domain d t)))"
subsection \<open>Seed URLs\<close>

record seed_url =
  sd_id :: int
  sd_url :: rawurl
  sd_domain :: domain
  sd_interval :: int
  sd_last :: gotime
  sd_created :: gotime

record seed_row =
  se_id :: int
  se_url :: rawurl
  se_domain :: domain
  se_interval :: int
  se_last :: "gotime option"
  se_created :: gotime

definition seed_row_of :: "gotime \<Rightarrow> int \<Rightarrow> seed_url \<Rightarrow> seed_row" where
  "seed_row_of now i s = \<lparr>se_id = i, se_url = sd_url s, se_domain = sd_domain s, se_interval = sd_interval s,
     se_last = Some (sd_last s), se_created = now\<rparr>"

definition merge_seed :: "seed_url \<Rightarrow> seed_row \<Rightarrow> seed_row" where
  "merge_seed s r = r\<lparr>se_interval := sd_interval s\<rparr>"

definition scan_seed :: "seed_row \<Rightarrow> seed_url" where
  "scan_seed r = \<lparr>sd_id = se_id r, sd_url = se_url r, sd_domain = se_domain r, sd_interval = se_interval r,
     sd_last = column_time (se_last r), sd_created = se_created r\<rparr>"

definition get_seed_urls :: "db_error option \<Rightarrow> seed_row table \<Rightarrow> db_error + seed_url list" where
  "get_seed_urls e t = (case e of Some x \<Rightarrow> Inl x | None \<Rightarrow> Inr (map scan_seed (sort_key se_created (tb_rows t))))"

definition upsert_seed_url :: "gotime \<Rightarrow> db_error option \<Rightarrow> seed_url \<Rightarrow> seed_row table \<Rightarrow> (db_error + unit) \<times> seed_row table" where
  "upsert_seed_url now e s t =
     (case e of Some x \<Rightarrow> (Inl x, t) | None \<Rightarrow> (Inr (), upsert se_url (seed_row_of now) merge_seed sd_url s t))"

definition delete_seed_url :: "db_error option \<Rightarrow> rawurl \<Rightarrow> seed_row table \<Rightarrow> (db_error + unit) \<times> seed_row table" where
  "delete_seed_url e u t = (case e of Some x \<Rightarrow> (Inl x, t) | None \<Rightarrow> (Inr (), snd (delete_where (\<lambda>r. se_url r = u) t)))"

text \<open>
  \<open>datetime('now', '-' || n || ' seconds')\<close> is a text of whole seconds, which the comparison with a stored
  time makes a comparison of whole seconds. For a negative \<open>n\<close> the modifier is malformed and the result
  \<open>NULL\<close>, which is less than nothing. \<open>'1970-01-01'\<close> stands in for a missing time.
\<close>

definition unix_epoch :: gotime where
  "unix_epoch = 62135596800 * second"

definition coalesce_time :: "gotime option \<Rightarrow> gotime" where
  "coalesce_time c = (case c of None \<Rightarrow> unix_epoch | Some t \<Rightarrow> t)"

definition older_than_seconds :: "gotime \<Rightarrow> int \<Rightarrow> gotime option \<Rightarrow> bool" where
  "older_than_seconds now n c \<longleftrightarrow> 0 \<le> n \<and> coalesce_time c div second < now div second - n"

definition get_stale_seed_urls :: "gotime \<Rightarrow> db_error option \<Rightarrow> int \<Rightarrow> seed_row table \<Rightarrow> db_error + seed_url list" where
  "get_stale_seed_urls now e limit t =
     (case e of
        Some x \<Rightarrow> Inl x
      | None \<Rightarrow> Inr (map scan_seed (sql_limit limit (sort_key (\<lambda>r. coalesce_time (se_last r))
                  (filter (\<lambda>r. older_than_seconds now (se_interval r) (se_last r)) (tb_rows t))))))"

definition update_seed_last_enqueued :: "db_error option \<Rightarrow> rawurl \<Rightarrow> gotime \<Rightarrow> seed_row table \<Rightarrow> (db_error + unit) \<times> seed_row table" where
  "update_seed_last_enqueued e u now t =
     (case e of Some x \<Rightarrow> (Inl x, t) | None \<Rightarrow> (Inr (), snd (update_where (\<lambda>r. se_url r = u) (\<lambda>r. r\<lparr>se_last := Some now\<rparr>) t)))"

subsection \<open>Homepage recrawls\<close>

text \<open>A duration in whole seconds; the conversion cuts off towards zero.\<close>

definition duration_seconds :: "duration \<Rightarrow> int" where
  "duration_seconds d = (if d < 0 then - ((- d) div second) else d div second)"

definition scan_stale_domain :: "domain_row \<Rightarrow> domain_info" where
  "scan_stale_domain r = (scan_domain r)\<lparr>dn_robots := [], dn_robots_fetched := time_zero, dn_avg_ms := 0\<rparr>"

definition get_stale_domains :: "gotime \<Rightarrow> db_error option \<Rightarrow> int \<Rightarrow> duration \<Rightarrow> int \<Rightarrow> seed_row table \<Rightarrow> domain_row table
    \<Rightarrow> db_error + domain_info list" where
  "get_stale_domains now e min_pages interval limit seeds t =
     (case e of
        Some x \<Rightarrow> Inl x
      | None \<Rightarrow> Inr (map scan_stale_domain (sql_limit limit
          (sort_key (\<lambda>r. - dm_pages r) (sort_key (\<lambda>r. coalesce_time (dm_recrawled r))
            (filter (\<lambda>r. min_pages \<le> dm_pages r \<and> dm_domain r \<notin> se_domain ` set (tb_rows seeds)
                \<and> older_than_seconds now (duration_seconds interval) (dm_recrawled r)) (tb_rows t)))))))"

definition update_domain_recrawl :: "db_error option \<Rightarrow> domain \<Rightarrow> gotime \<Rightarrow> domain_row table \<Rightarrow> (db_error + unit) \<times> domain_row table" where
  "update_domain_recrawl e d now t =
     (case e of Some x \<Rightarrow> (Inl x, t) | None \<Rightarrow> (Inr (), snd (update_where (\<lambda>r. dm_domain r = d) (\<lambda>r. r\<lparr>dm_recrawled := Some now\<rparr>) t)))"

subsection \<open>The tables as keyed tables\<close>

interpretation queue_rows: idempotent_table cq_id cq_url "queue_row_of now" "\<lambda>_ r. r" fst
  by unfold_locales (auto simp: queue_row_of_def)

interpretation domain_rows: idempotent_table dm_id dm_domain "domain_row_of now" merge_domain dn_domain
  by unfold_locales (auto simp: domain_row_of_def merge_domain_def)

interpretation seed_rows: idempotent_table se_id se_url "seed_row_of now" merge_seed sd_url
  by unfold_locales (auto simp: seed_row_of_def merge_seed_def)
subsection \<open>Claims\<close>

lemma fold_lock_rows:
  "fold (\<lambda>r t. snd (update_where (\<lambda>r'. cq_id r' = cq_id r) (lock_row now) t)) rs t
   = t\<lparr>tb_rows := map (\<lambda>r. if cq_id r \<in> cq_id ` set rs then lock_row now r else r) (tb_rows t)\<rparr>"
  by (induction rs arbitrary: t) (auto simp: update_where_def lock_row_def)

lemma claim_order_mset [simp]: "mset (claim_order rs) = mset rs"
  by (simp add: claim_order_def)

lemma claim_order_set [simp]: "set (claim_order rs) = set rs"
  by (simp add: claim_order_def)

lemma claim_order_length [simp]: "length (claim_order rs) = length rs"
  by (simp add: claim_order_def)

lemma insort_lex:
  fixes f g :: "'a \<Rightarrow> real"
  assumes "sorted_wrt (\<lambda>a b. f a < f b \<or> f a = f b \<and> g a \<le> g b) ys" and "\<forall>y \<in> set ys. g x \<le> g y"
  shows "sorted_wrt (\<lambda>a b. f a < f b \<or> f a = f b \<and> g a \<le> g b) (insort_key f x ys)"
  using assms by (induction ys) (auto simp: set_insort_key)

lemma sort_key_lex:
  fixes f g :: "'a \<Rightarrow> real"
  assumes "sorted_wrt (\<lambda>a b. g a \<le> g b) xs"
  shows "sorted_wrt (\<lambda>a b. f a < f b \<or> f a = f b \<and> g a \<le> g b) (sort_key f xs)"
  using assms by (induction xs) (auto simp: insort_lex)

definition claims_first :: "queue_row \<Rightarrow> queue_row \<Rightarrow> bool" where
  "claims_first a b \<longleftrightarrow> cq_score b < cq_score a \<or> cq_score a = cq_score b \<and> cq_added a \<le> cq_added b"

lemma claim_order_sorted: "sorted_wrt claims_first (claim_order rs)"
proof -
  have "sorted_wrt (\<lambda>a b. real_of_int (cq_added a) \<le> real_of_int (cq_added b)) (sort_key cq_added rs)"
    using sorted_sort_key [of cq_added rs] by (simp add: sorted_map)
  from sort_key_lex [OF this, where f = "\<lambda>r. - cq_score r"] show ?thesis
    by (simp add: claim_order_def claims_first_def [abs_def] eq_commute)
qed

definition claimable :: "domain list \<Rightarrow> queue_row \<Rightarrow> bool" where
  "claimable excl r \<longleftrightarrow> cq_status r = job_status_pending \<and> cq_domain r \<notin> set excl"

lemma dequeue_excluding_claims:
  "dequeue_urls_excluding now None limit excl t
   = (let rs = sql_limit limit (claim_order (filter (claimable excl) (tb_rows t)))
      in (Inr (map (claimed_job now) rs),
          t\<lparr>tb_rows := map (\<lambda>r. if cq_id r \<in> cq_id ` set rs then lock_row now r else r) (tb_rows t)\<rparr>))"
proof -
  have "(\<lambda>r. cq_status r = job_status_pending \<and> cq_domain r \<notin> set excl) = claimable excl" by (simp add: claimable_def [abs_def])
  moreover have "excl = [] \<Longrightarrow> (\<lambda>r. cq_status r = job_status_pending) = claimable excl" by (simp add: claimable_def [abs_def])
  ultimately show ?thesis
    by (simp add: dequeue_urls_excluding_def dequeue_urls_def claim_rows_def fold_lock_rows Let_def)
qed

lemma sql_limit_facts:
  assumes "0 \<le> limit"
  shows "length (sql_limit limit rs) = min (nat limit) (length rs)"
    and "sql_limit limit rs @ drop (nat limit) rs = rs"
  using assms by (auto simp: sql_limit_def)

text \<open>
  C18. A dequeue claims as many pending jobs of the domains that are not excluded as there are, up to the
  limit, the highest scores first and the older ones of equal score first; exactly the claimed rows change,
  to \<open>in_progress\<close> with the time of the claim, and no later dequeue claims one of them again
  unless it is released in between.
\<close>

theorem dequeue_claims_best:
  assumes wf: "table_wf cq_id cq_url t" and n: "0 \<le> limit"
    and d: "dequeue_urls_excluding now None limit excl t = (Inr js, t')"
  shows "length js = min (nat limit) (length (filter (claimable excl) (tb_rows t)))
    \<and> distinct (map cj_id js)
    \<and> (\<exists>rs. js = map (claimed_job now) rs \<and> set rs \<subseteq> set (filter (claimable excl) (tb_rows t)) \<and> sorted_wrt claims_first rs
         \<and> (\<forall>r \<in> set rs. \<forall>r' \<in> set (filter (claimable excl) (tb_rows t)) - set rs. claims_first r r'))
    \<and> tb_rows t' = map (\<lambda>r. if cq_id r \<in> cj_id ` set js then lock_row now r else r) (tb_rows t)
    \<and> (\<forall>now2 limit2 excl2 js2 t2. dequeue_urls_excluding now2 None limit2 excl2 t' = (Inr js2, t2)
         \<longrightarrow> cj_id ` set js2 \<inter> cj_id ` set js = {})"
proof -
  let ?open = "filter (claimable excl) (tb_rows t)"
  let ?rs = "sql_limit limit (claim_order ?open)"
  have js: "js = map (claimed_job now) ?rs"
    and t': "tb_rows t' = map (\<lambda>r. if cq_id r \<in> cq_id ` set ?rs then lock_row now r else r) (tb_rows t)"
    using d by (auto simp: dequeue_excluding_claims Let_def)
  have ids: "cj_id ` set js = cq_id ` set ?rs" by (simp add: js image_image claimed_job_def)
  have split: "?rs @ drop (nat limit) (claim_order ?open) = claim_order ?open" using n by (rule sql_limit_facts(2))
  have sub: "set ?rs \<subseteq> set ?open" by (metis Un_upper1 claim_order_set set_append split)
  have sw: "sorted_wrt claims_first (?rs @ drop (nat limit) (claim_order ?open))"
    unfolding split by (rule claim_order_sorted)
  have inj: "inj_on cq_id (set (tb_rows t))" using table_wf_ids [OF wf] by (simp add: distinct_map)
  have "distinct (map cq_id (claim_order ?open))"
  proof -
    have "distinct (map cq_id ?open)" using table_wf_ids [OF wf] by (simp add: distinct_map_filter)
    moreover have "mset (map cq_id (claim_order ?open)) = mset (map cq_id ?open)" by simp
    ultimately show ?thesis by (metis mset_eq_imp_distinct_iff)
  qed
  then have dist: "distinct (map cq_id ?rs)" by (metis distinct_append map_append split)
  have first: "claims_first r r'" if "r \<in> set ?rs" and "r' \<in> set ?open - set ?rs" for r r'
  proof -
    have "set ?open = set ?rs \<union> set (drop (nat limit) (claim_order ?open))" by (metis claim_order_set set_append split)
    then show ?thesis using that sw by (auto simp: sorted_wrt_append)
  qed
  have locked: "r' \<in> set (tb_rows t') \<Longrightarrow> claimable ex r' \<Longrightarrow> cq_id r' \<notin> cq_id ` set ?rs" for r' ex
    by (auto simp: t' lock_row_def claimable_def job_status_defs split: if_splits)
  have later: "cj_id ` set js2 \<inter> cj_id ` set js = {}" if "dequeue_urls_excluding now2 None limit2 excl2 t' = (Inr js2, t2)"
    for now2 limit2 excl2 js2 t2
  proof -
    have "js2 = map (claimed_job now2) (sql_limit limit2 (claim_order (filter (claimable excl2) (tb_rows t'))))"
      using that by (auto simp: dequeue_excluding_claims Let_def)
    moreover have "set (sql_limit limit2 xs) \<subseteq> set xs" for xs :: "queue_row list"
      by (auto simp: sql_limit_def dest: in_set_takeD)
    ultimately have "j \<in> set js2 \<Longrightarrow> \<exists>r' \<in> set (tb_rows t'). claimable excl2 r' \<and> cj_id j = cq_id r'" for j
      by (fastforce simp: claimed_job_def)
    then show ?thesis using locked unfolding ids by fastforce
  qed
  have "length js = min (nat limit) (length ?open)" using n by (simp add: js sql_limit_facts)
  moreover have "distinct (map cj_id js)" using dist by (simp add: js comp_def claimed_job_def)
  moreover have "sorted_wrt claims_first ?rs" using sw by (simp add: sorted_wrt_append)
  ultimately show ?thesis using js sub first later t' unfolding ids by blast
qed

text \<open>A closed instance: of three pending jobs two are claimed, the best first, while one domain is left out.\<close>

definition sample_jobs :: "queue_row table" where
  "sample_jobs = fold (insert_job 7)
     [(''https://a.example/'', ''a.example'', 0, 10), (''https://b.example/'', ''b.example'', 0, 100),
      (''https://c.example/'', ''c.example'', 1, 50), (''https://b.example/'', ''b.example'', 3, 900)] empty_table"

theorem dequeue_claims_best_witness:
  "(case dequeue_urls_excluding 9 None 2 [''c.example''] sample_jobs of
      (Inr js, t') \<Rightarrow> length js = 2 \<and> distinct (map cj_id js)
        \<and> map cj_url js = [''https://b.example/'', ''https://a.example/''] | (Inl e, t') \<Rightarrow> False)"
proof -
  have wf: "table_wf cq_id cq_url sample_jobs"
    unfolding sample_jobs_def insert_job_def by (rule queue_rows.fold_upsert_wf) simp
  obtain js t' where d: "dequeue_urls_excluding 9 None 2 [''c.example''] sample_jobs = (Inr js, t')"
    by (simp add: dequeue_excluding_claims Let_def)
  have "map cj_url js = [''https://b.example/'', ''https://a.example/'']" using d
    by (auto simp: dequeue_excluding_claims Let_def sample_jobs_def insert_job_def upsert_def empty_table_def queue_row_of_def
        claimable_def job_status_defs claim_order_def sql_limit_def claimed_job_def)
  then show ?thesis using dequeue_claims_best [OF wf _ d] d by (auto dest: arg_cong [of _ _ length])
qed

subsection \<open>Invariants of the database\<close>

record crawl_db =
  cd_queue :: "queue_row table"
  cd_domains :: "domain_row table"
  cd_seeds :: "seed_row table"

definition new_crawl_db :: crawl_db where
  "new_crawl_db = \<lparr>cd_queue = empty_table, cd_domains = empty_table, cd_seeds = empty_table\<rparr>"

text \<open>Every operation, at any time \<open>now\<close> and with any error \<open>e\<close>.\<close>

inductive crawl_db_step :: "stdlib \<Rightarrow> crawl_db \<Rightarrow> crawl_db \<Rightarrow> bool" for E where
  Enqueue: "crawl_db_step E s (s\<lparr>cd_queue := snd (enqueue_url now e j (cd_queue s))\<rparr>)"
| EnqueueAll: "crawl_db_step E s (s\<lparr>cd_queue := snd (enqueue_urls now e js (cd_queue s))\<rparr>)"
| EnqueueDirect: "crawl_db_step E s (s\<lparr>cd_queue := snd (enqueue_urls_directly E now e us depth base (cd_queue s))\<rparr>)"
| Dequeue: "crawl_db_step E s (s\<lparr>cd_queue := snd (dequeue_urls_excluding now e limit excl (cd_queue s))\<rparr>)"
| Complete: "crawl_db_step E s (s\<lparr>cd_queue := snd (complete_job e i err (cd_queue s))\<rparr>)"
| Return: "crawl_db_step E s (s\<lparr>cd_queue := snd (return_job e i (cd_queue s))\<rparr>)"
| Reset: "crawl_db_step E s (s\<lparr>cd_queue := snd (reset_stalled_jobs now e after (cd_queue s))\<rparr>)"
| Domain: "crawl_db_step E s (s\<lparr>cd_domains := snd (upsert_domain now e d (cd_domains s))\<rparr>)"
| Recrawled: "crawl_db_step E s (s\<lparr>cd_domains := snd (update_domain_recrawl e dm now (cd_domains s))\<rparr>)"
| Seed: "crawl_db_step E s (s\<lparr>cd_seeds := snd (upsert_seed_url now e sd (cd_seeds s))\<rparr>)"
| Unseed: "crawl_db_step E s (s\<lparr>cd_seeds := snd (delete_seed_url e u (cd_seeds s))\<rparr>)"
| Enqueued: "crawl_db_step E s (s\<lparr>cd_seeds := snd (update_seed_last_enqueued e u now (cd_seeds s))\<rparr>)"
| Purged: "crawl_db_step E s (s\<lparr>cd_queue := snd (delete_where P (cd_queue s)), cd_domains := snd (delete_where P' (cd_domains s)),
             cd_seeds := snd (delete_where P'' (cd_seeds s))\<rparr>)"

definition queue_row_ok :: "queue_row \<Rightarrow> bool" where
  "queue_row_ok r \<longleftrightarrow> cq_status r \<in> {job_status_pending, job_status_in_progress, job_status_failed}
     \<and> (cq_status r = job_status_pending \<longrightarrow> cq_locked r = None) \<and> (cq_status r = job_status_in_progress \<longrightarrow> cq_locked r \<noteq> None)"

definition jobs_ok :: "queue_row table \<Rightarrow> bool" where
  "jobs_ok t \<longleftrightarrow> table_wf cq_id cq_url t \<and> (\<forall>r \<in> set (tb_rows t). queue_row_ok r)"

lemma jobs_ok_empty [wf_intros]: "jobs_ok empty_table"
  by (simp add: jobs_ok_def) (simp add: empty_table_def)

lemma jobs_ok_insert [wf_intros]: "jobs_ok t \<Longrightarrow> jobs_ok (insert_job now v t)"
  using queue_rows.upsert_wf [of t now v]
  by (auto simp: jobs_ok_def insert_job_def upsert_def queue_row_ok_def queue_row_of_def job_status_defs split: if_splits prod.splits)

lemma jobs_ok_inserts [wf_intros]: "jobs_ok t \<Longrightarrow> jobs_ok (fold (\<lambda>j. insert_job now (g j)) js t)"
  by (induction js arbitrary: t) (auto intro: jobs_ok_insert)

lemma jobs_ok_direct: "jobs_ok t \<Longrightarrow> jobs_ok (snd (direct_rows E now depth base us t))"
proof (induction us arbitrary: t)
  case (Cons u us)
  have "jobs_ok (snd (direct_rows E now depth base us (insert_job now v t)))" for v
    using Cons by (simp add: jobs_ok_insert)
  then show ?case using Cons by (simp add: Let_def split: option.splits prod.splits) (metis snd_conv)
qed simp

lemma jobs_ok_delete [wf_intros]: "jobs_ok t \<Longrightarrow> jobs_ok (snd (delete_where P t))"
  by (auto simp: jobs_ok_def table_wf_delete) (auto simp: delete_where_def)

lemma jobs_ok_update:
  assumes "jobs_ok t" and "\<And>r. cq_id (f r) = cq_id r" and "\<And>r. cq_url (f r) = cq_url r"
    and "\<And>r. queue_row_ok r \<Longrightarrow> P r \<Longrightarrow> queue_row_ok (f r)"
  shows "jobs_ok (snd (update_where P f t))"
  using assms table_wf_update [of cq_id cq_url t f P] by (auto simp: jobs_ok_def update_where_def)

lemma jobs_ok_dequeue: "jobs_ok t \<Longrightarrow> jobs_ok (snd (dequeue_urls_excluding now e limit excl t))"
proof (cases e)
  case None
  assume "jobs_ok t"
  then have "jobs_ok (snd (update_where (\<lambda>r. cq_id r \<in> I) (lock_row now) t))" for I
    by (rule jobs_ok_update) (auto simp: lock_row_def queue_row_ok_def job_status_defs)
  then show ?thesis using None by (simp add: dequeue_excluding_claims Let_def update_where_def)
qed (simp add: dequeue_urls_excluding_def dequeue_urls_def)

lemma jobs_ok_complete: "jobs_ok t \<Longrightarrow> jobs_ok (snd (complete_job e i err t))"
  by (auto simp: complete_job_def queue_row_ok_def job_status_defs intro!: jobs_ok_delete jobs_ok_update split: option.splits)

lemma jobs_ok_return: "jobs_ok t \<Longrightarrow> jobs_ok (snd (return_job e i t))"
  by (auto simp: return_job_def queue_row_ok_def job_status_defs intro!: jobs_ok_update split: option.splits)

lemma jobs_ok_reset: "jobs_ok t \<Longrightarrow> jobs_ok (snd (reset_stalled_jobs now e after t))"
proof -
  let ?P = "\<lambda>r. cq_status r = job_status_in_progress \<and> locked_before (now - after) r"
  assume "jobs_ok t"
  then have "jobs_ok (snd (update_where ?P (\<lambda>r. r\<lparr>cq_status := job_status_pending, cq_locked := None\<rparr>) t))"
    by (rule jobs_ok_update) (auto simp: queue_row_ok_def job_status_defs)
  then show ?thesis using \<open>jobs_ok t\<close> by (auto simp: reset_stalled_jobs_def split: option.splits prod.splits)
qed

definition crawl_db_ok :: "crawl_db \<Rightarrow> bool" where
  "crawl_db_ok s \<longleftrightarrow> jobs_ok (cd_queue s) \<and> table_wf dm_id dm_domain (cd_domains s) \<and> table_wf se_id se_url (cd_seeds s)"

lemma crawl_db_step_ok: "crawl_db_step E s s' \<Longrightarrow> crawl_db_ok s \<Longrightarrow> crawl_db_ok s'"
proof (induction rule: crawl_db_step.induct)
  case (EnqueueAll s now e js)
  then show ?case by (auto simp: crawl_db_ok_def enqueue_urls_def intro: wf_intros split: option.splits)
next
  case (EnqueueDirect s now e us depth base)
  then show ?case using jobs_ok_direct [of "cd_queue s" E now depth base us]
    by (auto simp: crawl_db_ok_def enqueue_urls_directly_def split: option.splits prod.splits)
next
  case (Recrawled s e dm now)
  then show ?case by (auto simp: crawl_db_ok_def update_domain_recrawl_def intro!: table_wf_update split: option.splits)
next
  case (Enqueued s e u now)
  then show ?case by (auto simp: crawl_db_ok_def update_seed_last_enqueued_def intro!: table_wf_update split: option.splits)
qed (auto simp: crawl_db_ok_def enqueue_url_def upsert_domain_def upsert_seed_url_def delete_seed_url_def table_wf_delete
       intro: wf_intros jobs_ok_dequeue jobs_ok_complete jobs_ok_return jobs_ok_reset domain_rows.upsert_wf seed_rows.upsert_wf
       split: option.splits)

lemma crawl_db_reachable_ok: "(crawl_db_step E)\<^sup>*\<^sup>* new_crawl_db s \<Longrightarrow> crawl_db_ok s"
proof (induction rule: rtranclp_induct)
  case base
  show ?case by (simp add: crawl_db_ok_def new_crawl_db_def jobs_ok_empty)
qed (rule crawl_db_step_ok)

text \<open>
  C19. In every database the operations can produce, urls and ids of the queue are unique, no job is ever
  stored as done, the three other states account for all rows, and after a reset of stalled jobs none is in
  progress with a lock older than the cutoff: a claimed job always has a lock, so no crash can strand it.
\<close>

theorem crawl_queue_consistent:
  assumes "(crawl_db_step E)\<^sup>*\<^sup>* new_crawl_db s"
  shows "distinct (map cq_url (tb_rows (cd_queue s))) \<and> distinct (map cq_id (tb_rows (cd_queue s)))
    \<and> qs_done (get_queue_stats (cd_queue s)) = 0
    \<and> qs_pending (get_queue_stats (cd_queue s)) + qs_in_progress (get_queue_stats (cd_queue s)) + qs_failed (get_queue_stats (cd_queue s))
        = qs_total (get_queue_stats (cd_queue s))
    \<and> (\<forall>r \<in> set (tb_rows (snd (reset_stalled_jobs now None after (cd_queue s)))).
         cq_status r = job_status_in_progress \<longrightarrow> (\<exists>l. cq_locked r = Some l \<and> now - after \<le> l))"
proof -
  have ok: "jobs_ok (cd_queue s)" using crawl_db_reachable_ok [OF assms] by (simp add: crawl_db_ok_def)
  then have rows: "\<forall>r \<in> set (tb_rows (cd_queue s)). queue_row_ok r" and wf: "table_wf cq_id cq_url (cd_queue s)"
    by (auto simp: jobs_ok_def)
  have "length (filter (\<lambda>r. cq_status r = job_status_pending) rs) + length (filter (\<lambda>r. cq_status r = job_status_in_progress) rs)
      + length (filter (\<lambda>r. cq_status r = job_status_failed) rs) = length rs
      \<and> length (filter (\<lambda>r. cq_status r = job_status_done) rs) = 0" if "\<forall>r \<in> set rs. queue_row_ok r" for rs
    using that by (induction rs) (auto simp: queue_row_ok_def job_status_defs)
  from this [OF rows] have "qs_done (get_queue_stats (cd_queue s)) = 0"
    and "qs_pending (get_queue_stats (cd_queue s)) + qs_in_progress (get_queue_stats (cd_queue s)) + qs_failed (get_queue_stats (cd_queue s))
        = qs_total (get_queue_stats (cd_queue s))" by (auto simp: get_queue_stats_def status_count_def)
  moreover have "\<forall>r \<in> set (tb_rows (snd (reset_stalled_jobs now None after (cd_queue s)))).
       cq_status r = job_status_in_progress \<longrightarrow> (\<exists>l. cq_locked r = Some l \<and> now - after \<le> l)"
    using rows by (auto simp: reset_stalled_jobs_def update_where_def locked_before_def queue_row_ok_def job_status_defs split: option.splits)
  ultimately show ?thesis using wf table_wf_ids [OF wf] by (auto simp: table_wf_def)
qed

theorem crawl_queue_consistent_witness:
  "let s = new_crawl_db\<lparr>cd_queue := snd (dequeue_urls_excluding 5 None 1 [] (snd (enqueue_url 3 None (claimed_job 0
          (queue_row_of 0 0 (''https://a.example/'', ''a.example'', 0, 10))) empty_table)))\<rparr>
   in qs_done (get_queue_stats (cd_queue s)) = 0 \<and> qs_total (get_queue_stats (cd_queue s)) = 1"
proof -
  let ?j = "claimed_job 0 (queue_row_of 0 0 (''https://a.example/'', ''a.example'', 0, 10))"
  let ?t = "snd (enqueue_url 3 None ?j empty_table)"
  let ?t2 = "snd (dequeue_urls_excluding 5 None 1 [] ?t)"
  have "crawl_db_step ascii_stdlib new_crawl_db (new_crawl_db\<lparr>cd_queue := ?t\<rparr>)"
    using Enqueue [of ascii_stdlib new_crawl_db 3 None ?j] by (simp add: new_crawl_db_def)
  moreover have "crawl_db_step ascii_stdlib (new_crawl_db\<lparr>cd_queue := ?t\<rparr>) (new_crawl_db\<lparr>cd_queue := ?t2\<rparr>)"
    using Dequeue [of ascii_stdlib "new_crawl_db\<lparr>cd_queue := ?t\<rparr>" 5 None 1 "[]"] by simp
  ultimately have "(crawl_db_step ascii_stdlib)\<^sup>*\<^sup>* new_crawl_db (new_crawl_db\<lparr>cd_queue := ?t2\<rparr>)" by simp
  from crawl_queue_consistent [OF this, of 0 0] show ?thesis
    by (simp add: Let_def get_queue_stats_def dequeue_excluding_claims enqueue_url_def insert_job_def upsert_def empty_table_def)
qed

end
