(* ===== verification/Scheduler.thy ===== *)
theory Scheduler
  imports CrawlDb Pages
begin

text \<open>
  The re-crawl scheduler of \<open>internal/scheduler/scheduler.go\<close>: one \<open>tick\<close> moves stale seeds, stale home
  pages and the jobs of the table \<open>crawl_queue\<close> into the in-memory frontier. A tick runs at one time
  \<open>now\<close>; \<open>F\<close> holds the database error of each of its statements, if there is one.
  \<open>AddBatchDirect\<close> of the frontier never fails, so the branches for its error are not reached.
\<close>

record tick_faults =
  tf_stale_seeds :: "db_error option"
  tf_seed_update :: "rawurl \<Rightarrow> db_error option"
  tf_reset :: "db_error option"
  tf_stale_domains :: "db_error option"
  tf_domain_update :: "domain \<Rightarrow> db_error option"
  tf_dequeue :: "db_error option"
  tf_complete :: "int \<Rightarrow> db_error option"

definition no_faults :: tick_faults where
  "no_faults = \<lparr>tf_stale_seeds = None, tf_seed_update = (\<lambda>_. None), tf_reset = None, tf_stale_domains = None,
     tf_domain_update = (\<lambda>_. None), tf_dequeue = None, tf_complete = (\<lambda>_. None)\<rparr>"

type_synonym 'b sched_state = "'b frontier \<times> crawl_db"

definition schedule_urls :: "stdlib \<Rightarrow> (job \<Rightarrow> float64) \<Rightarrow> rawurl list \<Rightarrow> int \<Rightarrow> float64 \<Rightarrow> 'b frontier \<Rightarrow> 'b frontier" where
  "schedule_urls E score us depth base f = snd (add_batch_direct E score us depth base f)"

subsection \<open>The parts of a tick\<close>

definition tick_seeds :: "stdlib \<Rightarrow> (job \<Rightarrow> float64) \<Rightarrow> gotime \<Rightarrow> tick_faults \<Rightarrow> 'b sched_state \<Rightarrow> 'b sched_state option" where
  "tick_seeds E score now F st =
     (case st of (f, s) \<Rightarrow>
       (case get_stale_seed_urls now (tf_stale_seeds F) 100 (cd_seeds s) of
          Inl e \<Rightarrow> None
        | Inr seeds \<Rightarrow>
            if seeds = [] then Some (f, s)
            else Some (schedule_urls E score (map sd_url seeds) 0 (priority_recrawl + 5) f,
                   s\<lparr>cd_seeds := fold (\<lambda>sd t. snd (update_seed_last_enqueued (tf_seed_update F (sd_url sd)) (sd_url sd) now t))
                       seeds (cd_seeds s)\<rparr>)))"

definition tick_reset :: "gotime \<Rightarrow> tick_faults \<Rightarrow> crawl_db \<Rightarrow> crawl_db" where
  "tick_reset now F s = s\<lparr>cd_queue := snd (reset_stalled_jobs now (tf_reset F) (30 * minute) (cd_queue s))\<rparr>"

definition tick_domains :: "stdlib \<Rightarrow> (job \<Rightarrow> float64) \<Rightarrow> gotime \<Rightarrow> tick_faults \<Rightarrow> scheduler_config \<Rightarrow> 'b sched_state \<Rightarrow> 'b sched_state" where
  "tick_domains E score now F cfg st =
     (case st of (f, s) \<Rightarrow>
       if sch_domain_recrawl cfg \<le> 0 then (f, s)
       else (case get_stale_domains now (tf_stale_domains F) (if sch_min_pages cfg \<le> 0 then 10 else sch_min_pages cfg)
                    (sch_domain_recrawl cfg) (if sch_batch_limit cfg \<le> 0 then 50 else sch_batch_limit cfg) (cd_seeds s) (cd_domains s) of
               Inl e \<Rightarrow> (f, s)
             | Inr ds \<Rightarrow>
                 if ds = [] then (f, s)
                 else (schedule_urls E score (map (\<lambda>d. ''https://'' @ dn_domain d @ ''/'') ds) (sch_depth cfg) priority_recrawl f,
                   s\<lparr>cd_domains := fold (\<lambda>d t. snd (update_domain_recrawl (tf_domain_update F (dn_domain d)) (dn_domain d) now t))
                       ds (cd_domains s)\<rparr>)))"

definition tick_manual :: "stdlib \<Rightarrow> (job \<Rightarrow> float64) \<Rightarrow> gotime \<Rightarrow> tick_faults \<Rightarrow> 'b sched_state \<Rightarrow> 'b sched_state" where
  "tick_manual E score now F st =
     (case st of (f, s) \<Rightarrow>
       (case dequeue_urls now (tf_dequeue F) 100 (cd_queue s) of
          (Inl e, q) \<Rightarrow> (f, s\<lparr>cd_queue := q\<rparr>)
        | (Inr js, q) \<Rightarrow>
            if js = [] then (f, s\<lparr>cd_queue := q\<rparr>)
            else (schedule_urls E score (map cj_url js) 0 priority_normal f,
                  s\<lparr>cd_queue := fold (\<lambda>i t. snd (complete_job (tf_complete F i) i None t)) (map cj_id js) q\<rparr>)))"

definition tick :: "stdlib \<Rightarrow> (job \<Rightarrow> float64) \<Rightarrow> gotime \<Rightarrow> tick_faults \<Rightarrow> scheduler_config \<Rightarrow> 'b sched_state \<Rightarrow> 'b sched_state" where
  "tick E score now F cfg st =
     (case tick_seeds E score now F st of
        None \<Rightarrow> st
      | Some (f1, s1) \<Rightarrow> tick_manual E score now F (tick_domains E score now F cfg (f1, tick_reset now F s1)))"

text \<open>
  A failing query for stale seeds ends the tick: the stalled jobs are then not reset, although the code
  says that they are reset regardless of the result of the seed re-crawl.
\<close>

lemma seed_error_ends_tick: "tf_stale_seeds F = Some e \<Longrightarrow> tick E score now F cfg st = st"
  by (simp add: tick_def tick_seeds_def get_stale_seed_urls_def split: prod.splits)

subsection \<open>What scheduling does to the frontier\<close>

definition has_job :: "rawurl \<Rightarrow> domain \<Rightarrow> 'b frontier \<Rightarrow> bool" where
  "has_job u d f \<longleftrightarrow> (\<exists>j. j \<in># pending (fr_queue f) \<and> j_url j = u \<and> j_domain j = d)"

lemma has_job_mono: "has_job u d f \<Longrightarrow> pending (fr_queue f) \<subseteq># pending (fr_queue f') \<Longrightarrow> has_job u d f'"
  by (auto simp: has_job_def dest: mset_subset_eqD)

lemma direct_loop_adds:
  "finite (dom (q_domains q)) \<Longrightarrow> direct_loop jobs n q = (m, q')
   \<Longrightarrow> finite (dom (q_domains q')) \<and> pending q \<subseteq># pending q' \<and> (\<forall>j \<in> set jobs. \<exists>i. j\<lparr>j_id := i\<rparr> \<in># pending q')"
proof (induction jobs arbitrary: n q)
  case (Cons j jobs)
  have fin: "finite (dom (q_domains (push_job j q)))" using Cons.prems(1) by (simp add: push_job_domains)
  have add: "pending (push_job j q) = add_mset (stamped j q) (pending q)" using Cons.prems(1) by (rule pending_push)
  have ih: "finite (dom (q_domains q')) \<and> pending (push_job j q) \<subseteq># pending q' \<and> (\<forall>x \<in> set jobs. \<exists>i. x\<lparr>j_id := i\<rparr> \<in># pending q')"
    using Cons.IH [OF fin, of "n + 1"] Cons.prems(2) by simp
  have "stamped j q \<in># pending q'" using ih add by (auto dest: mset_subset_eqD)
  moreover have "pending q \<subseteq># pending (push_job j q)" by (simp add: add)
  then have "pending q \<subseteq># pending q'" using ih subset_mset.order_trans by blast
  ultimately show ?case using ih by (auto simp: stamped_def)
qed auto

lemma direct_jobs_member:
  "u \<in> set us \<Longrightarrow> admit E bl u = Some c \<Longrightarrow> make_job score c depth base (no_context u) \<in> set (direct_jobs E bl score depth base us)"
  by (induction us) (auto split: option.splits)

lemma schedule_urls_adds:
  assumes ok: "frontier_ok E f"
  shows "pending (fr_queue f) \<subseteq># pending (fr_queue (schedule_urls E score us depth base f))"
    and "u \<in> set us \<Longrightarrow> admit E (fr_black f) u = Some (n, d, fp) \<Longrightarrow> has_job n d (schedule_urls E score us depth base f)"
proof -
  let ?jobs = "direct_jobs E (fr_black f) score depth base us"
  obtain m q where q: "direct_loop ?jobs 0 (fr_queue f) = (m, q)" by fastforce
  have "finite (dom (q_domains (fr_queue f)))" using ok by (simp add: frontier_ok_def queue_wf_def)
  from direct_loop_adds [OF this q]
  have adds: "pending (fr_queue f) \<subseteq># pending q" "\<forall>j \<in> set ?jobs. \<exists>i. j\<lparr>j_id := i\<rparr> \<in># pending q" by auto
  have eq: "us \<noteq> [] \<Longrightarrow> ?jobs \<noteq> [] \<Longrightarrow> pending (fr_queue (schedule_urls E score us depth base f)) = pending q"
    by (simp add: schedule_urls_def add_batch_direct_def enqueue_batch_direct_def q split: prod.splits) (metis finish_batch_pending snd_conv)
  have none: "us = [] \<or> ?jobs = [] \<Longrightarrow> schedule_urls E score us depth base f = f"
    by (auto simp: schedule_urls_def add_batch_direct_def)
  show "pending (fr_queue f) \<subseteq># pending (fr_queue (schedule_urls E score us depth base f))"
    using eq none adds(1) by (cases "us = [] \<or> ?jobs = []") auto
  assume u: "u \<in> set us" "admit E (fr_black f) u = Some (n, d, fp)"
  have j: "make_job score (n, d, fp) depth base (no_context u) \<in> set ?jobs" using u by (rule direct_jobs_member)
  then have "us \<noteq> []" "?jobs \<noteq> []" using u by auto
  moreover obtain i where "(make_job score (n, d, fp) depth base (no_context u))\<lparr>j_id := i\<rparr> \<in># pending q" using adds(2) j by blast
  ultimately show "has_job n d (schedule_urls E score us depth base f)"
    unfolding has_job_def by (auto simp: eq make_job_def Let_def intro: exI [of _ "(make_job score (n, d, fp) depth base (no_context u))\<lparr>j_id := i\<rparr>"])
qed

lemma schedule_urls_ok:
  "scorer_contract score \<Longrightarrow> frontier_ok E f \<Longrightarrow> frontier_ok E (schedule_urls E score us depth base f)
   \<and> fr_black (schedule_urls E score us depth base f) = fr_black f"
  unfolding schedule_urls_def by (rule add_batch_direct_ok)

subsection \<open>What a tick does to the database\<close>

lemma steps_fold:
  assumes "\<And>x s. (crawl_db_step E)\<^sup>*\<^sup>* s (put (g x (get s)) s)" and "\<And>a s. get (put a s) = a"
    and "\<And>a b s. put a (put b s) = put a s" and "\<And>s. put (get s) s = s"
  shows "(crawl_db_step E)\<^sup>*\<^sup>* s (put (fold g xs (get s)) s)"
proof (induction xs arbitrary: s)
  case (Cons x xs)
  have "(crawl_db_step E)\<^sup>*\<^sup>* s (put (g x (get s)) s)" by (rule assms(1))
  also have "(crawl_db_step E)\<^sup>*\<^sup>* (put (g x (get s)) s) (put (fold g xs (get (put (g x (get s)) s))) (put (g x (get s)) s))" by (rule Cons)
  finally show ?case by (simp add: assms(2,3))
qed (simp add: assms(4))

lemma steps_seeds:
  "(crawl_db_step E)\<^sup>*\<^sup>* s (s\<lparr>cd_seeds := fold (\<lambda>sd t. snd (update_seed_last_enqueued (e sd) (u sd) now t)) xs (cd_seeds s)\<rparr>)"
  by (rule steps_fold [where get = cd_seeds and put = "\<lambda>a s. s\<lparr>cd_seeds := a\<rparr>"]) (auto intro: Enqueued)

lemma steps_domains:
  "(crawl_db_step E)\<^sup>*\<^sup>* s (s\<lparr>cd_domains := fold (\<lambda>d t. snd (update_domain_recrawl (e d) (u d) now t)) xs (cd_domains s)\<rparr>)"
  by (rule steps_fold [where get = cd_domains and put = "\<lambda>a s. s\<lparr>cd_domains := a\<rparr>"]) (auto intro: Recrawled)

lemma steps_complete:
  "(crawl_db_step E)\<^sup>*\<^sup>* s (s\<lparr>cd_queue := fold (\<lambda>i t. snd (complete_job (e i) i None t)) ks (cd_queue s)\<rparr>)"
  by (rule steps_fold [where get = cd_queue and put = "\<lambda>a s. s\<lparr>cd_queue := a\<rparr>"]) (auto intro: Complete)

text \<open>A part of a tick keeps the invariants and every waiting job, and acts on the database by its operations.\<close>

definition sched_step :: "stdlib \<Rightarrow> 'b sched_state \<Rightarrow> 'b sched_state \<Rightarrow> bool" where
  "sched_step E st st' \<longleftrightarrow> (frontier_ok E (fst st) \<longrightarrow> frontier_ok E (fst st') \<and> fr_black (fst st') = fr_black (fst st)
       \<and> pending (fr_queue (fst st)) \<subseteq># pending (fr_queue (fst st')))
     \<and> (crawl_db_step E)\<^sup>*\<^sup>* (snd st) (snd st')"

lemma sched_step_refl: "sched_step E st st"
  by (simp add: sched_step_def)

lemma sched_step_trans: "sched_step E a b \<Longrightarrow> sched_step E b c \<Longrightarrow> sched_step E a c"
  unfolding sched_step_def using subset_mset.order_trans rtranclp_trans by (metis (no_types, lifting))

lemma sched_step_schedule:
  "scorer_contract score \<Longrightarrow> (crawl_db_step E)\<^sup>*\<^sup>* s s' \<Longrightarrow> sched_step E (f, s) (schedule_urls E score us depth base f, s')"
  by (simp add: sched_step_def schedule_urls_ok schedule_urls_adds(1))

lemma tick_seeds_step:
  "scorer_contract score \<Longrightarrow> tick_seeds E score now F (f, s) = Some (f1, s1) \<Longrightarrow> sched_step E (f, s) (f1, s1) \<and> cd_queue s1 = cd_queue s"
  by (auto simp: tick_seeds_def sched_step_refl intro!: sched_step_schedule steps_seeds split: sum.splits if_splits)

lemma tick_reset_step: "sched_step E (f, s) (f, tick_reset now F s)"
  by (auto simp: sched_step_def tick_reset_def intro: Reset)

lemma tick_domains_step:
  "scorer_contract score \<Longrightarrow> tick_domains E score now F cfg (f, s) = (f1, s1) \<Longrightarrow> sched_step E (f, s) (f1, s1) \<and> cd_queue s1 = cd_queue s"
  by (auto simp: tick_domains_def sched_step_refl intro!: sched_step_schedule steps_domains split: sum.splits if_splits)

lemma dequeue_urls_excluding_none: "dequeue_urls now e n t = dequeue_urls_excluding now e n [] t"
  by (simp add: dequeue_urls_excluding_def)

lemma tick_manual_step:
  assumes "scorer_contract score" and "tick_manual E score now F (f, s) = (f1, s1)"
  shows "sched_step E (f, s) (f1, s1)"
proof -
  let ?d = "dequeue_urls now (tf_dequeue F) 100 (cd_queue s)"
  have deq: "(crawl_db_step E)\<^sup>*\<^sup>* s (s\<lparr>cd_queue := snd ?d\<rparr>)"
    unfolding dequeue_urls_excluding_none by (auto intro: Dequeue)
  have "(crawl_db_step E)\<^sup>*\<^sup>* s (s\<lparr>cd_queue := fold (\<lambda>i t. snd (complete_job (tf_complete F i) i None t)) ks (snd ?d)\<rparr>)" for ks
    using rtranclp_trans [OF deq steps_complete [where s = "s\<lparr>cd_queue := snd ?d\<rparr>" and ks = ks]] by simp
  then show ?thesis using assms deq
    by (auto simp: tick_manual_def sched_step_refl intro!: sched_step_schedule split: sum.splits prod.splits if_splits)
      (auto simp: sched_step_def)
qed

lemma tick_step:
  assumes sc: "scorer_contract score" and t: "tick E score now F cfg (f, s) = (f', s')"
  shows "sched_step E (f, s) (f', s')"
proof (cases "tick_seeds E score now F (f, s)")
  case None
  then show ?thesis using t by (simp add: tick_def sched_step_refl)
next
  case (Some st1)
  obtain f1 s1 where st1: "st1 = (f1, s1)" by (cases st1)
  obtain f2 s2 where d: "tick_domains E score now F cfg (f1, tick_reset now F s1) = (f2, s2)" by fastforce
  have "sched_step E (f, s) (f1, s1)" using tick_seeds_step [OF sc] Some st1 by blast
  moreover have "sched_step E (f1, s1) (f2, s2)"
    using sched_step_trans [OF tick_reset_step] tick_domains_step [OF sc d] by blast
  moreover have "tick_manual E score now F (f2, s2) = (f', s')" using t Some st1 d by (simp add: tick_def)
  ultimately show ?thesis using tick_manual_step [OF sc] sched_step_trans by metis
qed

subsection \<open>Jobs on their way from the table to the frontier\<close>

definition job_keys :: "queue_row table \<Rightarrow> (int \<times> rawurl) set" where
  "job_keys t = (\<lambda>r. (cq_id r, cq_url r)) ` set (tb_rows t)"

lemma job_keys_map:
  assumes "\<And>r. cq_id (f r) = cq_id r" and "\<And>r. cq_url (f r) = cq_url r"
  shows "job_keys (t\<lparr>tb_rows := map f (tb_rows t)\<rparr>) = job_keys t"
  by (simp add: job_keys_def image_image assms)

lemma job_keys_reset: "job_keys (snd (reset_stalled_jobs now e after t)) = job_keys t"
  by (auto simp: reset_stalled_jobs_def update_where_def job_keys_map split: option.splits)

lemma job_keys_dequeue:
  assumes "dequeue_urls now e n t = (r, t')"
  shows "job_keys t' = job_keys t" and "r = Inr js \<Longrightarrow> j \<in> set js \<Longrightarrow> (cj_id j, cj_url j) \<in> job_keys t"
proof -
  show "job_keys t' = job_keys t" using assms
    by (cases e) (auto simp: dequeue_urls_def claim_rows_def fold_lock_rows lock_row_def job_keys_map)
  show "r = Inr js \<Longrightarrow> j \<in> set js \<Longrightarrow> (cj_id j, cj_url j) \<in> job_keys t" using assms
    by (cases e) (auto simp: job_keys_def dequeue_urls_def claim_rows_def claimed_job_def sql_limit_def dest!: in_set_takeD split: if_splits)
qed

lemma job_keys_complete:
  "k \<in> job_keys t \<Longrightarrow> fst k \<notin> set ks \<Longrightarrow> k \<in> job_keys (fold (\<lambda>i t. snd (complete_job (e i) i None t)) ks t)"
proof (induction ks arbitrary: t)
  case (Cons i ks)
  have "k \<in> job_keys (snd (complete_job (e i) i None t))"
  proof -
    obtain r where "k = (cq_id r, cq_url r)" "r \<in> set (tb_rows t)" using Cons.prems(1) by (auto simp: job_keys_def)
    then show ?thesis using Cons.prems(2) unfolding job_keys_def
      by (intro image_eqI [of _ _ r]) (simp_all add: complete_job_def delete_where_def split: option.split)
  qed
  then show ?case using Cons.IH Cons.prems(2) by simp
qed simp

lemma job_keys_unique: "table_wf cq_id cq_url t \<Longrightarrow> (i, u) \<in> job_keys t \<Longrightarrow> (i, u') \<in> job_keys t \<Longrightarrow> u = u'"
  using table_wf_ids [of cq_id cq_url t] by (auto simp: job_keys_def distinct_map dest: inj_onD)

lemma tick_manual_transfers:
  assumes wf: "table_wf cq_id cq_url (cd_queue s)" and ok: "frontier_ok E f"
    and t: "tick_manual E score now F (f, s) = (f', s')"
    and k: "(i, u) \<in> job_keys (cd_queue s)" "(i, u) \<notin> job_keys (cd_queue s')"
    and a: "admit E (fr_black f) u = Some (n, d, fp)"
  shows "has_job n d f'"
proof -
  obtain r q where q: "dequeue_urls now (tf_dequeue F) 100 (cd_queue s) = (r, q)" by fastforce
  have kq: "(i, u) \<in> job_keys q" using job_keys_dequeue(1) [OF q] k(1) by simp
  then obtain js where js: "r = Inr js" "js \<noteq> []"
    using t k(2) q by (auto simp: tick_manual_def split: sum.splits if_splits)
  then have f': "f' = schedule_urls E score (map cj_url js) 0 priority_normal f"
    and s': "cd_queue s' = fold (\<lambda>i t. snd (complete_job (tf_complete F i) i None t)) (map cj_id js) q"
    using t q by (auto simp: tick_manual_def split: if_splits)
  have "i \<in> set (map cj_id js)" using k(2) kq job_keys_complete [of "(i, u)" q "map cj_id js" "tf_complete F"] unfolding s' by auto
  then obtain j where j: "j \<in> set js" "cj_id j = i" by auto
  have "cj_url j = u" using job_keys_dequeue(2) [OF q js(1) j(1)] job_keys_unique [OF wf] k(1) j(2) by blast
  then have "u \<in> set (map cj_url js)" using j(1) by auto
  then show ?thesis unfolding f' using a by (rule schedule_urls_adds(2) [OF ok])
qed

text \<open>A queued job and a stale seed for the closed instances.\<close>

definition sample_sched :: "unit sched_state" where
  "sample_sched = (new_frontier (new_queue ()) [''bad.org''] 10000,
     new_crawl_db\<lparr>cd_queue := insert_job 7 (''http://a.org/item/1'', ''a.org'', 0, 10) empty_table,
       cd_seeds := upsert se_url (seed_row_of 7) merge_seed sd_url
         \<lparr>sd_id = 0, sd_url = ''http://a.org/item/1'', sd_domain = ''a.org'', sd_interval = 60, sd_last = 0, sd_created = 0\<rparr> empty_table\<rparr>)"

abbreviation "sample_score \<equiv> static_score (new_static 50 10 30 12)"
abbreviation "sample_now \<equiv> 100 * second"

lemma sample_admit: "admit ascii_stdlib [''bad.org''] ''http://a.org/item/1'' = Some (''http://a.org/item/1'', ''a.org'', ''http://a.org/item/{num}'')"
  by code_simp

lemma sample_frontier_facts: "frontier_ok ascii_stdlib (fst sample_sched)" "fr_black (fst sample_sched) = [''bad.org'']"
  by (simp_all add: sample_sched_def new_frontier_ok) (simp add: new_frontier_def)

lemma sample_tables:
  "tb_rows (cd_queue (snd sample_sched)) = [queue_row_of 7 1 (''http://a.org/item/1'', ''a.org'', 0, 10)]"
  "get_stale_seed_urls sample_now None 100 (cd_seeds (snd sample_sched))
   = Inr [\<lparr>sd_id = 1, sd_url = ''http://a.org/item/1'', sd_domain = ''a.org'', sd_interval = 60, sd_last = 0, sd_created = 7\<rparr>]"
  by (simp_all add: sample_sched_def insert_job_def upsert_def empty_table_def get_stale_seed_urls_def seed_row_of_def
      scan_seed_def older_than_seconds_def coalesce_time_def column_time_def sql_limit_def)

text \<open>
  C15. Whatever statements fail, a tick of the scheduler keeps the invariants of the frontier and of the
  database and every waiting job, and loses no job of the database queue: one that is gone from the table is
  waiting in the frontier, unless admission refuses its URL.
\<close>

theorem no_manual_job_lost:
  assumes sc: "scorer_contract score" and ok: "frontier_ok E f" and db: "crawl_db_ok s"
    and t: "tick E score now F cfg (f, s) = (f', s')"
  shows "frontier_ok E f' \<and> crawl_db_ok s' \<and> pending (fr_queue f) \<subseteq># pending (fr_queue f')
    \<and> (\<forall>r \<in> set (tb_rows (cd_queue s)). (\<forall>r' \<in> set (tb_rows (cd_queue s')). cq_id r' \<noteq> cq_id r)
         \<longrightarrow> (case admit E (fr_black f) (cq_url r) of None \<Rightarrow> True | Some (n, d, fp) \<Rightarrow> has_job n d f'))"
proof -
  have st: "sched_step E (f, s) (f', s')" using sc t by (rule tick_step)
  have inv: "(crawl_db_step E)\<^sup>*\<^sup>* a b \<Longrightarrow> crawl_db_ok a \<Longrightarrow> crawl_db_ok b" for a b
    by (induction rule: rtranclp_induct) (auto intro: crawl_db_step_ok)
  have lost: "has_job n d f'" if r: "r \<in> set (tb_rows (cd_queue s))" and gone: "\<forall>r' \<in> set (tb_rows (cd_queue s')). cq_id r' \<noteq> cq_id r"
    and a: "admit E (fr_black f) (cq_url r) = Some (n, d, fp)" for r n d fp
  proof -
    have "s' \<noteq> s" using r gone by auto
    then obtain f1 s1 where s1: "tick_seeds E score now F (f, s) = Some (f1, s1)"
      using t by (auto simp: tick_def split: option.splits)
    obtain f2 s2 where d: "tick_domains E score now F cfg (f1, tick_reset now F s1) = (f2, s2)" by fastforce
    have m: "tick_manual E score now F (f2, s2) = (f', s')" using t s1 d by (simp add: tick_def)
    have a1: "sched_step E (f, s) (f1, s1)" "cd_queue s1 = cd_queue s" using tick_seeds_step [OF sc s1] by auto
    have a2: "sched_step E (f1, tick_reset now F s1) (f2, s2)" "cd_queue s2 = cd_queue (tick_reset now F s1)"
      using tick_domains_step [OF sc d] by auto
    have a3: "sched_step E (f, s) (f2, s2)" using sched_step_trans [OF a1(1) sched_step_trans [OF tick_reset_step a2(1)]] .
    have wf: "table_wf cq_id cq_url (cd_queue s2)"
      using a3 db inv [of s s2] by (auto simp: sched_step_def crawl_db_ok_def jobs_ok_def)
    have ok2: "frontier_ok E f2" "fr_black f2 = fr_black f" using a3 ok by (auto simp: sched_step_def)
    have "job_keys (cd_queue s2) = job_keys (cd_queue s)" by (simp add: a2(2) a1(2) tick_reset_def job_keys_reset)
    then have "(cq_id r, cq_url r) \<in> job_keys (cd_queue s2)" using r by (auto simp: job_keys_def)
    moreover have "(cq_id r, cq_url r) \<notin> job_keys (cd_queue s')" using gone by (auto simp: job_keys_def)
    ultimately show ?thesis using tick_manual_transfers [OF wf ok2(1) m] a ok2(2) by simp
  qed
  show ?thesis using st ok db inv [of s s'] lost by (auto simp: sched_step_def split: option.splits)
qed

theorem no_manual_job_lost_witness:
  "\<exists>f' s'. tick ascii_stdlib sample_score sample_now no_faults default_scheduler sample_sched = (f', s')
     \<and> tb_rows (cd_queue s') = [] \<and> has_job ''http://a.org/item/1'' ''a.org'' f'"
proof -
  obtain f s where fs: "sample_sched = (f, s)" by fastforce
  obtain f' s' where t: "tick ascii_stdlib sample_score sample_now no_faults default_scheduler (f, s) = (f', s')" by fastforce
  have f: "frontier_ok ascii_stdlib f" "fr_black f = [''bad.org'']"
    using sample_frontier_facts unfolding fs by auto
  have s: "crawl_db_ok s"
    using fs by (auto simp: sample_sched_def crawl_db_ok_def new_crawl_db_def seed_rows.upsert_wf jobs_ok_insert jobs_ok_empty)
  obtain f1 s1 where s1: "tick_seeds ascii_stdlib sample_score sample_now no_faults (f, s) = Some (f1, s1)"
    using sample_tables(2) unfolding fs by (simp add: tick_seeds_def no_faults_def)
  obtain f2 s2 where s2: "tick_domains ascii_stdlib sample_score sample_now no_faults default_scheduler (f1, tick_reset sample_now no_faults s1) = (f2, s2)"
    by fastforce
  have "cd_queue s2 = snd (reset_stalled_jobs sample_now None (30 * minute) (cd_queue s))"
    using tick_seeds_step [OF static.scorer_contract_axioms s1] tick_domains_step [OF static.scorer_contract_axioms s2]
    by (simp add: tick_reset_def no_faults_def)
  then have "tb_rows (cd_queue s2) = [queue_row_of 7 1 (''http://a.org/item/1'', ''a.org'', 0, 10)]"
    using sample_tables(1) unfolding fs by (simp add: reset_stalled_jobs_def update_where_def queue_row_of_def job_status_defs)
  moreover have "tick_manual ascii_stdlib sample_score sample_now no_faults (f2, s2) = (f', s')" using t s1 s2 by (simp add: tick_def)
  ultimately have "tb_rows (cd_queue s') = []"
    by (auto simp: tick_manual_def no_faults_def dequeue_urls_def claim_rows_def fold_lock_rows lock_row_def queue_row_of_def
        job_status_defs claim_order_def sql_limit_def claimed_job_def complete_job_def delete_where_def)
  moreover from this no_manual_job_lost [OF static.scorer_contract_axioms f(1) s t]
  have "has_job ''http://a.org/item/1'' ''a.org'' f'" using sample_tables(1) sample_admit f(2) unfolding fs by (simp add: queue_row_of_def)
  ultimately show ?thesis using t fs by auto
qed

lemma fold_seed_updates:
  "tb_rows (fold (\<lambda>sd t. snd (update_seed_last_enqueued None (sd_url sd) now t)) sds t)
   = map (\<lambda>r. if se_url r \<in> sd_url ` set sds then r\<lparr>se_last := Some now\<rparr> else r) (tb_rows t)"
  by (induction sds arbitrary: t) (auto simp: update_seed_last_enqueued_def update_where_def)

text \<open>
  C32. Without database errors a tick takes the stale seeds, the longest waiting first and at most a hundred,
  into the frontier, where each admitted one waits afterwards, and none of them is stale at the end. A seed
  whose interval is negative is never stale, so it is never crawled again.
\<close>

theorem stale_seeds_rescheduled:
  assumes sc: "scorer_contract score" and ok: "frontier_ok E f"
    and t: "tick E score now no_faults cfg (f, s) = (f', s')"
    and g: "get_stale_seed_urls now None 100 (cd_seeds s) = Inr sds"
  shows "length sds \<le> 100
    \<and> (\<forall>sd \<in> set sds. (case admit E (fr_black f) (sd_url sd) of None \<Rightarrow> True | Some (n, d, fp) \<Rightarrow> has_job n d f'))
    \<and> (\<forall>r \<in> set (tb_rows (cd_seeds s')). se_url r \<in> sd_url ` set sds \<longrightarrow> \<not> older_than_seconds now (se_interval r) (se_last r))
    \<and> (\<forall>r \<in> set (tb_rows (cd_seeds s)). se_interval r < 0 \<longrightarrow> \<not> older_than_seconds now (se_interval r) (se_last r))"
proof -
  obtain f1 s1 where s1: "tick_seeds E score now no_faults (f, s) = Some (f1, s1)"
    using g by (cases "sds = []") (auto simp: tick_seeds_def no_faults_def)
  have sd1: "tb_rows (cd_seeds s1) = map (\<lambda>r. if se_url r \<in> sd_url ` set sds then r\<lparr>se_last := Some now\<rparr> else r) (tb_rows (cd_seeds s))"
    using s1 g by (auto simp: tick_seeds_def no_faults_def fold_seed_updates split: if_splits)
  have f1: "sds \<noteq> [] \<Longrightarrow> f1 = schedule_urls E score (map sd_url sds) 0 (priority_recrawl + 5) f"
    using s1 g by (auto simp: tick_seeds_def no_faults_def split: if_splits)
  obtain f2 s2 where d: "tick_domains E score now no_faults cfg (f1, tick_reset now no_faults s1) = (f2, s2)" by fastforce
  have m: "tick_manual E score now no_faults (f2, s2) = (f', s')" using t s1 d by (simp add: tick_def)
  have ok1: "frontier_ok E f1" using tick_seeds_step [OF sc s1] ok by (simp add: sched_step_def)
  have "sched_step E (f1, s1) (f', s')"
    using sched_step_trans [OF tick_reset_step sched_step_trans [OF conjunct1 [OF tick_domains_step [OF sc d]] tick_manual_step [OF sc m]]] .
  then have more: "pending (fr_queue f1) \<subseteq># pending (fr_queue f')" using ok1 by (simp add: sched_step_def)
  have jobs: "has_job n dm f'" if "sd \<in> set sds" "admit E (fr_black f) (sd_url sd) = Some (n, dm, fp)" for sd n dm fp
  proof -
    have "sds \<noteq> []" "sd_url sd \<in> set (map sd_url sds)" using that(1) by auto
    then have "has_job n dm f1" using schedule_urls_adds(2) [OF ok _ that(2)] f1 by blast
    then show ?thesis using more by (rule has_job_mono)
  qed
  have seeds: "cd_seeds s' = cd_seeds s1"
    using d m by (auto simp: tick_domains_def tick_manual_def tick_reset_def split: sum.splits prod.splits if_splits)
  have "length sds \<le> 100" using g by (auto simp: get_stale_seed_urls_def sql_limit_def)
  then show ?thesis using jobs seeds sd1 by (auto simp: older_than_seconds_def coalesce_time_def split: option.splits)
qed

theorem stale_seeds_rescheduled_witness:
  "\<exists>f' s'. tick ascii_stdlib sample_score sample_now no_faults default_scheduler sample_sched = (f', s')
     \<and> has_job ''http://a.org/item/1'' ''a.org'' f'"
proof -
  obtain f s where fs: "sample_sched = (f, s)" by fastforce
  obtain f' s' where t: "tick ascii_stdlib sample_score sample_now no_faults default_scheduler (f, s) = (f', s')" by fastforce
  have f: "frontier_ok ascii_stdlib f" "fr_black f = [''bad.org'']"
    using sample_frontier_facts unfolding fs by auto
  have g: "get_stale_seed_urls sample_now None 100 (cd_seeds s)
      = Inr [\<lparr>sd_id = 1, sd_url = ''http://a.org/item/1'', sd_domain = ''a.org'', sd_interval = 60, sd_last = 0, sd_created = 7\<rparr>]"
    using sample_tables(2) unfolding fs by simp
  from stale_seeds_rescheduled [OF static.scorer_contract_axioms f(1) t g] f(2) sample_admit
  have "has_job ''http://a.org/item/1'' ''a.org'' f'" by simp
  then show ?thesis using t fs by auto
qed

end
