(* ===== verification/PageDb.thy ===== *)
theory PageDb
  imports CrawlDb Pages GoUrl
begin

text \<open>
  The content and graph databases of \<open>internal/storage/sqlite_crawler.go\<close>: pages, images, discovered
  resources and links. A driver error of a statement or transaction is an argument, as in the crawler
  database. \<open>now\<close> is both \<open>time.Now\<close> and SQLite's \<open>CURRENT_TIMESTAMP\<close>.
\<close>

subsection \<open>Pages\<close>

text \<open>The columns that every upsert of a page overwrites.\<close>

record page_cols =
  pc_domain :: domain
  pc_title :: string
  pc_h1 :: string
  pc_h2 :: string
  pc_desc :: string
  pc_content :: string
  pc_lang :: string
  pc_region :: string
  pc_status :: int
  pc_content_hash :: string
  pc_fp :: string
  pc_mode :: string
  pc_reason :: string
  pc_crawled :: gotime
  pc_schema_type :: string
  pc_schema_title :: string
  pc_schema_desc :: string
  pc_schema_image :: string
  pc_schema_author :: string
  pc_schema_keywords :: string
  pc_schema_rating :: "float64 option"

record page_row =
  pw_id :: int
  pw_url :: rawurl
  pw_hash :: "64 word"
  pw_cols :: page_cols
  pw_published :: "gotime option"
  pw_created :: gotime
  pw_updated :: gotime
  pw_refs :: int
  pw_rank :: float64
  pw_hits :: int
  pw_last_seen :: "gotime option"

definition page_columns :: "page \<Rightarrow> page_cols" where
  "page_columns p = \<lparr>pc_domain = pg_domain p, pc_title = pg_title p, pc_h1 = pg_h1 p, pc_h2 = pg_h2 p, pc_desc = pg_desc p,
     pc_content = pg_content p, pc_lang = pg_lang p, pc_region = pg_region p, pc_status = pg_status p,
     pc_content_hash = pg_content_hash p, pc_fp = pg_fp p, pc_mode = pg_mode p, pc_reason = pg_reason p, pc_crawled = pg_crawled p,
     pc_schema_type = pg_schema_type p, pc_schema_title = pg_schema_title p, pc_schema_desc = pg_schema_desc p,
     pc_schema_image = pg_schema_image p, pc_schema_author = pg_schema_author p, pc_schema_keywords = pg_schema_keywords p,
     pc_schema_rating = (if 0 < pg_schema_rating p then Some (pg_schema_rating p) else None)\<rparr>"

definition coalesce :: "'a option \<Rightarrow> 'a option \<Rightarrow> 'a option" where
  "coalesce a b = (if a = None then b else a)"

text \<open>\<open>UpsertPage\<close> first completes the page it is given.\<close>

definition default_mode :: "page \<Rightarrow> page" where
  "default_mode p = (if pg_mode p = [] then p\<lparr>pg_mode := ''http''\<rparr> else p)"

definition complete_page :: "gotime \<Rightarrow> page \<Rightarrow> page" where
  "complete_page now p0 =
     (let p = default_mode p0
      in if pg_mode p = ''extension''
         then p\<lparr>pg_ingest_hits := (if pg_ingest_hits p \<le> 0 then 1 else pg_ingest_hits p),
                pg_last_seen := (if pg_last_seen p = time_zero then now else pg_last_seen p)\<rparr>
         else p)"

definition page_row_of :: "gotime \<Rightarrow> int \<Rightarrow> page \<Rightarrow> page_row" where
  "page_row_of now i p = \<lparr>pw_id = i, pw_url = pg_url p, pw_hash = 0, pw_cols = page_columns p,
     pw_published = time_column (pg_published p), pw_created = now, pw_updated = now, pw_refs = 0, pw_rank = 1,
     pw_hits = pg_ingest_hits p, pw_last_seen = time_column (pg_last_seen p)\<rparr>"

definition merge_page :: "gotime \<Rightarrow> page \<Rightarrow> page_row \<Rightarrow> page_row" where
  "merge_page now p r = r\<lparr>pw_cols := page_columns p, pw_published := coalesce (time_column (pg_published p)) (pw_published r),
     pw_updated := now,
     pw_hits := (if pg_mode p = ''extension'' then pw_hits r + pg_ingest_hits p else pw_hits r),
     pw_last_seen := (if pg_mode p = ''extension'' then coalesce (time_column (pg_last_seen p)) (Some now) else pw_last_seen r)\<rparr>"

definition upsert_page :: "gotime \<Rightarrow> db_error option \<Rightarrow> page \<Rightarrow> page_row table \<Rightarrow> (db_error + unit) \<times> page_row table" where
  "upsert_page now e p t =
     (case e of
        Some x \<Rightarrow> (Inl x, t)
      | None \<Rightarrow> (Inr (), upsert pw_url (page_row_of now) (merge_page now) pg_url (complete_page now p) t))"

text \<open>\<open>getPage\<close> does not select the language and the region, which stay empty.\<close>

definition scan_page :: "page_row \<Rightarrow> page" where
  "scan_page r = (let c = pw_cols r in page0\<lparr>pg_id := pw_id r, pg_url := pw_url r, pg_domain := pc_domain c, pg_title := pc_title c,
     pg_h1 := pc_h1 c, pg_h2 := pc_h2 c, pg_desc := pc_desc c, pg_content := pc_content c, pg_status := pc_status c,
     pg_content_hash := pc_content_hash c, pg_fp := pc_fp c, pg_mode := pc_mode c, pg_reason := pc_reason c,
     pg_published := column_time (pw_published r), pg_crawled := pc_crawled c, pg_created := pw_created r, pg_updated := pw_updated r,
     pg_schema_type := pc_schema_type c, pg_schema_title := pc_schema_title c, pg_schema_desc := pc_schema_desc c,
     pg_schema_image := pc_schema_image c, pg_schema_author := pc_schema_author c, pg_schema_keywords := pc_schema_keywords c,
     pg_schema_rating := (case pc_schema_rating c of None \<Rightarrow> 0 | Some x \<Rightarrow> x)\<rparr>)"

definition get_page :: "db_error option \<Rightarrow> page_row option \<Rightarrow> db_error + page option" where
  "get_page e r = (case e of Some x \<Rightarrow> Inl x | None \<Rightarrow> Inr (map_option scan_page r))"

definition get_page_by_url :: "db_error option \<Rightarrow> rawurl \<Rightarrow> page_row table \<Rightarrow> db_error + page option" where
  "get_page_by_url e u t = get_page e (lookup_row pw_url u t)"

definition get_page_by_fingerprint :: "db_error option \<Rightarrow> string \<Rightarrow> page_row table \<Rightarrow> db_error + page option" where
  "get_page_by_fingerprint e fp t = get_page e (lookup_row (\<lambda>r. pc_fp (pw_cols r)) fp t)"

definition get_page_by_id :: "db_error option \<Rightarrow> int \<Rightarrow> page_row table \<Rightarrow> db_error + page option" where
  "get_page_by_id e i t = get_page e (lookup_row pw_id i t)"

definition get_all_page_urls :: "db_error option \<Rightarrow> page_row table \<Rightarrow> db_error + (rawurl list \<times> string list)" where
  "get_all_page_urls e t = (case e of
     Some x \<Rightarrow> Inl x
   | None \<Rightarrow> Inr (map pw_url (tb_rows t), map (\<lambda>r. pc_fp (pw_cols r)) (tb_rows t)))"

text \<open>\<open>GetStalePages\<close> selects fewer columns, with an empty text for the content.\<close>

definition scan_stale_page :: "page_row \<Rightarrow> page" where
  "scan_stale_page r = (let c = pw_cols r in page0\<lparr>pg_id := pw_id r, pg_url := pw_url r, pg_domain := pc_domain c,
     pg_title := pc_title c, pg_desc := pc_desc c, pg_status := pc_status c, pg_content_hash := pc_content_hash c,
     pg_crawled := pc_crawled c, pg_created := pw_created r, pg_updated := pw_updated r\<rparr>)"

definition get_stale_pages :: "db_error option \<Rightarrow> gotime \<Rightarrow> int \<Rightarrow> page_row table \<Rightarrow> db_error + page list" where
  "get_stale_pages e older_than limit t = (case e of
     Some x \<Rightarrow> Inl x
   | None \<Rightarrow> Inr (map scan_stale_page (sql_limit limit (sort_key (\<lambda>r. pc_crawled (pw_cols r))
               (filter (\<lambda>r. pc_crawled (pw_cols r) < older_than) (tb_rows t))))))"

text \<open>
  \<open>GetFreshURLs\<close> compares the stored time with a text in another format, RFC 3339; \<open>since\<close> is the outcome of
  that comparison.
\<close>

definition get_fresh_urls :: "(gotime \<Rightarrow> gotime \<Rightarrow> bool) \<Rightarrow> db_error option \<Rightarrow> rawurl list \<Rightarrow> gotime \<Rightarrow> page_row table \<Rightarrow> db_error + rawurl set" where
  "get_fresh_urls since e us newer_than t =
     (if us = [] then Inr {}
      else (case e of
        Some x \<Rightarrow> Inl x
      | None \<Rightarrow> Inr (pw_url ` set (filter (\<lambda>r. pw_url r \<in> set us \<and> since (pc_crawled (pw_cols r)) newer_than) (tb_rows t)))))"

definition filter_existing_urls :: "db_error option \<Rightarrow> rawurl list \<Rightarrow> page_row table \<Rightarrow> db_error + rawurl set" where
  "filter_existing_urls e us t =
     (if us = [] then Inr {}
      else (case e of Some x \<Rightarrow> Inl x | None \<Rightarrow> Inr (pw_url ` set (filter (\<lambda>r. pw_url r \<in> set us) (tb_rows t)))))"

definition filter_existing_fingerprints :: "db_error option \<Rightarrow> string list \<Rightarrow> page_row table \<Rightarrow> db_error + string set" where
  "filter_existing_fingerprints e fps t =
     (if fps = [] then Inr {}
      else (case e of Some x \<Rightarrow> Inl x
            | None \<Rightarrow> Inr ((\<lambda>r. pc_fp (pw_cols r)) ` set (filter (\<lambda>r. pc_fp (pw_cols r) \<in> set fps) (tb_rows t)))))"

definition purge_old_pages :: "db_error option \<Rightarrow> gotime \<Rightarrow> page_row table \<Rightarrow> (db_error + int) \<times> page_row table" where
  "purge_old_pages e older_than t = (case e of
     Some x \<Rightarrow> (Inl x, t)
   | None \<Rightarrow> (case delete_where (\<lambda>r. pc_crawled (pw_cols r) < older_than) t of (n, t') \<Rightarrow> (Inr n, t')))"

subsection \<open>Discovered resources and images\<close>

text \<open>The fingerprint of a resource is unique as well, and only a conflict of the URL is handled.\<close>

definition upsert_resource :: "db_error option \<Rightarrow> discovered_resource \<Rightarrow> discovered_resource table
    \<Rightarrow> (db_error + unit) \<times> discovered_resource table" where
  "upsert_resource e d t =
     (case e of
        Some x \<Rightarrow> (Inl x, t)
      | None \<Rightarrow>
          if \<exists>r \<in> set (tb_rows t). dr_fp r = dr_fp d \<and> dr_url r \<noteq> dr_url d
          then (Inl ''UNIQUE constraint failed: discovered_resources.url_fingerprint'', t)
          else (Inr (), upsert dr_url (\<lambda>i d. d\<lparr>dr_id := i\<rparr>) (\<lambda>d r. d\<lparr>dr_id := dr_id r\<rparr>) dr_url d t))"

definition get_all_discovered_urls :: "db_error option \<Rightarrow> discovered_resource table \<Rightarrow> db_error + (rawurl list \<times> string list)" where
  "get_all_discovered_urls e t = (case e of
     Some x \<Rightarrow> Inl x
   | None \<Rightarrow> Inr (map dr_url (tb_rows t), map dr_fp (tb_rows t)))"

text \<open>An image whose statement fails (\<open>bad\<close>) is skipped with a warning.\<close>

definition put_image :: "image_record \<Rightarrow> image_record table \<Rightarrow> image_record table" where
  "put_image = upsert ir_url (\<lambda>i m. m\<lparr>ir_id := i\<rparr>) (\<lambda>m r. m\<lparr>ir_id := ir_id r\<rparr>) ir_url"

definition upsert_images :: "db_error option \<Rightarrow> (image_record \<Rightarrow> bool) \<Rightarrow> image_record list \<Rightarrow> image_record table
    \<Rightarrow> (db_error + unit) \<times> image_record table" where
  "upsert_images e bad ms t =
     (if ms = [] then (Inr (), t)
      else (case e of Some x \<Rightarrow> (Inl x, t) | None \<Rightarrow> (Inr (), fold put_image (filter (\<lambda>m. \<not> bad m) ms) t)))"

subsection \<open>Links\<close>

record link_row =
  lk_source :: int
  lk_hash :: "64 word"
  lk_anchor :: string
  lk_created :: gotime

definition target_hash :: "outgoing_link \<Rightarrow> 64 word" where
  "target_hash l = (if ol_hash l = 0 then hash_url (ol_url l) else ol_hash l)"

text \<open>\<open>INSERT OR IGNORE INTO links\<close> with the primary key of source and target.\<close>

definition insert_link :: "gotime \<Rightarrow> int \<Rightarrow> outgoing_link \<Rightarrow> link_row list \<Rightarrow> link_row list" where
  "insert_link now src l ls =
     (if \<exists>r \<in> set ls. lk_source r = src \<and> lk_hash r = target_hash l then ls
      else ls @ [\<lparr>lk_source = src, lk_hash = target_hash l, lk_anchor = ol_text l, lk_created = now\<rparr>])"

definition replace_links :: "gotime \<Rightarrow> int \<Rightarrow> outgoing_link list \<Rightarrow> link_row list \<Rightarrow> link_row list" where
  "replace_links now src links ls = fold (insert_link now src) links (filter (\<lambda>r. lk_source r \<noteq> src) ls)"

definition store_links :: "gotime \<Rightarrow> db_error option \<Rightarrow> (outgoing_link \<Rightarrow> bool) \<Rightarrow> int \<Rightarrow> outgoing_link list \<Rightarrow> link_row list
    \<Rightarrow> (db_error + unit) \<times> link_row list" where
  "store_links now e bad src links ls =
     (if links = [] then (Inr (), ls)
      else (case e of Some x \<Rightarrow> (Inl x, ls) | None \<Rightarrow> (Inr (), replace_links now src (filter (\<lambda>l. \<not> bad l) links) ls)))"

record backlink =
  bk_source :: int
  bk_url :: rawurl
  bk_title :: string
  bk_anchor :: string
  bk_created :: gotime

record outlink =
  ou_url :: rawurl
  ou_anchor :: string
  ou_created :: gotime

definition links_to :: "64 word \<Rightarrow> link_row list \<Rightarrow> link_row list" where
  "links_to h ls = filter (\<lambda>r. lk_hash r = h) ls"

definition links_from :: "int \<Rightarrow> link_row list \<Rightarrow> link_row list" where
  "links_from i ls = filter (\<lambda>r. lk_source r = i) ls"

text \<open>A page of rows, newest first; a negative offset is none.\<close>

definition newest_links :: "int \<Rightarrow> int \<Rightarrow> link_row list \<Rightarrow> link_row list" where
  "newest_links limit offset ls = sql_limit limit (drop (nat offset) (sort_key (\<lambda>r. - lk_created r) ls))"

text \<open>
  The errors of the three queries: counting, reading the links, and looking up the pages, where an error
  only leaves the titles and URLs empty.
\<close>

type_synonym link_faults = "db_error option \<times> db_error option \<times> db_error option"

definition get_backlinks :: "link_faults \<Rightarrow> rawurl \<Rightarrow> int \<Rightarrow> int \<Rightarrow> link_row list \<Rightarrow> page_row table \<Rightarrow> db_error + (backlink list \<times> int)" where
  "get_backlinks F u limit offset ls pages =
     (case F of (e1, e2, e3) \<Rightarrow>
       (case e1 of
          Some x \<Rightarrow> Inl x
        | None \<Rightarrow>
            let found = links_to (hash_url u) ls
            in if found = [] then Inr ([], 0)
               else (case e2 of
                  Some x \<Rightarrow> Inl x
                | None \<Rightarrow> Inr (map (\<lambda>r.
                    let source = (if e3 = None then lookup_row pw_id (lk_source r) pages else None)
                    in \<lparr>bk_source = lk_source r, bk_url = (case source of None \<Rightarrow> [] | Some p \<Rightarrow> pw_url p),
                        bk_title = (case source of None \<Rightarrow> [] | Some p \<Rightarrow> pc_title (pw_cols p)),
                        bk_anchor = lk_anchor r, bk_created = lk_created r\<rparr>)
                    (newest_links limit offset found), int (length found)))))"

text \<open>A target whose hash no page has is shown as \<open>hash:\<close> and the hash; of several pages the last one counts.\<close>

definition get_outlinks :: "link_faults \<Rightarrow> int \<Rightarrow> int \<Rightarrow> int \<Rightarrow> link_row list \<Rightarrow> page_row table \<Rightarrow> db_error + (outlink list \<times> int)" where
  "get_outlinks F i limit offset ls pages =
     (case F of (e1, e2, e3) \<Rightarrow>
       (case e1 of
          Some x \<Rightarrow> Inl x
        | None \<Rightarrow>
            let found = links_from i ls
            in if found = [] then Inr ([], 0)
               else (case e2 of
                  Some x \<Rightarrow> Inl x
                | None \<Rightarrow> Inr (map (\<lambda>r.
                    let target = (if e3 = None then find (\<lambda>p. pw_hash p = lk_hash r) (rev (tb_rows pages)) else None)
                    in \<lparr>ou_url = (case target of None \<Rightarrow> ''hash:'' @ itoa (sint (lk_hash r)) | Some p \<Rightarrow> pw_url p),
                        ou_anchor = lk_anchor r, ou_created = lk_created r\<rparr>)
                    (newest_links limit offset found), int (length found)))))"

definition get_backlink_count :: "db_error option \<Rightarrow> rawurl \<Rightarrow> link_row list \<Rightarrow> db_error + int" where
  "get_backlink_count e u ls = (case e of Some x \<Rightarrow> Inl x | None \<Rightarrow> Inr (int (length (links_to (hash_url u) ls))))"

subsection \<open>Pages sent by the browser extension\<close>

record ingest_faults =
  if_upsert :: "db_error option"
  if_by_url :: "db_error option"
  if_by_fp :: "db_error option"
  if_links :: "db_error option"
  if_bad_link :: "outgoing_link \<Rightarrow> bool"

definition web_outlinks :: "stdlib \<Rightarrow> rawurl list \<Rightarrow> outgoing_link list" where
  "web_outlinks E raws = map (\<lambda>raw. \<lparr>ol_url = raw, ol_hash = hash_url raw, ol_text = []\<rparr>)
     (filter (\<lambda>raw. case url_parse E raw of
        None \<Rightarrow> False
      | Some p \<Rightarrow> url_hostname p \<noteq> [] \<and> (u_scheme p = ''http'' \<or> u_scheme p = ''https'')) raws)"

definition saved_page :: "ingest_faults \<Rightarrow> page \<Rightarrow> page_row table \<Rightarrow> db_error + page" where
  "saved_page F p t =
     (case get_page_by_url (if_by_url F) (pg_url p) t of
        Inl x \<Rightarrow> Inl x
      | Inr (Some s) \<Rightarrow> Inr s
      | Inr None \<Rightarrow>
          if pg_fp p = [] then Inl ''ingest page not found after upsert''
          else (case get_page_by_fingerprint (if_by_fp F) (pg_fp p) t of
                  Inl x \<Rightarrow> Inl x
                | Inr None \<Rightarrow> Inl ''ingest page not found after upsert''
                | Inr (Some s) \<Rightarrow> Inr s))"

definition ingest_page :: "stdlib \<Rightarrow> gotime \<Rightarrow> ingest_faults \<Rightarrow> page \<Rightarrow> rawurl list \<Rightarrow> page_row table \<times> link_row list
    \<Rightarrow> (db_error + int) \<times> page_row table \<times> link_row list" where
  "ingest_page E now F p outlinks db =
     (case db of (pages, ls) \<Rightarrow>
       (case upsert_page now (if_upsert F) p pages of
          (Inl x, pages1) \<Rightarrow> (Inl x, pages1, ls)
        | (Inr _, pages1) \<Rightarrow>
            (case saved_page F p pages1 of
               Inl x \<Rightarrow> (Inl x, pages1, ls)
             | Inr s \<Rightarrow>
                 (case store_links now (if_links F) (if_bad_link F) (pg_id s) (web_outlinks E outlinks) ls of
                    (Inl x, ls1) \<Rightarrow> (Inl x, pages1, ls1)
                  | (Inr _, ls1) \<Rightarrow> (Inr (pg_id s), pages1, ls1)))))"

subsection \<open>The tables as keyed tables\<close>

interpretation page_rows: keyed_table pw_id pw_url "page_row_of now" "merge_page now" pg_url
  by unfold_locales (auto simp: page_row_of_def merge_page_def)

interpretation image_rows: idempotent_table ir_id ir_url "\<lambda>i m. m\<lparr>ir_id := i\<rparr>" "\<lambda>m r. m\<lparr>ir_id := ir_id r\<rparr>" ir_url
  by unfold_locales auto

interpretation resource_rows: idempotent_table dr_id dr_url "\<lambda>i d. d\<lparr>dr_id := i\<rparr>" "\<lambda>d r. d\<lparr>dr_id := dr_id r\<rparr>" dr_url
  by unfold_locales auto

lemma upsert_page_wf: "table_wf pw_id pw_url t \<Longrightarrow> table_wf pw_id pw_url (snd (upsert_page now e p t))"
  by (auto simp: upsert_page_def page_rows.upsert_wf split: option.splits)

lemma complete_page_frame [simp]:
  "pg_url (complete_page now p) = pg_url p" "pg_fp (complete_page now p) = pg_fp p" "pg_published (complete_page now p) = pg_published p"
  by (simp_all add: complete_page_def default_mode_def Let_def)

definition links_wf :: "link_row list \<Rightarrow> bool" where
  "links_wf ls \<longleftrightarrow> distinct (map (\<lambda>r. (lk_source r, lk_hash r)) ls)"

lemma insert_link_wf: "links_wf ls \<Longrightarrow> links_wf (insert_link now src l ls)"
  by (auto simp: links_wf_def insert_link_def)

lemma insert_links_facts:
  "links_wf ls \<Longrightarrow> links_wf (fold (insert_link now src) links ls)"
  "filter (\<lambda>r. lk_source r \<noteq> src) (fold (insert_link now src) links ls) = filter (\<lambda>r. lk_source r \<noteq> src) ls"
  "lk_hash ` set (links_from src (fold (insert_link now src) links ls)) = target_hash ` set links \<union> lk_hash ` set (links_from src ls)"
proof (induction links arbitrary: ls)
  case (Cons l links)
  { case 1 then show ?case by (simp add: Cons.IH insert_link_wf) }
  { case 2 then show ?case by (simp add: Cons.IH) (simp add: insert_link_def) }
  { case 3
    have "lk_hash ` set (links_from src (insert_link now src l ls)) = insert (target_hash l) (lk_hash ` set (links_from src ls))"
    proof (cases "\<exists>r \<in> set ls. lk_source r = src \<and> lk_hash r = target_hash l")
      case True
      then have "target_hash l \<in> lk_hash ` set (links_from src ls)"
        by (auto simp: links_from_def intro: rev_image_eqI)
      then show ?thesis using True by (simp add: insert_link_def insert_absorb)
    next
      case False
      then have "links_from src (insert_link now src l ls)
        = links_from src ls @ [\<lparr>lk_source = src, lk_hash = target_hash l, lk_anchor = ol_text l, lk_created = now\<rparr>]"
        by (auto simp: insert_link_def links_from_def)
      then show ?thesis by simp
    qed
    then show ?case by (auto simp: Cons.IH) }
qed simp_all

lemma replace_links_facts:
  "links_wf ls \<Longrightarrow> links_wf (replace_links now src links ls)"
  "filter (\<lambda>r. lk_source r \<noteq> src) (replace_links now src links ls) = filter (\<lambda>r. lk_source r \<noteq> src) ls"
  "lk_hash ` set (links_from src (replace_links now src links ls)) = target_hash ` set links"
proof -
  have "links_wf ls \<Longrightarrow> links_wf (filter P ls)" for P by (simp add: links_wf_def distinct_map_filter)
  then show "links_wf ls \<Longrightarrow> links_wf (replace_links now src links ls)" by (simp add: replace_links_def insert_links_facts(1))
  show "filter (\<lambda>r. lk_source r \<noteq> src) (replace_links now src links ls) = filter (\<lambda>r. lk_source r \<noteq> src) ls"
    by (simp add: replace_links_def insert_links_facts(2))
  show "lk_hash ` set (links_from src (replace_links now src links ls)) = target_hash ` set links"
    unfolding replace_links_def insert_links_facts(3) by (simp add: links_from_def)
qed

subsection \<open>What an ingested page leaves in the store\<close>

lemma lookup_upsert_page:
  "lookup_row pw_url u (upsert pw_url (page_row_of now) (merge_page now) pg_url p t)
   = (if u = pg_url p then Some (case lookup_row pw_url u t of None \<Rightarrow> page_row_of now (tb_next t) p | Some r \<Rightarrow> merge_page now p r)
      else lookup_row pw_url u t)"
  by (rule page_rows.lookup_upsert)

lemma stored_columns:
  "case r of None \<Rightarrow> pw_cols (page_row_of now i p) = page_columns p | Some r0 \<Rightarrow> pw_cols (merge_page now p r0) = page_columns p"
  by (simp add: page_row_of_def merge_page_def split: option.splits)


definition no_ingest_faults :: ingest_faults where
  "no_ingest_faults = \<lparr>if_upsert = None, if_by_url = None, if_by_fp = None, if_links = None, if_bad_link = (\<lambda>_. False)\<rparr>"

definition sample_page :: page where
  "sample_page = page0\<lparr>pg_url := ''https://a.org/'', pg_title := ''A'', pg_mode := ''extension''\<rparr>"


end
