(* ===== verification/BatchWriter.thy ===== *)
theory BatchWriter
  imports PageDb
begin

text \<open>
  The batch writer of \<open>internal/storage/batchwriter.go\<close>: pages, links and images are buffered and flushed in
  one transaction on the content database and one on the graph database. Buffering and flushing are critical
  sections of the same mutex; \<open>write_page\<close>, \<open>write_links\<close> and \<open>write_images\<close> are the run in which no other
  worker comes between the two. The buffered links are a map from source URLs; \<open>ks\<close> lists its keys in the order a flush
  visits them. The fields a flush fills in (mode, hash and id of a page) are computed anew by the next one and
  left out of the buffer.
\<close>

record batch_writer =
  bw_pages :: "page list"
  bw_links :: "rawurl \<rightharpoonup> outgoing_link list"
  bw_images :: "image_record list"

definition batch_pages :: nat where "batch_pages = 100"
definition batch_links :: nat where "batch_links = 500"
definition batch_images :: nat where "batch_images = 500"

definition new_batch_writer :: batch_writer where
  "new_batch_writer = \<lparr>bw_pages = [], bw_links = Map.empty, bw_images = []\<rparr>"

record batch_db =
  bd_pages :: "page_row table"
  bd_images :: "image_record table"
  bd_links :: "link_row list"

text \<open>
  The errors of a flush. Those of single rows and lookups are only logged; the others end the flush and
  roll back the open transactions.
\<close>

record flush_faults =
  ff_begin :: "db_error option"
  ff_prepare :: "db_error option"
  ff_page :: "page \<Rightarrow> string option"
  ff_update :: "page \<Rightarrow> bool"
  ff_resolve :: bool
  ff_graph_begin :: "db_error option"
  ff_graph_prepare :: "db_error option"
  ff_lookup :: "rawurl \<Rightarrow> bool"
  ff_delete :: "int \<Rightarrow> bool"
  ff_link :: "int \<Rightarrow> outgoing_link \<Rightarrow> bool"
  ff_graph_commit :: "db_error option"
  ff_image_prepare :: "db_error option"
  ff_image :: "image_record \<Rightarrow> bool"
  ff_commit :: "db_error option"

subsection \<open>Pages of a batch\<close>

definition batch_row_of :: "gotime \<Rightarrow> int \<Rightarrow> page \<Rightarrow> page_row" where
  "batch_row_of now i p = \<lparr>pw_id = i, pw_url = pg_url p, pw_hash = hash_url (pg_url p), pw_cols = page_columns p,
     pw_published = time_column (pg_published p), pw_created = now, pw_updated = now, pw_refs = 0, pw_rank = 1,
     pw_hits = 0, pw_last_seen = None\<rparr>"

definition merge_batch :: "gotime \<Rightarrow> page \<Rightarrow> page_row \<Rightarrow> page_row" where
  "merge_batch now p r = r\<lparr>pw_hash := hash_url (pg_url p), pw_cols := page_columns p,
     pw_published := coalesce (time_column (pg_published p)) (pw_published r), pw_updated := now\<rparr>"

text \<open>
  A row that fails on the fingerprint is written over the row that has it, which keeps its URL. The current
  schema has no such constraint.
\<close>

definition fingerprint_conflict :: string where
  "fingerprint_conflict = ''UNIQUE constraint failed: pages.url_fingerprint''"

definition write_row :: "gotime \<Rightarrow> flush_faults \<Rightarrow> page \<Rightarrow> page_row table \<Rightarrow> page_row table" where
  "write_row now F p0 t =
     (let p = default_mode p0
      in (case ff_page F p of
            None \<Rightarrow> upsert pw_url (batch_row_of now) (merge_batch now) pg_url p t
          | Some m \<Rightarrow>
              if str_contains m fingerprint_conflict \<and> pg_fp p \<noteq> [] \<and> \<not> ff_update F p
              then snd (update_where (\<lambda>r. pc_fp (pw_cols r) = pg_fp p) (merge_batch now p) t)
              else t))"

definition url_to_id :: "flush_faults \<Rightarrow> page list \<Rightarrow> page_row table \<Rightarrow> rawurl \<rightharpoonup> int" where
  "url_to_id F ps t u = (if ff_resolve F \<or> u \<notin> pg_url ` set ps then None else map_option pw_id (lookup_row pw_url u t))"

definition resolve_id :: "flush_faults \<Rightarrow> page list \<Rightarrow> page_row table \<Rightarrow> rawurl \<Rightarrow> int option" where
  "resolve_id F ps t u = (case url_to_id F ps t u of
     Some i \<Rightarrow> Some i
   | None \<Rightarrow> if ff_lookup F u then None else map_option pw_id (lookup_row pw_url u t))"

subsection \<open>Links and images of a batch\<close>

definition write_links_of :: "gotime \<Rightarrow> flush_faults \<Rightarrow> int \<Rightarrow> outgoing_link list \<Rightarrow> link_row list \<Rightarrow> link_row list" where
  "write_links_of now F i links ls =
     fold (insert_link now i) (filter (\<lambda>l. \<not> ff_link F i l) links)
       (if ff_delete F i then ls else filter (\<lambda>r. lk_source r \<noteq> i) ls)"

definition write_all_links :: "gotime \<Rightarrow> flush_faults \<Rightarrow> page list \<Rightarrow> page_row table \<Rightarrow> (rawurl \<rightharpoonup> outgoing_link list)
    \<Rightarrow> rawurl list \<Rightarrow> link_row list \<Rightarrow> link_row list" where
  "write_all_links now F ps t m ks ls =
     fold (\<lambda>u ls. case resolve_id F ps t u of None \<Rightarrow> ls | Some i \<Rightarrow> write_links_of now F i (the (m u)) ls) ks ls"

definition batch_image :: "flush_faults \<Rightarrow> page list \<Rightarrow> page_row table \<Rightarrow> image_record \<Rightarrow> image_record" where
  "batch_image F ps t m =
     (if ir_page_id m = 0 \<and> ir_page_url m \<noteq> []
      then m\<lparr>ir_page_id := (case resolve_id F ps t (ir_page_url m) of None \<Rightarrow> 0 | Some i \<Rightarrow> i)\<rparr> else m)"

definition write_all_images :: "flush_faults \<Rightarrow> page list \<Rightarrow> page_row table \<Rightarrow> image_record list \<Rightarrow> image_record table \<Rightarrow> image_record table" where
  "write_all_images F ps t ms tb = fold put_image (map (batch_image F ps t) (filter (\<lambda>m. \<not> ff_image F m) ms)) tb"

subsection \<open>Flushing\<close>

type_synonym flushed = "(db_error + unit) \<times> batch_writer \<times> batch_db"

text \<open>The images and the commit, after the graph transaction; \<open>ls\<close> are the links it has committed.\<close>

definition finish_flush :: "flush_faults \<Rightarrow> batch_writer \<Rightarrow> page_row table \<Rightarrow> link_row list \<Rightarrow> batch_db \<Rightarrow> flushed" where
  "finish_flush F bw t ls db =
     (case (if bw_images bw = [] then None else ff_image_prepare F) of
        Some x \<Rightarrow> (Inl x, bw, db\<lparr>bd_links := ls\<rparr>)
      | None \<Rightarrow>
          (case ff_commit F of
             Some x \<Rightarrow> (Inl x, bw, db\<lparr>bd_links := ls\<rparr>)
           | None \<Rightarrow> (Inr (), new_batch_writer,
               \<lparr>bd_pages = t, bd_images = write_all_images F (bw_pages bw) t (bw_images bw) (bd_images db), bd_links = ls\<rparr>)))"

definition flush_locked :: "gotime \<Rightarrow> flush_faults \<Rightarrow> rawurl list \<Rightarrow> batch_writer \<Rightarrow> batch_db \<Rightarrow> flushed" where
  "flush_locked now F ks bw db =
     (if bw_pages bw = [] \<and> bw_links bw = Map.empty \<and> bw_images bw = [] then (Inr (), bw, db)
      else (case ff_begin F of
         Some x \<Rightarrow> (Inl x, bw, db)
       | None \<Rightarrow>
      (case ff_prepare F of
         Some x \<Rightarrow> (Inl x, bw, db)
       | None \<Rightarrow>
           let t = fold (write_row now F) (bw_pages bw) (bd_pages db)
           in if bw_links bw = Map.empty then finish_flush F bw t (bd_links db) db
              else (case ff_graph_begin F of
                 Some x \<Rightarrow> (Inl x, bw, db)
               | None \<Rightarrow> (case ff_graph_prepare F of
                   Some x \<Rightarrow> (Inl x, bw, db)
                 | None \<Rightarrow> (case ff_graph_commit F of
                     Some x \<Rightarrow> (Inl x, bw, db)
                   | None \<Rightarrow> finish_flush F bw t (write_all_links now F (bw_pages bw) t (bw_links bw) ks (bd_links db)) db))))))"

subsection \<open>Buffering\<close>

text \<open>The methods flush when a buffer is full; an error of that flush is logged.\<close>

definition flush_when :: "bool \<Rightarrow> gotime \<Rightarrow> flush_faults \<Rightarrow> rawurl list \<Rightarrow> batch_writer \<times> batch_db \<Rightarrow> batch_writer \<times> batch_db" where
  "flush_when full now F ks st = (if full then snd (flush_locked now F ks (fst st) (snd st)) else st)"

definition write_page :: "gotime \<Rightarrow> flush_faults \<Rightarrow> rawurl list \<Rightarrow> page \<Rightarrow> batch_writer \<times> batch_db \<Rightarrow> batch_writer \<times> batch_db" where
  "write_page now F ks p st =
     (let bw = (fst st)\<lparr>bw_pages := bw_pages (fst st) @ [p]\<rparr>
      in flush_when (batch_pages \<le> length (bw_pages bw)) now F ks (bw, snd st))"

definition total_links :: "rawurl list \<Rightarrow> (rawurl \<rightharpoonup> outgoing_link list) \<Rightarrow> nat" where
  "total_links ks m = sum_list (map (\<lambda>u. length (the (m u))) ks)"

definition add_links :: "rawurl \<Rightarrow> outgoing_link list \<Rightarrow> (rawurl \<rightharpoonup> outgoing_link list) \<Rightarrow> (rawurl \<rightharpoonup> outgoing_link list)" where
  "add_links u links m = m(u \<mapsto> (case m u of None \<Rightarrow> [] | Some l \<Rightarrow> l) @ links)"

definition write_links :: "gotime \<Rightarrow> flush_faults \<Rightarrow> rawurl list \<Rightarrow> rawurl \<Rightarrow> outgoing_link list \<Rightarrow> batch_writer \<times> batch_db \<Rightarrow> batch_writer \<times> batch_db" where
  "write_links now F ks u links st =
     (if links = [] then st
      else (let bw = (fst st)\<lparr>bw_links := add_links u links (bw_links (fst st))\<rparr>
            in flush_when (batch_links \<le> total_links ks (bw_links bw)) now F ks (bw, snd st)))"

definition write_images :: "gotime \<Rightarrow> flush_faults \<Rightarrow> rawurl list \<Rightarrow> image_record list \<Rightarrow> batch_writer \<times> batch_db \<Rightarrow> batch_writer \<times> batch_db" where
  "write_images now F ks ms st =
     (if ms = [] then st
      else (let bw = (fst st)\<lparr>bw_images := bw_images (fst st) @ ms\<rparr>
            in flush_when (batch_images \<le> length (bw_images bw)) now F ks (bw, snd st)))"

text \<open>\<open>Flush\<close>, which the ticker and \<open>Stop\<close> call.\<close>

definition flush_batch :: "gotime \<Rightarrow> flush_faults \<Rightarrow> rawurl list \<Rightarrow> batch_writer \<times> batch_db \<Rightarrow> batch_writer \<times> batch_db" where
  "flush_batch now F ks st = flush_when True now F ks st"

subsection \<open>What a flush does\<close>

interpretation batch_rows: idempotent_table pw_id pw_url "batch_row_of now" "merge_batch now" pg_url
  by unfold_locales (auto simp: batch_row_of_def merge_batch_def coalesce_def)

lemma default_mode_url [simp]: "pg_url (default_mode p) = pg_url p"
  by (simp add: default_mode_def)

lemma write_rows_clean:
  "(\<And>p. ff_page F p = None) \<Longrightarrow> fold (write_row now F) ps t
   = fold (upsert pw_url (batch_row_of now) (merge_batch now) pg_url) (map default_mode ps) t"
  by (induction ps arbitrary: t) (simp_all add: write_row_def)

lemma flush_cases:
  assumes "flush_locked now F ks bw db = (r, bw', db')" and "bw_pages bw \<noteq> []"
  shows "(\<exists>x. r = Inl x \<and> bw' = bw \<and> bd_pages db' = bd_pages db \<and> bd_images db' = bd_images db)
    \<or> (r = Inr () \<and> bw' = new_batch_writer \<and> bd_pages db' = fold (write_row now F) (bw_pages bw) (bd_pages db))"
  using assms by (auto simp: flush_locked_def finish_flush_def Let_def split: option.splits if_splits)

lemma rows_after_batch:
  assumes "\<And>p. ff_page F p = None"
  shows "case find (\<lambda>p. pg_url p = u) (rev ps) of
      None \<Rightarrow> lookup_row pw_url u (fold (write_row now F) ps t) = lookup_row pw_url u t
    | Some p \<Rightarrow> \<exists>r. lookup_row pw_url u (fold (write_row now F) ps t) = Some r
        \<and> pw_hash r = hash_url u \<and> pw_cols r = page_columns (default_mode p)"
proof -
  have f: "find (\<lambda>p. pg_url p = u) (rev (map default_mode ps)) = map_option default_mode (find (\<lambda>p. pg_url p = u) (rev ps))"
    by (induction ps rule: rev_induct) auto
  show ?thesis
  proof (cases "find (\<lambda>p. pg_url p = u) (rev ps)")
    case None
    then show ?thesis using f batch_rows.lookup_fold_upsert(1) [of u now "map default_mode ps" t]
      by (simp add: write_rows_clean [OF assms])
  next
    case (Some p)
    then have "find (\<lambda>p. pg_url p = u) (rev (map default_mode ps)) = Some (default_mode p)" using f by simp
    moreover have "pg_url p = u" using Some by (auto simp: find_Some_iff)
    ultimately show ?thesis using Some batch_rows.lookup_fold_upsert(2) [of u "map default_mode ps" "default_mode p" now t]
      by (auto simp: write_rows_clean [OF assms] merge_batch_def batch_row_of_def)
  qed
qed


text \<open>A run without errors.\<close>

definition no_flush_faults :: flush_faults where
  "no_flush_faults = \<lparr>ff_begin = None, ff_prepare = None, ff_page = (\<lambda>_. None), ff_update = (\<lambda>_. False), ff_resolve = False,
     ff_graph_begin = None, ff_graph_prepare = None, ff_lookup = (\<lambda>_. False), ff_delete = (\<lambda>_. False), ff_link = (\<lambda>_ _. False),
     ff_graph_commit = None, ff_image_prepare = None, ff_image = (\<lambda>_. False), ff_commit = None\<rparr>"

definition empty_batch_db :: batch_db where
  "empty_batch_db = \<lparr>bd_pages = empty_table, bd_images = empty_table, bd_links = []\<rparr>"

definition two_versions :: batch_writer where
  "two_versions = new_batch_writer\<lparr>bw_pages := [page0\<lparr>pg_url := ''u'', pg_title := ''old''\<rparr>, page0\<lparr>pg_url := ''u'', pg_title := ''new''\<rparr>]\<rparr>"

lemma no_flush_faults_sel [simp]:
  "ff_begin no_flush_faults = None" "ff_prepare no_flush_faults = None" "ff_page no_flush_faults p = None"
  "\<not> ff_resolve no_flush_faults" "ff_graph_begin no_flush_faults = None" "ff_graph_prepare no_flush_faults = None"
  "\<not> ff_lookup no_flush_faults u" "\<not> ff_delete no_flush_faults i" "\<not> ff_link no_flush_faults i l"
  "ff_graph_commit no_flush_faults = None" "ff_image_prepare no_flush_faults = None" "\<not> ff_image no_flush_faults m"
  "ff_commit no_flush_faults = None"
  by (simp_all add: no_flush_faults_def)


subsection \<open>Links of a batch whose commit fails\<close>

lemma write_links_of_clean:
  assumes "\<And>i. \<not> ff_delete F i" and "\<And>i l. \<not> ff_link F i l"
  shows "write_links_of now F i links ls = replace_links now i links ls"
  using assms by (simp add: write_links_of_def replace_links_def)

lemma write_all_links_source:
  assumes clean: "\<And>i. \<not> ff_delete F i" "\<And>i l. \<not> ff_link F i l"
    and own: "resolve_id F ps t u = Some i" "\<And>k. k \<noteq> u \<Longrightarrow> resolve_id F ps t k \<noteq> Some i"
    and u: "u \<in> set ks"
  shows "lk_hash ` set (links_from i (write_all_links now F ps t m ks ls)) = target_hash ` set (the (m u))"
  using u
proof (induction ks rule: rev_induct)
  case (snoc k ks)
  show ?case
  proof (cases "k = u")
    case True
    then show ?thesis by (simp add: write_all_links_def own(1) write_links_of_clean [OF clean] replace_links_facts(3))
  next
    case False
    have "links_from i (replace_links now j links l') = links_from i l'" if "j \<noteq> i" for j links l'
      using arg_cong [OF replace_links_facts(2) [of j now links l'], of "links_from i"] that
      by (simp add: links_from_def) (metis (mono_tags, lifting) filter_cong)
    then show ?thesis using snoc False own(2) [OF False]
      by (auto simp: write_all_links_def write_links_of_clean [OF clean] split: option.splits)
  qed
qed simp

text \<open>
  The links of a flush are committed before its pages: when only the commit of the content database
  fails, the links found on a new page stay stored under an id that no stored page has.
\<close>

theorem failed_commit_orphans_links:
  assumes wf: "table_wf pw_id pw_url (bd_pages db)" and p: "p \<in> set (bw_pages bw)" "lookup_row pw_url (pg_url p) (bd_pages db) = None"
    and links: "bw_links bw (pg_url p) = Some links" "pg_url p \<in> set ks" and im: "bw_images bw = []"
  shows "\<exists>db' i. flush_locked now (no_flush_faults\<lparr>ff_commit := Some x\<rparr>) ks bw db = (Inl x, bw, db') \<and> bd_pages db' = bd_pages db
    \<and> i \<notin> pw_id ` set (tb_rows (bd_pages db')) \<and> lk_hash ` set (links_from i (bd_links db')) = target_hash ` set links"
proof -
  let ?F = "no_flush_faults\<lparr>ff_commit := Some x\<rparr>" and ?u = "pg_url p"
  let ?t = "fold (write_row now ?F) (bw_pages bw) (bd_pages db)"
  let ?ls = "write_all_links now ?F (bw_pages bw) ?t (bw_links bw) ks (bd_links db)"
  have t: "?t = fold (upsert pw_url (batch_row_of now) (merge_batch now) pg_url) (map default_mode (bw_pages bw)) (bd_pages db)"
    by (rule write_rows_clean) simp
  have wf': "table_wf pw_id pw_url ?t" unfolding t by (rule batch_rows.fold_upsert_wf [OF wf])
  have "?u \<in> pw_url ` set (tb_rows ?t)" using p(1) by (simp add: t batch_rows.keys_fold_upsert image_image)
  then obtain row where row: "lookup_row pw_url ?u ?t = Some row" using lookup_row_None [of pw_url ?u ?t] by auto
  then have r: "row \<in> set (tb_rows ?t)" "pw_url row = ?u" by (simp_all add: lookup_row_Some [OF wf'])
  have id: "pw_id row \<notin> pw_id ` set (tb_rows (bd_pages db))"
  proof -
    have "\<not> (\<exists>r0 \<in> set (tb_rows (bd_pages db)). pw_id r0 = pw_id row \<and> pw_url r0 = pw_url row)"
      using p(2) r(2) by (auto simp: lookup_row_None intro: rev_image_eqI)
    then have "tb_next (bd_pages db) \<le> pw_id row" using r(1) batch_rows.fold_upsert_row_origin unfolding t by blast
    then show ?thesis using wf by (fastforce simp: table_wf_def)
  qed
  have own: "resolve_id ?F (bw_pages bw) ?t ?u = Some (pw_id row)" using p(1) row by (auto simp: resolve_id_def url_to_id_def)
  have other: "resolve_id ?F (bw_pages bw) ?t k \<noteq> Some (pw_id row)" if "k \<noteq> ?u" for k
  proof
    assume "resolve_id ?F (bw_pages bw) ?t k = Some (pw_id row)"
    then obtain r' where "lookup_row pw_url k ?t = Some r'" "pw_id r' = pw_id row"
      by (auto simp: resolve_id_def url_to_id_def split: if_splits option.splits)
    then have "r' \<in> set (tb_rows ?t)" "pw_url r' = k" "pw_id r' = pw_id row" by (simp_all add: lookup_row_Some [OF wf'])
    then have "r' = row" using r(1) table_wf_ids [OF wf'] by (auto simp: distinct_map dest: inj_onD)
    then show False using \<open>pw_url r' = k\<close> r(2) that by simp
  qed
  have "lk_hash ` set (links_from (pw_id row) ?ls) = target_hash ` set links"
    using write_all_links_source [OF _ _ own other links(2)] links(1) by simp
  moreover have "flush_locked now ?F ks bw db = (Inl x, bw, db\<lparr>bd_links := ?ls\<rparr>)"
    using p(1) links(1) im by (auto simp: flush_locked_def finish_flush_def Let_def)
  ultimately show ?thesis using id by (intro exI [of _ "db\<lparr>bd_links := ?ls\<rparr>"] exI [of _ "pw_id row"]) simp
qed

theorem failed_commit_orphans_links_witness:
  "\<exists>bw db' i. flush_locked 5 (no_flush_faults\<lparr>ff_commit := Some ''database is locked''\<rparr>) [''u''] bw empty_batch_db = (Inl ''database is locked'', bw, db')
     \<and> tb_rows (bd_pages db') = [] \<and> lk_hash ` set (links_from i (bd_links db')) = {7}"
proof -
  let ?bw = "new_batch_writer\<lparr>bw_pages := [page0\<lparr>pg_url := ''u''\<rparr>], bw_links := [''u'' \<mapsto> [\<lparr>ol_url = ''v'', ol_hash = 7, ol_text = []\<rparr>]]\<rparr>"
  have "lookup_row pw_url ''u'' (bd_pages empty_batch_db) = None" "table_wf pw_id pw_url (bd_pages empty_batch_db)"
    by (simp_all add: empty_batch_db_def empty_table_def lookup_row_def table_wf_def)
  then obtain db' i where "flush_locked 5 (no_flush_faults\<lparr>ff_commit := Some ''database is locked''\<rparr>) [''u''] ?bw empty_batch_db
      = (Inl ''database is locked'', ?bw, db')" "bd_pages db' = bd_pages empty_batch_db" "lk_hash ` set (links_from i (bd_links db')) = {7}"
    using failed_commit_orphans_links [of empty_batch_db "page0\<lparr>pg_url := ''u''\<rparr>" ?bw _ "[''u'']" 5 "''database is locked''"]
    by (auto simp: new_batch_writer_def target_hash_def)
  then show ?thesis by (intro exI [of _ ?bw] exI [of _ db'] exI [of _ i]) (simp add: empty_batch_db_def empty_table_def)
qed

end
