(* ===== verification/Purge.thy ===== *)
theory Purge
  imports PageDb Sql
begin

text \<open>
  The removal of blacklisted domains from the three databases, \<open>PurgeBlacklistedDomains\<close> of
  \<open>internal/storage/sqlite.go\<close>. Its statements run one by one, not in a transaction: after an error the
  earlier ones have taken effect. The errors of the statements are given per domain.
\<close>

record content_db =
  ct_pages :: "page_row table"
  ct_images :: "image_record table"
  ct_resources :: "discovered_resource table"
  ct_clicks :: "((string \<times> rawurl) \<times> int) list"
  ct_relevance :: "(domain \<times> float64) list"

record store =
  st_content :: content_db
  st_crawl :: crawl_db
  st_links :: "link_row list"

type_synonym 's purge = "'s \<Rightarrow> (db_error + int) \<times> 's"

text \<open>One \<open>DELETE\<close> statement, and two purges in sequence, whose counts add up.\<close>

definition delete_stmt :: "db_error option \<Rightarrow> ('s \<Rightarrow> int \<times> 's) \<Rightarrow> 's purge" where
  "delete_stmt e f s = (case e of Some x \<Rightarrow> (Inl x, s) | None \<Rightarrow> (case f s of (n, s') \<Rightarrow> (Inr n, s')))"

definition purge_then :: "'s purge \<Rightarrow> 's purge \<Rightarrow> 's purge" where
  "purge_then p q s = (case p s of
     (Inl x, s') \<Rightarrow> (Inl x, s')
   | (Inr n, s') \<Rightarrow> (case q s' of (Inl x, s'') \<Rightarrow> (Inl x, s'') | (Inr m, s'') \<Rightarrow> (Inr (n + m), s'')))"

definition delete_list :: "('a \<Rightarrow> bool) \<Rightarrow> 'a list \<Rightarrow> int \<times> 'a list" where
  "delete_list P xs = (int (length (filter P xs)), filter (\<lambda>x. \<not> P x) xs)"

definition in_domain :: "domain \<Rightarrow> string \<Rightarrow> domain \<Rightarrow> bool" where
  "in_domain d pat x \<longleftrightarrow> x = d \<or> sql_like x pat"

record purge_faults =
  pf_clicks :: "db_error option"
  pf_images :: "db_error option"
  pf_relevance :: "db_error option"
  pf_resources :: "db_error option"
  pf_pages :: "db_error option"
  pf_queue :: "db_error option"
  pf_domains :: "db_error option"
  pf_seeds :: "db_error option"
  pf_ids :: "db_error option"
  pf_links :: "nat \<Rightarrow> db_error option"

subsection \<open>The three databases\<close>

definition purge_clicks :: "purge_faults \<Rightarrow> domain \<Rightarrow> string \<Rightarrow> content_db purge" where
  "purge_clicks F d pat = delete_stmt (pf_clicks F) (\<lambda>c.
     let urls = map pw_url (filter (\<lambda>r. in_domain d pat (pc_domain (pw_cols r))) (tb_rows (ct_pages c)))
     in (case delete_list (\<lambda>k. snd (fst k) \<in> set urls) (ct_clicks c) of (n, cl) \<Rightarrow> (n, c\<lparr>ct_clicks := cl\<rparr>)))"

definition purge_images :: "purge_faults \<Rightarrow> domain \<Rightarrow> string \<Rightarrow> content_db purge" where
  "purge_images F d pat = delete_stmt (pf_images F) (\<lambda>c.
     case delete_where (\<lambda>m. in_domain d pat (ir_domain m)) (ct_images c) of (n, t) \<Rightarrow> (n, c\<lparr>ct_images := t\<rparr>))"

definition purge_relevance :: "purge_faults \<Rightarrow> domain \<Rightarrow> string \<Rightarrow> content_db purge" where
  "purge_relevance F d pat = delete_stmt (pf_relevance F) (\<lambda>c.
     case delete_list (\<lambda>x. in_domain d pat (fst x)) (ct_relevance c) of (n, l) \<Rightarrow> (n, c\<lparr>ct_relevance := l\<rparr>))"

text \<open>The patterns for the URLs of resources only match the scheme \<open>http\<close>.\<close>

definition resource_patterns :: "domain \<Rightarrow> string list" where
  "resource_patterns d = [''http://%.'' @ d @ ''/%'', ''http://'' @ d @ ''/%'']"

definition purge_resources :: "purge_faults \<Rightarrow> domain \<Rightarrow> content_db purge" where
  "purge_resources F d = delete_stmt (pf_resources F) (\<lambda>c.
     case delete_where (\<lambda>r. list_ex (sql_like (dr_url r)) (resource_patterns d)) (ct_resources c) of (n, t) \<Rightarrow> (n, c\<lparr>ct_resources := t\<rparr>))"

definition purge_pages :: "purge_faults \<Rightarrow> domain \<Rightarrow> string \<Rightarrow> content_db purge" where
  "purge_pages F d pat = delete_stmt (pf_pages F) (\<lambda>c.
     case delete_where (\<lambda>r. in_domain d pat (pc_domain (pw_cols r))) (ct_pages c) of (n, t) \<Rightarrow> (n, c\<lparr>ct_pages := t\<rparr>))"

definition purge_content :: "purge_faults \<Rightarrow> domain \<Rightarrow> string \<Rightarrow> content_db purge" where
  "purge_content F d pat =
     purge_then (purge_clicks F d pat) (purge_then (purge_images F d pat) (purge_then (purge_relevance F d pat)
       (purge_then (purge_resources F d) (purge_pages F d pat))))"

definition purge_crawler :: "purge_faults \<Rightarrow> domain \<Rightarrow> string \<Rightarrow> crawl_db purge" where
  "purge_crawler F d pat =
     purge_then (delete_stmt (pf_queue F) (\<lambda>s. case delete_where (\<lambda>r. in_domain d pat (cq_domain r)) (cd_queue s) of (n, t) \<Rightarrow> (n, s\<lparr>cd_queue := t\<rparr>)))
       (purge_then (delete_stmt (pf_domains F) (\<lambda>s. case delete_where (\<lambda>r. in_domain d pat (dm_domain r)) (cd_domains s) of (n, t) \<Rightarrow> (n, s\<lparr>cd_domains := t\<rparr>)))
         (delete_stmt (pf_seeds F) (\<lambda>s. case delete_where (\<lambda>r. in_domain d pat (se_domain r)) (cd_seeds s) of (n, t) \<Rightarrow> (n, s\<lparr>cd_seeds := t\<rparr>))))"

text \<open>The links from the given pages go in batches of 500.\<close>

function purge_links :: "(nat \<Rightarrow> db_error option) \<Rightarrow> int list \<Rightarrow> link_row list purge" where
  "purge_links e ids =
     (if ids = [] then (\<lambda>ls. (Inr 0, ls))
      else purge_then (delete_stmt (e 0) (delete_list (\<lambda>l. lk_source l \<in> set (take 500 ids))))
             (purge_links (\<lambda>k. e (Suc k)) (drop 500 ids)))"
  by pat_completeness auto
termination
  by (relation "measure (\<lambda>(e, ids). length ids)") auto

declare purge_links.simps [simp del]

definition purge_graph :: "purge_faults \<Rightarrow> domain \<Rightarrow> string \<Rightarrow> page_row table \<Rightarrow> link_row list purge" where
  "purge_graph F d pat pages ls =
     (case pf_ids F of
        Some x \<Rightarrow> (Inl x, ls)
      | None \<Rightarrow> purge_links (pf_links F) (map pw_id (filter (\<lambda>r. in_domain d pat (pc_domain (pw_cols r))) (tb_rows pages))) ls)"

subsection \<open>All domains\<close>

definition purge_domain :: "purge_faults \<Rightarrow> domain \<Rightarrow> store purge" where
  "purge_domain F d =
     (let pat = ''%.'' @ d
      in purge_then (\<lambda>s. case purge_content F d pat (st_content s) of (r, c) \<Rightarrow> (r, s\<lparr>st_content := c\<rparr>))
          (purge_then (\<lambda>s. case purge_crawler F d pat (st_crawl s) of (r, c) \<Rightarrow> (r, s\<lparr>st_crawl := c\<rparr>))
            (\<lambda>s. case purge_graph F d pat (ct_pages (st_content s)) (st_links s) of (r, l) \<Rightarrow> (r, s\<lparr>st_links := l\<rparr>))))"

definition purge_name :: "stdlib \<Rightarrow> domain \<Rightarrow> domain" where
  "purge_name E d = to_lower E (trim_space d)"

fun purge_blacklisted :: "stdlib \<Rightarrow> (domain \<Rightarrow> purge_faults) \<Rightarrow> domain list \<Rightarrow> store purge" where
  "purge_blacklisted E F [] = (\<lambda>s. (Inr 0, s))"
| "purge_blacklisted E F (d # ds) =
     (if purge_name E d = [] then purge_blacklisted E F ds
      else purge_then (purge_domain (F d) (purge_name E d)) (purge_blacklisted E F ds))"

subsection \<open>What is removed\<close>

lemma purge_then_Inr:
  "purge_then p q s = (Inr n, s') \<longleftrightarrow> (\<exists>k m s1. p s = (Inr k, s1) \<and> q s1 = (Inr m, s') \<and> n = k + m)"
  by (auto simp: purge_then_def split: prod.splits sum.splits)

lemma delete_stmt_Inr: "delete_stmt e f s = (Inr n, s') \<longleftrightarrow> e = None \<and> f s = (n, s')"
  by (auto simp: delete_stmt_def split: option.splits prod.splits)

lemmas purge_results = purge_then_Inr delete_stmt_Inr

text \<open>No row of the store belongs to the domain \<open>d\<close> or matches the pattern of its subdomains.\<close>

definition free_of :: "domain \<Rightarrow> store \<Rightarrow> bool" where
  "free_of d s \<longleftrightarrow> (let out = (\<lambda>x. \<not> in_domain d (''%.'' @ d) x); c = st_content s; q = st_crawl s in
     (\<forall>r \<in> set (tb_rows (ct_pages c)). out (pc_domain (pw_cols r))) \<and> (\<forall>m \<in> set (tb_rows (ct_images c)). out (ir_domain m))
     \<and> (\<forall>x \<in> set (ct_relevance c). out (fst x)) \<and> (\<forall>r \<in> set (tb_rows (cd_queue q)). out (cq_domain r))
     \<and> (\<forall>r \<in> set (tb_rows (cd_domains q)). out (dm_domain r)) \<and> (\<forall>r \<in> set (tb_rows (cd_seeds q)). out (se_domain r)))"

text \<open>The rows that are left were there before.\<close>

definition shrinks :: "store \<Rightarrow> store \<Rightarrow> bool" where
  "shrinks s s' \<longleftrightarrow> set (tb_rows (ct_pages (st_content s'))) \<subseteq> set (tb_rows (ct_pages (st_content s)))
     \<and> set (tb_rows (ct_images (st_content s'))) \<subseteq> set (tb_rows (ct_images (st_content s)))
     \<and> set (ct_relevance (st_content s')) \<subseteq> set (ct_relevance (st_content s))
     \<and> set (tb_rows (cd_queue (st_crawl s'))) \<subseteq> set (tb_rows (cd_queue (st_crawl s)))
     \<and> set (tb_rows (cd_domains (st_crawl s'))) \<subseteq> set (tb_rows (cd_domains (st_crawl s)))
     \<and> set (tb_rows (cd_seeds (st_crawl s'))) \<subseteq> set (tb_rows (cd_seeds (st_crawl s)))"

lemma shrinks_trans: "shrinks a b \<Longrightarrow> shrinks b c \<Longrightarrow> shrinks a c"
  by (auto simp: shrinks_def)

lemma free_of_shrinks: "free_of d s \<Longrightarrow> shrinks s s' \<Longrightarrow> free_of d s'"
  by (auto simp: free_of_def shrinks_def Let_def)

lemma purge_steps:
  "purge_clicks F d pat c = (Inr n, c') \<Longrightarrow> c' = c\<lparr>ct_clicks := filter (\<lambda>k. snd (fst k) \<notin> pw_url ` set (filter (\<lambda>r. in_domain d pat (pc_domain (pw_cols r))) (tb_rows (ct_pages c)))) (ct_clicks c)\<rparr>"
  "purge_images F d pat c = (Inr n, c') \<Longrightarrow> c' = c\<lparr>ct_images := snd (delete_where (\<lambda>m. in_domain d pat (ir_domain m)) (ct_images c))\<rparr>"
  "purge_relevance F d pat c = (Inr n, c') \<Longrightarrow> c' = c\<lparr>ct_relevance := filter (\<lambda>x. \<not> in_domain d pat (fst x)) (ct_relevance c)\<rparr>"
  "purge_resources F d c = (Inr n, c') \<Longrightarrow> c' = c\<lparr>ct_resources := snd (delete_where (\<lambda>r. list_ex (sql_like (dr_url r)) (resource_patterns d)) (ct_resources c))\<rparr>"
  "purge_pages F d pat c = (Inr n, c') \<Longrightarrow> c' = c\<lparr>ct_pages := snd (delete_where (\<lambda>r. in_domain d pat (pc_domain (pw_cols r))) (ct_pages c))\<rparr>"
  by (simp_all add: purge_clicks_def purge_images_def purge_relevance_def purge_resources_def purge_pages_def
      delete_stmt_Inr delete_list_def delete_where_def Let_def)

lemma purge_content_effect:
  assumes "purge_content F d pat c = (Inr n, c')"
  shows "c' = \<lparr>ct_pages = snd (delete_where (\<lambda>r. in_domain d pat (pc_domain (pw_cols r))) (ct_pages c)),
     ct_images = snd (delete_where (\<lambda>m. in_domain d pat (ir_domain m)) (ct_images c)),
     ct_resources = snd (delete_where (\<lambda>r. list_ex (sql_like (dr_url r)) (resource_patterns d)) (ct_resources c)),
     ct_clicks = filter (\<lambda>k. snd (fst k) \<notin> pw_url ` set (filter (\<lambda>r. in_domain d pat (pc_domain (pw_cols r))) (tb_rows (ct_pages c)))) (ct_clicks c),
     ct_relevance = filter (\<lambda>x. \<not> in_domain d pat (fst x)) (ct_relevance c)\<rparr>"
proof -
  obtain n1 n2 n3 n4 n5 c1 c2 c3 c4 where p: "purge_clicks F d pat c = (Inr n1, c1)" "purge_images F d pat c1 = (Inr n2, c2)"
    "purge_relevance F d pat c2 = (Inr n3, c3)" "purge_resources F d c3 = (Inr n4, c4)" "purge_pages F d pat c4 = (Inr n5, c')"
    using assms unfolding purge_content_def purge_then_Inr by blast
  note s = purge_steps(1) [OF p(1)] purge_steps(2) [OF p(2)] purge_steps(3) [OF p(3)] purge_steps(4) [OF p(4)] purge_steps(5) [OF p(5)]
  show ?thesis by (simp only: s) simp
qed

lemma purge_crawler_effect:
  assumes "purge_crawler F d pat c = (Inr n, c')"
  shows "c' = \<lparr>cd_queue = snd (delete_where (\<lambda>r. in_domain d pat (cq_domain r)) (cd_queue c)),
     cd_domains = snd (delete_where (\<lambda>r. in_domain d pat (dm_domain r)) (cd_domains c)),
     cd_seeds = snd (delete_where (\<lambda>r. in_domain d pat (se_domain r)) (cd_seeds c))\<rparr>"
  using assms by (auto simp: purge_crawler_def purge_then_Inr delete_stmt_Inr delete_where_def)

lemma purge_graph_nothing:
  assumes "\<forall>r \<in> set (tb_rows pages). \<not> in_domain d pat (pc_domain (pw_cols r))"
  shows "snd (purge_graph F d pat pages ls) = ls"
proof -
  have "filter (\<lambda>r. in_domain d pat (pc_domain (pw_cols r))) (tb_rows pages) = []" using assms by simp
  then show ?thesis by (simp add: purge_graph_def purge_links.simps split: option.splits)
qed

lemma purge_domain_effect:
  assumes "purge_domain F d s = (Inr n, s')"
  shows "free_of d s' \<and> shrinks s s' \<and> st_links s' = st_links s
    \<and> tb_rows (ct_resources (st_content s')) = filter (\<lambda>r. \<not> list_ex (sql_like (dr_url r)) (resource_patterns d)) (tb_rows (ct_resources (st_content s)))"
proof -
  let ?pat = "''%.'' @ d"
  obtain n1 n2 n3 c q where c: "purge_content F d ?pat (st_content s) = (Inr n1, c)" and q: "purge_crawler F d ?pat (st_crawl s) = (Inr n2, q)"
    and g: "purge_graph F d ?pat (ct_pages c) (st_links s) = (Inr n3, st_links s')"
    and s': "st_content s' = c" "st_crawl s' = q"
    using assms by (fastforce simp: purge_domain_def Let_def purge_then_Inr split: prod.splits)
  note cc = purge_content_effect [OF c]
  have pages: "\<forall>r \<in> set (tb_rows (ct_pages c)). \<not> in_domain d ?pat (pc_domain (pw_cols r))" by (simp add: cc delete_where_def)
  have "st_links s' = st_links s" using purge_graph_nothing [OF pages, of F "st_links s"] g by simp
  moreover have "free_of d s'" unfolding free_of_def Let_def s' using pages
    by (simp add: cc purge_crawler_effect [OF q] delete_where_def)
  moreover have "shrinks s s'" unfolding shrinks_def s' by (auto simp: cc purge_crawler_effect [OF q] delete_where_def)
  moreover have "tb_rows (ct_resources (st_content s')) = filter (\<lambda>r. \<not> list_ex (sql_like (dr_url r)) (resource_patterns d)) (tb_rows (ct_resources (st_content s)))"
    by (simp add: s' cc delete_where_def)
  ultimately show ?thesis by blast
qed

lemma purge_blacklisted_effect:
  "purge_blacklisted E F ds s = (Inr n, s') \<Longrightarrow>
     (\<forall>d \<in> set ds. purge_name E d \<noteq> [] \<longrightarrow> free_of (purge_name E d) s') \<and> shrinks s s' \<and> st_links s' = st_links s
     \<and> (\<forall>r \<in> set (tb_rows (ct_resources (st_content s))). (\<forall>d \<in> set ds. \<not> list_ex (sql_like (dr_url r)) (resource_patterns (purge_name E d)))
          \<longrightarrow> r \<in> set (tb_rows (ct_resources (st_content s'))))"
proof (induction ds arbitrary: n s)
  case (Cons d ds)
  show ?case
  proof (cases "purge_name E d = []")
    case True
    then show ?thesis using Cons by simp
  next
    case False
    then obtain k m s1 where s1: "purge_domain (F d) (purge_name E d) s = (Inr k, s1)" "purge_blacklisted E F ds s1 = (Inr m, s')"
      using Cons.prems by (auto simp: purge_then_Inr)
    note p = purge_domain_effect [OF s1(1)]
    note q = Cons.IH [OF s1(2)]
    have "free_of (purge_name E d) s'" using p q free_of_shrinks by blast
    then show ?thesis using p q shrinks_trans by auto
  qed
qed (simp add: shrinks_def)

text \<open>
  C30. After a purge without errors no page, image, relevance score, queued job, domain or seed belongs to a
  blacklisted domain, nor to one that the pattern of its subdomains matches, and nothing is added.
\<close>

theorem purge_removes_domains:
  assumes "purge_blacklisted E F ds s = (Inr n, s')" and "d \<in> set ds" and "purge_name E d \<noteq> []"
  shows "free_of (purge_name E d) s' \<and> shrinks s s'"
  using purge_blacklisted_effect [OF assms(1)] assms(2,3) by blast

subsection \<open>What is left behind\<close>

lemma like_literal: "p \<noteq> 37 \<Longrightarrow> p \<noteq> 95 \<Longrightarrow> fold_rune p \<noteq> fold_rune c \<Longrightarrow> \<not> like_runes (p # ps) (c # t)"
  by simp

lemma has_prefix_append: "has_prefix s p \<longleftrightarrow> (\<exists>u. s = p @ u)"
  by (auto simp: has_prefix_def) (metis append_take_drop_id)

lemma rune_list_ascii_Cons: "byte c < 128 \<Longrightarrow> rune_list (c # s) = byte c # rune_list s"
  by (simp add: rune_list_def decode_rune_def)

lemma https_not_http: "\<not> sql_like (''https://'' @ u) (''http://'' @ pat)"
proof -
  have "rune_list (''https://'' @ u) = [104, 116, 116, 112, 115, 58, 47, 47] @ rune_list u"
    "rune_list (''http://'' @ pat) = [104, 116, 116, 112, 58, 47, 47] @ rune_list pat"
    by (simp_all add: rune_list_ascii_Cons)
  then show ?thesis by (simp add: sql_like_def fold_rune_def)
qed

text \<open>
  A purge never removes a link: the pages are deleted before their ids are collected for the links, so
  none is found. And it never removes a discovered resource with an \<open>https\<close> URL.
\<close>

theorem purge_leaves_links:
  assumes "purge_blacklisted E F ds s = (Inr n, s')"
  shows "st_links s' = st_links s
    \<and> (\<forall>r \<in> set (tb_rows (ct_resources (st_content s))). has_prefix (dr_url r) ''https://'' \<longrightarrow> r \<in> set (tb_rows (ct_resources (st_content s'))))"
proof -
  have "\<not> list_ex (sql_like (dr_url r)) (resource_patterns d)" if https: "has_prefix (dr_url r) ''https://''" for r d
  proof -
    obtain u where "dr_url r = ''https://'' @ u" using https unfolding has_prefix_append by blast
    then show ?thesis using https_not_http [of u "''%.'' @ d @ ''/%''"] https_not_http [of u "d @ ''/%''"] by (simp add: resource_patterns_def)
  qed
  then show ?thesis using purge_blacklisted_effect [OF assms] by blast
qed

text \<open>The underscore of a domain is a wildcard of the pattern: another domain's pages are purged, too.\<close>

lemma underscore_matches_any: "in_domain ''my_site.com'' ''%.my_site.com'' ''www.my-site.com''"
  by code_simp

definition no_purge_faults :: purge_faults where
  "no_purge_faults = \<lparr>pf_clicks = None, pf_images = None, pf_relevance = None, pf_resources = None, pf_pages = None, pf_queue = None,
     pf_domains = None, pf_seeds = None, pf_ids = None, pf_links = (\<lambda>_. None)\<rparr>"

definition sample_purge_store :: store where
  "sample_purge_store = \<lparr>
     st_content = \<lparr>ct_pages = upsert pw_url (page_row_of 5) (merge_page 5) pg_url (page0\<lparr>pg_url := ''https://www.bad.org/'', pg_domain := ''www.bad.org''\<rparr>) empty_table,
       ct_images = empty_table,
       ct_resources = \<lparr>tb_rows = [\<lparr>dr_id = 1, dr_url = ''https://bad.org/app.js'', dr_fp = [], dr_kind = [], dr_status = 200, dr_crawled = 5\<rparr>], tb_next = 2\<rparr>,
       ct_clicks = [], ct_relevance = []\<rparr>,
     st_crawl = new_crawl_db, st_links = [\<lparr>lk_source = 1, lk_hash = 7, lk_anchor = [], lk_created = 5\<rparr>]\<rparr>"

lemma purge_links_succeed: "(\<And>k. e k = None) \<Longrightarrow> \<exists>n ls'. purge_links e ids ls = (Inr n, ls')"
proof (induction e ids arbitrary: ls rule: purge_links.induct)
  case (1 e ids)
  show ?case
  proof (cases "ids = []")
    case False
    obtain n1 ls1 where "delete_list (\<lambda>l. lk_source l \<in> set (take 500 ids)) ls = (n1, ls1)" by fastforce
    moreover obtain n2 ls2 where "purge_links (\<lambda>k. e (Suc k)) (drop 500 ids) ls1 = (Inr n2, ls2)"
      using 1(1) [OF False] 1(2) by blast
    ultimately show ?thesis using False 1(2) by (subst purge_links.simps) (simp add: purge_then_def delete_stmt_def)
  qed (simp add: purge_links.simps)
qed

lemma purge_succeeds: "\<exists>n s'. purge_blacklisted E (\<lambda>_. no_purge_faults) ds s = (Inr n, s')"
proof (induction ds arbitrary: s)
  case (Cons d ds)
  have content: "\<exists>n c'. purge_content no_purge_faults dm pat c = (Inr n, c')" for dm pat c
    by (simp add: purge_content_def purge_clicks_def purge_images_def purge_relevance_def purge_resources_def purge_pages_def
        purge_then_def delete_stmt_def no_purge_faults_def delete_list_def delete_where_def Let_def)
  have crawler: "\<exists>n c'. purge_crawler no_purge_faults dm pat c = (Inr n, c')" for dm pat c
    by (simp add: purge_crawler_def purge_then_def delete_stmt_def no_purge_faults_def delete_where_def)
  have graph: "\<exists>n l'. purge_graph no_purge_faults dm pat pages l = (Inr n, l')" for dm pat pages l
    using purge_links_succeed [of "\<lambda>_. None"] by (simp add: purge_graph_def no_purge_faults_def)
  have dm: "\<exists>n s'. purge_domain no_purge_faults nm s = (Inr n, s')" for nm
  proof -
    obtain n1 c1 where 1: "purge_content no_purge_faults nm (''%.'' @ nm) (st_content s) = (Inr n1, c1)" using content by blast
    obtain n2 c2 where 2: "purge_crawler no_purge_faults nm (''%.'' @ nm) (st_crawl s) = (Inr n2, c2)" using crawler by blast
    obtain n3 c3 where 3: "purge_graph no_purge_faults nm (''%.'' @ nm) (ct_pages c1) (st_links s) = (Inr n3, c3)" using graph by blast
    show ?thesis using 1 2 3 by (simp add: purge_domain_def purge_then_def Let_def)
  qed
  then obtain n s1 where 1: "purge_domain no_purge_faults (purge_name E d) s = (Inr n, s1)" by blast
  obtain m s2 where 2: "purge_blacklisted E (\<lambda>_. no_purge_faults) ds s1 = (Inr m, s2)" using Cons by blast
  show ?case using 1 2 Cons [of s] by (simp add: purge_then_def)
qed simp

theorem purge_removes_domains_witness:
  "\<exists>n s'. purge_blacklisted ascii_stdlib (\<lambda>_. no_purge_faults) [''Bad.org''] sample_purge_store = (Inr n, s')
     \<and> tb_rows (ct_pages (st_content s')) = []"
proof -
  obtain n s' where p: "purge_blacklisted ascii_stdlib (\<lambda>_. no_purge_faults) [''Bad.org''] sample_purge_store = (Inr n, s')"
    using purge_succeeds by blast
  have name: "purge_name ascii_stdlib ''Bad.org'' = ''bad.org''" by code_simp
  have like: "in_domain ''bad.org'' (''%.'' @ ''bad.org'') ''www.bad.org''" by code_simp
  from purge_removes_domains [OF p, of "''Bad.org''"] name have "free_of ''bad.org'' s'" "shrinks sample_purge_store s'" by simp_all
  then have free: "\<forall>r \<in> set (tb_rows (ct_pages (st_content s'))). \<not> in_domain ''bad.org'' (''%.'' @ ''bad.org'') (pc_domain (pw_cols r))"
    and sub: "set (tb_rows (ct_pages (st_content s'))) \<subseteq> set (tb_rows (ct_pages (st_content sample_purge_store)))"
    by (simp_all add: free_of_def shrinks_def Let_def)
  have dm: "r \<in> set (tb_rows (ct_pages (st_content sample_purge_store))) \<Longrightarrow> pc_domain (pw_cols r) = ''www.bad.org''" for r
    by (simp add: sample_purge_store_def upsert_def empty_table_def page_row_of_def page_columns_def)
  have "False" if r: "r \<in> set (tb_rows (ct_pages (st_content s')))" for r
    using bspec [OF free r] dm [OF subsetD [OF sub r]] like by simp
  then show ?thesis using p by (cases "tb_rows (ct_pages (st_content s'))") auto
qed

theorem purge_leaves_links_witness:
  "\<exists>n s'. purge_blacklisted ascii_stdlib (\<lambda>_. no_purge_faults) [''Bad.org''] sample_purge_store = (Inr n, s')
     \<and> length (st_links s') = 1 \<and> dr_url ` set (tb_rows (ct_resources (st_content s'))) \<supseteq> {''https://bad.org/app.js''}"
proof -
  obtain n s' where p: "purge_blacklisted ascii_stdlib (\<lambda>_. no_purge_faults) [''Bad.org''] sample_purge_store = (Inr n, s')"
    using purge_succeeds by blast
  from purge_leaves_links [OF p] have "st_links s' = st_links sample_purge_store"
    "\<lparr>dr_id = 1, dr_url = ''https://bad.org/app.js'', dr_fp = [], dr_kind = [], dr_status = 200, dr_crawled = 5\<rparr> \<in> set (tb_rows (ct_resources (st_content s')))"
    by (simp_all add: sample_purge_store_def has_prefix_def)
  then show ?thesis using p by (force simp: sample_purge_store_def)
qed

end
