(* ===== verification/DomainStats.thy ===== *)
theory DomainStats
  imports CrawlDb "HOL-Library.Signed_Division"
begin

text \<open>
  The collector of crawl statistics per domain, \<open>internal/crawler/domainstats.go\<close>: observations are added up
  in memory, and a flush merges them into the table of domains, with a moving average of the response times.
  The two critical sections of a flush frame its writes; \<open>ks\<close> lists the domains in the order the flush visits
  them. The errors of reading and of writing a domain are arguments.
\<close>

record stats_accum =
  sa_pages :: int
  sa_total :: duration
  sa_last :: gotime

type_synonym stats_collector = "domain \<rightharpoonup> stats_accum"

definition empty_accum :: stats_accum where
  "empty_accum = \<lparr>sa_pages = 0, sa_total = 0, sa_last = time_zero\<rparr>"

definition record_stats :: "gotime \<Rightarrow> domain \<Rightarrow> duration \<Rightarrow> stats_collector \<Rightarrow> stats_collector" where
  "record_stats now d dur m =
     (let acc = (case m d of None \<Rightarrow> empty_accum | Some acc \<Rightarrow> acc)
      in m(d \<mapsto> \<lparr>sa_pages = sa_pages acc + 1, sa_total = sa_total acc + dur, sa_last = now\<rparr>))"

text \<open>The conversion of a \<open>float64\<close> to \<open>int\<close> truncates towards zero, as does the division of integers.\<close>

definition go_trunc :: "float64 \<Rightarrow> int" where
  "go_trunc x = (if x < 0 then \<lceil>x\<rceil> else \<lfloor>x\<rfloor>)"

definition average_ms :: "stats_accum \<Rightarrow> int" where
  "average_ms acc = (sa_total acc sdiv millisecond) sdiv sa_pages acc"

definition moving_average :: "int \<Rightarrow> int \<Rightarrow> int" where
  "moving_average avg old = go_trunc (3/10 * real_of_int avg + (1 - 3/10) * real_of_int old)"

definition merged_stats :: "domain \<Rightarrow> stats_accum \<Rightarrow> domain_info option \<Rightarrow> domain_info" where
  "merged_stats d acc ex =
     (let base = \<lparr>dn_id = 0, dn_domain = d, dn_robots = [], dn_robots_fetched = time_zero, dn_last_crawled = sa_last acc,
                  dn_recrawled = time_zero, dn_pages = sa_pages acc, dn_avg_ms = average_ms acc, dn_created = time_zero\<rparr>
      in case ex of
           None \<Rightarrow> base
         | Some x \<Rightarrow> base\<lparr>dn_robots := dn_robots x, dn_robots_fetched := dn_robots_fetched x,
             dn_pages := dn_pages x + sa_pages acc, dn_avg_ms := moving_average (average_ms acc) (dn_avg_ms x)\<rparr>)"

record stats_faults =
  sf_get :: "domain \<Rightarrow> db_error option"
  sf_put :: "domain \<Rightarrow> db_error option"

definition flush_domain :: "gotime \<Rightarrow> stats_faults \<Rightarrow> domain \<Rightarrow> stats_accum \<Rightarrow> domain_row table \<Rightarrow> domain_row table" where
  "flush_domain now F d acc t =
     (if sa_pages acc = 0 then t
      else (case get_domain (sf_get F d) d t of
              Inl _ \<Rightarrow> t
            | Inr ex \<Rightarrow> snd (upsert_domain now (sf_put F d) (merged_stats d acc ex) t)))"

definition flush_stats :: "gotime \<Rightarrow> stats_faults \<Rightarrow> domain list \<Rightarrow> stats_collector \<times> domain_row table \<Rightarrow> stats_collector \<times> domain_row table" where
  "flush_stats now F ks st = (Map.empty, fold (\<lambda>d. flush_domain now F d (the (fst st d))) ks (snd st))"

subsection \<open>What a flush writes\<close>

lemma moving_average_between: "min a b \<le> moving_average a b \<and> moving_average a b \<le> max a b"
proof -
  let ?x = "3/10 * real_of_int a + (1 - 3/10) * real_of_int b"
  have "real_of_int (min a b) \<le> ?x" "?x \<le> real_of_int (max a b)" by (auto simp: min_def max_def)
  then show ?thesis unfolding moving_average_def go_trunc_def by (auto simp: le_floor_iff ceiling_le_iff intro: order_trans) linarith+
qed

text \<open>The statistics of a domain in the table: pages, average response time and time of the last crawl.\<close>

definition domain_stats :: "domain_row table \<Rightarrow> domain \<Rightarrow> (int \<times> int \<times> gotime option) option" where
  "domain_stats t d = map_option (\<lambda>r. (dm_pages r, dm_avg_ms r, dm_last_crawled r)) (lookup_row dm_domain d t)"

definition next_stats :: "stats_accum \<Rightarrow> (int \<times> int \<times> gotime option) option \<Rightarrow> (int \<times> int \<times> gotime option) option" where
  "next_stats acc old = Some (case old of
     None \<Rightarrow> (sa_pages acc, average_ms acc, time_column (sa_last acc))
   | Some (n, avg, seen) \<Rightarrow> (n + sa_pages acc, moving_average (average_ms acc) avg,
       if time_column (sa_last acc) \<noteq> None then time_column (sa_last acc) else seen))"

definition flushes :: "stats_faults \<Rightarrow> domain \<Rightarrow> stats_accum \<Rightarrow> bool" where
  "flushes F d acc \<longleftrightarrow> sa_pages acc \<noteq> 0 \<and> sf_get F d = None \<and> sf_put F d = None"

lemma flush_domain_stats:
  "domain_stats (flush_domain now F d acc t) d' = (if d' = d \<and> flushes F d acc then next_stats acc (domain_stats t d) else domain_stats t d')"
proof -
  have "dn_domain (merged_stats d acc ex) = d" for ex by (cases ex) (simp_all add: merged_stats_def)
  then show ?thesis
    by (auto simp: flush_domain_def flushes_def get_domain_def upsert_domain_def domain_stats_def next_stats_def domain_rows.lookup_upsert
        domain_row_of_def merge_domain_def merged_stats_def scan_domain_def split: option.splits)
qed

lemma flush_fold_stats:
  "distinct ks \<Longrightarrow> domain_stats (fold (\<lambda>d. flush_domain now F d (f d)) ks t) d
   = (if d \<in> set ks \<and> flushes F d (f d) then next_stats (f d) (domain_stats t d) else domain_stats t d)"
  by (induction ks arbitrary: t) (auto simp: flush_domain_stats)

text \<open>
  A flush empties the collector. The statistics of a domain that was recorded and could be read and written
  then hold the pages counted before and since, an average response time that lies between the stored and the
  new one, and the time of the last crawl; those of every other domain are as they were, so what was recorded
  for a domain that failed is lost.
\<close>

theorem domain_stats_flushed:
  assumes ks: "keys_listed ks m" and t': "flush_stats now F ks (m, t) = (m', t')"
  shows "m' = Map.empty \<and> (\<forall>d. case m d of
      None \<Rightarrow> domain_stats t' d = domain_stats t d
    | Some acc \<Rightarrow> if flushes F d acc
        then (case domain_stats t d of
               None \<Rightarrow> domain_stats t' d = Some (sa_pages acc, average_ms acc, time_column (sa_last acc))
             | Some (n, avg, seen) \<Rightarrow> \<exists>avg'. domain_stats t' d = Some (n + sa_pages acc, avg', if sa_last acc = time_zero then seen else Some (sa_last acc))
                 \<and> min avg (average_ms acc) \<le> avg' \<and> avg' \<le> max avg (average_ms acc))
        else domain_stats t' d = domain_stats t d)"
proof -
  have "distinct ks" "\<And>d. d \<in> set ks \<longleftrightarrow> m d \<noteq> None" using ks by (auto simp: keys_listed_def)
  then have stats: "domain_stats t' d = (case m d of
      None \<Rightarrow> domain_stats t d | Some acc \<Rightarrow> if flushes F d acc then next_stats acc (domain_stats t d) else domain_stats t d)" for d
    using t' by (auto simp: flush_stats_def flush_fold_stats split: option.splits)
  have between: "min b a \<le> moving_average a b \<and> moving_average a b \<le> max b a" for a b
    using moving_average_between [of a b] by (simp add: min.commute max.commute)
  have "m' = Map.empty" using t' by (simp add: flush_stats_def)
  moreover have "case m d of
      None \<Rightarrow> domain_stats t' d = domain_stats t d
    | Some acc \<Rightarrow> if flushes F d acc
        then (case domain_stats t d of
               None \<Rightarrow> domain_stats t' d = Some (sa_pages acc, average_ms acc, time_column (sa_last acc))
             | Some (n, avg, seen) \<Rightarrow> \<exists>avg'. domain_stats t' d = Some (n + sa_pages acc, avg', if sa_last acc = time_zero then seen else Some (sa_last acc))
                 \<and> min avg (average_ms acc) \<le> avg' \<and> avg' \<le> max avg (average_ms acc))
        else domain_stats t' d = domain_stats t d" for d
    using between by (auto simp: stats next_stats_def time_column_def split: option.splits)
  ultimately show ?thesis by blast
qed

definition no_stats_faults :: stats_faults where
  "no_stats_faults = \<lparr>sf_get = (\<lambda>_. None), sf_put = (\<lambda>_. None)\<rparr>"

theorem domain_stats_flushed_witness:
  "\<exists>t' avg'. flush_stats 9 no_stats_faults [''a.org''] (record_stats 8 ''a.org'' (20 * millisecond) (record_stats 7 ''a.org'' (40 * millisecond) Map.empty),
       snd (upsert_domain 5 None (merged_stats ''a.org'' \<lparr>sa_pages = 3, sa_total = 300 * millisecond, sa_last = 4\<rparr> None) empty_table)) = (Map.empty, t')
     \<and> domain_stats t' ''a.org'' = Some (5, avg', Some 8) \<and> 30 \<le> avg' \<and> avg' \<le> 100"
proof -
  let ?m = "record_stats 8 ''a.org'' (20 * millisecond) (record_stats 7 ''a.org'' (40 * millisecond) Map.empty)"
  let ?t = "snd (upsert_domain 5 None (merged_stats ''a.org'' \<lparr>sa_pages = 3, sa_total = 300 * millisecond, sa_last = 4\<rparr> None) empty_table)"
  let ?acc = "\<lparr>sa_pages = 2, sa_total = 60 * millisecond, sa_last = 8\<rparr>"
  have m: "?m ''a.org'' = Some ?acc" and ks: "keys_listed [''a.org''] ?m"
    by (auto simp: record_stats_def empty_accum_def keys_listed_def)
  have avg: "average_ms ?acc = 30" "average_ms \<lparr>sa_pages = 3, sa_total = 300 * millisecond, sa_last = 4\<rparr> = 100"
    by (simp_all add: average_ms_def signed_divide_int_def)
  have t: "domain_stats ?t ''a.org'' = Some (3, 100, Some 4)"
    using avg(2) by (simp add: domain_stats_def upsert_domain_def upsert_def empty_table_def lookup_row_def domain_row_of_def merged_stats_def time_column_def time_zero_def)
  have "flushes no_stats_faults ''a.org'' ?acc" by (simp add: flushes_def no_stats_faults_def)
  moreover obtain m' t' where f: "flush_stats 9 no_stats_faults [''a.org''] (?m, ?t) = (m', t')" by fastforce
  ultimately show ?thesis using domain_stats_flushed [OF ks f, THEN conjunct2, rule_format, of "''a.org''"] domain_stats_flushed [OF ks f, THEN conjunct1] m t avg(1)
    by (simp add: time_zero_def)
qed

end
