(* ===== verification/GoNet.thy ===== *)
theory GoNet
  imports GoStrings "HOL-Library.Word"
begin

text \<open>
  What the code uses of Go's \<open>net\<close> and \<open>strconv\<close> packages: splitting and joining a host and a port, and
  reading decimal integers. The functions are exact; an error of \<open>SplitHostPort\<close> is \<open>None\<close>.
\<close>

definition net_split_host_port :: "string \<Rightarrow> (string \<times> string) option" where
  "net_split_host_port s =
     (case last_index_byte s CHR '':'' of
        None \<Rightarrow> None
      | Some i \<Rightarrow>
          let port = drop (i + 1) s
          in if s ! 0 = CHR ''[''
             then (case index_byte s CHR '']'' of
                 None \<Rightarrow> None
               | Some k \<Rightarrow>
                   if k + 1 \<noteq> i then None
                   else if CHR ''['' \<in> set (drop 1 s) \<or> CHR '']'' \<in> set (drop (k + 1) s) then None
                   else Some (drop 1 (take k s), port))
             else if CHR '':'' \<in> set (take i s) \<or> CHR ''['' \<in> set s \<or> CHR '']'' \<in> set s then None
             else Some (take i s, port))"

definition join_host_port :: "string \<Rightarrow> string \<Rightarrow> string" where
  "join_host_port host port =
     (if CHR '':'' \<in> set host then ''['' @ host @ '']:'' @ port else host @ '':'' @ port)"

subsection \<open>Decimal integers\<close>

text \<open>The outcome of \<open>ParseUint\<close> and \<open>ParseInt\<close>: on a range error the limit is returned with the error.\<close>

datatype parsed_int = Parsed int | Out_of_range int | Bad_syntax

definition decimal_digit :: "char \<Rightarrow> int option" where
  "decimal_digit c = (if ascii_digit c then Some (int (byte c) - 48) else None)"

fun parse_digits :: "int \<Rightarrow> string \<Rightarrow> parsed_int" where
  "parse_digits n [] = Parsed n"
| "parse_digits n (c # s) =
     (case decimal_digit c of
        None \<Rightarrow> Bad_syntax
      | Some d \<Rightarrow> if 2 ^ 64 \<le> 10 * n + d then Out_of_range (2 ^ 64 - 1) else parse_digits (10 * n + d) s)"

definition signed_part :: "string \<Rightarrow> bool \<times> string" where
  "signed_part s = (case s of c # r \<Rightarrow> if c = CHR ''-'' then (True, r) else if c = CHR ''+'' then (False, r) else (False, s) | [] \<Rightarrow> (False, []))"

text \<open>\<open>ParseInt(s, 10, 64)\<close>.\<close>

definition parse_int :: "string \<Rightarrow> parsed_int" where
  "parse_int s =
     (case signed_part s of (neg, ds) \<Rightarrow>
        if ds = [] then Bad_syntax
        else (case parse_digits 0 ds of
            Bad_syntax \<Rightarrow> Bad_syntax
          | Parsed n \<Rightarrow> if neg then (if 2 ^ 63 < n then Out_of_range (- (2 ^ 63)) else Parsed (- n))
                        else (if 2 ^ 63 \<le> n then Out_of_range (2 ^ 63 - 1) else Parsed n)
          | Out_of_range _ \<Rightarrow> Out_of_range (if neg then - (2 ^ 63) else 2 ^ 63 - 1)))"

text \<open>The value of \<open>strconv.Atoi\<close> when the caller ignores its error.\<close>

definition atoi :: "string \<Rightarrow> int" where
  "atoi s = (case parse_int s of Parsed n \<Rightarrow> n | Out_of_range n \<Rightarrow> n | Bad_syntax \<Rightarrow> 0)"

text \<open>Arithmetic on \<open>int\<close>, which is 64 bits wide and wraps around.\<close>

definition wrap_int :: "int \<Rightarrow> int" where
  "wrap_int n = sint (word_of_int n :: 64 word)"

lemma wrap_int_id: "- (2 ^ 63) \<le> n \<Longrightarrow> n < 2 ^ 63 \<Longrightarrow> wrap_int n = n"
  by (simp add: wrap_int_def sint_sbintrunc' signed_take_bit_int_eq_self)

lemma wrap_int_range: "- (2 ^ 63) \<le> wrap_int n \<and> wrap_int n < 2 ^ 63"
  using sint_greater_eq [of "word_of_int n :: 64 word"] sint_less [of "word_of_int n :: 64 word"]
  by (simp add: wrap_int_def)

lemma parse_digits_bounds:
  "0 \<le> n \<Longrightarrow> parse_digits n s = Parsed m \<Longrightarrow> n \<le> m \<and> (s = [] \<or> m < 2 ^ 64)"
proof (induction s arbitrary: n)
  case (Cons c s)
  then obtain d where d: "decimal_digit c = Some d" "\<not> 2 ^ 64 \<le> 10 * n + d" "parse_digits (10 * n + d) s = Parsed m"
    by (auto split: option.splits if_splits)
  have "0 \<le> d" using d(1) by (auto simp: decimal_digit_def ascii_digit_def split: if_splits)
  then have "10 * n + d \<le> m" "s = [] \<or> m < 2 ^ 64" "n \<le> 10 * n + d" using Cons.IH [OF _ d(3)] Cons.prems(1) by auto
  then show ?case using d(2,3) by auto
qed simp

lemma atoi_range: "- (2 ^ 63) \<le> atoi s \<and> atoi s < 2 ^ 63"
proof -
  have "parse_digits 0 ds = Parsed n \<Longrightarrow> 0 \<le> n" for ds n using parse_digits_bounds [of 0 ds n] by simp
  then show ?thesis
    by (auto simp: atoi_def parse_int_def split: parsed_int.splits prod.splits if_splits) (force+)?
qed

end
