(* ===== verification/DnsCache.thy ===== *)
theory DnsCache
  imports GoNet
begin

text \<open>
  The cache of DNS answers, \<open>internal/crawler/dnscache.go\<close>. The map holds pointers: \<open>dc_entries\<close> gives the
  address of a host's entry and \<open>dc_heap\<close> the entry at an address, so that a lookup goes on with an entry that
  the janitor has removed from the map. A lookup is two steps, finding the entry and, under the entry's mutex,
  resolving the host; others may run in between. The resolver and the dialer are arguments.
\<close>

record dns_entry =
  de_ips :: "string list"
  de_expires :: gotime

record dns_cache =
  dc_ttl :: duration
  dc_entries :: "string \<rightharpoonup> nat"
  dc_heap :: "nat \<Rightarrow> dns_entry"
  dc_next :: nat

definition no_entry :: dns_entry where
  "no_entry = \<lparr>de_ips = [], de_expires = time_zero\<rparr>"

definition new_dns_cache :: "duration \<Rightarrow> dns_cache" where
  "new_dns_cache ttl = \<lparr>dc_ttl = ttl, dc_entries = Map.empty, dc_heap = (\<lambda>_. no_entry), dc_next = 0\<rparr>"

text \<open>The first part of \<open>Lookup\<close>: an answer, or the address of the entry to resolve.\<close>

definition dns_find :: "gotime \<Rightarrow> string \<Rightarrow> dns_cache \<Rightarrow> (string list + nat) \<times> dns_cache" where
  "dns_find now host c =
     (case dc_entries c host of
        Some a \<Rightarrow> if now < de_expires (dc_heap c a) then (Inl (de_ips (dc_heap c a)), c) else (Inr a, c)
      | None \<Rightarrow> (Inr (dc_next c), c\<lparr>dc_entries := (dc_entries c)(host \<mapsto> dc_next c),
                   dc_heap := (dc_heap c)(dc_next c := no_entry), dc_next := dc_next c + 1\<rparr>))"

text \<open>
  The second part, with the entry locked: the second look at time \<open>now\<close>, and otherwise the resolver's answer,
  which is stored at time \<open>later\<close>. \<open>None\<close> is an error of the resolver.
\<close>

definition dns_resolve :: "gotime \<Rightarrow> gotime \<Rightarrow> string list option \<Rightarrow> nat \<Rightarrow> dns_cache \<Rightarrow> string list option \<times> dns_cache" where
  "dns_resolve now later answer a c =
     (if now < de_expires (dc_heap c a) then (Some (de_ips (dc_heap c a)), c)
      else (case answer of
              None \<Rightarrow> (None, c)
            | Some ips \<Rightarrow> (Some ips, c\<lparr>dc_heap := (dc_heap c)(a := \<lparr>de_ips = ips, de_expires = later + dc_ttl c\<rparr>)\<rparr>)))"

definition dns_lookup :: "gotime \<Rightarrow> gotime \<Rightarrow> gotime \<Rightarrow> string list option \<Rightarrow> string \<Rightarrow> dns_cache \<Rightarrow> string list option \<times> dns_cache" where
  "dns_lookup t1 t2 t3 answer host c =
     (case dns_find t1 host c of
        (Inl ips, c') \<Rightarrow> (Some ips, c')
      | (Inr a, c') \<Rightarrow> dns_resolve t2 t3 answer a c')"

definition dns_prune :: "gotime \<Rightarrow> dns_cache \<Rightarrow> dns_cache" where
  "dns_prune now c = c\<lparr>dc_entries := (\<lambda>host. case dc_entries c host of
     None \<Rightarrow> None | Some a \<Rightarrow> if de_expires (dc_heap c a) < now then None else Some a)\<rparr>"

text \<open>\<open>DialContext\<close>: \<open>is_ip\<close> is \<open>net.ParseIP\<close>, \<open>dial\<close> the connection an address gives, if any.\<close>

fun first_connection :: "(string \<Rightarrow> 'c option) \<Rightarrow> string \<Rightarrow> string list \<Rightarrow> 'c option" where
  "first_connection dial port [] = None"
| "first_connection dial port (ip # ips) =
     (case dial (join_host_port ip port) of Some conn \<Rightarrow> Some conn | None \<Rightarrow> first_connection dial port ips)"

definition dial_context :: "(string \<Rightarrow> bool) \<Rightarrow> (string \<Rightarrow> 'c option) \<Rightarrow> gotime \<Rightarrow> gotime \<Rightarrow> gotime \<Rightarrow> string list option \<Rightarrow> string \<Rightarrow> dns_cache
    \<Rightarrow> 'c option \<times> dns_cache" where
  "dial_context is_ip dial t1 t2 t3 answer addr c =
     (case net_split_host_port addr of
        None \<Rightarrow> (None, c)
      | Some (host, port) \<Rightarrow>
          if is_ip host then (dial addr, c)
          else (case dns_lookup t1 t2 t3 answer host c of
                  (None, c') \<Rightarrow> (None, c')
                | (Some ips, c') \<Rightarrow> (first_connection dial port ips, c')))"

subsection \<open>Lookups that run together\<close>

text \<open>
  The cache, the lookups that have found their entry and wait for its mutex, and a record of what the
  resolver has answered and of what the lookups have returned, each with its time.
\<close>

record dns_world =
  dw_cache :: dns_cache
  dw_pending :: "(string \<times> nat) set"
  dw_resolved :: "(string \<times> string list \<times> gotime) set"
  dw_returned :: "(string \<times> string list \<times> gotime) set"

definition dns_start :: "duration \<Rightarrow> dns_world" where
  "dns_start ttl = \<lparr>dw_cache = new_dns_cache ttl, dw_pending = {}, dw_resolved = {}, dw_returned = {}\<rparr>"

inductive dns_step :: "dns_world \<Rightarrow> dns_world \<Rightarrow> bool" where
  Hit: "0 \<le> now \<Longrightarrow> dns_find now host (dw_cache w) = (Inl ips, c) \<Longrightarrow>
    dns_step w (w\<lparr>dw_cache := c, dw_returned := insert (host, ips, now) (dw_returned w)\<rparr>)"
| Miss: "0 \<le> now \<Longrightarrow> dns_find now host (dw_cache w) = (Inr a, c) \<Longrightarrow>
    dns_step w (w\<lparr>dw_cache := c, dw_pending := insert (host, a) (dw_pending w)\<rparr>)"
| Second_look: "0 \<le> now \<Longrightarrow> (host, a) \<in> dw_pending w \<Longrightarrow> now < de_expires (dc_heap (dw_cache w) a) \<Longrightarrow>
    dns_resolve now later answer a (dw_cache w) = (Some ips, c) \<Longrightarrow>
    dns_step w (w\<lparr>dw_cache := c, dw_returned := insert (host, ips, now) (dw_returned w)\<rparr>)"
| Answer: "0 \<le> now \<Longrightarrow> now \<le> later \<Longrightarrow> (host, a) \<in> dw_pending w \<Longrightarrow> \<not> now < de_expires (dc_heap (dw_cache w) a) \<Longrightarrow>
    dns_resolve now later (Some ips) a (dw_cache w) = (Some ips, c) \<Longrightarrow>
    dns_step w (w\<lparr>dw_cache := c, dw_resolved := insert (host, ips, later) (dw_resolved w),
      dw_returned := insert (host, ips, later) (dw_returned w)\<rparr>)"
| Failed: "(host, a) \<in> dw_pending w \<Longrightarrow> dns_step w (w\<lparr>dw_pending := dw_pending w - {(host, a)}\<rparr>)"
| Prune: "dns_step w (w\<lparr>dw_cache := dns_prune now (dw_cache w)\<rparr>)"

text \<open>An address belongs to one host, and its entry is new or holds an answer of the resolver for that host.\<close>

definition dns_ok :: "(nat \<Rightarrow> string) \<Rightarrow> dns_world \<Rightarrow> bool" where
  "dns_ok own w \<longleftrightarrow>
     (\<forall>host a. dc_entries (dw_cache w) host = Some a \<longrightarrow> a < dc_next (dw_cache w) \<and> own a = host)
   \<and> (\<forall>(host, a) \<in> dw_pending w. a < dc_next (dw_cache w) \<and> own a = host)
   \<and> (\<forall>a < dc_next (dw_cache w). let e = dc_heap (dw_cache w) a in
        e = no_entry \<or> (own a, de_ips e, de_expires e - dc_ttl (dw_cache w)) \<in> dw_resolved w)
   \<and> (\<forall>(host, ips, now) \<in> dw_returned w. \<exists>t. (host, ips, t) \<in> dw_resolved w \<and> (now = t \<or> now < t + dc_ttl (dw_cache w)))"

lemma dns_okD:
  assumes "dns_ok own w"
  shows "dc_entries (dw_cache w) host = Some a \<Longrightarrow> a < dc_next (dw_cache w) \<and> own a = host"
    and "(host, a) \<in> dw_pending w \<Longrightarrow> a < dc_next (dw_cache w) \<and> own a = host"
    and "a < dc_next (dw_cache w) \<Longrightarrow> dc_heap (dw_cache w) a = no_entry
      \<or> (own a, de_ips (dc_heap (dw_cache w) a), de_expires (dc_heap (dw_cache w) a) - dc_ttl (dw_cache w)) \<in> dw_resolved w"
    and "(host, ips, now) \<in> dw_returned w \<Longrightarrow> \<exists>t. (host, ips, t) \<in> dw_resolved w \<and> (now = t \<or> now < t + dc_ttl (dw_cache w))"
  using assms unfolding dns_ok_def Let_def by fast+

lemma dns_ok_start: "dns_ok own (dns_start ttl)"
  by (simp add: dns_ok_def dns_start_def new_dns_cache_def)

lemma dns_live_entry:
  assumes "dns_ok own w" and "a < dc_next (dw_cache w)" and "0 \<le> now" and "now < de_expires (dc_heap (dw_cache w) a)"
  shows "(own a, de_ips (dc_heap (dw_cache w) a), de_expires (dc_heap (dw_cache w) a) - dc_ttl (dw_cache w)) \<in> dw_resolved w"
proof -
  have "dc_heap (dw_cache w) a \<noteq> no_entry" using assms(3,4) by (auto simp: no_entry_def time_zero_def)
  then show ?thesis using assms(1,2) by (auto simp: dns_ok_def Let_def)
qed

lemma dns_ok_returned:
  assumes "dns_ok own w" and "(host, ips, t) \<in> dw_resolved w" and "now = t \<or> now < t + dc_ttl (dw_cache w)"
  shows "dns_ok own (w\<lparr>dw_returned := insert (host, ips, now) (dw_returned w)\<rparr>)"
  using assms by (auto simp: dns_ok_def)

lemma dns_find_hit:
  assumes "dns_find now host c0 = (Inl ips, c)"
  shows "c = c0 \<and> (\<exists>a. dc_entries c0 host = Some a \<and> now < de_expires (dc_heap c0 a) \<and> ips = de_ips (dc_heap c0 a))"
  using assms by (cases "dc_entries c0 host") (auto simp: dns_find_def split: if_splits)

lemma dns_ok_step:
  assumes "dns_step w w'" and ok: "dns_ok own w"
  shows "(\<exists>own'. dns_ok own' w') \<and> dc_ttl (dw_cache w') = dc_ttl (dw_cache w)"
  using assms(1)
proof cases
  case (Hit now host ips c)
  obtain a where a: "dc_entries (dw_cache w) host = Some a" "now < de_expires (dc_heap (dw_cache w) a)"
    "ips = de_ips (dc_heap (dw_cache w) a)" and c: "c = dw_cache w"
    using dns_find_hit [OF Hit(3)] by blast
  have own: "a < dc_next (dw_cache w)" "own a = host" using dns_okD(1) [OF ok a(1)] by auto
  have "dns_ok own (w\<lparr>dw_returned := insert (host, ips, now) (dw_returned w)\<rparr>)"
    using dns_live_entry [OF ok own(1) Hit(2) a(2)] own(2) a
    by (intro dns_ok_returned [OF ok, of _ _ "de_expires (dc_heap (dw_cache w) a) - dc_ttl (dw_cache w)"]) auto
  then show ?thesis unfolding Hit(1) c by auto
next
  case (Miss now host a c)
  show ?thesis
  proof (cases "dc_entries (dw_cache w) host")
    case None
    then have c: "a = dc_next (dw_cache w)" "c = dw_cache w\<lparr>dc_entries := (dc_entries (dw_cache w))(host \<mapsto> a),
        dc_heap := (dc_heap (dw_cache w))(a := no_entry), dc_next := a + 1\<rparr>"
      using Miss(3) by (auto simp: dns_find_def)
    have "dns_ok (own(a := host)) w'"
      unfolding dns_ok_def Miss(1) c(2) Let_def using dns_okD [OF ok] c(1)
      by (auto simp: less_Suc_eq split: if_splits)
    then show ?thesis using Miss(1) c(2) by auto
  next
    case (Some b)
    have "c = dw_cache w" "a = b" using Miss(3) Some by (auto simp: dns_find_def split: if_splits)
    then have "dns_ok own w'" using ok Some by (auto simp: dns_ok_def Miss(1))
    then show ?thesis using Miss(1) \<open>c = dw_cache w\<close> by auto
  qed
next
  case (Second_look now host a later answer ips c)
  from Second_look(4,5) have c: "c = dw_cache w" "ips = de_ips (dc_heap (dw_cache w) a)" by (auto simp: dns_resolve_def)
  have "a < dc_next (dw_cache w)" "own a = host" using ok Second_look(3) by (auto simp: dns_ok_def)
  then have "dns_ok own (w\<lparr>dw_returned := insert (host, ips, now) (dw_returned w)\<rparr>)"
    using dns_live_entry [OF ok _ Second_look(2,4)] c by (intro dns_ok_returned [OF ok, of _ _ "de_expires (dc_heap (dw_cache w) a) - dc_ttl (dw_cache w)"]) (use Second_look(4) in auto)
  then show ?thesis using Second_look(1) c(1) by auto
next
  case (Answer now later host a ips c)
  from Answer(5,6) have c: "c = dw_cache w\<lparr>dc_heap := (dc_heap (dw_cache w))(a := \<lparr>de_ips = ips, de_expires = later + dc_ttl (dw_cache w)\<rparr>)\<rparr>"
    by (auto simp: dns_resolve_def)
  have "own a = host" using ok Answer(4) by (auto simp: dns_ok_def)
  then have "dns_ok own w'" unfolding Answer(1) using ok by (fastforce simp: dns_ok_def c Let_def)
  then show ?thesis using Answer(1) c by auto
next
  case (Failed host a)
  then have "dns_ok own w'" using ok by (auto simp: dns_ok_def)
  then show ?thesis using Failed(1) by auto
next
  case (Prune now)
  then have "dns_ok own w'" using ok by (auto simp: dns_ok_def dns_prune_def split: option.splits if_splits)
  then show ?thesis using Prune by (auto simp: dns_prune_def)
qed

text \<open>
  However lookups, resolver answers and removals interleave, what a lookup returns for a host is what the
  resolver has answered for that host, at that moment or less than the time to live before.
\<close>

theorem dns_answers_fresh:
  assumes "dns_step\<^sup>*\<^sup>* (dns_start ttl) w" and "(host, ips, now) \<in> dw_returned w"
  shows "\<exists>t. (host, ips, t) \<in> dw_resolved w \<and> (now = t \<or> now < t + ttl)"
proof -
  have "(\<exists>own. dns_ok own w) \<and> dc_ttl (dw_cache w) = ttl"
    using assms(1)
  proof (induction rule: rtranclp_induct)
    case base
    show ?case using dns_ok_start by (auto simp: dns_start_def new_dns_cache_def)
  next
    case (step w1 w2)
    then show ?case using dns_ok_step [OF step(2)] by metis
  qed
  then show ?thesis using dns_okD(4) [OF _ assms(2)] by metis
qed

theorem dns_answers_fresh_witness:
  "\<exists>w t. dns_step\<^sup>*\<^sup>* (dns_start 10) w \<and> (''a.org'', [''192.0.2.1''], 12) \<in> dw_returned w
     \<and> (''a.org'', [''192.0.2.1''], t) \<in> dw_resolved w \<and> (12 = t \<or> 12 < t + 10)"
proof -
  let ?w0 = "dns_start 10"
  define c1 where "c1 = snd (dns_find 3 ''a.org'' (dw_cache ?w0))"
  define w1 where "w1 = ?w0\<lparr>dw_cache := c1, dw_pending := {(''a.org'', 0)}\<rparr>"
  have "dns_step ?w0 w1"
    using dns_step.Miss [of 3 "''a.org''" ?w0 0 c1] by (simp add: w1_def c1_def dns_find_def dns_start_def new_dns_cache_def)
  define c2 where "c2 = snd (dns_resolve 4 5 (Some [''192.0.2.1'']) 0 c1)"
  define w2 where "w2 = w1\<lparr>dw_cache := c2, dw_resolved := {(''a.org'', [''192.0.2.1''], 5)}, dw_returned := {(''a.org'', [''192.0.2.1''], 5)}\<rparr>"
  have new: "dc_heap c1 0 = no_entry" "dw_cache w1 = c1" "dc_ttl c1 = 10" "dc_entries c1 = [''a.org'' \<mapsto> 0]"
    by (simp_all add: w1_def c1_def dns_find_def dns_start_def new_dns_cache_def)
  then have "dns_step w1 w2"
    using dns_step.Answer [of 4 5 "''a.org''" 0 w1 "[''192.0.2.1'']" c2]
    by (simp add: w2_def c2_def dns_resolve_def no_entry_def time_zero_def) (simp add: w1_def dns_start_def)
  moreover have c2: "dc_entries c2 ''a.org'' = Some 0" "dc_heap c2 0 = \<lparr>de_ips = [''192.0.2.1''], de_expires = 15\<rparr>" "dw_cache w2 = c2"
    using new by (simp_all add: c2_def w2_def dns_resolve_def no_entry_def time_zero_def)
  define w3 where "w3 = w2\<lparr>dw_cache := c2, dw_returned := insert (''a.org'', [''192.0.2.1''], 12) (dw_returned w2)\<rparr>"
  have "dns_step w2 w3"
    using dns_step.Hit [of 12 "''a.org''" w2 "[''192.0.2.1'']" c2] c2 by (simp add: dns_find_def w3_def)
  ultimately have w3: "dns_step\<^sup>*\<^sup>* ?w0 w3" using \<open>dns_step ?w0 w1\<close> by (meson converse_rtranclp_into_rtranclp rtranclp.rtrancl_refl)
  moreover have ret: "(''a.org'', [''192.0.2.1''], 12) \<in> dw_returned w3" by (simp add: w3_def)
  ultimately show ?thesis using dns_answers_fresh [OF w3 ret] by blast
qed

end
