(* ===== verification/Ingest.thy ===== *)
theory Ingest
  imports PageDb GoTime GoNet
begin

text \<open>
  The pages that the browser extension sends (\<open>IngestPage\<close> and \<open>IngestBatch\<close> of \<open>internal/api/handlers.go\<close>):
  result pages of search engines are refused, the others are stored and their links queued. A decoded request
  body is an argument; a handler answers or refuses with a status and a text. The SHA-256 of the content is an
  argument. Every page of a batch is handled at a moment of its own.
\<close>

datatype 'a answer = Refused int string | Answered int 'a | Crashed

definition query_get :: "url_values \<Rightarrow> string \<Rightarrow> string" where
  "query_get vs k = (case map_of vs k of Some (v # _) \<Rightarrow> v | _ \<Rightarrow> [])"

definition query_has :: "url_values \<Rightarrow> string \<Rightarrow> bool" where
  "query_has vs k \<longleftrightarrow> k \<in> fst ` set vs"

definition priority_discovery :: float64 where "priority_discovery = 50"
definition max_ingest_outlinks :: nat where "max_ingest_outlinks = 3"

definition clamp_ingest_outlinks :: "rawurl list \<Rightarrow> rawurl list" where
  "clamp_ingest_outlinks outlinks = (if length outlinks \<le> max_ingest_outlinks then outlinks else take max_ingest_outlinks outlinks)"

subsection \<open>Times\<close>

text \<open>The year of a time in UTC: the estimate by the mean length of a year is off by at most one.\<close>

definition year_of :: "gotime \<Rightarrow> int" where
  "year_of t =
     (let d = t div day_ns; y = 400 * d div 146097 + 1
      in if days_before_year (y + 1) \<le> d then y + 1 else if d < days_before_year y then y - 1 else y)"

definition ingest_layouts :: "time_layout list" where
  "ingest_layouts = [rfc3339_nano, rfc3339, ''2006-01-02T15:04:05Z07:00'', ''2006-01-02T15:04:05'', ''2006-01-02 15:04:05'', ''2006-01-02'']"

text \<open>\<open>Year\<close> of a parsed time is the year as it was written, in the zone of the text.\<close>

definition is_sane_ingest_time :: "gotime \<Rightarrow> civil \<Rightarrow> bool" where
  "is_sane_ingest_time now c \<longleftrightarrow> civil_time c \<noteq> time_zero \<and> 1990 \<le> cv_year c \<and> cv_year c \<le> year_of now + 1"

definition parse_ingest_time :: "gotime \<Rightarrow> string \<Rightarrow> gotime" where
  "parse_ingest_time now value0 =
     (let s = trim_space value0
      in if s = [] then time_zero
         else (case List.map_filter (\<lambda>l. case parse_civil l s of
                   None \<Rightarrow> None
                 | Some c \<Rightarrow> if is_sane_ingest_time now c then Some (civil_time c) else None) ingest_layouts of
                 [] \<Rightarrow> time_zero
               | t # _ \<Rightarrow> t))"

subsection \<open>Result pages of search engines\<close>

definition is_search_results_page :: "stdlib \<Rightarrow> rawurl \<Rightarrow> bool" where
  "is_search_results_page E raw =
     (case url_parse E raw of
        None \<Rightarrow> False
      | Some u \<Rightarrow>
          let host = to_lower E (url_hostname u);
              path = to_lower E (u_path u);
              has = query_has (url_query (u_rawquery u));
              has_term = list_ex has [''q'', ''query'', ''p'', ''text'', ''s''];
              searx = (path = ''/search'' \<and> has ''q''
                \<and> list_ex has [''categories'', ''language'', ''engines'', ''theme'', ''time_range'', ''safesearch'']);
              whoogle = ((path = ''/search'' \<or> path = ''/'') \<and> has ''q''
                \<and> list_ex has [''safe'', ''tbm'', ''start'', ''region'', ''near''])
          in if has_prefix host ''www.google.'' \<or> has_prefix host ''google.''
             then path = ''/search'' \<or> has_prefix path ''/search/'' \<or> path = ''/imgres'' \<or> has_prefix path ''/sorry/''
             else if host = ''www.bing.com'' \<or> host = ''bing.com'' then path = ''/search''
             else if host = ''duckduckgo.com'' \<or> host = ''www.duckduckgo.com'' then (path = ''/'' \<and> has_term) \<or> path = ''/html''
             else if host = ''search.yahoo.com'' then path = ''/search''
             else if has_prefix host ''www.yandex.'' \<or> has_prefix host ''yandex.'' then path = ''/search''
             else if host = ''www.baidu.com'' \<or> host = ''baidu.com'' then path = ''/s''
             else if host = ''www.ecosia.org'' \<or> host = ''ecosia.org'' then path = ''/search''
             else if host = ''www.mojeek.com'' \<or> host = ''mojeek.com'' then path = ''/search''
             else if host = ''search.brave.com'' then path = ''/search''
             else if host = ''www.metager.org'' \<or> host = ''metager.org'' then has_prefix path ''/meta/'' \<or> path = ''/''
             else if host = ''www.stract.com'' \<or> host = ''stract.com'' then path = ''/search''
             else if host = ''www.mwmbl.org'' \<or> host = ''mwmbl.org'' then path = ''/'' \<and> has_term
             else if str_contains host ''yacy'' then path = ''/yacysearch.html'' \<or> path = ''/solr/select''
             else if host = ''www.startpage.com'' \<or> host = ''startpage.com'' then path = ''/sp/search'' \<or> (path = ''/'' \<and> has_term)
             else if str_contains host ''searx'' \<or> searx then path = ''/search''
             else if str_contains host ''whoogle'' \<or> whoogle then (path = ''/search'' \<or> path = ''/'') \<and> has ''q''
             else False)"

subsection \<open>One page\<close>

record ingest_request =
  iq_url :: rawurl
  iq_title :: string
  iq_desc :: string
  iq_h1 :: string
  iq_content :: string
  iq_lang :: string
  iq_outlinks :: "rawurl list"
  iq_schema_type :: string
  iq_schema_title :: string
  iq_schema_desc :: string
  iq_schema_image :: string
  iq_schema_author :: string
  iq_schema_keywords :: string
  iq_published :: string
  iq_crawled :: string

text \<open>The moment a page is handled: the clock and the errors of the store.\<close>

record ingest_moment =
  gm_now :: gotime
  gm_store :: ingest_faults
  gm_filter :: "db_error option"

record 'b ingest_env =
  ie_std :: stdlib
  ie_sha256 :: "string \<Rightarrow> string"
  ie_bloom_test :: "'b \<Rightarrow> string \<Rightarrow> bool"
  ie_bloom_add :: "'b \<Rightarrow> string \<Rightarrow> 'b"
  ie_score :: "job \<Rightarrow> float64"
  ie_max_depth :: int

record 'b ingest_state =
  is_frontier :: "'b frontier"
  is_pages :: "page_row table"
  is_links :: "link_row list"

definition ingest_time :: "gotime \<Rightarrow> string \<Rightarrow> gotime" where
  "ingest_time now s = (if s \<noteq> [] \<and> parse_ingest_time now s \<noteq> time_zero then parse_ingest_time now s else now)"

definition ingested :: "'b ingest_env \<Rightarrow> gotime \<Rightarrow> ingest_request \<Rightarrow> rawurl \<times> domain \<Rightarrow> page" where
  "ingested G now r c =
     (let t = ingest_time now (iq_crawled r)
      in page0\<lparr>pg_url := fst c, pg_domain := snd c, pg_title := iq_title r, pg_h1 := iq_h1 r, pg_desc := iq_desc r,
           pg_content := iq_content r, pg_lang := iq_lang r, pg_status := 200, pg_content_hash := ie_sha256 G (iq_content r),
           pg_fp := fingerprint_url (ie_std G) (fst c), pg_mode := ''extension'', pg_reason := ''submitted_by_extension'',
           pg_ingest_hits := 1, pg_last_seen := t, pg_crawled := t,
           pg_published := (if iq_published r = [] then time_zero else parse_ingest_time now (iq_published r)),
           pg_schema_type := iq_schema_type r, pg_schema_title := iq_schema_title r, pg_schema_desc := iq_schema_desc r,
           pg_schema_image := iq_schema_image r, pg_schema_author := iq_schema_author r, pg_schema_keywords := iq_schema_keywords r\<rparr>)"

definition ingest_context :: "ingest_request \<Rightarrow> rawurl \<Rightarrow> link_context" where
  "ingest_context r raw = \<lparr>lc_url = raw, lc_anchor = [], lc_title = iq_title r, lc_schema = iq_schema_type r, lc_lang = iq_lang r\<rparr>"

text \<open>Storing a page with a canonical URL and queueing its links; the answer is its id and the number of links.\<close>

definition store_ingested :: "'b ingest_env \<Rightarrow> ingest_moment \<Rightarrow> ingest_request \<Rightarrow> rawurl \<times> domain \<Rightarrow> 'b ingest_state
    \<Rightarrow> (db_error + int \<times> nat) \<times> 'b ingest_state" where
  "store_ingested G m r c s =
     (let outlinks = clamp_ingest_outlinks (iq_outlinks r)
      in (case ingest_page (ie_std G) (gm_now m) (gm_store m) (ingested G (gm_now m) r c) outlinks (is_pages s, is_links s) of
            (Inl x, pages, links) \<Rightarrow> (Inl x, s\<lparr>is_pages := pages, is_links := links\<rparr>)
          | (Inr i, pages, links) \<Rightarrow>
              (Inr (i, length outlinks),
               s\<lparr>is_pages := pages, is_links := links,
                 is_frontier := add_batch (ie_std G) (ie_bloom_test G) (ie_bloom_add G)
                   (\<lambda>us. case filter_existing_urls (gm_filter m) us pages of Inl _ \<Rightarrow> None | Inr found \<Rightarrow> Some found) (ie_score G)
                   (map (ingest_context r) outlinks) (ie_max_depth G) priority_discovery (is_frontier s)\<rparr>)))"

record ingest_result =
  gr_url :: rawurl
  gr_indexed :: bool
  gr_page_id :: int
  gr_queued :: nat
  gr_error :: string

definition ingest_failure :: "rawurl \<Rightarrow> string \<Rightarrow> ingest_result" where
  "ingest_failure u msg = \<lparr>gr_url = u, gr_indexed = False, gr_page_id = 0, gr_queued = 0, gr_error = msg\<rparr>"

definition ingest_success :: "rawurl \<Rightarrow> int \<times> nat \<Rightarrow> ingest_result" where
  "ingest_success u n = \<lparr>gr_url = u, gr_indexed = True, gr_page_id = fst n, gr_queued = snd n, gr_error = []\<rparr>"

text \<open>\<open>IngestPage\<close>; \<open>None\<close> as a request is a body that cannot be decoded, \<open>has_frontier\<close> is false on a search node.\<close>

definition ingest_page_handler :: "'b ingest_env \<Rightarrow> bool \<Rightarrow> ingest_moment \<Rightarrow> ingest_request option \<Rightarrow> 'b ingest_state
    \<Rightarrow> ingest_result answer \<times> 'b ingest_state" where
  "ingest_page_handler G has_frontier m req s =
     (case req of
        None \<Rightarrow> (Refused 400 ''invalid request body'', s)
      | Some r \<Rightarrow>
          if iq_url r = [] then (Refused 400 ''url is required'', s)
          else if is_search_results_page (ie_std G) (iq_url r) then (Answered 200 (ingest_failure (iq_url r) ''search_results_page''), s)
          else if \<not> has_frontier then (Refused 500 ''frontier not available on this node'', s)
          else (case canonicalize_url (ie_std G) (iq_url r) of
                  None \<Rightarrow> (Refused 400 ''invalid url'', s)
                | Some c \<Rightarrow>
                    (case store_ingested G m r c s of
                       (Inl _, s') \<Rightarrow> (Refused 500 ''failed to ingest page'', s')
                     | (Inr n, s') \<Rightarrow> (Answered 200 (ingest_success (fst c) n), s'))))"

subsection \<open>A batch\<close>

definition ingest_item :: "'b ingest_env \<Rightarrow> ingest_moment \<Rightarrow> ingest_request \<Rightarrow> 'b ingest_state \<Rightarrow> ingest_result \<times> 'b ingest_state" where
  "ingest_item G m r s =
     (if iq_url r = [] then (ingest_failure (iq_url r) ''url is required'', s)
      else if is_search_results_page (ie_std G) (iq_url r) then (ingest_failure (iq_url r) ''search_results_page'', s)
      else (case canonicalize_url (ie_std G) (iq_url r) of
              None \<Rightarrow> (ingest_failure (iq_url r) ''invalid url'', s)
            | Some c \<Rightarrow>
                (case store_ingested G m r c s of
                   (Inl x, s') \<Rightarrow> (ingest_failure (fst c) x, s')
                 | (Inr n, s') \<Rightarrow> (ingest_success (fst c) n, s'))))"

fun ingest_items :: "'b ingest_env \<Rightarrow> (ingest_moment \<times> ingest_request) list \<Rightarrow> 'b ingest_state \<Rightarrow> ingest_result list \<times> 'b ingest_state" where
  "ingest_items G [] s = ([], s)"
| "ingest_items G ((m, r) # rs) s =
     (case ingest_item G m r s of (x, s1) \<Rightarrow> (case ingest_items G rs s1 of (xs, s2) \<Rightarrow> (x # xs, s2)))"

record batch_answer =
  ba_processed :: int
  ba_failed :: int
  ba_results :: "ingest_result list"

definition ingest_batch_handler :: "'b ingest_env \<Rightarrow> bool \<Rightarrow> string + (ingest_moment \<times> ingest_request) list \<Rightarrow> 'b ingest_state
    \<Rightarrow> batch_answer answer \<times> 'b ingest_state" where
  "ingest_batch_handler G has_frontier req s =
     (case req of
        Inl x \<Rightarrow> (Refused 400 (''invalid request body: '' @ x), s)
      | Inr rs \<Rightarrow>
          if rs = [] then (Refused 400 ''at least one page is required'', s)
          else if 1000 < length rs then (Refused 400 ''maximum 1000 pages per batch request'', s)
          else if \<not> has_frontier then (Refused 500 ''frontier not available on this node'', s)
          else (case ingest_items G rs s of (xs, s') \<Rightarrow>
                  let processed = int (length (filter gr_indexed xs))
                  in (Answered 200 \<lparr>ba_processed = processed, ba_failed = int (length rs) - processed, ba_results = xs\<rparr>, s')))"

subsection \<open>The year of a time\<close>

lemma div_bounds:
  fixes e k :: int
  assumes "0 < k"
  shows "k * (e div k) \<le> e" and "e < k * (e div k) + k"
  using mult_div_mod_eq [of k e] pos_mod_bound [OF assms, of e] pos_mod_sign [OF assms, of e] by linarith+

lemma days_before_year_bounds:
  "146097 * (y - 1) - 800 < 400 * days_before_year y" "400 * days_before_year y < 146097 * (y - 1) + 400"
proof -
  define e q4 q100 q400 where "e = y - 1" and "q4 = e div 4" and "q100 = e div 100" and "q400 = e div 400"
  have "4 * q4 \<le> e" "e < 4 * q4 + 4" "100 * q100 \<le> e" "e < 100 * q100 + 100" "400 * q400 \<le> e" "e < 400 * q400 + 400"
    unfolding q4_def q100_def q400_def by (intro div_bounds; simp)+
  moreover have "days_before_year y = 365 * e + q4 - q100 + q400"
    by (simp add: days_before_year_def e_def q4_def q100_def q400_def)
  ultimately show "146097 * (y - 1) - 800 < 400 * days_before_year y" "400 * days_before_year y < 146097 * (y - 1) + 400"
    unfolding e_def [symmetric] by simp_all
qed

lemma year_of_correct:
  "days_before_year (year_of t) \<le> t div day_ns \<and> t div day_ns < days_before_year (year_of t + 1)"
proof -
  define d where "d = t div day_ns"
  define y where "y = 400 * d div 146097 + 1"
  have "146097 * (y - 1) \<le> 400 * d" "400 * d < 146097 * (y - 1) + 146097"
    using div_bounds [of 146097 "400 * d"] unfolding y_def by simp_all
  then have "days_before_year (y - 1) \<le> d" "d < days_before_year (y + 2)"
    using days_before_year_bounds [of "y - 1"] days_before_year_bounds [of "y + 2"] by simp_all
  then show ?thesis unfolding year_of_def d_def [symmetric] Let_def y_def [symmetric] by (auto simp: algebra_simps)
qed

subsection \<open>What a batch leaves behind\<close>

definition page_urls :: "'b ingest_state \<Rightarrow> rawurl set" where
  "page_urls s = pw_url ` set (tb_rows (is_pages s))"

lemma ingest_page_keys:
  assumes "ingest_page E now F p outlinks (pages, ls) = (r, pages', ls')"
  shows "pw_url ` set (tb_rows pages') \<subseteq> insert (pg_url p) (pw_url ` set (tb_rows pages))"
    and "pw_url ` set (tb_rows pages) \<subseteq> pw_url ` set (tb_rows pages')"
    and "r = Inr i \<Longrightarrow> pg_url p \<in> pw_url ` set (tb_rows pages')"
proof -
  have "if_upsert F = None \<Longrightarrow> pages' = upsert pw_url (page_row_of now) (merge_page now) pg_url (complete_page now p) pages"
    using assms by (auto simp: ingest_page_def upsert_page_def split: sum.splits prod.splits)
  then have keys: "if_upsert F = None \<Longrightarrow> pw_url ` set (tb_rows pages') = insert (pg_url p) (pw_url ` set (tb_rows pages))"
    using page_rows.keys_upsert [where v = "complete_page now p"] by simp
  have fault: "if_upsert F = Some x \<Longrightarrow> r = Inl x \<and> pages' = pages" for x
    using assms by (simp add: ingest_page_def upsert_page_def)
  show "pw_url ` set (tb_rows pages') \<subseteq> insert (pg_url p) (pw_url ` set (tb_rows pages))"
    "pw_url ` set (tb_rows pages) \<subseteq> pw_url ` set (tb_rows pages')"
    "r = Inr i \<Longrightarrow> pg_url p \<in> pw_url ` set (tb_rows pages')"
    using keys fault by (cases "if_upsert F"; auto)+
qed

lemma store_ingested_urls:
  assumes "store_ingested G m r c s = (x, s')"
  shows "page_urls s' \<subseteq> insert (fst c) (page_urls s) \<and> page_urls s \<subseteq> page_urls s' \<and> (x = Inr n \<longrightarrow> fst c \<in> page_urls s')"
proof -
  let ?p = "ingested G (gm_now m) r c"
  obtain y pages links where i: "ingest_page (ie_std G) (gm_now m) (gm_store m) ?p (clamp_ingest_outlinks (iq_outlinks r)) (is_pages s, is_links s) = (y, pages, links)"
    using prod_cases3 by blast
  have u: "pg_url ?p = fst c" by (simp add: ingested_def Let_def)
  have "is_pages s' = pages" "x = Inr n \<Longrightarrow> \<exists>k. y = Inr k"
    using assms i by (auto simp: store_ingested_def Let_def split: sum.splits)
  then show ?thesis using ingest_page_keys [OF i] by (auto simp: page_urls_def u)
qed

text \<open>A page that a batch may add: the canonical URL of one of its requests that is not a page of search results.\<close>

definition ingestible :: "stdlib \<Rightarrow> ingest_request set \<Rightarrow> rawurl set" where
  "ingestible E rs = {u. \<exists>r \<in> rs. \<exists>d. \<not> is_search_results_page E (iq_url r) \<and> canonicalize_url E (iq_url r) = Some (u, d)}"

lemma ingest_item_urls:
  assumes "ingest_item G m r s = (x, s')"
  shows "page_urls s' \<subseteq> page_urls s \<union> ingestible (ie_std G) {r} \<and> page_urls s \<subseteq> page_urls s' \<and> (gr_indexed x \<longrightarrow> gr_url x \<in> page_urls s')"
proof (cases "iq_url r = [] \<or> is_search_results_page (ie_std G) (iq_url r) \<or> canonicalize_url (ie_std G) (iq_url r) = None")
  case True
  then have "s' = s" "\<not> gr_indexed x" using assms by (auto simp: ingest_item_def ingest_failure_def split: if_splits)
  then show ?thesis by simp
next
  case False
  then obtain u d where c: "canonicalize_url (ie_std G) (iq_url r) = Some (u, d)" by auto
  obtain y s1 where st: "store_ingested G m r (u, d) s = (y, s1)" by fastforce
  have eq: "s' = s1" "x = (case y of Inl e \<Rightarrow> ingest_failure u e | Inr n \<Rightarrow> ingest_success u n)"
    using assms False c st by (auto simp: ingest_item_def split: sum.splits)
  have "u \<in> ingestible (ie_std G) {r}" using False c by (auto simp: ingestible_def)
  moreover have "gr_indexed x \<Longrightarrow> \<exists>n. y = Inr n \<and> gr_url x = u"
    by (cases y) (auto simp: eq(2) ingest_failure_def ingest_success_def)
  ultimately show ?thesis using store_ingested_urls [OF st] by (auto simp: eq(1))
qed

lemma ingest_items_facts:
  "ingest_items G rs s = (xs, s') \<Longrightarrow> length xs = length rs \<and> page_urls s' \<subseteq> page_urls s \<union> ingestible (ie_std G) (snd ` set rs)
     \<and> page_urls s \<subseteq> page_urls s' \<and> (\<forall>x \<in> set xs. gr_indexed x \<longrightarrow> gr_url x \<in> page_urls s')"
proof (induction rs arbitrary: s s' xs)
  case (Cons mr rs)
  obtain m r where mr: "mr = (m, r)" by fastforce
  obtain x s1 where x: "ingest_item G m r s = (x, s1)" by fastforce
  obtain ys s2 where ys: "ingest_items G rs s1 = (ys, s2)" by fastforce
  have eq: "xs = x # ys" "s' = s2" using Cons.prems x ys by (auto simp: mr)
  have "ingestible (ie_std G) (snd ` set (mr # rs)) = ingestible (ie_std G) {r} \<union> ingestible (ie_std G) (snd ` set rs)"
    by (auto simp: ingestible_def mr)
  then show ?case using ingest_item_urls [OF x] Cons.IH [OF ys] by (auto simp: eq)
qed simp

text \<open>
  C22. A batch that is answered has one result for each of its pages and counts them right. Every page reported as
  indexed is in the store, no stored page is lost, and a page is only added under the canonical URL of a request
  that is not a result page of a search engine.
\<close>

theorem ingest_batch_outcome:
  assumes "ingest_batch_handler G has_frontier (Inr rs) s = (Answered code a, s')"
  shows "length (ba_results a) = length rs \<and> ba_processed a = int (length (filter gr_indexed (ba_results a)))
    \<and> ba_processed a + ba_failed a = int (length rs)
    \<and> (\<forall>x \<in> set (ba_results a). gr_indexed x \<longrightarrow> gr_url x \<in> page_urls s')
    \<and> page_urls s \<subseteq> page_urls s' \<and> page_urls s' \<subseteq> page_urls s \<union> ingestible (ie_std G) (snd ` set rs)"
proof -
  obtain xs s1 where xs: "ingest_items G rs s = (xs, s1)" by fastforce
  have "ba_results a = xs" "s' = s1" "ba_processed a = int (length (filter gr_indexed xs))" "ba_failed a = int (length rs) - ba_processed a"
    using assms xs by (auto simp: ingest_batch_handler_def Let_def split: if_splits)
  then show ?thesis using ingest_items_facts [OF xs] by simp
qed

definition plain_ingest_env :: "unit ingest_env" where
  "plain_ingest_env = \<lparr>ie_std = ascii_stdlib, ie_sha256 = (\<lambda>_. ''sha''), ie_bloom_test = (\<lambda>_ _. False), ie_bloom_add = (\<lambda>b _. b),
     ie_score = (\<lambda>_. 1), ie_max_depth = 3\<rparr>"

definition plain_moment :: ingest_moment where
  "plain_moment = \<lparr>gm_now = 5, gm_store = \<lparr>if_upsert = None, if_by_url = None, if_by_fp = None, if_links = None, if_bad_link = (\<lambda>_. False)\<rparr>, gm_filter = None\<rparr>"

definition blank_request :: ingest_request where
  "blank_request = \<lparr>iq_url = [], iq_title = [], iq_desc = [], iq_h1 = [], iq_content = [], iq_lang = [], iq_outlinks = [], iq_schema_type = [],
     iq_schema_title = [], iq_schema_desc = [], iq_schema_image = [], iq_schema_author = [], iq_schema_keywords = [], iq_published = [], iq_crawled = []\<rparr>"

theorem ingest_batch_outcome_witness:
  "\<exists>code a s'. ingest_batch_handler plain_ingest_env True (Inr [(plain_moment, blank_request\<lparr>iq_url := ''https://www.google.com/search?q=x''\<rparr>)])
       \<lparr>is_frontier = new_frontier (new_queue ()) [] 0, is_pages = empty_table, is_links = []\<rparr> = (Answered code a, s')
     \<and> ba_processed a = 0 \<and> ba_failed a = 1 \<and> page_urls s' = {}"
proof -
  let ?rs = "[(plain_moment, blank_request\<lparr>iq_url := ''https://www.google.com/search?q=x''\<rparr>)]"
  let ?s = "\<lparr>is_frontier = new_frontier (new_queue ()) [] 0, is_pages = empty_table, is_links = []\<rparr>"
  have search: "is_search_results_page ascii_stdlib ''https://www.google.com/search?q=x''" by code_simp
  obtain xs s1 where "ingest_items plain_ingest_env ?rs ?s = (xs, s1)" by (metis surj_pair)
  then obtain code a s' where h: "ingest_batch_handler plain_ingest_env True (Inr ?rs) ?s = (Answered code a, s')"
    by (simp add: ingest_batch_handler_def Let_def del: ingest_items.simps)
  note spec = ingest_batch_outcome [OF h]
  have "ingestible (ie_std plain_ingest_env) (snd ` set ?rs) = {}"
    using search by (simp add: ingestible_def plain_ingest_env_def)
  moreover have "page_urls ?s = {}" by (simp add: page_urls_def empty_table_def)
  ultimately have "page_urls s' = {}" using spec by simp
  then have "filter gr_indexed (ba_results a) = []" using spec by (auto simp: filter_empty_conv)
  then show ?thesis using spec h \<open>page_urls s' = {}\<close> by auto
qed

end
