(* ===== verification/Middleware.thy ===== *)
theory Middleware
  imports GoNet
begin

text \<open>
  The HTTP middleware of \<open>internal/api/middleware.go\<close> and the stack that \<open>internal/api/server.go\<close> builds of
  it. A handler maps a request and the response headers set so far to a reply and changes the state of the
  program; it may panic. Logging has no effect on either. The clock is an argument of the rate limiter.
\<close>

record http_request =
  rq_method :: string
  rq_forwarded :: string
  rq_real_ip :: string
  rq_request_id :: string
  rq_remote :: string

type_synonym headers = "string \<rightharpoonup> string"

datatype reply = Reply int headers string | Handler_panic headers

type_synonym 's handler = "http_request \<Rightarrow> headers \<Rightarrow> 's \<Rightarrow> reply \<times> 's"

definition http_ok :: int where "http_ok = 200"
definition http_no_content :: int where "http_no_content = 204"
definition http_too_many :: int where "http_too_many = 429"
definition http_internal_error :: int where "http_internal_error = 500"

definition set_headers :: "(string \<times> string) list \<Rightarrow> headers \<Rightarrow> headers" where
  "set_headers kvs h = fold (\<lambda>kv h. h(fst kv \<mapsto> snd kv)) kvs h"

subsection \<open>The rate limiter\<close>

record bucket =
  bu_tokens :: int
  bu_reset :: gotime

record ip_limiter =
  il_buckets :: "string \<rightharpoonup> bucket"
  il_limit :: int
  il_window :: duration

definition new_ip_limiter :: "int \<Rightarrow> duration \<Rightarrow> ip_limiter" where
  "new_ip_limiter limit window = \<lparr>il_buckets = Map.empty, il_limit = limit, il_window = window\<rparr>"

definition fresh_bucket :: "gotime \<Rightarrow> string \<Rightarrow> ip_limiter \<Rightarrow> ip_limiter" where
  "fresh_bucket now ip rl = rl\<lparr>il_buckets := (il_buckets rl)(ip \<mapsto> \<lparr>bu_tokens = il_limit rl - 1, bu_reset = now + il_window rl\<rparr>)\<rparr>"

definition allow :: "gotime \<Rightarrow> string \<Rightarrow> ip_limiter \<Rightarrow> bool \<times> ip_limiter" where
  "allow now ip rl =
     (case il_buckets rl ip of
        None \<Rightarrow> (True, fresh_bucket now ip rl)
      | Some b \<Rightarrow>
          if bu_reset b < now then (True, fresh_bucket now ip rl)
          else if 0 < bu_tokens b then (True, rl\<lparr>il_buckets := (il_buckets rl)(ip \<mapsto> b\<lparr>bu_tokens := bu_tokens b - 1\<rparr>)\<rparr>)
          else (False, rl))"

definition cleanup :: "gotime \<Rightarrow> ip_limiter \<Rightarrow> ip_limiter" where
  "cleanup now rl = rl\<lparr>il_buckets := (\<lambda>ip. case il_buckets rl ip of
     None \<Rightarrow> None
   | Some b \<Rightarrow> if bu_reset b < now then None else Some b)\<rparr>"

definition client_ip :: "http_request \<Rightarrow> string" where
  "client_ip r =
     (let xff = trim_space (case index_byte (rq_forwarded r) CHR '','' of
                   Some i \<Rightarrow> take i (rq_forwarded r) | None \<Rightarrow> rq_forwarded r)
      in if rq_forwarded r \<noteq> [] \<and> xff \<noteq> [] then xff
         else if rq_real_ip r \<noteq> [] then trim_space (rq_real_ip r)
         else (case net_split_host_port (rq_remote r) of None \<Rightarrow> rq_remote r | Some (host, _) \<Rightarrow> host))"

subsection \<open>The stack\<close>

record 's api_state =
  ap_limiter :: ip_limiter
  ap_inner :: 's

definition error_body :: "string \<Rightarrow> string" where
  "error_body msg = ''{'' @ [CHR 0x22] @ ''error'' @ [CHR 0x22] @ '':'' @ [CHR 0x22] @ msg @ [CHR 0x22] @ ''}''"

text \<open>\<open>writeError\<close>: the JSON encoder ends the text with a line break.\<close>

definition write_error :: "int \<Rightarrow> string \<Rightarrow> headers \<Rightarrow> reply" where
  "write_error code msg h = Reply code (h(''Content-Type'' \<mapsto> ''application/json; charset=utf-8'')) (error_body msg @ [CHR 0x0A])"

text \<open>\<open>http.Error\<close> on the headers set before the panic.\<close>

definition recovery_middleware :: "'s handler \<Rightarrow> 's handler" where
  "recovery_middleware inner r h s =
     (case inner r h s of
        (Reply code h' body, s') \<Rightarrow> (Reply code h' body, s')
      | (Handler_panic h', s') \<Rightarrow>
          (Reply http_internal_error
             (set_headers [(''Content-Type'', ''text/plain; charset=utf-8''), (''X-Content-Type-Options'', ''nosniff'')] (h'(''Content-Length'' := None)))
             (error_body ''internal server error'' @ [CHR 0x0A]), s'))"

definition security_headers :: "(string \<times> string) list" where
  "security_headers =
     [(''X-Content-Type-Options'', ''nosniff''),
      (''X-Frame-Options'', ''DENY''),
      (''X-XSS-Protection'', ''1; mode=block''),
      (''Referrer-Policy'', ''strict-origin-when-cross-origin''),
      (''Strict-Transport-Security'', ''max-age=63072000; includeSubDomains; preload''),
      (''Content-Security-Policy'', ''default-src 'self'; script-src 'self'; style-src 'self' 'unsafe-inline'; img-src 'self' data: https:; font-src 'self'; connect-src 'self'; media-src 'self'; frame-ancestors 'none'; base-uri 'self'; form-action 'self';''),
      (''Permissions-Policy'', ''accelerometer=(), camera=(), geolocation=(), gyroscope=(), magnetometer=(), microphone=(), payment=(), usb=()'')]"

definition security_headers_middleware :: "'s handler \<Rightarrow> 's handler" where
  "security_headers_middleware inner r h s = inner r (set_headers security_headers h) s"

definition rate_limit_middleware :: "gotime \<Rightarrow> 's api_state handler \<Rightarrow> 's api_state handler" where
  "rate_limit_middleware now inner r h s =
     (case allow now (client_ip r) (ap_limiter s) of
        (False, rl) \<Rightarrow> (write_error http_too_many ''rate limit exceeded'' (h(''Retry-After'' \<mapsto> ''60'')), s\<lparr>ap_limiter := rl\<rparr>)
      | (True, rl) \<Rightarrow> inner r h (s\<lparr>ap_limiter := rl\<rparr>))"

definition logging_middleware :: "'s handler \<Rightarrow> 's handler" where
  "logging_middleware inner r h s = inner r h s"

definition cors_headers :: "(string \<times> string) list" where
  "cors_headers =
     [(''Access-Control-Allow-Origin'', ''*''),
      (''Access-Control-Allow-Methods'', ''GET, POST, PUT, DELETE, OPTIONS''),
      (''Access-Control-Allow-Headers'', ''Content-Type, Authorization, X-Request-ID''),
      (''Access-Control-Max-Age'', ''86400'')]"

definition cors_middleware :: "'s handler \<Rightarrow> 's handler" where
  "cors_middleware inner r h s =
     (if rq_method r = ''OPTIONS'' then (Reply http_no_content (set_headers cors_headers h) [], s)
      else inner r (set_headers cors_headers h) s)"

text \<open>\<open>uid\<close> is the identifier that \<open>uuid.New\<close> would generate.\<close>

definition request_id_middleware :: "string \<Rightarrow> 's handler \<Rightarrow> 's handler" where
  "request_id_middleware uid inner r h s =
     inner r (h(''X-Request-ID'' \<mapsto> (if rq_request_id r = [] then uid else rq_request_id r))) s"

definition chain :: "'s handler \<Rightarrow> ('s handler \<Rightarrow> 's handler) list \<Rightarrow> 's handler" where
  "chain h middlewares = fold (\<lambda>m h. m h) (rev middlewares) h"

definition api_handler :: "gotime \<Rightarrow> string \<Rightarrow> 's api_state handler \<Rightarrow> 's api_state handler" where
  "api_handler now uid mux =
     chain mux [recovery_middleware, security_headers_middleware, rate_limit_middleware now,
                logging_middleware, cors_middleware, request_id_middleware uid]"

subsection \<open>What the stack guarantees\<close>

lemma set_headers_at: "set_headers kvs h k = (case map_of (rev kvs) k of None \<Rightarrow> h k | Some v \<Rightarrow> Some v)"
  by (induction kvs arbitrary: h) (auto simp: set_headers_def map_add_def split: option.splits)

fun reply_headers :: "reply \<Rightarrow> headers" where
  "reply_headers (Reply code h body) = h"
| "reply_headers (Handler_panic h) = h"

lemma api_handler_unfold:
  "api_handler now uid mux r h s = recovery_middleware (security_headers_middleware (rate_limit_middleware now
     (logging_middleware (cors_middleware (request_id_middleware uid mux))))) r h s"
  by (simp add: api_handler_def chain_def)

text \<open>No middleware below the security headers sets one of them.\<close>

lemma security_header_names:
  "k \<in> fst ` set security_headers \<Longrightarrow> k \<notin> {''Content-Type'', ''Retry-After'', ''X-Request-ID''} \<union> fst ` set cors_headers"
  by (auto simp: security_headers_def cors_headers_def)

lemma set_headers_frame: "k \<notin> fst ` set kvs \<Longrightarrow> set_headers kvs h k = h k"
proof -
  assume "k \<notin> fst ` set kvs"
  then have "map_of (rev kvs) k = None" by (simp add: map_of_eq_None_iff)
  then show ?thesis by (simp add: set_headers_at)
qed

lemma inner_headers_kept:
  assumes mux: "\<And>r h s. reply_headers (fst (mux r h s)) k = h k" and "k \<in> fst ` set security_headers"
  shows "reply_headers (fst (rate_limit_middleware now (logging_middleware (cors_middleware (request_id_middleware uid mux))) r h s)) k = h k"
proof -
  have k: "k \<noteq> ''Content-Type''" "k \<noteq> ''Retry-After''" "k \<noteq> ''X-Request-ID''" "k \<notin> fst ` set cors_headers"
    using security_header_names [OF assms(2)] by auto
  have "reply_headers (fst (cors_middleware (request_id_middleware uid mux) r h s)) k = h k" for r h s
    using k(3) by (simp add: cors_middleware_def request_id_middleware_def mux set_headers_frame [OF k(4)])
  then show ?thesis using k(1,2)
    by (simp add: rate_limit_middleware_def logging_middleware_def write_error_def split: prod.splits bool.splits)
qed

lemma recovery_reply:
  "\<exists>code h' body. fst (recovery_middleware inner r h s) = Reply code h' body
     \<and> (\<forall>k. k \<noteq> ''Content-Type'' \<and> k \<noteq> ''Content-Length'' \<and> k \<noteq> ''X-Content-Type-Options'' \<longrightarrow> h' k = reply_headers (fst (inner r h s)) k)
     \<and> (h' ''X-Content-Type-Options'' = reply_headers (fst (inner r h s)) ''X-Content-Type-Options'' \<or> h' ''X-Content-Type-Options'' = Some ''nosniff'')
     \<and> snd (recovery_middleware inner r h s) = snd (inner r h s)"
  by (cases "inner r h s"; cases "fst (inner r h s)") (auto simp: recovery_middleware_def set_headers_def)

lemma security_headers_set:
  assumes "kv \<in> set security_headers"
  shows "set_headers security_headers h (fst kv) = Some (snd kv)"
proof -
  have "distinct (map fst (rev security_headers))" by (simp add: security_headers_def)
  then have "map_of (rev security_headers) (fst kv) = Some (snd kv)" using assms by (simp add: map_of_eq_Some_iff)
  then show ?thesis by (simp add: set_headers_at)
qed

text \<open>
  With handlers that leave the security headers alone, every request gets a reply, even when a handler panics,
  and every reply carries all the security headers. A throttled request is answered with status 429 and a
  \<open>Retry-After\<close>; neither it nor a preflight request reaches a handler.
\<close>

theorem api_stack_guards:
  assumes mux: "\<And>r h s k. k \<in> fst ` set security_headers \<Longrightarrow> reply_headers (fst (mux r h s)) k = h k"
  shows "\<exists>code h' body. fst (api_handler now uid mux r h s) = Reply code h' body
    \<and> (\<forall>kv \<in> set security_headers. h' (fst kv) = Some (snd kv))
    \<and> (\<not> fst (allow now (client_ip r) (ap_limiter s)) \<longrightarrow> code = 429 \<and> h' ''Retry-After'' = Some ''60'')
    \<and> (\<not> fst (allow now (client_ip r) (ap_limiter s)) \<or> rq_method r = ''OPTIONS'' \<longrightarrow> ap_inner (snd (api_handler now uid mux r h s)) = ap_inner s)"
proof -
  let ?inner = "rate_limit_middleware now (logging_middleware (cors_middleware (request_id_middleware uid mux)))"
  let ?sec = "security_headers_middleware ?inner"
  let ?ok = "fst (allow now (client_ip r) (ap_limiter s))"
  obtain code h' body where rec: "fst (recovery_middleware ?sec r h s) = Reply code h' body"
    "\<forall>k. k \<noteq> ''Content-Type'' \<and> k \<noteq> ''Content-Length'' \<and> k \<noteq> ''X-Content-Type-Options'' \<longrightarrow> h' k = reply_headers (fst (?sec r h s)) k"
    "h' ''X-Content-Type-Options'' = reply_headers (fst (?sec r h s)) ''X-Content-Type-Options'' \<or> h' ''X-Content-Type-Options'' = Some ''nosniff''"
    "snd (recovery_middleware ?sec r h s) = snd (?sec r h s)"
    using recovery_reply [of ?sec r h s] by (elim exE conjE) (rule that)
  have hs: "reply_headers (fst (?sec r h s)) (fst kv) = Some (snd kv)" if kv: "kv \<in> set security_headers" for kv
  proof -
    have name: "fst kv \<in> fst ` set security_headers" using kv by (rule imageI)
    show ?thesis unfolding security_headers_middleware_def inner_headers_kept [of mux "fst kv", OF mux [OF name] name]
      by (rule security_headers_set [OF kv])
  qed
  have "h' (fst kv) = Some (snd kv)" if kv: "kv \<in> set security_headers" for kv
  proof (cases "fst kv = ''X-Content-Type-Options''")
    case True
    then have "snd kv = ''nosniff''" using kv by (auto simp: security_headers_def)
    then show ?thesis using rec(3) hs [OF kv] True by auto
  next
    case False
    moreover have "fst kv \<noteq> ''Content-Type''" "fst kv \<noteq> ''Content-Length''" using kv by (auto simp: security_headers_def)
    ultimately show ?thesis using rec(2) hs [OF kv] by simp
  qed
  moreover have "\<not> ?ok \<Longrightarrow> code = 429 \<and> h' ''Retry-After'' = Some ''60''"
    using rec(1) by (auto simp: recovery_middleware_def security_headers_middleware_def rate_limit_middleware_def write_error_def
        http_too_many_def split: prod.splits)
  moreover have "\<not> ?ok \<or> rq_method r = ''OPTIONS'' \<Longrightarrow> ap_inner (snd (?sec r h s)) = ap_inner s"
    by (auto simp: security_headers_middleware_def rate_limit_middleware_def logging_middleware_def cors_middleware_def split: prod.splits bool.splits)
  ultimately show ?thesis using rec(1,4) by (simp add: api_handler_unfold)
qed

definition plain_request :: http_request where
  "plain_request = \<lparr>rq_method = ''GET'', rq_forwarded = [], rq_real_ip = [], rq_request_id = [], rq_remote = ''10.0.0.1:4711''\<rparr>"

theorem api_stack_guards_witness:
  "\<exists>code h' body. fst (api_handler 0 ''id'' (\<lambda>r h s. (Handler_panic h, s)) plain_request Map.empty
       \<lparr>ap_limiter = new_ip_limiter 120 60, ap_inner = ()\<rparr>) = Reply code h' body \<and> h' ''X-Frame-Options'' = Some ''DENY''"
proof -
  have "k \<in> fst ` set security_headers \<Longrightarrow> reply_headers (fst ((\<lambda>r h s. (Handler_panic h, s)) r h s)) k = h k"
    for k and r :: http_request and h :: headers and s :: "unit api_state" by simp
  from api_stack_guards [where mux = "\<lambda>r h s. (Handler_panic h, s)", OF this, of 0 "''id''" plain_request Map.empty
      "\<lparr>ap_limiter = new_ip_limiter 120 60, ap_inner = ()\<rparr>"]
  obtain code h' body where r: "fst (api_handler 0 ''id'' (\<lambda>r h s. (Handler_panic h, s)) plain_request Map.empty
       \<lparr>ap_limiter = new_ip_limiter 120 60, ap_inner = ()\<rparr>) = Reply code h' body"
    and h: "\<forall>kv \<in> set security_headers. h' (fst kv) = Some (snd kv)" by blast
  have "(''X-Frame-Options'', ''DENY'') \<in> set security_headers" by (simp add: security_headers_def)
  with h have "h' ''X-Frame-Options'' = Some ''DENY''" by fastforce
  with r show ?thesis by blast
qed

subsection \<open>How many requests an address can make\<close>

datatype limiter_event = Request string | Cleanup

text \<open>The requests that a series of timed events lets through.\<close>

fun granted :: "(gotime \<times> limiter_event) list \<Rightarrow> ip_limiter \<Rightarrow> (gotime \<times> string) list" where
  "granted [] rl = []"
| "granted ((t, Request ip) # es) rl =
     (case allow t ip rl of (ok, rl') \<Rightarrow> (if ok then [(t, ip)] else []) @ granted es rl')"
| "granted ((t, Cleanup) # es) rl = granted es (cleanup t rl)"

definition grants_within :: "string \<Rightarrow> gotime \<Rightarrow> gotime \<Rightarrow> (gotime \<times> string) list \<Rightarrow> int" where
  "grants_within ip a b gs = int (length (filter (\<lambda>(t, i). i = ip \<and> a \<le> t \<and> t \<le> b) gs))"

text \<open>What an address can still be granted in the window that ends at \<open>b\<close>.\<close>

definition budget :: "string \<Rightarrow> gotime \<Rightarrow> ip_limiter \<Rightarrow> int" where
  "budget ip b rl = (case il_buckets rl ip of
     None \<Rightarrow> il_limit rl
   | Some k \<Rightarrow> bu_tokens k + (if bu_reset k < b then il_limit rl else 0))"

definition limiter_ok :: "ip_limiter \<Rightarrow> bool" where
  "limiter_ok rl \<longleftrightarrow> 0 < il_limit rl \<and> (\<forall>ip k. il_buckets rl ip = Some k \<longrightarrow> 0 \<le> bu_tokens k \<and> bu_tokens k < il_limit rl)"

lemma limiter_ok_steps [wf_intros]:
  "limiter_ok rl \<Longrightarrow> limiter_ok (snd (allow t ip rl))"
  "limiter_ok rl \<Longrightarrow> limiter_ok (cleanup t rl)"
  by (fastforce simp: limiter_ok_def allow_def fresh_bucket_def split: option.splits if_splits)
    (auto simp: limiter_ok_def cleanup_def split: option.splits if_splits)

lemma limiter_frame [simp]:
  "il_limit (snd (allow t ip rl)) = il_limit rl" "il_window (snd (allow t ip rl)) = il_window rl"
  "il_limit (cleanup t rl) = il_limit rl" "il_window (cleanup t rl) = il_window rl"
  by (auto simp: allow_def fresh_bucket_def cleanup_def split: option.splits)

lemma budget_nonneg: "limiter_ok rl \<Longrightarrow> 0 \<le> budget ip b rl"
  by (auto simp: limiter_ok_def budget_def split: option.splits)

lemma budget_allow:
  assumes "limiter_ok rl" and "b - il_window rl \<le> t" and "t \<le> b"
  shows "(if i = ip \<and> fst (allow t i rl) then 1 else 0) + budget ip b (snd (allow t i rl)) \<le> budget ip b rl"
  using assms by (auto simp: allow_def fresh_bucket_def budget_def limiter_ok_def split: option.splits)

lemma budget_cleanup: "limiter_ok rl \<Longrightarrow> t \<le> b \<Longrightarrow> budget ip b (cleanup t rl) \<le> budget ip b rl"
  by (auto simp: cleanup_def budget_def limiter_ok_def split: option.splits)

lemma granted_times: "g \<in> set (granted es rl) \<Longrightarrow> fst g \<in> fst ` set es"
  by (induction es rl rule: granted.induct) (auto split: prod.splits if_splits)

lemma grants_after:
  assumes "\<forall>e \<in> set es. b < fst e"
  shows "grants_within ip a b (granted es rl) = 0"
proof -
  have "\<forall>g \<in> set (granted es rl). b < fst g" using assms granted_times by fastforce
  then show ?thesis by (auto simp: grants_within_def filter_empty_conv)
qed

lemma grants_append: "grants_within ip a b (gs @ gs') = grants_within ip a b gs + grants_within ip a b gs'"
  by (simp add: grants_within_def)

text \<open>Inside the window every grant is paid for by the budget.\<close>

lemma grants_within_budget:
  assumes "limiter_ok rl" and "sorted (map fst es)" and "\<forall>e \<in> set es. b - il_window rl \<le> fst e"
  shows "grants_within ip a b (granted es rl) \<le> budget ip b rl"
  using assms
proof (induction es arbitrary: rl)
  case Nil
  then show ?case by (simp add: grants_within_def budget_nonneg)
next
  case (Cons e es)
  show ?case
  proof (cases "b < fst e")
    case True
    then have "\<forall>e' \<in> set (e # es). b < fst e'" using Cons.prems(2) by force
    then show ?thesis using grants_after budget_nonneg [OF Cons.prems(1)] by metis
  next
    case False
    obtain t ev where e: "e = (t, ev)" by fastforce
    show ?thesis
    proof (cases ev)
      case (Request i)
      have "grants_within ip a b (granted es (snd (allow t i rl))) \<le> budget ip b (snd (allow t i rl))"
        using Cons.prems by (intro Cons.IH) (auto intro: limiter_ok_steps)
      moreover have "(if i = ip \<and> fst (allow t i rl) then 1 else 0) + budget ip b (snd (allow t i rl)) \<le> budget ip b rl"
        using Cons.prems False e by (intro budget_allow) auto
      moreover have "grants_within ip a b (if fst (allow t i rl) then [(t, i)] else []) \<le> (if i = ip \<and> fst (allow t i rl) then 1 else 0)"
        by (auto simp: grants_within_def)
      ultimately show ?thesis by (cases "allow t i rl") (simp add: e Request grants_append)
    next
      case Cleanup
      have "grants_within ip a b (granted es (cleanup t rl)) \<le> budget ip b (cleanup t rl)"
        using Cons.prems by (intro Cons.IH) (auto intro: limiter_ok_steps)
      then show ?thesis using budget_cleanup [OF Cons.prems(1), of t b ip] False by (simp add: e Cleanup)
    qed
  qed
qed

lemma grants_within_window:
  assumes "limiter_ok rl" and "sorted (map fst es)"
  shows "grants_within ip (b - il_window rl) b (granted es rl) \<le> 2 * il_limit rl - 1"
  using assms
proof (induction es arbitrary: rl)
  case (Cons e es)
  show ?case
  proof (cases "b - il_window rl \<le> fst e")
    case True
    then have "\<forall>e' \<in> set (e # es). b - il_window rl \<le> fst e'" using Cons.prems(2) by force
    then have "grants_within ip (b - il_window rl) b (granted (e # es) rl) \<le> budget ip b rl"
      by (rule grants_within_budget [OF Cons.prems])
    moreover have "budget ip b rl \<le> 2 * il_limit rl - 1"
      using Cons.prems(1) by (force simp: budget_def limiter_ok_def split: option.splits)
    ultimately show ?thesis by linarith
  next
    case False
    obtain t ev where e: "e = (t, ev)" by fastforce
    show ?thesis
    proof (cases ev)
      case (Request i)
      have "grants_within ip (b - il_window rl) b (granted es (snd (allow t i rl))) \<le> 2 * il_limit rl - 1"
        using Cons.IH [of "snd (allow t i rl)"] Cons.prems limiter_ok_steps(1) by simp
      then show ?thesis using False by (cases "allow t i rl") (simp add: e Request grants_append grants_within_def)
    next
      case Cleanup
      then show ?thesis using Cons.IH [of "cleanup t rl"] Cons.prems limiter_ok_steps(2) by (simp add: e)
    qed
  qed
qed (simp add: grants_within_def limiter_ok_def)

text \<open>
  C20. Whatever requests and cleanups happen in whatever order, an address is granted less than twice the limit
  within any span of time as long as the window.
\<close>

theorem api_rate_bounded:
  assumes "0 < limit" and "sorted (map fst es)"
  shows "grants_within ip a (a + window) (granted es (new_ip_limiter limit window)) < 2 * limit"
proof -
  have "limiter_ok (new_ip_limiter limit window)" using assms(1) by (simp add: limiter_ok_def new_ip_limiter_def)
  from grants_within_window [OF this assms(2), of ip "a + window"] show ?thesis by (simp add: new_ip_limiter_def)
qed

theorem api_rate_bounded_witness:
  "grants_within ''x'' 10 20 (granted [(0, Request ''x''), (10, Request ''x''), (11, Request ''x''), (12, Cleanup), (13, Request ''x''), (14, Request ''x'')]
     (new_ip_limiter 2 10)) = 3
   \<and> grants_within ''x'' 10 (10 + 10) (granted [(0, Request ''x''), (10, Request ''x''), (11, Request ''x''), (12, Cleanup), (13, Request ''x''), (14, Request ''x'')]
     (new_ip_limiter 2 10)) < 2 * 2"
proof -
  let ?es = "[(0, Request ''x''), (10, Request ''x''), (11, Request ''x''), (12, Cleanup), (13, Request ''x''), (14, Request ''x'')]"
  have "grants_within ''x'' 10 20 (granted ?es (new_ip_limiter 2 10)) = 3"
    by (simp add: grants_within_def allow_def fresh_bucket_def cleanup_def new_ip_limiter_def)
  moreover have "grants_within ''x'' 10 (10 + 10) (granted ?es (new_ip_limiter 2 10)) < 2 * 2" by (rule api_rate_bounded) simp_all
  ultimately show ?thesis by blast
qed

text \<open>
  The address is taken from a header the client writes: a request that names an address of its own choice is
  counted for that address, and the first one for an address is always let through.
\<close>

lemma forwarded_address_trusted:
  "CHR '','' \<notin> set x \<Longrightarrow> trim_space x \<noteq> [] \<Longrightarrow> client_ip (r\<lparr>rq_forwarded := x\<rparr>) = trim_space x"
proof -
  assume x: "CHR '','' \<notin> set x" "trim_space x \<noteq> []"
  have "index_byte x CHR '','' = None" using x(1) by (induction x) auto
  moreover have "x \<noteq> []" using x(2) by (auto simp: trim_space_def trim_space_left.simps trim_space_right.simps space_prefix_def space_suffix_def)
  ultimately show ?thesis using x(2) by (simp add: client_ip_def Let_def)
qed

lemma new_address_allowed: "il_buckets rl ip = None \<Longrightarrow> fst (allow t ip rl)"
  by (simp add: allow_def)

end
