(* ===== verification/Profile.thy ===== *)
theory Profile
  imports PageDb
begin

text \<open>
  The interest profile of \<open>internal/storage/sqlite_profile.go\<close>: recorded queries, weighted terms and the
  reputation of domains. The tables \<open>interest_terms\<close> and \<open>domain_relevance\<close> are read in the order of their
  rows. The token loop is the one of the scorer.
\<close>

record term_row =
  tr_id :: int
  tr_term :: string
  tr_weight :: float64
  tr_source :: string
  tr_lang :: string
  tr_seen :: gotime

record reputation_row =
  rp_id :: int
  rp_domain :: domain
  rp_score :: float64
  rp_pages :: int
  rp_updated :: gotime

record query_row =
  qr_query :: string
  qr_normalized :: string
  qr_lang :: string

record profile_db =
  pd_queries :: "query_row list"
  pd_terms :: "term_row table"
  pd_reps :: "reputation_row table"

definition empty_profile :: profile_db where
  "empty_profile = \<lparr>pd_queries = [], pd_terms = empty_table, pd_reps = empty_table\<rparr>"

definition interest_tokens :: "stdlib \<Rightarrow> string \<Rightarrow> string list" where
  "interest_tokens E s = token_loop E (runes (to_lower E (trim_space s))) [] []"

subsection \<open>Terms\<close>

record term_value =
  tv_term :: string
  tv_weight :: float64
  tv_source :: string
  tv_lang :: string

definition term_key :: "term_row \<Rightarrow> string \<times> string" where
  "term_key r = (tr_term r, tr_source r)"

definition value_key :: "term_value \<Rightarrow> string \<times> string" where
  "value_key v = (tv_term v, tv_source v)"

definition term_row_of :: "gotime \<Rightarrow> int \<Rightarrow> term_value \<Rightarrow> term_row" where
  "term_row_of now i v = \<lparr>tr_id = i, tr_term = tv_term v, tr_weight = tv_weight v, tr_source = tv_source v, tr_lang = tv_lang v, tr_seen = now\<rparr>"

text \<open>A conflict adds to the weight (\<open>add_term\<close>) or replaces it (\<open>set_term\<close>); the language stays.\<close>

definition add_weight :: "gotime \<Rightarrow> term_value \<Rightarrow> term_row \<Rightarrow> term_row" where
  "add_weight now v r = r\<lparr>tr_weight := tr_weight r + tv_weight v, tr_seen := now\<rparr>"

definition set_weight :: "gotime \<Rightarrow> term_value \<Rightarrow> term_row \<Rightarrow> term_row" where
  "set_weight now v r = r\<lparr>tr_weight := tv_weight v, tr_seen := now\<rparr>"

definition add_term :: "gotime \<Rightarrow> term_value \<Rightarrow> term_row table \<Rightarrow> term_row table" where
  "add_term now = upsert term_key (term_row_of now) (add_weight now) value_key"

definition set_term :: "gotime \<Rightarrow> term_value \<Rightarrow> term_row table \<Rightarrow> term_row table" where
  "set_term now = upsert term_key (term_row_of now) (set_weight now) value_key"

subsection \<open>Operations\<close>

definition record_search_query :: "stdlib \<Rightarrow> gotime \<Rightarrow> db_error option \<Rightarrow> (string \<Rightarrow> bool) \<Rightarrow> string \<Rightarrow> string \<Rightarrow> string
    \<Rightarrow> profile_db \<Rightarrow> (db_error + unit) \<times> profile_db" where
  "record_search_query E now e bad query normalized lang db =
     (case e of
        Some x \<Rightarrow> (Inl x, db)
      | None \<Rightarrow> (Inr (), db\<lparr>pd_queries := pd_queries db @ [\<lparr>qr_query = query, qr_normalized = normalized, qr_lang = lang\<rparr>],
          pd_terms := fold (\<lambda>tok. add_term now \<lparr>tv_term = tok, tv_weight = 1, tv_source = ''query'', tv_lang = lang\<rparr>)
            (filter (\<lambda>tok. \<not> bad tok) (interest_tokens E normalized)) (pd_terms db)\<rparr>))"

text \<open>A map filled row by row: the last row of a key counts.\<close>

definition last_values :: "('r \<Rightarrow> 'k) \<Rightarrow> ('r \<Rightarrow> 'v) \<Rightarrow> 'r list \<Rightarrow> 'k \<rightharpoonup> 'v" where
  "last_values key val rs = fold (\<lambda>r m. m(key r \<mapsto> val r)) rs Map.empty"

definition get_interest_profile :: "db_error option \<Rightarrow> profile_db \<Rightarrow> db_error + (string \<rightharpoonup> float64)" where
  "get_interest_profile e db = (case e of Some x \<Rightarrow> Inl x | None \<Rightarrow> Inr (last_values tr_term tr_weight (tb_rows (pd_terms db))))"

definition get_domain_reputations :: "db_error option \<Rightarrow> profile_db \<Rightarrow> db_error + (domain \<rightharpoonup> float64)" where
  "get_domain_reputations e db = (case e of Some x \<Rightarrow> Inl x | None \<Rightarrow> Inr (last_values rp_domain rp_score (tb_rows (pd_reps db))))"

definition get_search_query_count :: "db_error option \<Rightarrow> profile_db \<Rightarrow> db_error + int" where
  "get_search_query_count e db = (case e of Some x \<Rightarrow> Inl x | None \<Rightarrow> Inr (int (length (pd_queries db))))"

definition update_domain_reputation :: "gotime \<Rightarrow> db_error option \<Rightarrow> domain \<Rightarrow> float64 \<Rightarrow> profile_db \<Rightarrow> (db_error + unit) \<times> profile_db" where
  "update_domain_reputation now e d delta db =
     (case e of
        Some x \<Rightarrow> (Inl x, db)
      | None \<Rightarrow> (Inr (), db\<lparr>pd_reps := upsert rp_domain
          (\<lambda>i v. \<lparr>rp_id = i, rp_domain = fst v, rp_score = snd v, rp_pages = 1, rp_updated = now\<rparr>)
          (\<lambda>v r. r\<lparr>rp_score := rp_score r + snd v, rp_pages := rp_pages r + 1, rp_updated := now\<rparr>) fst (d, delta) (pd_reps db)\<rparr>))"

text \<open>The errors of a click: reading the page, each term, the reputation; the last two are logged.\<close>

record click_faults =
  cf_page :: "db_error option"
  cf_term :: "string \<Rightarrow> bool"
  cf_rep :: "db_error option"

definition click_text :: "page \<Rightarrow> string" where
  "click_text p = pg_title p @ '' '' @ pg_desc p @ '' '' @ pg_schema_keywords p @ '' '' @ pg_h1 p"

definition boost_terms_from_click :: "stdlib \<Rightarrow> gotime \<Rightarrow> click_faults \<Rightarrow> rawurl \<Rightarrow> float64 \<Rightarrow> page_row table \<Rightarrow> profile_db
    \<Rightarrow> (db_error + unit) \<times> profile_db" where
  "boost_terms_from_click E now F url weight pages db =
     (case get_page_by_url (cf_page F) url pages of
        Inl x \<Rightarrow> (Inl x, db)
      | Inr None \<Rightarrow> (Inr (), db)
      | Inr (Some p) \<Rightarrow>
          let terms = fold (\<lambda>tok. add_term now \<lparr>tv_term = tok, tv_weight = weight, tv_source = ''click'', tv_lang = pg_lang p\<rparr>)
                (filter (\<lambda>tok. \<not> cf_term F tok) (interest_tokens E (click_text p))) (pd_terms db)
          in (Inr (), snd (update_domain_reputation now (cf_rep F) (pg_domain p) (weight * (1/2)) (db\<lparr>pd_terms := terms\<rparr>))))"

definition set_interest_term :: "gotime \<Rightarrow> db_error option \<Rightarrow> string \<Rightarrow> float64 \<Rightarrow> string \<Rightarrow> string \<Rightarrow> profile_db \<Rightarrow> (db_error + unit) \<times> profile_db" where
  "set_interest_term now e tok weight source lang db =
     (case e of
        Some x \<Rightarrow> (Inl x, db)
      | None \<Rightarrow> (Inr (), db\<lparr>pd_terms := set_term now \<lparr>tv_term = tok, tv_weight = weight, tv_source = source, tv_lang = lang\<rparr> (pd_terms db)\<rparr>))"

definition remove_interest_term :: "db_error option \<Rightarrow> string \<Rightarrow> string \<Rightarrow> profile_db \<Rightarrow> (db_error + unit) \<times> profile_db" where
  "remove_interest_term e tok source db =
     (case e of
        Some x \<Rightarrow> (Inl x, db)
      | None \<Rightarrow> (Inr (), db\<lparr>pd_terms := snd (delete_where (\<lambda>r. tr_term r = tok \<and> tr_source r = source) (pd_terms db))\<rparr>))"

definition get_manual_interests :: "db_error option \<Rightarrow> string \<Rightarrow> profile_db \<Rightarrow> db_error + term_value list" where
  "get_manual_interests e source db =
     (case e of
        Some x \<Rightarrow> Inl x
      | None \<Rightarrow> Inr (map (\<lambda>r. \<lparr>tv_term = tr_term r, tv_weight = tr_weight r, tv_source = tr_source r, tv_lang = tr_lang r\<rparr>)
          (filter (\<lambda>r. tr_source r = source) (tb_rows (pd_terms db)))))"

text \<open>The store that the adaptive scorer refreshes its profile from.\<close>

definition profile_of_db :: "profile_db \<Rightarrow> profile_store" where
  "profile_of_db db =
     \<lparr>ps_terms = (case get_interest_profile None db of Inr m \<Rightarrow> Some m | Inl _ \<Rightarrow> None),
      ps_domains = (case get_domain_reputations None db of Inr m \<Rightarrow> Some m | Inl _ \<Rightarrow> None),
      ps_count = (case get_search_query_count None db of Inr n \<Rightarrow> Some n | Inl _ \<Rightarrow> None),
      ps_manual = (case get_manual_interests None ''manual'' db of Inr vs \<Rightarrow> Some (map tv_term vs) | Inl _ \<Rightarrow> None)\<rparr>"

subsection \<open>The tables as keyed tables\<close>

interpretation added_terms: keyed_table tr_id term_key "term_row_of now" "add_weight now" value_key
  by unfold_locales (auto simp: term_row_of_def add_weight_def term_key_def value_key_def)

interpretation set_terms: idempotent_table tr_id term_key "term_row_of now" "set_weight now" value_key
  by unfold_locales (auto simp: term_row_of_def set_weight_def term_key_def value_key_def)

interpretation reputations: keyed_table rp_id rp_domain
    "\<lambda>i v. \<lparr>rp_id = i, rp_domain = fst v, rp_score = snd v, rp_pages = 1, rp_updated = now\<rparr>"
    "\<lambda>v r. r\<lparr>rp_score := rp_score r + snd v, rp_pages := rp_pages r + 1, rp_updated := now\<rparr>" fst
  by unfold_locales auto

subsection \<open>Weights\<close>

definition term_weight :: "term_row table \<Rightarrow> string \<times> string \<Rightarrow> float64" where
  "term_weight t k = (case lookup_row term_key k t of None \<Rightarrow> 0 | Some r \<Rightarrow> tr_weight r)"

lemma term_weight_add:
  "term_weight (add_term now v t) k = term_weight t k + (if k = value_key v then tv_weight v else 0)"
  unfolding term_weight_def add_term_def added_terms.lookup_upsert
  by (simp add: term_row_of_def add_weight_def split: option.splits)

lemma term_weight_fold:
  "term_weight (fold (\<lambda>tok. add_term now \<lparr>tv_term = tok, tv_weight = w, tv_source = src, tv_lang = lang\<rparr>) toks t) (tok, src')
   = term_weight t (tok, src') + (if src' = src then w * real (count_list toks tok) else 0)"
proof (induction toks arbitrary: t)
  case (Cons x toks)
  then show ?case by (auto simp: term_weight_add value_key_def algebra_simps)
qed simp

text \<open>Queries recorded one after the other, each with its time and language.\<close>

definition record_queries :: "stdlib \<Rightarrow> (gotime \<times> string \<times> string \<times> string) list \<Rightarrow> profile_db \<Rightarrow> profile_db" where
  "record_queries E qs db = fold (\<lambda>(now, query, normalized, lang) db. snd (record_search_query E now None (\<lambda>_. False) query normalized lang db)) qs db"

lemma record_query_weight:
  "term_weight (pd_terms (snd (record_search_query E now None (\<lambda>_. False) query normalized lang db))) (tok, src)
   = term_weight (pd_terms db) (tok, src) + (if src = ''query'' then real (count_list (interest_tokens E normalized) tok) else 0)"
  using term_weight_fold [of now 1 "''query''" lang "interest_tokens E normalized" "pd_terms db" tok src]
  by (simp add: record_search_query_def)

text \<open>
  Recording queries adds up: the weight of a term from queries grows by the number of times the term
  occurs in the recorded queries, every query is counted, and the weights from clicks and manual interests
  stay as they are.
\<close>

theorem query_weights_add_up:
  "term_weight (pd_terms (record_queries E qs db)) (tok, ''query'')
     = term_weight (pd_terms db) (tok, ''query'') + real (sum_list (map (\<lambda>(now, query, normalized, lang). count_list (interest_tokens E normalized) tok) qs))
   \<and> term_weight (pd_terms (record_queries E qs db)) (tok, ''manual'') = term_weight (pd_terms db) (tok, ''manual'')
   \<and> term_weight (pd_terms (record_queries E qs db)) (tok, ''click'') = term_weight (pd_terms db) (tok, ''click'')
   \<and> get_search_query_count None (record_queries E qs db) = Inr (int (length (pd_queries db) + length qs))"
proof (induction qs arbitrary: db)
  case (Cons q qs)
  obtain now query normalized lang where q: "q = (now, query, normalized, lang)" by (cases q)
  have "length (pd_queries (snd (record_search_query E now None (\<lambda>_. False) query normalized lang db))) = Suc (length (pd_queries db))"
    by (simp add: record_search_query_def)
  then show ?case using Cons.IH [of "snd (record_search_query E now None (\<lambda>_. False) query normalized lang db)"]
    by (simp add: q record_queries_def record_query_weight)
qed (simp add: record_queries_def get_search_query_count_def)

subsection \<open>What a refresh of the scorer sees\<close>

lemma last_values_snoc: "last_values key val (rs @ [r]) = (last_values key val rs)(key r \<mapsto> val r)"
  by (simp add: last_values_def)

text \<open>
  The profile of the scorer has one weight per term, that of the row stored last: once a term that was set
  as a manual interest is searched for the first time, its weight in the scorer is 1, whatever the manual weight.
\<close>

theorem manual_interest_overridden:
  assumes new: "lookup_row term_key (tok, ''query'') (pd_terms db) = None" and tok: "interest_tokens E normalized = [tok]"
  shows "\<exists>db1 db2 a' p. set_interest_term now None tok w ''manual'' lang db = (Inr (), db1)
    \<and> record_search_query E now None (\<lambda>_. False) query normalized lang db1 = (Inr (), db2)
    \<and> refresh (profile_of_db db2) a = (True, a') \<and> as_profile a' = Some p \<and> ip_terms p tok = Some 1"
proof -
  let ?v = "\<lparr>tv_term = tok, tv_weight = w, tv_source = ''manual'', tv_lang = lang\<rparr>"
  let ?q = "\<lparr>tv_term = tok, tv_weight = 1, tv_source = ''query'', tv_lang = lang\<rparr>"
  define t1 where "t1 = set_term now ?v (pd_terms db)"
  have "lookup_row term_key (value_key ?q) t1 = None"
    using new unfolding t1_def set_term_def set_terms.lookup_upsert by (simp add: value_key_def)
  then have "value_key ?q \<notin> term_key ` set (tb_rows t1)" by (simp add: lookup_row_None)
  then have "tb_rows (add_term now ?q t1) = tb_rows t1 @ [term_row_of now (tb_next t1) ?q]"
    by (simp add: add_term_def upsert_def)
  then have "last_values tr_term tr_weight (tb_rows (add_term now ?q t1)) tok = Some 1"
    by (simp add: last_values_snoc term_row_of_def)
  then show ?thesis using tok
    by (simp add: set_interest_term_def record_search_query_def refresh_def profile_of_db_def get_interest_profile_def
        get_domain_reputations_def get_search_query_count_def get_manual_interests_def t1_def)
qed

theorem manual_interest_overridden_witness:
  "\<exists>db1 db2 a' p. set_interest_term 7 None ''rust'' 50 ''manual'' ''en'' empty_profile = (Inr (), db1)
     \<and> record_search_query ascii_stdlib 7 None (\<lambda>_. False) ''Rust'' ''rust'' ''en'' db1 = (Inr (), db2)
     \<and> refresh (profile_of_db db2) (new_adaptive default_adaptive) = (True, a') \<and> as_profile a' = Some p \<and> ip_terms p ''rust'' = Some 1"
  by (rule manual_interest_overridden) (simp_all add: empty_profile_def empty_table_def lookup_row_def, code_simp)

end
