(* ===== verification/LinkRank.thy ===== *)
theory LinkRank
  imports PageDb
begin

text \<open>
  The ranking signals that \<open>UpdatePageRankings\<close> of \<open>internal/storage/sqlite_crawler.go\<close> computes from the
  links: the number of referring domains of a page and its iterative PageRank. Scores are real numbers.
\<close>

subsection \<open>Referring domains\<close>

definition page_domain :: "page_row \<Rightarrow> domain" where
  "page_domain r = pc_domain (pw_cols r)"

text \<open>The distinct domains of the pages that link to the hash \<open>h\<close> and differ from the domain of some page with it.\<close>

definition referring_domains :: "link_row list \<Rightarrow> page_row list \<Rightarrow> 64 word \<Rightarrow> domain list" where
  "referring_domains ls ps h =
     remdups (concat (map (\<lambda>l. map page_domain (filter (\<lambda>s. pw_id s = lk_source l
        \<and> list_ex (\<lambda>t. pw_hash t = h \<and> page_domain t \<noteq> page_domain s) ps) ps)) (links_to h ls)))"

definition reset_refs :: "page_row table \<Rightarrow> page_row table" where
  "reset_refs t = snd (update_where (\<lambda>_. True) (\<lambda>r. r\<lparr>pw_refs := 0\<rparr>) t)"

definition update_refs :: "link_row list \<Rightarrow> page_row table \<Rightarrow> page_row table" where
  "update_refs ls t = snd (update_where (\<lambda>r. referring_domains ls (tb_rows t) (pw_hash r) \<noteq> [])
     (\<lambda>r. r\<lparr>pw_refs := int (length (referring_domains ls (tb_rows t) (pw_hash r)))\<rparr>) t)"

subsection \<open>PageRank\<close>

definition page_edges :: "link_row list \<Rightarrow> page_row list \<Rightarrow> (int \<times> int) list" where
  "page_edges ls ps = concat (map (\<lambda>l. map (\<lambda>p. (lk_source l, pw_id p))
     (filter (\<lambda>p. pw_hash p = lk_hash l \<and> lk_source l \<noteq> pw_id p) ps)) ls)"

definition id_to_index :: "int list \<Rightarrow> int \<rightharpoonup> nat" where
  "id_to_index ids = map_of (rev (zip ids [0..<length ids]))"

text \<open>A graph is the out-degree and the list of sources of each page.\<close>

type_synonym rank_graph = "nat list \<times> nat list list"

definition add_edge :: "(int \<rightharpoonup> nat) \<Rightarrow> int \<times> int \<Rightarrow> rank_graph \<Rightarrow> rank_graph" where
  "add_edge idx e g = (case (idx (fst e), idx (snd e)) of
     (Some s, Some d) \<Rightarrow> (case g of (deg, inb) \<Rightarrow> (deg[s := deg ! s + 1], inb[d := inb ! d @ [s]]))
   | _ \<Rightarrow> g)"

definition rank_graph_of :: "int list \<Rightarrow> (int \<times> int) list \<Rightarrow> rank_graph" where
  "rank_graph_of ids es = fold (add_edge (id_to_index ids)) es (replicate (length ids) 0, replicate (length ids) [])"

definition dangling_sum :: "nat list \<Rightarrow> float64 list \<Rightarrow> float64" where
  "dangling_sum deg scores = sum_list (map (\<lambda>i. if deg ! i = 0 then scores ! i else 0) [0..<length deg])"

definition rank_step :: "rank_graph \<Rightarrow> float64 list \<Rightarrow> float64 list" where
  "rank_step g scores = (case g of (deg, inb) \<Rightarrow>
     map (\<lambda>i. (1 - 85/100) + 85/100 * (sum_list (map (\<lambda>s. scores ! s / real (deg ! s)) (inb ! i))
                + dangling_sum deg scores / real (length deg))) [0..<length deg])"

definition page_ranks :: "int list \<Rightarrow> (int \<times> int) list \<Rightarrow> float64 list" where
  "page_ranks ids es = (rank_step (rank_graph_of ids es) ^^ 15) (replicate (length ids) 1)"

definition set_rank :: "int \<times> float64 \<Rightarrow> page_row table \<Rightarrow> page_row table" where
  "set_rank x t = snd (update_where (\<lambda>r. pw_id r = fst x) (\<lambda>r. r\<lparr>pw_rank := snd x\<rparr>) t)"

definition compute_pagerank :: "db_error option \<Rightarrow> link_row list \<Rightarrow> page_row table \<Rightarrow> (db_error + unit) \<times> page_row table" where
  "compute_pagerank e ls t =
     (case e of
        Some x \<Rightarrow> (Inl x, t)
      | None \<Rightarrow>
          let ids = map pw_id (tb_rows t)
          in if ids = [] then (Inr (), t)
             else (Inr (), fold set_rank (zip ids (page_ranks ids (page_edges ls (tb_rows t)))) t))"

text \<open>The errors of the four statements: attaching the graph, the reset, the count, and the PageRank part.\<close>

record rank_faults =
  rf_attach :: "db_error option"
  rf_reset :: "db_error option"
  rf_count :: "db_error option"
  rf_rank :: "db_error option"

definition update_page_rankings :: "rank_faults \<Rightarrow> link_row list \<Rightarrow> page_row table \<Rightarrow> (db_error + unit) \<times> page_row table" where
  "update_page_rankings F ls t =
     (case rf_attach F of
        Some x \<Rightarrow> (Inl x, t)
      | None \<Rightarrow> (case rf_reset F of
          Some x \<Rightarrow> (Inl x, t)
        | None \<Rightarrow> (case rf_count F of
            Some x \<Rightarrow> (Inl x, reset_refs t)
          | None \<Rightarrow> compute_pagerank (rf_rank F) ls (update_refs ls (reset_refs t)))))"

subsection \<open>The rank graph\<close>

definition graph_ok :: "nat \<Rightarrow> rank_graph \<Rightarrow> bool" where
  "graph_ok n g \<longleftrightarrow> length (fst g) = n \<and> length (snd g) = n \<and> (\<forall>i < n. \<forall>s \<in> set (snd g ! i). s < n)
     \<and> (\<forall>s < n. fst g ! s = (\<Sum>i<n. count_list (snd g ! i) s))"

lemma id_to_index_less: "id_to_index ids i = Some k \<Longrightarrow> k < length ids"
  by (auto simp: id_to_index_def dest!: map_of_SomeD in_set_zipE)

lemma count_list_snoc [simp]: "count_list (xs @ [x]) s = count_list xs s + (if x = s then 1 else 0)"
  by (induction xs) auto

lemma graph_ok_edge:
  assumes ok: "graph_ok n g" and idx: "\<And>i k. idx i = Some k \<Longrightarrow> k < n"
  shows "graph_ok n (add_edge idx e g)"
proof (cases "idx (fst e) = None \<or> idx (snd e) = None")
  case False
  then obtain a d where ad: "idx (fst e) = Some a" "idx (snd e) = Some d" by auto
  have less: "a < n" "d < n" using idx ad by auto
  obtain deg inb where g: "g = (deg, inb)" by (cases g)
  have len: "length deg = n" "length inb = n" using ok by (auto simp: graph_ok_def g)
  have cnt: "count_list ((inb[d := inb ! d @ [a]]) ! i) s = count_list (inb ! i) s + (if i = d \<and> a = s then 1 else 0)" if "i < n" for i s
    using that len by (cases "i = d") (simp_all add: nth_list_update)
  have "(\<Sum>i<n. count_list ((inb[d := inb ! d @ [a]]) ! i) s) = (\<Sum>i<n. count_list (inb ! i) s) + (if a = s then 1 else 0)" for s
  proof -
    have "(\<Sum>i<n. count_list ((inb[d := inb ! d @ [a]]) ! i) s) = (\<Sum>i<n. count_list (inb ! i) s + (if i = d then if a = s then 1 else 0 else 0))"
      by (rule sum.cong) (auto simp: cnt)
    then show ?thesis using less by (simp add: sum.distrib)
  qed
  then show ?thesis using ok less len by (auto simp: graph_ok_def add_edge_def g ad nth_list_update)
qed (use ok in \<open>auto simp: add_edge_def split: option.splits\<close>)

lemma graph_ok_empty: "graph_ok n (replicate n 0, replicate n [])"
  by (simp add: graph_ok_def)

lemma graph_ok_fold: "graph_ok n g \<Longrightarrow> (\<And>i k. idx i = Some k \<Longrightarrow> k < n) \<Longrightarrow> graph_ok n (fold (add_edge idx) es g)"
proof (induction es arbitrary: g)
  case (Cons e es)
  have "graph_ok n (add_edge idx e g)" by (rule graph_ok_edge) (use Cons.prems in auto)
  then show ?case using Cons.IH Cons.prems(2) by simp
qed simp

lemma rank_graph_ok: "graph_ok (length ids) (rank_graph_of ids es)"
  unfolding rank_graph_of_def by (rule graph_ok_fold [OF graph_ok_empty id_to_index_less])

subsection \<open>The mass of the ranks\<close>

lemma sum_list_counts:
  fixes f :: "nat \<Rightarrow> real"
  shows "(\<forall>s \<in> set xs. s < n) \<Longrightarrow> sum_list (map f xs) = (\<Sum>s<n. real (count_list xs s) * f s)"
proof (induction xs)
  case (Cons x xs)
  have "(\<Sum>s<n. real (count_list (x # xs) s) * f s) = (\<Sum>s<n. (if s = x then f s else 0) + real (count_list xs s) * f s)"
    by (rule sum.cong) (auto simp: algebra_simps)
  then show ?case using Cons by (simp add: sum.distrib)
qed simp

lemma inbound_mass:
  fixes f :: "nat \<Rightarrow> real"
  assumes "graph_ok n (deg, inb)"
  shows "(\<Sum>i<n. sum_list (map (\<lambda>s. f s / real (deg ! s)) (inb ! i))) = (\<Sum>s<n. if deg ! s = 0 then 0 else f s)"
proof -
  have "(\<Sum>i<n. sum_list (map (\<lambda>s. f s / real (deg ! s)) (inb ! i))) = (\<Sum>i<n. \<Sum>s<n. real (count_list (inb ! i) s) * (f s / real (deg ! s)))"
    using assms by (intro sum.cong sum_list_counts) (auto simp: graph_ok_def)
  also have "\<dots> = (\<Sum>s<n. \<Sum>i<n. real (count_list (inb ! i) s) * (f s / real (deg ! s)))" by (rule sum.swap)
  also have "\<dots> = (\<Sum>s<n. real (deg ! s) * (f s / real (deg ! s)))"
  proof (rule sum.cong)
    fix s assume "s \<in> {..<n}"
    then have "real (deg ! s) = (\<Sum>i<n. real (count_list (inb ! i) s))" using assms by (simp add: graph_ok_def)
    then show "(\<Sum>i<n. real (count_list (inb ! i) s) * (f s / real (deg ! s))) = real (deg ! s) * (f s / real (deg ! s))"
      using sum_distrib_right [where f = "\<lambda>i. real (count_list (inb ! i) s)" and A = "{..<n}" and r = "f s / real (deg ! s)"] by metis
  qed simp
  also have "\<dots> = (\<Sum>s<n. if deg ! s = 0 then 0 else f s)" by (rule sum.cong) auto
  finally show ?thesis .
qed

lemma dangling_sum_eq: "length deg = n \<Longrightarrow> dangling_sum deg sc = (\<Sum>i<n. if deg ! i = 0 then sc ! i else 0)"
  by (simp add: dangling_sum_def interv_sum_list_conv_sum_set_nat lessThan_atLeast0)

lemma rank_step_mass:
  assumes ok: "graph_ok n g" and len: "length sc = n" and n: "0 < n"
  shows "sum_list (rank_step g sc) = real n * (15/100) + 85/100 * sum_list sc"
proof -
  obtain deg inb where g: "g = (deg, inb)" by (cases g)
  have l: "length deg = n" using ok by (simp add: graph_ok_def g)
  let ?in = "\<lambda>i. sum_list (map (\<lambda>s. sc ! s / real (deg ! s)) (inb ! i))"
  have "sum_list (rank_step g sc) = (\<Sum>i<n. (1 - 85/100) + 85/100 * (?in i + dangling_sum deg sc / real n))"
    by (simp add: rank_step_def g l interv_sum_list_conv_sum_set_nat lessThan_atLeast0)
  also have "\<dots> = real n * (15/100) + 85/100 * ((\<Sum>i<n. ?in i) + dangling_sum deg sc)"
    using n by (simp add: sum.distrib sum_distrib_left [symmetric] sum_divide_distrib [symmetric])
  also have "(\<Sum>i<n. ?in i) + dangling_sum deg sc = (\<Sum>i<n. sc ! i)"
    using inbound_mass [OF ok [unfolded g], of "\<lambda>s. sc ! s"] by (simp add: dangling_sum_eq [OF l] sum.distrib [symmetric] if_distrib cong: if_cong)
  also have "(\<Sum>i<n. sc ! i) = sum_list sc" using len by (simp add: sum_list_sum_nth lessThan_atLeast0)
  finally show ?thesis .
qed

lemma rank_step_length [simp]: "length (rank_step g sc) = length (fst g)"
  by (simp add: rank_step_def split: prod.splits)

lemma rank_step_nth:
  assumes "graph_ok n (deg, inb)" and "i < n"
  shows "rank_step (deg, inb) sc ! i = 15/100 + 85/100 * (sum_list (map (\<lambda>s. sc ! s / real (deg ! s)) (inb ! i)) + dangling_sum deg sc / real n)"
  using assms by (simp add: rank_step_def graph_ok_def)

lemma rank_parts_nonneg:
  assumes ok: "graph_ok n (deg, inb)" and sc: "length sc = n" "\<forall>x \<in> set sc. 0 \<le> x"
  shows "0 \<le> dangling_sum deg sc" and "i < n \<Longrightarrow> 0 \<le> sum_list (map (\<lambda>s. sc ! s / real (deg ! s)) (inb ! i))"
  using assms by (auto simp: dangling_sum_def graph_ok_def intro!: sum_list_nonneg divide_nonneg_nonneg sum_nonneg)

definition ranks_ok :: "nat \<Rightarrow> float64 list \<Rightarrow> bool" where
  "ranks_ok n sc \<longleftrightarrow> length sc = n \<and> sum_list sc = real n \<and> (\<forall>x \<in> set sc. 0 \<le> x)"

lemma ranks_ok_step:
  assumes ok: "graph_ok n g" and sc: "ranks_ok n sc" and n: "0 < n"
  shows "ranks_ok n (rank_step g sc)" and "\<forall>x \<in> set (rank_step g sc). 15/100 \<le> x"
proof -
  obtain deg inb where g: "g = (deg, inb)" by (cases g)
  have l: "length (rank_step g sc) = n" using ok by (simp add: graph_ok_def)
  have "15/100 \<le> rank_step g sc ! i" if "i < n" for i
    using rank_parts_nonneg(1) [OF ok [unfolded g], of sc] rank_parts_nonneg(2) [OF ok [unfolded g], of sc i] sc that n by (simp add: g rank_step_nth [OF ok [unfolded g] that] ranks_ok_def)
  then show low: "\<forall>x \<in> set (rank_step g sc). 15/100 \<le> x" using l by (auto simp: in_set_conv_nth)
  then show "ranks_ok n (rank_step g sc)" using rank_step_mass [OF ok _ n, of sc] sc l by (fastforce simp: ranks_ok_def)
qed

lemma ranks_ok_iter: "graph_ok n g \<Longrightarrow> 0 < n \<Longrightarrow> ranks_ok n ((rank_step g ^^ k) (replicate n 1))"
proof (induction k)
  case 0
  show ?case by (simp add: ranks_ok_def sum_list_replicate)
qed (auto simp: ranks_ok_step)

lemma page_ranks_last:
  obtains sc where "ids \<noteq> [] \<Longrightarrow> ranks_ok (length ids) sc" and "page_ranks ids es = rank_step (rank_graph_of ids es) sc"
proof
  show "ids \<noteq> [] \<Longrightarrow> ranks_ok (length ids) ((rank_step (rank_graph_of ids es) ^^ 14) (replicate (length ids) 1))"
    by (rule ranks_ok_iter [OF rank_graph_ok]) simp
  show "page_ranks ids es = rank_step (rank_graph_of ids es) ((rank_step (rank_graph_of ids es) ^^ 14) (replicate (length ids) 1))"
    by (simp add: page_ranks_def eval_nat_numeral)
qed

lemma fold_set_rank:
  "distinct (map fst xs) \<Longrightarrow> tb_rows (fold set_rank xs t)
   = map (\<lambda>r. case map_of xs (pw_id r) of None \<Rightarrow> r | Some x \<Rightarrow> r\<lparr>pw_rank := x\<rparr>) (tb_rows t)"
proof (induction xs arbitrary: t)
  case (Cons x xs)
  then have "map_of xs (fst x) = None" by (simp add: map_of_eq_None_iff)
  then show ?case using Cons by (cases x) (auto simp: set_rank_def update_where_def split: option.splits)
qed (simp add: comp_def)

lemma compute_pagerank_rows:
  assumes wf: "table_wf pw_id pw_url t" and c: "compute_pagerank None ls t = (r, t')"
  shows "tb_rows t' = map2 (\<lambda>row x. row\<lparr>pw_rank := x\<rparr>) (tb_rows t) (page_ranks (map pw_id (tb_rows t)) (page_edges ls (tb_rows t)))"
proof -
  let ?ids = "map pw_id (tb_rows t)"
  let ?ranks = "page_ranks ?ids (page_edges ls (tb_rows t))"
  have len: "length ?ranks = length ?ids"
    using rank_graph_ok [of ?ids "page_edges ls (tb_rows t)"] page_ranks_last [of ?ids "page_edges ls (tb_rows t)"]
    by (metis graph_ok_def rank_step_length)
  have dist: "distinct ?ids" using wf by (rule table_wf_ids)
  then have "tb_rows t' = map (\<lambda>r. case map_of (zip ?ids ?ranks) (pw_id r) of None \<Rightarrow> r | Some x \<Rightarrow> r\<lparr>pw_rank := x\<rparr>) (tb_rows t)"
    using c len by (cases "?ids = []") (auto simp: compute_pagerank_def Let_def fold_set_rank)
  also have "\<dots> = map2 (\<lambda>row x. row\<lparr>pw_rank := x\<rparr>) (tb_rows t) ?ranks"
  proof (rule nth_equalityI)
    fix i assume i: "i < length (map (\<lambda>r. case map_of (zip ?ids ?ranks) (pw_id r) of None \<Rightarrow> r | Some x \<Rightarrow> r\<lparr>pw_rank := x\<rparr>) (tb_rows t))"
    then have "map_of (zip ?ids ?ranks) (?ids ! i) = Some (?ranks ! i)" using len dist by (intro map_of_zip_nth) auto
    then show "map (\<lambda>r. case map_of (zip ?ids ?ranks) (pw_id r) of None \<Rightarrow> r | Some x \<Rightarrow> r\<lparr>pw_rank := x\<rparr>) (tb_rows t) ! i
        = map2 (\<lambda>row x. row\<lparr>pw_rank := x\<rparr>) (tb_rows t) ?ranks ! i" using i len by simp
  qed (use len in simp)
  finally show ?thesis .
qed

lemma referring_domains_frame:
  "referring_domains ls (map (\<lambda>r. r\<lparr>pw_refs := f r\<rparr>) ps) h = referring_domains ls ps h"
  by (simp add: referring_domains_def filter_map comp_def list_ex_iff page_domain_def [abs_def])

lemma refs_rows:
  "tb_rows (update_refs ls (reset_refs t)) = map (\<lambda>r. r\<lparr>pw_refs := int (length (referring_domains ls (tb_rows t) (pw_hash r)))\<rparr>) (tb_rows t)"
  by (simp add: update_refs_def reset_refs_def update_where_def referring_domains_frame)

lemma refs_wf: "table_wf pw_id pw_url t \<Longrightarrow> table_wf pw_id pw_url (update_refs ls (reset_refs t))"
  unfolding update_refs_def reset_refs_def by (intro table_wf_update) auto

lemma page_edges_frame: "page_edges ls (map (\<lambda>r. r\<lparr>pw_refs := f r\<rparr>) ps) = page_edges ls ps"
  by (simp add: page_edges_def filter_map comp_def)

text \<open>The rows after a run without errors.\<close>

lemma rankings_rows:
  assumes wf: "table_wf pw_id pw_url t" and u: "update_page_rankings F ls t = (Inr x, t')"
  shows "tb_rows t' = map2 (\<lambda>row x. row\<lparr>pw_refs := int (length (referring_domains ls (tb_rows t) (pw_hash row))), pw_rank := x\<rparr>)
    (tb_rows t) (page_ranks (map pw_id (tb_rows t)) (page_edges ls (tb_rows t)))"
proof -
  have "compute_pagerank None ls (update_refs ls (reset_refs t)) = (Inr x, t')"
    using u by (auto simp: update_page_rankings_def compute_pagerank_def split: option.splits)
  from compute_pagerank_rows [OF refs_wf [OF wf] this] show ?thesis
    by (simp add: refs_rows page_edges_frame comp_def map_zip_map)
qed

text \<open>
  C24. Updating the rankings without errors gives every page its number of referring domains and its
  PageRank, and changes nothing else; the PageRanks have mean 1, which is also the rank of a page that was
  never ranked, and none is below 0.15.
\<close>

theorem rankings_have_mean_one:
  assumes wf: "table_wf pw_id pw_url t" and u: "update_page_rankings F ls t = (Inr x, t')"
  shows "map (\<lambda>r. r\<lparr>pw_refs := 0, pw_rank := 0\<rparr>) (tb_rows t') = map (\<lambda>r. r\<lparr>pw_refs := 0, pw_rank := 0\<rparr>) (tb_rows t)
    \<and> sum_list (map pw_rank (tb_rows t')) = real (length (tb_rows t'))
    \<and> (\<forall>r \<in> set (tb_rows t'). 15/100 \<le> pw_rank r \<and> pw_refs r = int (length (referring_domains ls (tb_rows t) (pw_hash r))))"
proof -
  let ?ids = "map pw_id (tb_rows t)" and ?es = "page_edges ls (tb_rows t)"
  let ?f = "\<lambda>row x. row\<lparr>pw_refs := int (length (referring_domains ls (tb_rows t) (pw_hash row))), pw_rank := x\<rparr>"
  have rows: "tb_rows t' = map2 ?f (tb_rows t) (page_ranks ?ids ?es)" using wf u by (rule rankings_rows)
  obtain sc where sc: "?ids \<noteq> [] \<Longrightarrow> ranks_ok (length ?ids) sc" "page_ranks ?ids ?es = rank_step (rank_graph_of ?ids ?es) sc"
    using page_ranks_last [of ?ids ?es] by blast
  have ranks: "?ids \<noteq> [] \<Longrightarrow> ranks_ok (length ?ids) (page_ranks ?ids ?es)" "?ids \<noteq> [] \<Longrightarrow> \<forall>x \<in> set (page_ranks ?ids ?es). 15/100 \<le> x"
    using ranks_ok_step [OF rank_graph_ok sc(1)] by (simp_all add: sc(2))
  have len: "length (page_ranks ?ids ?es) = length (tb_rows t)"
    using ranks(1) rank_graph_ok [of ?ids ?es] by (simp add: sc(2) graph_ok_def)
  have "map pw_rank (tb_rows t') = page_ranks ?ids ?es" using len by (simp add: rows comp_def split_def)
  moreover have "map (\<lambda>r. r\<lparr>pw_refs := 0, pw_rank := 0\<rparr>) (tb_rows t') = map (\<lambda>r. r\<lparr>pw_refs := 0, pw_rank := 0\<rparr>) (tb_rows t)"
    using len by (simp add: rows list_eq_iff_nth_eq)
  moreover have "sum_list (page_ranks ?ids ?es) = real (length (tb_rows t))"
    using ranks(1) len by (cases "tb_rows t = []") (auto simp: ranks_ok_def)
  moreover have "15/100 \<le> pw_rank r \<and> pw_refs r = int (length (referring_domains ls (tb_rows t) (pw_hash r)))" if r: "r \<in> set (tb_rows t')" for r
  proof -
    obtain row x where rx: "(row, x) \<in> set (zip (tb_rows t) (page_ranks ?ids ?es))" "r = ?f row x" using r by (auto simp: rows)
    then have "tb_rows t \<noteq> []" "x \<in> set (page_ranks ?ids ?es)" by (auto dest: set_zip_leftD set_zip_rightD)
    then show ?thesis using ranks(2) rx(2) by simp
  qed
  ultimately show ?thesis using len by (auto simp: rows)
qed

definition no_rank_faults :: rank_faults where
  "no_rank_faults = \<lparr>rf_attach = None, rf_reset = None, rf_count = None, rf_rank = None\<rparr>"

definition sample_store :: "page_row table" where
  "sample_store = fold (\<lambda>u. upsert pw_url (page_row_of 5) (merge_page 5) pg_url (page0\<lparr>pg_url := u\<rparr>)) [''https://a.org/'', ''https://b.org/''] empty_table"

lemma sample_store_wf: "table_wf pw_id pw_url sample_store"
  by (simp add: sample_store_def page_rows.upsert_wf)

lemma rankings_succeed: "\<exists>t'. update_page_rankings no_rank_faults ls t = (Inr (), t')"
  by (auto simp: update_page_rankings_def no_rank_faults_def compute_pagerank_def Let_def)

theorem rankings_have_mean_one_witness:
  "\<exists>t'. update_page_rankings no_rank_faults [] sample_store = (Inr (), t') \<and> sum_list (map pw_rank (tb_rows t')) = 2"
proof -
  obtain t' where t': "update_page_rankings no_rank_faults [] sample_store = (Inr (), t')" using rankings_succeed by blast
  have two: "length (tb_rows sample_store) = 2" by (simp add: sample_store_def upsert_def empty_table_def page_row_of_def)
  note spec = rankings_have_mean_one [OF sample_store_wf t']
  then have "length (tb_rows t') = 2" using two by (metis length_map)
  then show ?thesis using spec t' by simp
qed

subsection \<open>Pages without a link hash\<close>

lemma unlinked_ranks:
  assumes "i < length ids" and "snd (rank_graph_of ids es) ! i = []" and "j < length ids"
  shows "page_ranks ids es ! i \<le> page_ranks ids es ! j"
proof -
  obtain sc where sc: "ids \<noteq> [] \<Longrightarrow> ranks_ok (length ids) sc" "page_ranks ids es = rank_step (rank_graph_of ids es) sc"
    using page_ranks_last [of ids es] by blast
  obtain deg inb where g: "rank_graph_of ids es = (deg, inb)" by fastforce
  have ok: "graph_ok (length ids) (deg, inb)" using rank_graph_ok [of ids es] by (simp add: g)
  have "ids \<noteq> []" using assms(1) by auto
  then have "ranks_ok (length ids) sc" by (rule sc(1))
  then have "0 \<le> sum_list (map (\<lambda>s. sc ! s / real (deg ! s)) (inb ! j))"
    using rank_parts_nonneg(2) [OF ok, of sc j] assms(3) by (simp add: ranks_ok_def)
  then show ?thesis using assms by (simp add: sc(2) g rank_step_nth [OF ok])
qed

lemma no_edge_no_inbound:
  assumes "\<forall>e \<in> set es. idx (snd e) \<noteq> Some i" and "i < length (snd g)"
  shows "snd (fold (add_edge idx) es g) ! i = snd g ! i"
  using assms
proof (induction es arbitrary: g)
  case (Cons e es)
  have "snd (add_edge idx e g) ! i = snd g ! i \<and> length (snd (add_edge idx e g)) = length (snd g)"
    using Cons.prems by (auto simp: add_edge_def split: option.splits prod.splits)
  then show ?case using Cons.IH [of "add_edge idx e g"] Cons.prems by simp
qed simp

lemma id_to_index_nth: "distinct ids \<Longrightarrow> id_to_index ids d = Some i \<longleftrightarrow> i < length ids \<and> ids ! i = d"
proof -
  assume d: "distinct ids"
  then have "distinct (map fst (rev (zip ids [0..<length ids])))" by (simp add: rev_map [symmetric])
  then have "id_to_index ids d = Some i \<longleftrightarrow> (d, i) \<in> set (zip ids [0..<length ids])"
    unfolding id_to_index_def by (metis map_of_eq_Some_iff set_rev)
  then show ?thesis by (auto simp: in_set_zip)
qed

text \<open>
  The extension's pages are stored without a link hash, so no link is ever found to point to one: a page
  that an ingest adds has no referring domain after the next update of the rankings, and no page ranks below
  it, however many pages link to it.
\<close>

theorem ingested_page_never_linked:
  assumes wf: "table_wf pw_id pw_url pages" and new: "lookup_row pw_url (pg_url p) pages = None"
    and i: "upsert_page now None p pages = (Inr (), pages1)"
    and ls: "\<And>l. l \<in> set ls \<Longrightarrow> lk_hash l \<noteq> 0"
    and u: "update_page_rankings F ls pages1 = (Inr (), pages2)"
  shows "\<exists>row. row \<in> set (tb_rows pages2) \<and> pw_url row = pg_url p \<and> pw_refs row = 0 \<and> (\<forall>r \<in> set (tb_rows pages2). pw_rank row \<le> pw_rank r)"
proof -
  let ?ids = "map pw_id (tb_rows pages1)" and ?es = "page_edges ls (tb_rows pages1)"
  let ?f = "\<lambda>row x. row\<lparr>pw_refs := int (length (referring_domains ls (tb_rows pages1) (pw_hash row))), pw_rank := x\<rparr>"
  have p1: "pages1 = upsert pw_url (page_row_of now) (merge_page now) pg_url (complete_page now p) pages" using i by (simp add: upsert_page_def)
  have wf1: "table_wf pw_id pw_url pages1" using page_rows.upsert_wf [OF wf] by (simp add: p1)
  have "lookup_row pw_url (pg_url p) pages1 = Some (page_row_of now (tb_next pages) (complete_page now p))"
    using new by (simp add: p1 lookup_upsert_page)
  then obtain r where r: "r \<in> set (tb_rows pages1)" "pw_url r = pg_url p" "pw_hash r = 0"
    by (auto simp: lookup_row_Some [OF wf1] page_row_of_def)
  then obtain k where k: "k < length (tb_rows pages1)" "tb_rows pages1 ! k = r" by (auto simp: in_set_conv_nth)
  have dist: "distinct ?ids" using wf1 by (rule table_wf_ids)
  have inj: "r' \<in> set (tb_rows pages1) \<Longrightarrow> pw_id r' = pw_id r \<Longrightarrow> r' = r" for r'
    using dist r(1) by (auto simp: distinct_map dest: inj_onD)
  have "\<forall>e \<in> set ?es. id_to_index ?ids (snd e) \<noteq> Some k"
    using inj r(3) ls k by (fastforce simp: page_edges_def id_to_index_nth [OF dist])
  then have none: "snd (rank_graph_of ?ids ?es) ! k = []"
    using k(1) no_edge_no_inbound [of ?es "id_to_index ?ids" k "(replicate (length ?ids) 0, replicate (length ?ids) [])"]
    by (simp add: rank_graph_of_def)
  have len: "length (page_ranks ?ids ?es) = length (tb_rows pages1)"
    using rank_graph_ok [of ?ids ?es] page_ranks_last [of ?ids ?es] by (metis graph_ok_def length_map rank_step_length)
  have rows: "tb_rows pages2 = map2 ?f (tb_rows pages1) (page_ranks ?ids ?es)" using rankings_rows [OF wf1 u] .
  have refs: "referring_domains ls (tb_rows pages1) 0 = []" using ls by (auto simp: referring_domains_def links_to_def filter_empty_conv)
  have "k < length (tb_rows pages2)" using k(1) len by (simp add: rows)
  then have "tb_rows pages2 ! k \<in> set (tb_rows pages2)" by (rule nth_mem)
  moreover have "pw_url (tb_rows pages2 ! k) = pg_url p" "pw_refs (tb_rows pages2 ! k) = 0"
    using k r len refs by (simp_all add: rows)
  moreover have "pw_rank (tb_rows pages2 ! k) \<le> pw_rank r'" if r': "r' \<in> set (tb_rows pages2)" for r'
  proof -
    obtain j where "j < length (tb_rows pages1)" "r' = tb_rows pages2 ! j" using r' len by (auto simp: rows in_set_conv_nth)
    then show ?thesis using unlinked_ranks [of k ?ids ?es j] none k(1) len by (simp add: rows)
  qed
  ultimately show ?thesis by blast
qed

theorem ingested_page_never_linked_witness:
  "\<exists>pages1 pages2 row. upsert_page 5 None (page0\<lparr>pg_url := ''https://c.org/''\<rparr>) sample_store = (Inr (), pages1)
     \<and> update_page_rankings no_rank_faults
         [\<lparr>lk_source = 1, lk_hash = hash_url ''https://c.org/'', lk_anchor = [], lk_created = 5\<rparr>] pages1 = (Inr (), pages2)
     \<and> row \<in> set (tb_rows pages2) \<and> pw_url row = ''https://c.org/'' \<and> pw_refs row = 0"
proof -
  let ?ls = "[\<lparr>lk_source = 1, lk_hash = hash_url ''https://c.org/'', lk_anchor = [], lk_created = 5\<rparr>]"
  let ?p = "page0\<lparr>pg_url := ''https://c.org/''\<rparr>"
  have hash: "hash_url ''https://c.org/'' \<noteq> 0" by code_simp
  have new: "lookup_row pw_url (pg_url ?p) sample_store = None"
    by (simp add: lookup_row_def sample_store_def upsert_def empty_table_def page_row_of_def)
  obtain pages1 where p1: "upsert_page 5 None ?p sample_store = (Inr (), pages1)" by (simp add: upsert_page_def)
  obtain pages2 where p2: "update_page_rankings no_rank_faults ?ls pages1 = (Inr (), pages2)" using rankings_succeed by blast
  have "l \<in> set ?ls \<Longrightarrow> lk_hash l \<noteq> 0" for l using hash by simp
  from ingested_page_never_linked [OF sample_store_wf new p1 this p2] p1 p2 show ?thesis by fastforce
qed

end
