(* ===== verification/StoreAdmin.thy ===== *)
theory StoreAdmin
  imports PageDb SearchText
begin

text \<open>
  The rest of \<open>internal/storage/sqlite.go\<close>: running the migrations of a database, the statistics of the store and
  the settings of the search. What a statement does to a database is an argument.
\<close>

subsection \<open>Migrations\<close>

definition duplicate_column :: string where
  "duplicate_column = ''duplicate column''"

text \<open>The loop over the statements; a statement that adds a column the table has is skipped.\<close>

fun run_migrations :: "('m \<Rightarrow> 's \<Rightarrow> string option \<times> 's) \<Rightarrow> 'm list \<Rightarrow> 's \<Rightarrow> string option \<times> 's" where
  "run_migrations exec [] s = (None, s)"
| "run_migrations exec (m # ms) s =
     (case exec m s of
        (None, s') \<Rightarrow> run_migrations exec ms s'
      | (Some x, s') \<Rightarrow> if str_contains x duplicate_column then run_migrations exec ms s' else (Some x, s'))"

text \<open>All statements run in one transaction, which an error rolls back.\<close>

definition migrate_db :: "string option \<Rightarrow> string option \<Rightarrow> ('m \<Rightarrow> 's \<Rightarrow> string option \<times> 's) \<Rightarrow> 'm list \<Rightarrow> 's \<Rightarrow> string option \<times> 's" where
  "migrate_db e_begin e_commit exec ms s =
     (case e_begin of
        Some x \<Rightarrow> (Some x, s)
      | None \<Rightarrow>
          (case run_migrations exec ms s of
             (Some x, _) \<Rightarrow> (Some x, s)
           | (None, s') \<Rightarrow> (case e_commit of Some x \<Rightarrow> (Some x, s) | None \<Rightarrow> (None, s'))))"

subsection \<open>Statistics\<close>

record crawler_stats =
  ks_pages :: int
  ks_domains :: int
  ks_seeds :: int
  ks_images :: int
  ks_queue :: job_counts
  ks_size_mb :: float64

record stats_errors =
  ke_pages :: "db_error option"
  ke_domains :: "db_error option"
  ke_seeds :: "db_error option"
  ke_images :: "db_error option"
  ke_queue :: "db_error option"

text \<open>\<open>sizes\<close> are the sizes of the three database files, \<open>None\<close> for one that cannot be read.\<close>

definition database_size_mb :: "int option list \<Rightarrow> float64" where
  "database_size_mb sizes = real_of_int (sum_list (List.map_filter id sizes)) / (1024 * 1024)"

definition get_stats :: "stats_errors \<Rightarrow> int option list \<Rightarrow> page_row table \<Rightarrow> image_record table \<Rightarrow> queue_row table \<Rightarrow> domain_row table \<Rightarrow> seed_row table
    \<Rightarrow> db_error + crawler_stats" where
  "get_stats K sizes pages images queue domains seeds =
     (case ke_pages K of Some x \<Rightarrow> Inl x | None \<Rightarrow>
     (case ke_domains K of Some x \<Rightarrow> Inl x | None \<Rightarrow>
     (case ke_seeds K of Some x \<Rightarrow> Inl x | None \<Rightarrow>
     (case ke_images K of Some x \<Rightarrow> Inl x | None \<Rightarrow>
     (case ke_queue K of Some x \<Rightarrow> Inl x | None \<Rightarrow>
       Inr \<lparr>ks_pages = int (length (tb_rows pages)), ks_domains = int (length (tb_rows domains)),
          ks_seeds = int (length (tb_rows seeds)), ks_images = int (length (tb_rows images)), ks_queue = get_queue_stats queue,
          ks_size_mb = database_size_mb sizes\<rparr>)))))"

subsection \<open>Settings of the search\<close>

definition with_search_intents :: "string list \<Rightarrow> string list \<Rightarrow> search_env \<Rightarrow> search_env" where
  "with_search_intents site_types platforms V =
     V\<lparr>se_site_types := to_lower (se_std V) ` set site_types, se_platforms := to_lower (se_std V) ` set platforms\<rparr>"

definition with_scoring_config :: "float64 \<Rightarrow> float64 \<Rightarrow> string \<Rightarrow> search_env \<Rightarrow> search_env" where
  "with_scoring_config boost secondary_boost secondary V =
     V\<lparr>se_language_boost := (if boost \<le> 0 then 3000 else boost), se_secondary_boost := secondary_boost,
       se_secondary_language := (if secondary = [] then ''en'' else secondary)\<rparr>"

subsection \<open>What a migration does\<close>

text \<open>
  A statement that fails leaves the database as it is, and one that has run once has no further effect: it
  succeeds without a change or reports that the column exists, whatever ran after it.
\<close>

definition repeatable :: "('m \<Rightarrow> 's \<Rightarrow> string option \<times> 's) \<Rightarrow> ('s \<Rightarrow> 's \<Rightarrow> bool) \<Rightarrow> 'm list \<Rightarrow> bool" where
  "repeatable exec later ms \<longleftrightarrow> (\<forall>s. later s s) \<and> (\<forall>a b c. later a b \<longrightarrow> later b c \<longrightarrow> later a c)
     \<and> (\<forall>m \<in> set ms. \<forall>s x s'. exec m s = (x, s') \<longrightarrow> later s s'
          \<and> (x = None \<or> str_contains (the x) duplicate_column \<longrightarrow>
               (\<forall>s2. later s' s2 \<longrightarrow> (\<exists>y. exec m s2 = (y, s2) \<and> (y = None \<or> str_contains (the y) duplicate_column)))))"

lemma repeatableD:
  assumes "repeatable exec later ms"
  shows "later s s" and "later a b \<Longrightarrow> later b c \<Longrightarrow> later a c"
    and "m \<in> set ms \<Longrightarrow> exec m s = (x, s') \<Longrightarrow> later s s'"
    and "m \<in> set ms \<Longrightarrow> exec m s = (x, s') \<Longrightarrow> x = None \<or> str_contains (the x) duplicate_column \<Longrightarrow> later s' s2
      \<Longrightarrow> \<exists>y. exec m s2 = (y, s2) \<and> (y = None \<or> str_contains (the y) duplicate_column)"
proof -
  note d = assms [unfolded repeatable_def]
  note rel = d [THEN conjunct1, rule_format] d [THEN conjunct2, THEN conjunct1, rule_format]
  note stmt = d [THEN conjunct2, THEN conjunct2, rule_format]
  show "later s s" "later a b \<Longrightarrow> later b c \<Longrightarrow> later a c" by (fact rel)+
  show "m \<in> set ms \<Longrightarrow> exec m s = (x, s') \<Longrightarrow> later s s'" using stmt by simp
  assume m: "m \<in> set ms" "exec m s = (x, s')" "x = None \<or> str_contains (the x) duplicate_column" "later s' s2"
  show "\<exists>y. exec m s2 = (y, s2) \<and> (y = None \<or> str_contains (the y) duplicate_column)"
    using conjunct2 [OF stmt [OF m(1,2)]] m(3,4) by simp
qed

lemma repeatable_Cons: "repeatable exec later (m # ms) \<Longrightarrow> repeatable exec later ms"
  by (simp add: repeatable_def)

text \<open>A loop that goes on past its first statement.\<close>

lemma run_migrations_Cons:
  assumes "exec m s = (y, s1)"
  shows "run_migrations exec (m # ms) s = (if y = None \<or> str_contains (the y) duplicate_column then run_migrations exec ms s1 else (y, s1))"
  using assms by (cases y) simp_all

lemma run_migrations_later:
  assumes "repeatable exec later ms" and "run_migrations exec ms s = (x, s')"
  shows "later s s'"
  using assms
proof (induction ms arbitrary: s)
  case Nil
  then show ?case by (simp add: repeatableD(1))
next
  case (Cons m ms)
  obtain y s1 where y: "exec m s = (y, s1)" by fastforce
  have "later s s1" by (rule repeatableD(3) [OF Cons.prems(1) _ y]) simp
  moreover have "s1 = s' \<or> later s1 s'"
    using Cons.prems(2) Cons.IH [OF repeatable_Cons [OF Cons.prems(1)]] by (simp add: run_migrations_Cons [of exec m s y s1, OF y] del: run_migrations.simps split: if_splits)
  ultimately show ?case using repeatableD(2) [OF Cons.prems(1)] by metis
qed

lemma rerun_migrations:
  assumes "repeatable exec later ms" and "run_migrations exec ms s = (None, s')" and "later s' s2"
  shows "run_migrations exec ms s2 = (None, s2)"
  using assms
proof (induction ms arbitrary: s)
  case (Cons m ms)
  obtain y s1 where y: "exec m s = (y, s1)" by fastforce
  note rep = repeatable_Cons [OF Cons.prems(1)]
  have ok: "y = None \<or> str_contains (the y) duplicate_column" and run: "run_migrations exec ms s1 = (None, s')"
    using Cons.prems(2) by (simp_all add: run_migrations_Cons [of exec m s y s1, OF y] del: run_migrations.simps split: if_splits)
  have "later s1 s2" by (rule repeatableD(2) [OF rep run_migrations_later [OF rep run] Cons.prems(3)])
  then obtain z where z: "exec m s2 = (z, s2)" "z = None \<or> str_contains (the z) duplicate_column"
    using repeatableD(4) [OF Cons.prems(1) _ y ok] by (metis list.set_intros(1))
  then show ?case using Cons.IH [OF rep run Cons.prems(3)] by (simp add: run_migrations_Cons [of exec m s2 z s2, OF z(1)] del: run_migrations.simps)
qed simp

text \<open>
  Migrating is safe to repeat at every start: with statements that have no effect the second time, a second
  migration succeeds and changes nothing, and a migration that fails changes nothing either.
\<close>

theorem migration_idempotent:
  assumes "repeatable exec later ms" and "migrate_db e_begin e_commit exec ms s = (r, s')"
  shows "if r = None then migrate_db None None exec ms s' = (None, s') else s' = s"
proof -
  obtain x s1 where x: "run_migrations exec ms s = (x, s1)" by fastforce
  show ?thesis
  proof (cases "e_begin = None \<and> x = None \<and> e_commit = None")
    case True
    then have "r = None" "s' = s1" using assms(2) [symmetric] x by (simp_all add: migrate_db_def)
    moreover have "run_migrations exec ms s1 = (None, s1)"
      using rerun_migrations [OF assms(1), of s s1 s1] x True repeatableD(1) [OF assms(1)] by simp
    ultimately show ?thesis by (simp add: migrate_db_def)
  next
    case False
    then have "r \<noteq> None \<and> s' = s"
      using assms(2) [symmetric] x by (cases e_begin; cases x; cases e_commit) (simp_all add: migrate_db_def)
    then show ?thesis by auto
  qed
qed

text \<open>Statements that create a table if it does not exist, and that add a column to a table.\<close>

datatype sample_statement = Create string | Add_column string

definition duplicate_error :: "string \<Rightarrow> string" where
  "duplicate_error c = ''duplicate column name: '' @ c"

fun sample_exec :: "sample_statement \<Rightarrow> string set \<Rightarrow> string option \<times> string set" where
  "sample_exec (Create t) s = (None, insert t s)"
| "sample_exec (Add_column c) s = (if c \<in> s then (Some (duplicate_error c), s) else (None, insert c s))"

lemma duplicate_error [simp]: "str_contains (duplicate_error c) duplicate_column"
  by (simp add: duplicate_error_def duplicate_column_def has_prefix_def)

lemma sample_exec_again:
  assumes "sample_exec m s = (x, s')"
  shows "s \<subseteq> s' \<and> (s' \<subseteq> s2 \<longrightarrow> (\<exists>y. sample_exec m s2 = (y, s2) \<and> (y = None \<or> str_contains (the y) duplicate_column)))"
  using assms by (cases m) (auto split: if_splits intro: insert_absorb)

lemma sample_repeatable: "repeatable sample_exec (\<subseteq>) ms"
  using sample_exec_again unfolding repeatable_def by blast

theorem migration_idempotent_witness:
  "\<exists>s. migrate_db None None sample_exec [Create ''pages'', Add_column ''fetch_mode''] {} = (None, s)
     \<and> migrate_db None None sample_exec [Create ''pages'', Add_column ''fetch_mode''] s = (None, s)"
proof -
  let ?ms = "[Create ''pages'', Add_column ''fetch_mode'']"
  obtain r s where m: "migrate_db None None sample_exec ?ms {} = (r, s)" by fastforce
  then have "r = None" by (auto simp: migrate_db_def)
  then show ?thesis using m migration_idempotent [OF sample_repeatable m] by auto
qed

end
