(* ===== verification/Api.thy ===== *)
theory Api
  imports Ingest Middleware Profile SearchStore LinkRank StoreAdmin "HOL-Library.Signed_Division"
begin

text \<open>
  The handlers of \<open>internal/api/handlers.go\<close>, each on the part of the program it reads and changes; the handlers
  of the extension are in \<open>Ingest\<close>. A raw query string, a path value or a decoded body (\<open>None\<close> for one that
  cannot be decoded) is the request; errors of the store are arguments. What a handler starts in the background
  is done before the next request.
\<close>

definition priority_seed :: float64 where "priority_seed = 100"

definition missing_param :: "string \<Rightarrow> string" where
  "missing_param name = ''missing required query parameter '' @ [CHR 0x27] @ name @ [CHR 0x27]"

subsection \<open>Pages of results\<close>

definition page_param :: "url_values \<Rightarrow> int" where
  "page_param vs = (let p = atoi (query_get vs ''page'') in if p < 1 then 1 else p)"

definition limit_param :: "int \<Rightarrow> url_values \<Rightarrow> int" where
  "limit_param def vs = (let l = atoi (query_get vs ''limit'') in if l < 1 \<or> 100 < l then def else l)"

definition offset_param :: "int \<Rightarrow> int \<Rightarrow> int" where
  "offset_param page limit = wrap_int ((page - 1) * limit)"

record 'r result_page =
  qa_query :: string
  qa_total :: int
  qa_page :: int
  qa_limit :: int
  qa_domain :: string
  qa_type :: string
  qa_results :: "'r list"

record search_moment =
  sm_now :: gotime
  sm_record :: "db_error option"
  sm_term :: "string \<Rightarrow> bool"

definition search_handler :: "search_env \<Rightarrow> search_db \<Rightarrow> (string \<Rightarrow> bool) \<Rightarrow> domain list option \<Rightarrow> (string list \<Rightarrow> (string \<rightharpoonup> float64))
    \<Rightarrow> (int \<Rightarrow> string option) \<Rightarrow> search_moment \<Rightarrow> string \<Rightarrow> search_cache \<times> profile_db
    \<Rightarrow> search_candidate result_page answer \<times> search_cache \<times> profile_db" where
  "search_handler V D known doms idf bodies M raw st =
     (let vs = url_query raw; query = query_get vs ''q'';
          page = page_param vs; limit = limit_param 10 vs; offset = offset_param page limit;
          lang = query_get vs ''lang''; dom = query_get vs ''domain''; schema = query_get vs ''type''
      in if query = [] then (Refused 400 (missing_param ''q''), st)
         else (case search_pages V D known doms idf bodies (sm_now M) query limit offset lang dom schema (fst st) of
                 (SearchPanic, c) \<Rightarrow> (Crashed, c, snd st)
               | (SearchFailed, c) \<Rightarrow> (Refused 500 ''search failed'', c, snd st)
               | (Found rs n, c) \<Rightarrow>
                   let normalized = to_lower (se_std V) (trim_space query)
                   in (Answered 200 \<lparr>qa_query = query, qa_total = n, qa_page = page, qa_limit = limit, qa_domain = dom,
                         qa_type = schema, qa_results = rs\<rparr>,
                       c, if normalized = [] then snd st
                          else snd (record_search_query (se_std V) (sm_now M) (sm_record M) (sm_term M) query normalized lang (snd st)))))"

definition search_images_handler :: "search_env \<Rightarrow> (string \<Rightarrow> bool) \<Rightarrow> (string \<Rightarrow> image_result list option) \<Rightarrow> string
    \<Rightarrow> image_result result_page answer" where
  "search_images_handler V known matched raw =
     (let vs = url_query raw; query = query_get vs ''q''; page = page_param vs; limit = limit_param 20 vs
      in if query = [] then Refused 400 (missing_param ''q'')
         else (case search_images V known matched query limit (offset_param page limit) of
                 None \<Rightarrow> Refused 500 ''image search failed''
               | Some (rs, n) \<Rightarrow> Answered 200 \<lparr>qa_query = query, qa_total = n, qa_page = page, qa_limit = limit,
                   qa_domain = [], qa_type = [], qa_results = rs\<rparr>))"

definition get_backlinks_handler :: "link_faults \<Rightarrow> string \<Rightarrow> link_row list \<Rightarrow> page_row table \<Rightarrow> backlink result_page answer" where
  "get_backlinks_handler F raw ls pages =
     (let vs = url_query raw; target = query_get vs ''url''; page = page_param vs; limit = limit_param 20 vs
      in if target = [] then Refused 400 (missing_param ''url'')
         else (case get_backlinks F target limit (offset_param page limit) ls pages of
                 Inl _ \<Rightarrow> Refused 500 ''backlink query failed''
               | Inr (rs, n) \<Rightarrow> Answered 200 \<lparr>qa_query = target, qa_total = n, qa_page = page, qa_limit = limit,
                   qa_domain = [], qa_type = [], qa_results = rs\<rparr>))"

text \<open>In the answer on outgoing links the page's id stands in place of the query.\<close>

definition get_outlinks_handler :: "link_faults \<Rightarrow> string \<Rightarrow> string \<Rightarrow> link_row list \<Rightarrow> page_row table \<Rightarrow> (int \<times> outlink result_page) answer" where
  "get_outlinks_handler F id_str raw ls pages =
     (case parse_int id_str of
        Parsed i \<Rightarrow>
          let vs = url_query raw; page = page_param vs; limit = limit_param 50 vs
          in (case get_outlinks F i limit (offset_param page limit) ls pages of
                Inl _ \<Rightarrow> Refused 500 ''outlink query failed''
              | Inr (rs, n) \<Rightarrow> Answered 200 (i, \<lparr>qa_query = [], qa_total = n, qa_page = page, qa_limit = limit,
                  qa_domain = [], qa_type = [], qa_results = rs\<rparr>))
      | _ \<Rightarrow> Refused 400 ''invalid page ID'')"

subsection \<open>Single pages\<close>

definition found_page :: "string \<Rightarrow> db_error + page option \<Rightarrow> page answer" where
  "found_page msg r =
     (case r of Inl _ \<Rightarrow> Refused 500 msg | Inr None \<Rightarrow> Refused 404 ''page not found'' | Inr (Some p) \<Rightarrow> Answered 200 p)"

definition get_page_handler :: "db_error option \<Rightarrow> string \<Rightarrow> page_row table \<Rightarrow> page answer" where
  "get_page_handler e id_str pages =
     (case parse_int id_str of
        Parsed i \<Rightarrow> found_page ''failed to get page'' (get_page_by_id e i pages)
      | _ \<Rightarrow> Refused 400 ''invalid page ID'')"

definition lookup_page_handler :: "db_error option \<Rightarrow> string \<Rightarrow> page_row table \<Rightarrow> page answer" where
  "lookup_page_handler e raw pages =
     (let u = query_get (url_query raw) ''url''
      in if u = [] then Refused 400 (missing_param ''url'')
         else found_page ''failed to lookup page'' (get_page_by_url e u pages))"

subsection \<open>Crawling\<close>

record crawl_request =
  cw_urls :: "rawurl list"
  cw_priority :: int
  cw_force :: bool

record crawl_answer =
  cn_queued :: int
  cn_skipped :: nat
  cn_indexed :: bool

definition starting_depth :: "crawler_config \<Rightarrow> int" where
  "starting_depth cfg = (if cr_max_depth cfg > cr_api_max_depth cfg then cr_max_depth cfg - cr_api_max_depth cfg else 0)"

definition day :: duration where "day = 24 * 3600 * second"

text \<open>\<open>e\<close> is the error of looking up the fresh URLs, which is logged; \<open>since\<close> is how SQLite compares the times.\<close>

definition crawl_urls_handler :: "stdlib \<Rightarrow> crawler_config \<Rightarrow> (job \<Rightarrow> float64) \<Rightarrow> (gotime \<Rightarrow> gotime \<Rightarrow> bool) \<Rightarrow> gotime \<Rightarrow> db_error option
    \<Rightarrow> crawl_request option \<Rightarrow> page_row table \<Rightarrow> 'b frontier \<Rightarrow> crawl_answer answer \<times> 'b frontier" where
  "crawl_urls_handler E cfg score since now e req pages f =
     (case req of
        None \<Rightarrow> (Refused 400 ''invalid request body'', f)
      | Some r \<Rightarrow>
          if cw_urls r = [] then (Refused 400 ''at least one URL is required'', f)
          else if 1000 < length (cw_urls r) then (Refused 400 ''maximum 1000 URLs per request'', f)
          else (let base = (if real_of_int (cw_priority r) \<le> 0 then priority_normal else real_of_int (cw_priority r));
                    fresh = (if cw_force r then {}
                             else (case get_fresh_urls since e (cw_urls r) (now - day) pages of Inl _ \<Rightarrow> {} | Inr s \<Rightarrow> s));
                    urls = filter (\<lambda>u. u \<notin> fresh) (cw_urls r);
                    skipped = length (filter (\<lambda>u. u \<in> fresh) (cw_urls r));
                    r' = (if urls = [] then (0, f) else add_batch_direct E score urls (starting_depth cfg) base f)
                in (Answered 202 \<lparr>cn_queued = fst r', cn_skipped = skipped, cn_indexed = (0 < skipped)\<rparr>, snd r')))"

record queue_answer =
  qu_stats :: queue_stats
  qu_backlog :: nat

definition get_queue_handler :: "domain list \<Rightarrow> nat \<Rightarrow> 'b frontier \<Rightarrow> queue_answer answer" where
  "get_queue_handler ks backlog f = Answered 200 \<lparr>qu_stats = queue_stats_of ks (fr_queue f), qu_backlog = backlog\<rparr>"

subsection \<open>Seeds\<close>

definition list_seeds_handler :: "db_error option \<Rightarrow> seed_row table \<Rightarrow> seed_url list answer" where
  "list_seeds_handler e seeds =
     (case get_seed_urls e seeds of Inl _ \<Rightarrow> Refused 500 ''failed to list seeds'' | Inr ss \<Rightarrow> Answered 200 ss)"

text \<open>The interval of a request is a number of nanoseconds, stored in whole seconds.\<close>

record seed_request =
  sdr_url :: rawurl
  sdr_interval :: duration

definition add_seed_handler :: "stdlib \<Rightarrow> ('b \<Rightarrow> string \<Rightarrow> bool) \<Rightarrow> ('b \<Rightarrow> string \<Rightarrow> 'b) \<Rightarrow> (job \<Rightarrow> float64) \<Rightarrow> gotime \<Rightarrow> db_error option \<Rightarrow> db_error option
    \<Rightarrow> seed_request option \<Rightarrow> page_row table \<Rightarrow> seed_row table \<times> 'b frontier \<Rightarrow> rawurl answer \<times> seed_row table \<times> 'b frontier" where
  "add_seed_handler E bt ba score now e e_page req pages st =
     (case req of
        None \<Rightarrow> (Refused 400 ''invalid request body'', st)
      | Some r \<Rightarrow>
          if sdr_url r = [] then (Refused 400 ''url is required'', st)
          else if extract_domain E (sdr_url r) = [] then (Refused 400 ''invalid url'', st)
          else (let sd = \<lparr>sd_id = 0, sd_url = sdr_url r, sd_domain = extract_domain E (sdr_url r),
                          sd_interval = sdr_interval r sdiv second, sd_last = time_zero, sd_created = time_zero\<rparr>
                in (case upsert_seed_url now e sd (fst st) of
                      (Inl _, seeds) \<Rightarrow> (Refused 500 ''failed to add seed'', seeds, snd st)
                    | (Inr _, seeds) \<Rightarrow>
                        (Answered 201 (sdr_url r), seeds,
                         snd (add E bt ba (\<lambda>u. case get_page_by_url e_page u pages of Inl _ \<Rightarrow> None | Inr p \<Rightarrow> Some (p \<noteq> None))
                                score (sdr_url r) 0 priority_seed (snd st))))))"

definition delete_seed_handler :: "db_error option \<Rightarrow> rawurl \<Rightarrow> seed_row table \<Rightarrow> rawurl answer \<times> seed_row table" where
  "delete_seed_handler e u seeds =
     (if u = [] then (Refused 400 ''url is required'', seeds)
      else (case delete_seed_url e u seeds of
              (Inl _, t) \<Rightarrow> (Refused 500 ''failed to delete seed'', t)
            | (Inr _, t) \<Rightarrow> (Answered 200 u, t)))"

subsection \<open>Crawler control\<close>

datatype engine_status = Idle | Running | Stopping

text \<open>The second component tells whether the engine is told to start or to stop.\<close>

definition start_crawler_handler :: "engine_status \<Rightarrow> unit answer \<times> bool" where
  "start_crawler_handler st = (if st = Running then (Refused 409 ''crawler is already running'', False) else (Answered 200 (), True))"

definition stop_crawler_handler :: "engine_status \<Rightarrow> unit answer \<times> bool" where
  "stop_crawler_handler st = (if st \<noteq> Running then (Refused 409 ''crawler is not running'', False) else (Answered 200 (), True))"

definition crawler_status_handler :: "engine_status \<Rightarrow> int \<times> int \<Rightarrow> (engine_status \<times> int \<times> int) answer" where
  "crawler_status_handler st n = Answered 200 (st, n)"

record stats_answer =
  an_stats :: crawler_stats
  an_engine :: "(engine_status \<times> int \<times> int) option"

text \<open>A search node has no engine.\<close>

definition get_stats_handler :: "db_error + crawler_stats \<Rightarrow> (engine_status \<times> int \<times> int) option \<Rightarrow> stats_answer answer" where
  "get_stats_handler stats engine =
     (case stats of Inl _ \<Rightarrow> Refused 500 ''failed to get stats'' | Inr k \<Rightarrow> Answered 200 \<lparr>an_stats = k, an_engine = engine\<rparr>)"

definition update_rankings_handler :: "rank_faults \<Rightarrow> link_row list \<Rightarrow> page_row table \<Rightarrow> unit answer \<times> page_row table" where
  "update_rankings_handler F ls pages = (Answered 202 (), snd (update_page_rankings F ls pages))"

subsection \<open>Interactions and interests\<close>

definition interact_handler :: "search_env \<Rightarrow> gotime \<Rightarrow> bool \<Rightarrow> click_faults \<Rightarrow> (string \<times> rawurl) option \<Rightarrow> page_row table \<Rightarrow> click_table \<times> profile_db
    \<Rightarrow> unit answer \<times> click_table \<times> profile_db" where
  "interact_handler V now db_ok F req pages st =
     (case req of
        None \<Rightarrow> (Refused 400 ''invalid request body'', st)
      | Some (query, u) \<Rightarrow>
          if query = [] \<or> u = [] then (Refused 400 ''query and url are required'', st)
          else (case record_click V db_ok query u (fst st) of
                  (False, cl) \<Rightarrow> (Refused 500 ''failed to record interaction'', cl, snd st)
                | (True, cl) \<Rightarrow> (Answered 202 (), cl, snd (boost_terms_from_click (se_std V) now F u 3 pages (snd st)))))"

definition normalize_interest_api_tokens :: "stdlib \<Rightarrow> string \<Rightarrow> string list" where
  "normalize_interest_api_tokens E s = token_loop E (runes (to_lower E (trim_space s))) [] []"

record interest_request =
  iw_term :: string
  iw_weight :: float64
  iw_lang :: string

text \<open>The loops over the tokens, which stop at the first error; \<open>e\<close> is the error of each statement.\<close>

fun set_interest_terms :: "gotime \<Rightarrow> (string \<Rightarrow> db_error option) \<Rightarrow> float64 \<Rightarrow> string \<Rightarrow> string list \<Rightarrow> profile_db \<Rightarrow> bool \<times> profile_db" where
  "set_interest_terms now e weight lang [] db = (True, db)"
| "set_interest_terms now e weight lang (tok # toks) db =
     (case set_interest_term now (e tok) tok weight ''manual'' lang db of
        (Inl _, db') \<Rightarrow> (False, db')
      | (Inr _, db') \<Rightarrow> set_interest_terms now e weight lang toks db')"

fun remove_interest_terms :: "(string \<Rightarrow> db_error option) \<Rightarrow> string list \<Rightarrow> profile_db \<Rightarrow> bool \<times> profile_db" where
  "remove_interest_terms e [] db = (True, db)"
| "remove_interest_terms e (tok # toks) db =
     (case remove_interest_term (e tok) tok ''manual'' db of
        (Inl _, db') \<Rightarrow> (False, db')
      | (Inr _, db') \<Rightarrow> remove_interest_terms e toks db')"

definition add_interest_handler :: "stdlib \<Rightarrow> gotime \<Rightarrow> (string \<Rightarrow> db_error option) \<Rightarrow> interest_request option \<Rightarrow> profile_db
    \<Rightarrow> (string list \<times> float64) answer \<times> profile_db" where
  "add_interest_handler E now e req db =
     (case req of
        None \<Rightarrow> (Refused 400 ''invalid request body'', db)
      | Some r \<Rightarrow>
          if iw_term r = [] then (Refused 400 ''term is required'', db)
          else if iw_weight r \<le> 0 then (Refused 400 ''weight must be > 0'', db)
          else (let tokens = normalize_interest_api_tokens E (iw_term r)
                in if tokens = [] then (Refused 400 ''term produces no valid tokens (must be > 2 chars)'', db)
                   else (case set_interest_terms now e (iw_weight r) (iw_lang r) tokens db of
                           (False, db') \<Rightarrow> (Refused 500 ''failed to set interest term'', db')
                         | (True, db') \<Rightarrow> (Answered 201 (tokens, iw_weight r), db'))))"

definition list_interests_handler :: "db_error option \<Rightarrow> profile_db \<Rightarrow> term_value list answer" where
  "list_interests_handler e db =
     (case get_manual_interests e ''manual'' db of Inl _ \<Rightarrow> Refused 500 ''failed to list interests'' | Inr vs \<Rightarrow> Answered 200 vs)"

definition delete_interest_handler :: "stdlib \<Rightarrow> (string \<Rightarrow> db_error option) \<Rightarrow> string \<Rightarrow> profile_db \<Rightarrow> (string \<times> string list) answer \<times> profile_db" where
  "delete_interest_handler E e raw db =
     (if raw = [] then (Refused 400 ''term is required'', db)
      else (let tokens = normalize_interest_api_tokens E raw
            in if tokens = [] then (Refused 400 ''term produces no valid tokens (must be > 2 chars)'', db)
               else (case remove_interest_terms e tokens db of
                       (False, db') \<Rightarrow> (Refused 500 ''failed to delete interest term'', db')
                     | (True, db') \<Rightarrow> (Answered 200 (raw, tokens), db'))))"

subsection \<open>Pages of results stay in range\<close>

lemma page_param_range: "1 \<le> page_param vs \<and> page_param vs < 2 ^ 63"
  using atoi_range by (simp add: page_param_def Let_def)

lemma limit_param_range: "1 \<le> def \<Longrightarrow> def \<le> 100 \<Longrightarrow> 1 \<le> limit_param def vs \<and> limit_param def vs \<le> 100"
  by (simp add: limit_param_def Let_def)

text \<open>The largest page whose offset fits into 64 bits for every limit.\<close>

definition safe_page :: int where "safe_page = (2 ^ 63 - 1) div 100"

lemma offset_exact:
  assumes "1 \<le> page" and "page \<le> safe_page" and "1 \<le> limit" and "limit \<le> 100"
  shows "offset_param page limit = (page - 1) * limit"
proof -
  have "(page - 1) * limit \<le> (safe_page - 1) * 100" using assms by (intro mult_mono) auto
  moreover have "0 \<le> (page - 1) * limit" using assms by simp
  ultimately show ?thesis unfolding offset_param_def by (intro wrap_int_id) (auto simp: safe_page_def)
qed

definition search_key :: "search_env \<Rightarrow> (string \<Rightarrow> bool) \<Rightarrow> url_values \<Rightarrow> string" where
  "search_key V known vs = cache_key (sq_normalized (new_search_query V known (query_get vs ''q''))) (query_get vs ''lang'') (query_get vs ''domain'')
     (query_get vs ''type'') (offset_param (page_param vs) (limit_param 10 vs)) (limit_param 10 vs)"

text \<open>
  A search request for a page up to \<open>safe_page\<close> that the cache does not answer never crashes: it is answered
  with at most \<open>limit\<close> results, between 1 and 100, that lie within the reported total, or refused with a status
  of 400 or 500.
\<close>

theorem search_request_in_range:
  assumes "page_param (url_query raw) \<le> safe_page" and "fst st (search_key V known (url_query raw)) = None"
  shows "case fst (search_handler V D known doms idf bodies M raw st) of
      Crashed \<Rightarrow> False
    | Refused code msg \<Rightarrow> code = 400 \<or> code = 500
    | Answered code a \<Rightarrow> code = 200 \<and> 1 \<le> qa_limit a \<and> qa_limit a \<le> 100 \<and> int (length (qa_results a)) \<le> qa_limit a
        \<and> (qa_results a = [] \<or> (qa_page a - 1) * qa_limit a + int (length (qa_results a)) \<le> qa_total a)"
proof -
  let ?vs = "url_query raw"
  let ?page = "page_param ?vs" and ?limit = "limit_param 10 ?vs"
  have limit: "1 \<le> ?limit" "?limit \<le> 100" using limit_param_range [of 10 ?vs] by auto
  have offset: "offset_param ?page ?limit = (?page - 1) * ?limit"
    using offset_exact [OF _ assms(1) limit] page_param_range [of ?vs] by simp
  then have "0 \<le> offset_param ?page ?limit" using limit page_param_range [of ?vs] by simp
  moreover have "0 \<le> ?limit" using limit by simp
  moreover note assms(2) [unfolded search_key_def]
  ultimately have "case search_pages V D known doms idf bodies (sm_now M) (query_get ?vs ''q'') ?limit (offset_param ?page ?limit)
      (query_get ?vs ''lang'') (query_get ?vs ''domain'') (query_get ?vs ''type'') (fst st) of
      (Found rs t, cache') \<Rightarrow> int (length rs) \<le> ?limit \<and> ids_distinct rs \<and> list_all (passes V (query_get ?vs ''domain'') (query_get ?vs ''type'')) rs
         \<and> (rs = [] \<or> offset_param ?page ?limit + int (length rs) \<le> t)
    | (SearchFailed, cache') \<Rightarrow> cache' = fst st
    | (SearchPanic, cache') \<Rightarrow> False" by (rule search_pages_facts)
  then show ?thesis using limit
    by (auto simp: search_handler_def Let_def offset split: prod.splits search_outcome.splits)
qed

definition plain_search_moment :: search_moment where
  "plain_search_moment = \<lparr>sm_now = 1, sm_record = None, sm_term = (\<lambda>_. False)\<rparr>"

theorem search_request_in_range_witness:
  "case fst (search_handler plain_search_env empty_db (\<lambda>_. False) None (\<lambda>_. Map.empty) (\<lambda>_. None) plain_search_moment ''q=go&page=7'' (Map.empty, empty_profile)) of
      Crashed \<Rightarrow> False
    | Refused code msg \<Rightarrow> code = 400 \<or> code = 500
    | Answered code a \<Rightarrow> code = 200 \<and> 1 \<le> qa_limit a \<and> qa_limit a \<le> 100 \<and> int (length (qa_results a)) \<le> qa_limit a
        \<and> (qa_results a = [] \<or> (qa_page a - 1) * qa_limit a + int (length (qa_results a)) \<le> qa_total a)"
proof (rule search_request_in_range)
  have "page_param (url_query ''q=go&page=7'') = 7" by code_simp
  then show "page_param (url_query ''q=go&page=7'') \<le> safe_page" by (simp add: safe_page_def)
qed simp

text \<open>
  The offset is computed in 64 bits: when it wraps around to a negative number, a search that finds its
  candidates crashes instead of being refused.
\<close>

theorem large_page_crashes:
  assumes neg: "offset_param (page_param (url_query raw)) (limit_param 10 (url_query raw)) < 0"
    and query: "sq_normalized (new_search_query V known (query_get (url_query raw) ''q'')) \<noteq> []"
    and miss: "fst st (search_key V known (url_query raw)) = None"
    and found: "\<And>q limit offset. retrieve_candidates V D q limit offset \<noteq> None"
  shows "search_handler V D known doms idf bodies M raw st = (Crashed, fst st, snd st)"
proof -
  let ?vs = "url_query raw"
  let ?q = "query_get ?vs ''q''" and ?limit = "limit_param 10 ?vs" and ?offset = "offset_param (page_param ?vs) (limit_param 10 ?vs)"
  define q where "q = (enrich_query V known doms (new_search_query V known ?q))\<lparr>sq_idf := idf (sq_tokens (enrich_query V known doms (new_search_query V known ?q)))\<rparr>"
  obtain cs t where r: "retrieve_candidates V D q ?limit ?offset = Some (cs, t)" using found by fastforce
  have "\<not> int (length rs) \<le> ?offset" for rs :: "search_candidate list" using neg by simp
  then have "search_pages V D known doms idf bodies (sm_now M) ?q ?limit ?offset (query_get ?vs ''lang'') (query_get ?vs ''domain'') (query_get ?vs ''type'') (fst st)
      = (SearchPanic, fst st)"
    using query miss neg unfolding search_pages_def Let_def search_key_def q_def [symmetric] by (simp add: r page_of_def Let_def)
  moreover have "?q \<noteq> []"
  proof
    assume "?q = []"
    moreover have "to_lower (se_std V) (trim_space []) = []"
      by (simp add: to_lower_def is_ascii_def trim_space_def trim_space_left.simps trim_space_right.simps space_prefix_def space_suffix_def)
    ultimately show False using query by (simp add: new_search_query_def Let_def normalize_search_text_def)
  qed
  ultimately show ?thesis by (simp add: search_handler_def Let_def)
qed

lemma run_plans_no_rows: "run_plans empty_db q limit i ps cs tot = Some (cs, tot)"
  by (induction ps arbitrary: i) (auto simp: empty_db_def search_fts_candidates_def Let_def)

lemma empty_db_answers: "retrieve_candidates V empty_db q limit offset \<noteq> None"
  by (simp add: retrieve_candidates_def run_plans_no_rows Let_def) (simp add: empty_db_def)

theorem large_page_crashes_witness:
  "search_handler plain_search_env empty_db (\<lambda>_. False) None (\<lambda>_. Map.empty) (\<lambda>_. None) plain_search_moment
     ''q=go&page=999999999999999999'' (Map.empty, empty_profile) = (Crashed, Map.empty, empty_profile)"
proof -
  let ?vs = "url_query ''q=go&page=999999999999999999''"
  have "query_get ?vs ''q'' = ''go''" "page_param ?vs = 999999999999999999" "limit_param 10 ?vs = 10" by code_simp+
  moreover have "offset_param 999999999999999999 10 < 0" unfolding offset_param_def wrap_int_def int_word_sint by simp
  moreover have "sq_normalized (new_search_query plain_search_env (\<lambda>_. False) ''go'') \<noteq> []"
  proof -
    have "normalize_search_text plain_search_env ''go'' = ''go''" by code_simp
    then show ?thesis by (simp add: new_search_query_def Let_def)
  qed
  ultimately show ?thesis
    using large_page_crashes [of "''q=go&page=999999999999999999''" plain_search_env "\<lambda>_. False" "(Map.empty, empty_profile)" empty_db] empty_db_answers
    by simp
qed

subsection \<open>Statuses and refused requests\<close>

fun answer_status :: "'a answer \<Rightarrow> int" where
  "answer_status (Refused c _) = c"
| "answer_status (Answered c _) = c"
| "answer_status Crashed = http_internal_error"

text \<open>
  An answer has one of the statuses the API uses: a success for what is answered, an error for what is
  refused; and a request that is refused as the client's mistake leaves the state \<open>s\<close> as it is.
\<close>

definition answer_ok :: "'s \<Rightarrow> 'a answer \<times> 's \<Rightarrow> bool" where
  "answer_ok s r = (case fst r of
     Answered c _ \<Rightarrow> c \<in> {200, 201, 202}
   | Refused c _ \<Rightarrow> c = 500 \<or> (c \<in> {400, 404, 409} \<and> snd r = s)
   | Crashed \<Rightarrow> True)"


end
