(* ===== verification/Html.thy ===== *)
theory Html
  imports SearchText
begin

text \<open>
  Documents as \<open>goquery\<close> shows them: the tree that the HTML parser builds, selectors, \<open>Find\<close>, \<open>First\<close>, \<open>Attr\<close>,
  \<open>Text\<close> and \<open>Remove\<close>, and the text extraction of \<open>internal/crawler/parser.go\<close>. A document is the list of the
  children of its root. Comments and the doctype are \<open>Other_node\<close>: they have no text and match no selector.
\<close>

datatype node = Text_node string | Other_node string | Element string "(string \<times> string) list" "node list"

subsection \<open>Selectors\<close>

text \<open>
  The compound selectors of the code: a tag, if any, and conditions on the attributes. A group of selectors
  matches what one of them matches.
\<close>

datatype condition = Has_attr string | Attr_is string string | Has_class string

type_synonym selector = "string option \<times> condition list"

definition tag_selector :: "string \<Rightarrow> selector" where
  "tag_selector t = (Some t, [])"

definition class_selector :: "string \<Rightarrow> selector" where
  "class_selector c = (None, [Has_class c])"

definition id_selector :: "string \<Rightarrow> selector" where
  "id_selector i = (None, [Attr_is ''id'' i])"

definition meta_selector :: "string \<Rightarrow> string \<Rightarrow> selector" where
  "meta_selector key v = (Some ''meta'', [Attr_is key v])"

definition css_space :: "char \<Rightarrow> bool" where
  "css_space c \<longleftrightarrow> byte c \<in> {9, 10, 12, 13, 32}"

fun split_spaces :: "string \<Rightarrow> string list" where
  "split_spaces [] = [[]]"
| "split_spaces (c # cs) =
     (if css_space c then [] # split_spaces cs else (case split_spaces cs of w # ws \<Rightarrow> (c # w) # ws | [] \<Rightarrow> [[c]]))"

fun condition_holds :: "(string \<times> string) list \<Rightarrow> condition \<Rightarrow> bool" where
  "condition_holds as (Has_attr k) = list_ex (\<lambda>(a, _). a = k) as"
| "condition_holds as (Attr_is k v) = list_ex (\<lambda>(a, w). a = k \<and> w = v) as"
| "condition_holds as (Has_class c) = list_ex (\<lambda>(a, w). a = ''class'' \<and> c \<in> set (split_spaces w)) as"

fun selected :: "selector list \<Rightarrow> node \<Rightarrow> bool" where
  "selected sels (Element t as ns) =
     list_ex (\<lambda>(tag, conds). (case tag of None \<Rightarrow> True | Some t' \<Rightarrow> t' = t) \<and> list_all (condition_holds as) conds) sels"
| "selected sels _ = False"

subsection \<open>Selections\<close>

fun node_name :: "node \<Rightarrow> string" where
  "node_name (Text_node _) = ''#text''"
| "node_name (Other_node t) = t"
| "node_name (Element t _ _) = t"

fun child_nodes :: "node \<Rightarrow> node list" where
  "child_nodes (Element _ _ ns) = ns"
| "child_nodes _ = []"

text \<open>The value of an attribute: of several with the same name, the first.\<close>

fun node_attr :: "string \<Rightarrow> node \<Rightarrow> string option" where
  "node_attr k (Element _ as _) = map_of as k"
| "node_attr k _ = None"

definition attr_or :: "string \<Rightarrow> string \<Rightarrow> node \<Rightarrow> string" where
  "attr_or k d n = (case node_attr k n of Some v \<Rightarrow> v | None \<Rightarrow> d)"

text \<open>\<open>Text\<close>: the text nodes below a node, in document order, without any separator.\<close>

fun node_text :: "node \<Rightarrow> string" where
  "node_text (Text_node t) = t"
| "node_text (Other_node _) = []"
| "node_text (Element _ _ ns) = concat (map node_text ns)"

text \<open>The nodes below a list of siblings in document order, each with its parent element if it has one.\<close>

fun descendants :: "node option \<Rightarrow> node \<Rightarrow> (node option \<times> node) list" where
  "descendants p (Element t as ns) = (p, Element t as ns) # concat (map (descendants (Some (Element t as ns))) ns)"
| "descendants p n = [(p, n)]"

definition find_with_parent :: "selector list \<Rightarrow> node list \<Rightarrow> (node option \<times> node) list" where
  "find_with_parent sels ns = filter (\<lambda>(_, n). selected sels n) (concat (map (descendants None) ns))"

definition find_nodes :: "selector list \<Rightarrow> node list \<Rightarrow> node list" where
  "find_nodes sels ns = map snd (find_with_parent sels ns)"

fun first_node :: "node list \<Rightarrow> node option" where
  "first_node [] = None"
| "first_node (n # _) = Some n"

definition first_text :: "selector list \<Rightarrow> node list \<Rightarrow> string" where
  "first_text sels ns = (case first_node (find_nodes sels ns) of None \<Rightarrow> [] | Some n \<Rightarrow> node_text n)"

definition first_attr_or :: "selector list \<Rightarrow> string \<Rightarrow> string \<Rightarrow> node list \<Rightarrow> string" where
  "first_attr_or sels k d ns = (case first_node (find_nodes sels ns) of None \<Rightarrow> d | Some n \<Rightarrow> attr_or k d n)"

text \<open>A loop over a selection that overwrites a result with the attribute of each node that has it.\<close>

definition each_attr :: "string \<Rightarrow> (string \<Rightarrow> 'a) \<Rightarrow> node list \<Rightarrow> 'a \<Rightarrow> 'a" where
  "each_attr k f ns x = fold (\<lambda>n y. case node_attr k n of Some v \<Rightarrow> f v | None \<Rightarrow> y) ns x"

text \<open>\<open>Remove\<close>: every selected node goes, with everything below it.\<close>

fun remove_in :: "selector list \<Rightarrow> node \<Rightarrow> node list" where
  "remove_in sels (Element t as ns) =
     (if selected sels (Element t as ns) then [] else [Element t as (concat (map (remove_in sels) ns))])"
| "remove_in sels n = [n]"

definition remove_nodes :: "selector list \<Rightarrow> node list \<Rightarrow> node list" where
  "remove_nodes sels ns = concat (map (remove_in sels) ns)"

subsection \<open>Text\<close>

definition block_elements :: "string list" where
  "block_elements = [''div'', ''p'', ''br'', ''h1'', ''h2'', ''h3'', ''h4'', ''h5'', ''h6'', ''ul'', ''ol'', ''li'', ''table'', ''tr'', ''td'', ''th'',
     ''blockquote'', ''pre'', ''section'', ''article'', ''aside'', ''details'', ''summary'', ''figure'', ''figcaption'', ''address'', ''hr'',
     ''dd'', ''dt'', ''dl'']"

definition is_block_element :: "string \<Rightarrow> bool" where
  "is_block_element tag = (tag \<in> set block_elements)"

text \<open>\<open>extractText\<close> on the child of a node, and on a selection, whose children it visits.\<close>

fun child_text :: "node \<Rightarrow> string" where
  "child_text (Text_node t) = t"
| "child_text (Other_node _) = []"
| "child_text (Element t _ ns) =
     (let space = (if is_block_element t then '' '' else [])
      in space @ concat (map child_text ns) @ space)"

definition extract_text :: "node list \<Rightarrow> string" where
  "extract_text ns = concat (map child_text (concat (map child_nodes ns)))"

definition normalize_whitespace :: "string \<Rightarrow> string" where
  "normalize_whitespace s = str_join (str_fields s) '' ''"

fun add_heading :: "string \<Rightarrow> string list \<Rightarrow> string list" where
  "add_heading t parts = (if t = [] \<or> t \<in> set parts then parts else parts @ [t])"

definition extract_heading_text :: "node option \<Rightarrow> string \<Rightarrow> nat \<Rightarrow> string" where
  "extract_heading_text sel tag max_len =
     (case sel of
        None \<Rightarrow> []
      | Some r \<Rightarrow>
          let parts = fold (\<lambda>n. add_heading (normalize_whitespace (trim_space (node_text n))))
                        (find_nodes [tag_selector tag] (child_nodes r)) [];
              joined = str_join parts '' ''
          in if 0 < max_len \<and> max_len < length joined then take max_len joined else joined)"

end
