(* ===== verification/PageDate.thy ===== *)
theory PageDate
  imports Html GoTime
begin

text \<open>
  The publication date of a page (\<open>internal/crawler/parser.go\<close>): reading a date in one of the layouts, with Spanish
  names of months, and the places of a document and of its URL where a date is looked for. The current year and
  the order in which Go walks the map of Spanish names are arguments.
\<close>

subsection \<open>Dates as text\<close>

definition date_formats :: "time_layout list" where
  "date_formats =
     [rfc3339, rfc3339_nano, ''2006-01-02T15:04:05Z'', ''2006-01-02T15:04:05-07:00'', ''2006-01-02T15:04:05'',
      ''2006-01-02T15:04:05-0700'', ''2006-01-02'', ''2006-01-02 15:04:05'', ''January 2, 2006'', ''Jan 2, 2006'',
      ''02 January 2006'', ''02 Jan 2006'', ''02/01/2006'', ''2/1/2006'', ''01/02/2006'', ''1/2/2006'', ''02-01-2006'',
      ''2-1-2006'', ''2006/01/02'', ''2006/1/2'', ''2 de January de 2006'', ''2 de Jan de 2006'']"

definition spanish_months :: "(string \<times> string) list" where
  "spanish_months =
     [(''enero'', ''January''), (''febrero'', ''February''), (''marzo'', ''March''), (''abril'', ''April''), (''mayo'', ''May''),
      (''junio'', ''June''), (''julio'', ''July''), (''agosto'', ''August''), (''septiembre'', ''September''),
      (''setiembre'', ''September''), (''octubre'', ''October''), (''noviembre'', ''November''), (''diciembre'', ''December'')]"

text \<open>\<open>strings.ReplaceAll\<close> for a non-empty old string; \<open>n\<close> bytes of a match are still to be skipped.\<close>

fun replace_all :: "string \<Rightarrow> string \<Rightarrow> nat \<Rightarrow> string \<Rightarrow> string" where
  "replace_all old new n [] = []"
| "replace_all old new (Suc n) (c # cs) = replace_all old new n cs"
| "replace_all old new 0 (c # cs) =
     (if has_prefix (c # cs) old then new @ replace_all old new (length old - 1) cs else c # replace_all old new 0 cs)"

fun normalize_spanish :: "stdlib \<Rightarrow> (string \<times> string) list \<Rightarrow> string \<Rightarrow> string" where
  "normalize_spanish E [] s = s"
| "normalize_spanish E ((es, en) # rest) s =
     (if str_contains (to_lower E s) es then replace_all es en 0 (to_lower E s) else normalize_spanish E rest s)"

definition plausible_year :: "int \<Rightarrow> civil \<Rightarrow> bool" where
  "plausible_year this_year c \<longleftrightarrow> 1990 \<le> cv_year c \<and> cv_year c \<le> this_year + 1"

fun first_plausible :: "int \<Rightarrow> time_layout list \<Rightarrow> string \<Rightarrow> civil option" where
  "first_plausible y [] s = None"
| "first_plausible y (l # ls) s =
     (case parse_civil l s of
        None \<Rightarrow> first_plausible y ls s
      | Some c \<Rightarrow> if plausible_year y c then Some c else first_plausible y ls s)"

text \<open>The last attempt of \<open>parseDateString\<close> repeats the first layout.\<close>

definition parse_date_string :: "stdlib \<Rightarrow> (string \<times> string) list \<Rightarrow> int \<Rightarrow> string \<Rightarrow> gotime" where
  "parse_date_string E order this_year s0 =
     (let s = trim_space s0
      in if s = [] then time_zero
         else (case first_plausible this_year (date_formats @ [rfc3339]) (normalize_spanish E order s) of
                 Some c \<Rightarrow> civil_time c
               | None \<Rightarrow> time_zero))"

text \<open>What the functions below take: \<open>parse_date_string\<close> with its arguments.\<close>

type_synonym date_reader = "string \<Rightarrow> gotime"

subsection \<open>Dates in a document\<close>

definition parse_date_attribute :: "date_reader \<Rightarrow> node \<Rightarrow> gotime" where
  "parse_date_attribute rd n = (case node_attr ''content'' n of None \<Rightarrow> time_zero | Some v \<Rightarrow> rd v)"

definition first_date :: "gotime list \<Rightarrow> gotime" where
  "first_date ts = (case filter (\<lambda>t. t \<noteq> time_zero) ts of [] \<Rightarrow> time_zero | t # _ \<Rightarrow> t)"

definition meta_date :: "date_reader \<Rightarrow> selector list \<Rightarrow> node list \<Rightarrow> gotime" where
  "meta_date rd sels doc = first_date (map (\<lambda>sel. first_date (map (parse_date_attribute rd) (find_nodes [sel] doc))) sels)"

definition time_element_date :: "date_reader \<Rightarrow> node \<Rightarrow> gotime" where
  "time_element_date rd n =
     (let t1 = (case node_attr ''datetime'' n of Some v \<Rightarrow> rd v | None \<Rightarrow> time_zero);
          t2 = (if t1 = time_zero then (case node_attr ''content'' n of Some v \<Rightarrow> rd v | None \<Rightarrow> t1) else t1)
      in if t2 = time_zero then rd (trim_space (node_text n)) else t2)"

definition newest :: "gotime list \<Rightarrow> gotime" where
  "newest ts = fold (\<lambda>t best. if t \<noteq> time_zero \<and> (best = time_zero \<or> best < t) then t else best) ts time_zero"

fun extract_time_element :: "date_reader \<Rightarrow> node list \<Rightarrow> selector list \<Rightarrow> gotime" where
  "extract_time_element rd doc [] = time_zero"
| "extract_time_element rd doc (sel # sels) =
     (let best = newest (map (time_element_date rd) (find_nodes [sel] doc))
      in if best \<noteq> time_zero then best else extract_time_element rd doc sels)"

subsection \<open>Dates in a URL\<close>

definition digit_between :: "nat \<Rightarrow> nat \<Rightarrow> re" where
  "digit_between lo hi = RSet (\<lambda>c. 48 + lo \<le> byte c \<and> byte c \<le> 48 + hi)"

definition url_date_pattern :: "string \<Rightarrow> re" where
  "url_date_pattern sep = re_seq
     [re_lit ''/'',
      RGroup 1 (re_seq [RAlt (re_lit ''19'') (re_lit ''20''), digit_between 0 9, digit_between 0 9]),
      re_lit sep,
      RGroup 2 (RAlt (re_seq [re_opt (re_lit ''0''), digit_between 1 9]) (re_seq [re_lit ''1'', digit_between 0 2])),
      re_lit sep,
      RGroup 3 (re_alts [re_seq [re_opt (re_lit ''0''), digit_between 1 9], re_seq [digit_between 1 2, digit_between 0 9],
                         re_seq [re_lit ''3'', digit_between 0 1]]),
      re_alts [re_lit ''/'', REnd, re_one_of ''-_'']]"

definition left_pad2 :: "string \<Rightarrow> string" where
  "left_pad2 v = (if length v = 1 then ''0'' @ v else v)"

definition url_date :: "date_reader \<Rightarrow> rawurl \<Rightarrow> re \<Rightarrow> gotime" where
  "url_date rd raw pattern =
     (case re_find_all pattern None raw of
        [] \<Rightarrow> time_zero
      | g # _ \<Rightarrow> rd (re_group 1 g @ ''-'' @ left_pad2 (re_group 2 g) @ ''-'' @ left_pad2 (re_group 3 g)))"

definition extract_date_from_url :: "date_reader \<Rightarrow> rawurl \<Rightarrow> gotime" where
  "extract_date_from_url rd raw = first_date (map (url_date rd raw) [url_date_pattern ''/'', url_date_pattern ''-''])"

subsection \<open>All strategies\<close>

definition published_selectors :: "selector list" where
  "published_selectors = map (\<lambda>(k, v). meta_selector k v)
     [(''property'', ''article:published_time''), (''name'', ''article:published_time''), (''property'', ''og:article:published_time''),
      (''itemprop'', ''datePublished''), (''name'', ''datePublished''), (''property'', ''datePublished''), (''itemprop'', ''dateCreated''),
      (''name'', ''date''), (''name'', ''pubdate''), (''name'', ''publish_date''), (''name'', ''published_date''),
      (''name'', ''publication_date''), (''name'', ''DC.date''), (''name'', ''dc.date''), (''property'', ''og:published_time'')]"

definition time_selectors :: "selector list" where
  "time_selectors = map (\<lambda>c. (Some ''time'', [c]))
     [Attr_is ''itemprop'' ''datePublished'', Has_attr ''pubdate'', Has_class ''published'', Has_class ''posted'',
      Has_class ''entry-date'', Has_class ''article-date'']"

definition modified_selectors :: "selector list" where
  "modified_selectors = map (\<lambda>(k, v). meta_selector k v)
     [(''property'', ''article:modified_time''), (''name'', ''article:modified_time''), (''property'', ''og:updated_time''),
      (''itemprop'', ''dateModified''), (''name'', ''dateModified''), (''property'', ''dateModified''), (''name'', ''lastmod'')]"

definition extract_published_at :: "date_reader \<Rightarrow> node list \<Rightarrow> rawurl \<Rightarrow> gotime" where
  "extract_published_at rd doc base_url =
     first_date
       [meta_date rd published_selectors doc,
        extract_time_element rd doc time_selectors,
        meta_date rd modified_selectors doc,
        extract_time_element rd doc [tag_selector ''time''],
        extract_date_from_url rd base_url]"

subsection \<open>Dates of the calendar\<close>

definition digit_char :: "nat \<Rightarrow> char" where
  "digit_char n = char_of (48 + n mod 10)"

definition two_digits :: "nat \<Rightarrow> string" where
  "two_digits n = [digit_char (n div 10), digit_char n]"

text \<open>The text \<open>YYYY-MM-DD\<close>, and the dates it may stand for.\<close>

definition iso_date :: "nat \<Rightarrow> nat \<Rightarrow> nat \<Rightarrow> string" where
  "iso_date y m d = two_digits (y div 100) @ two_digits y @ CHR ''-'' # two_digits m @ CHR ''-'' # two_digits d"

definition calendar_date :: "nat \<Rightarrow> nat \<Rightarrow> nat \<Rightarrow> bool" where
  "calendar_date y m d \<longleftrightarrow> 1 \<le> m \<and> m \<le> 12 \<and> 1 \<le> d \<and> int d \<le> days_in_month (int y) (int m)"

lemma digit_char_digit: "ascii_digit (digit_char n)"
  by (simp add: digit_char_def ascii_digit_def)

lemma digit_of_char: "digit_of (digit_char n) = int (n mod 10)"
proof -
  have "(of_char c :: int) = int (byte c)" for c by (rule of_nat_of_char [symmetric])
  then show ?thesis by (simp add: digit_char_def digit_of_def del: of_nat_of_char)
qed

lemma digit_not:
  assumes "ascii_digit c"
  shows "c \<noteq> CHR ''-''" "c \<noteq> CHR ''/''" "c \<noteq> CHR '' ''" "lower_char c = c" "\<not> ascii_space c" "byte c < 128" "\<not> ascii_lower c"
  using assms by (auto simp: ascii_digit_def lower_char_def ascii_upper_def ascii_space_def ascii_lower_def)

lemma fixed_num_2: "fixed_num 2 (a # b # s) = (if ascii_digit a \<and> ascii_digit b then Some (10 * digit_of a + digit_of b, s) else None)"
  by (simp add: fixed_num_def digits_value_def numeral_2_eq_2)

lemma fixed_num_4:
  "fixed_num 4 (a # b # c # d # s) =
    (if ascii_digit a \<and> ascii_digit b \<and> ascii_digit c \<and> ascii_digit d
     then Some (1000 * digit_of a + 100 * digit_of b + 10 * digit_of c + digit_of d, s) else None)"
  by (simp add: fixed_num_def digits_value_def eval_nat_numeral)

lemma fixed_num_Nil: "0 < n \<Longrightarrow> fixed_num n [] = None"
  by (simp add: fixed_num_def)

lemma split_two: "n < 100 \<Longrightarrow> 10 * (n div 10 mod 10) + n mod 10 = n" for n :: nat
  by (simp add: mod_less less_mult_imp_div_less)

lemma split_four:
  fixes y :: nat
  assumes "y < 10000"
  shows "1000 * (y div 100 div 10 mod 10) + 100 * (y div 100 mod 10) + 10 * (y div 10 mod 10) + y mod 10 = y"
proof -
  have "y div 100 = 10 * (y div 100 div 10 mod 10) + y div 100 mod 10" using split_two [of "y div 100"] assms by simp
  moreover have "y mod 100 = 10 * (y div 10 mod 10) + y mod 10"
    using mod_mult2_eq [of y 10 10] by simp
  moreover have "y = 100 * (y div 100) + y mod 100" by simp
  ultimately show ?thesis by linarith
qed

lemma fixed_two: "n < 100 \<Longrightarrow> fixed_num 2 (two_digits n @ s) = Some (int n, s)"
proof -
  assume "n < 100"
  then have "int (10 * (n div 10 mod 10) + n mod 10) = int n" by (simp only: split_two)
  then show ?thesis
    by (simp only: two_digits_def append.simps fixed_num_2 digit_char_digit digit_of_char simp_thms if_True of_nat_add of_nat_mult of_nat_numeral)
qed

lemma fixed_year: "y < 10000 \<Longrightarrow> fixed_num 4 (two_digits (y div 100) @ two_digits y @ s) = Some (int y, s)"
proof -
  assume "y < 10000"
  then have "int (1000 * (y div 100 div 10 mod 10) + 100 * (y div 100 mod 10) + 10 * (y div 10 mod 10) + y mod 10) = int y"
    by (simp only: split_four)
  then show ?thesis
    by (simp only: two_digits_def append.simps fixed_num_4 digit_char_digit digit_of_char simp_thms if_True of_nat_add of_nat_mult of_nat_numeral)
qed

text \<open>The layouts, read as elements.\<close>

abbreviation dash :: time_element where "dash \<equiv> El_text CHR ''-''"

definition iso_elements :: "time_element list" where
  "iso_elements = [El_year, dash, El_zero_month, dash, El_zero_day]"

definition starts_iso :: "time_element list \<Rightarrow> time_layout \<Rightarrow> bool" where
  "starts_iso next l \<longleftrightarrow> take (5 + length next) (parse_layout l) = iso_elements @ next"

lemma layouts_with_clock: "list_all (starts_iso [El_text CHR ''T'']) (take 6 date_formats @ [rfc3339])"
  by code_simp

lemma layouts_with_date:
  "parse_layout ''2006-01-02'' = iso_elements" "starts_iso [El_text CHR '' '', El_hour] ''2006-01-02 15:04:05''"
  "date_formats = take 6 date_formats @ ''2006-01-02'' # ''2006-01-02 15:04:05'' # drop 8 date_formats"
  by code_simp+

lemma parse_iso:
  assumes "y < 10000" "m < 100" "d < 100"
  shows "parse_elements (iso_elements @ rest) no_civil (iso_date y m d) =
    (if 1 \<le> m \<and> m \<le> 12 then parse_elements rest (no_civil\<lparr>cv_year := int y, cv_month := int m, cv_day := int d\<rparr>) [] else None)"
proof -
  have num: "fixed_num 4 (iso_date y m d) = Some (int y, CHR ''-'' # two_digits m @ CHR ''-'' # two_digits d)"
    "fixed_num 2 (two_digits m @ CHR ''-'' # two_digits d) = Some (int m, CHR ''-'' # two_digits d)" "fixed_num 2 (two_digits d) = Some (int d, [])"
    using fixed_year [OF assms(1)] fixed_two [OF assms(2)] fixed_two [OF assms(3), of "[]"] by (simp_all add: iso_date_def)
  show ?thesis
    by (simp add: iso_elements_def parse_element_def num expect_def in_range_def)
qed

lemma parse_iso_tails:
  "parse_elements [] c [] = Some c" "parse_elements (El_text CHR ''T'' # rest) c [] = None"
  "parse_elements (El_text CHR '' '' # El_hour # rest) c [] = None"
  by (simp_all add: parse_element_def expect_def short_num_def fixed_num_Nil)

text \<open>The other layouts start with the name of a month, or with a number and a separator that the text does not have.\<close>

definition other_start :: "time_element list \<Rightarrow> bool" where
  "other_start els =
     (case els of
        [] \<Rightarrow> False
      | e # r \<Rightarrow>
          e = El_long_month \<or> e = El_short_month
          \<or> (case r of
               El_text c # _ \<Rightarrow> (if e = El_year then c = CHR ''/''
                                else e \<in> {El_day, El_zero_day, El_month, El_zero_month} \<and> c \<in> {CHR '' '', CHR ''/'', CHR ''-''})
             | _ \<Rightarrow> False))"

lemma other_layouts_start: "list_all (\<lambda>l. other_start (parse_layout l)) (drop 8 date_formats)"
  by code_simp

lemma digits_no_month: "ascii_digit a \<Longrightarrow> lookup_name n ms (a # s) = None" if "list_all (\<lambda>m. m \<noteq> [] \<and> ascii_lower (lower_char (hd m))) ms"
  using that
proof (induction ms arbitrary: n)
  case (Cons m ms)
  then have "m \<noteq> []" "ascii_lower (lower_char (hd m))" by auto
  then have "\<not> has_prefix (map lower_char (a # s)) (map lower_char m)"
    using digit_not(4,7) [OF Cons.prems(1)] by (cases m) (auto simp: has_prefix_def)
  then show ?case using Cons by simp
qed simp

lemma other_layouts_reject:
  assumes "other_start els" "ascii_digit a" "ascii_digit b" "ascii_digit c" "ascii_digit d"
  shows "parse_elements els no_civil (a # b # c # d # CHR ''-'' # s) = None"
proof -
  have "list_all (\<lambda>m. m \<noteq> [] \<and> ascii_lower (lower_char (hd m))) month_names"
    "list_all (\<lambda>m. m \<noteq> [] \<and> ascii_lower (lower_char (hd m))) (map (take 3) month_names)" by code_simp+
  then have months: "lookup_name 1 month_names (a # r) = None" "lookup_name 1 (map (take 3) month_names) (a # r) = None" for r
    using digits_no_month assms(2) by blast+
  have nums: "fixed_num 2 (a # b # r) = Some (10 * digit_of a + digit_of b, r)" "short_num (a # b # r) = Some (10 * digit_of a + digit_of b, r)" for r
    using assms(2,3) by (simp_all add: fixed_num_2 short_num_def)
  have ne: "c \<noteq> CHR '' ''" "c \<noteq> CHR ''/''" "c \<noteq> CHR ''-''" "a \<noteq> CHR '' ''" using digit_not [OF assms(4)] digit_not [OF assms(2)] by auto
  obtain e r where els: "els = e # r" using assms(1) by (cases els) (simp_all add: other_start_def)
  have sep: "\<exists>x r'. r = El_text x # r' \<and> P x" if "case r of El_text c # _ \<Rightarrow> P c | _ \<Rightarrow> False" for P
    using that by (cases r) (simp_all split: time_element.splits)
  have "e = El_long_month \<or> e = El_short_month \<or> (\<exists>x r'. r = El_text x # r' \<and>
      (if e = El_year then x = CHR ''/'' else e \<in> {El_day, El_zero_day, El_month, El_zero_month} \<and> x \<in> {CHR '' '', CHR ''/'', CHR ''-''}))"
    using assms(1) sep unfolding other_start_def els list.case by blast
  then consider "e = El_long_month \<or> e = El_short_month"
    | x r' where "e = El_year" "r = El_text x # r'" "x = CHR ''/''"
    | x r' where "e \<in> {El_day, El_zero_day, El_month, El_zero_month}" "r = El_text x # r'" "x \<in> {CHR '' '', CHR ''/'', CHR ''-''}"
    by (cases "e = El_year") auto
  then show ?thesis
  proof cases
    case 3
    then show ?thesis by (auto simp: els parse_element_def nums expect_def in_range_def ne)
  qed (auto simp: els parse_element_def months fixed_num_4 assms(2-5) expect_def ne)
qed

subsection \<open>Text without months or blanks\<close>

lemma contains_letter: "str_contains s t \<Longrightarrow> set t \<subseteq> set s"
proof (induction s)
  case (Cons c s)
  then show ?case by (auto simp: has_prefix_def dest: in_set_takeD) (metis in_set_takeD set_ConsD)
qed simp

definition date_char :: "char \<Rightarrow> bool" where
  "date_char c \<longleftrightarrow> ascii_digit c \<or> c = CHR ''-''"

lemma iso_date_chars: "list_all date_char (iso_date y m d)"
  by (simp add: iso_date_def two_digits_def date_char_def digit_char_digit)

lemma date_char_plain: "date_char c \<Longrightarrow> lower_char c = c \<and> byte c < 128"
proof -
  have "lower_char CHR ''-'' = CHR ''-''" by code_simp
  then show "date_char c \<Longrightarrow> lower_char c = c \<and> byte c < 128" using digit_not(4,6) by (auto simp: date_char_def)
qed

lemma date_chars_lower: "list_all date_char s \<Longrightarrow> to_lower E s = s"
  using date_char_plain by (auto simp: to_lower_def is_ascii_def list_all_iff intro: map_idI)

lemma date_chars_no_month: "list_all date_char s \<Longrightarrow> set order = set spanish_months \<Longrightarrow> normalize_spanish E order s = s"
proof -
  assume s: "list_all date_char s" and order: "set order = set spanish_months"
  have "list_all (\<lambda>(es, _). es \<noteq> [] \<and> \<not> date_char (hd es)) spanish_months" by code_simp
  then have "list_all (\<lambda>(es, _). es \<noteq> [] \<and> \<not> date_char (hd es)) order" using order by (simp add: list_all_iff)
  then show ?thesis
  proof (induction order)
    case (Cons p order)
    obtain es en where p: "p = (es, en)" by (cases p)
    have "\<not> str_contains (to_lower E s) es"
    proof
      assume "str_contains (to_lower E s) es"
      then have "set es \<subseteq> set s" using contains_letter date_chars_lower [OF s] by simp
      moreover have "es \<noteq> []" "\<not> date_char (hd es)" using Cons.prems p by simp_all
      ultimately show False using s hd_in_set by (fastforce simp: list_all_iff)
    qed
    then show ?case using Cons p by simp
  qed simp
qed

lemma trim_space_ascii:
  assumes "s \<noteq> []" "\<not> ascii_space (hd s)" "byte (hd s) < 128" "\<not> ascii_space (last s)" "byte (last s) < 128"
  shows "trim_space s = s"
proof -
  have "space_prefix s = 0" using assms by (cases s) (simp_all add: space_prefix_def)
  moreover have "space_suffix s = 0" using assms by (simp add: space_suffix_def)
  ultimately show ?thesis by (simp add: trim_space_def trim_space_left.simps trim_space_right.simps)
qed

lemma iso_date_trim: "trim_space (iso_date y m d) = iso_date y m d"
  by (rule trim_space_ascii) (simp_all add: iso_date_def two_digits_def digit_not digit_char_digit)

subsection \<open>ISO dates\<close>

lemma starts_iso_append: "starts_iso next l \<Longrightarrow> \<exists>rest. parse_layout l = iso_elements @ next @ rest"
  unfolding starts_iso_def by (metis append_assoc append_take_drop_id)

lemma clock_layouts_reject:
  assumes "y < 10000" "m < 100" "d < 100" "starts_iso next l" "next = [El_text CHR ''T''] \<or> next = [El_text CHR '' '', El_hour]"
  shows "parse_civil l (iso_date y m d) = None"
proof -
  obtain rest where "parse_layout l = iso_elements @ next @ rest" using starts_iso_append [OF assms(4)] by blast
  moreover have "parse_elements (next @ rest) c [] = None" for c using assms(5) parse_iso_tails by auto
  ultimately show ?thesis by (simp add: parse_civil_def parse_iso [OF assms(1-3)])
qed

lemma date_layout_reads:
  assumes "y < 10000" "m < 100" "d < 100"
  shows "parse_civil ''2006-01-02'' (iso_date y m d) =
    (if calendar_date y m d then Some (no_civil\<lparr>cv_year := int y, cv_month := int m, cv_day := int d\<rparr>) else None)"
  unfolding parse_civil_def layouts_with_date(1)
  using parse_iso [OF assms, of "[]"] by (auto simp: calendar_date_def)

lemma first_plausible_none: "\<forall>l \<in> set ls. parse_civil l s = None \<Longrightarrow> first_plausible ty (ls @ ms) s = first_plausible ty ms s"
  by (induction ls) simp_all

lemma other_layouts_none:
  assumes "l \<in> set (drop 8 date_formats)"
  shows "parse_civil l (iso_date y m d) = None"
proof -
  have "other_start (parse_layout l)" using other_layouts_start assms by (simp only: list_all_iff)
  then show ?thesis
    unfolding iso_date_def two_digits_def parse_civil_def append.simps
    by (subst other_layouts_reject) (simp_all add: digit_char_digit)
qed

text \<open>
  C21. A date written as \<open>YYYY-MM-DD\<close> is read back as midnight UTC of that day exactly when it is a day of the calendar
  from 1990 to the year after the current one. Any other combination of digits in that form is no date: none of the
  other layouts takes it for something else.
\<close>

theorem iso_date_roundtrip:
  assumes "y < 10000" "m < 100" "d < 100" "set order = set spanish_months"
  shows "parse_date_string E order this_year (iso_date y m d) =
    (if calendar_date y m d \<and> 1990 \<le> y \<and> int y \<le> this_year + 1 then date_days (int y) (int m) (int d) * day_ns else time_zero)"
proof -
  let ?s = "iso_date y m d"
  have clock: "\<forall>l \<in> set (take 6 date_formats @ [rfc3339]). parse_civil l ?s = None"
    using layouts_with_clock clock_layouts_reject [OF assms(1-3)] by (simp only: list_all_iff) blast
  have blank: "parse_civil ''2006-01-02 15:04:05'' ?s = None"
    using clock_layouts_reject [OF assms(1-3) layouts_with_date(2)] by simp
  have rest: "first_plausible this_year (drop 8 date_formats @ [rfc3339]) ?s = None"
    using first_plausible_none [of "drop 8 date_formats @ [rfc3339]" ?s this_year "[]"] other_layouts_none clock by auto
  have "first_plausible this_year (date_formats @ [rfc3339]) ?s
      = first_plausible this_year (''2006-01-02'' # ''2006-01-02 15:04:05'' # drop 8 date_formats @ [rfc3339]) ?s"
    by (subst layouts_with_date(3)) (use first_plausible_none clock in simp)
  then have "first_plausible this_year (date_formats @ [rfc3339]) ?s =
      (if calendar_date y m d \<and> 1990 \<le> y \<and> int y \<le> this_year + 1
       then Some (no_civil\<lparr>cv_year := int y, cv_month := int m, cv_day := int d\<rparr>) else None)"
    by (simp add: date_layout_reads [OF assms(1-3)] blank rest plausible_year_def)
  moreover have "?s \<noteq> []" by (simp add: iso_date_def two_digits_def)
  ultimately show ?thesis
    by (simp add: parse_date_string_def iso_date_trim date_chars_no_month [OF iso_date_chars assms(4)] civil_time_def no_civil_def)
qed

theorem iso_date_roundtrip_witness:
  "parse_date_string ascii_stdlib spanish_months 2026 (iso_date 2024 2 29) = date_days 2024 2 29 * day_ns
    \<and> parse_date_string ascii_stdlib spanish_months 2026 (iso_date 2023 2 29) = time_zero"
  using iso_date_roundtrip [of 2024 2 29 spanish_months ascii_stdlib 2026] iso_date_roundtrip [of 2023 2 29 spanish_months ascii_stdlib 2026]
  by (simp add: calendar_date_def days_in_month_def leap_year_def)

end
