(* ===== verification/JsonLd.thy ===== *)
theory JsonLd
  imports PageDate Resources
begin

text \<open>
  The schema.org data of a page (\<open>extractJSONLD\<close> and its helpers in \<open>internal/crawler/parser.go\<close>). The values that
  \<open>encoding/json\<close> decodes are a datatype; decoding itself and \<open>strconv.ParseFloat\<close> are arguments. An object is the list
  of its members, without repeated names; a member that is missing reads as \<open>JNull\<close>.
\<close>

datatype json = JNull | JBool bool | JNum float64 | JStr string | JArr "json list" | JObj "(string \<times> json) list"

definition member :: "string \<Rightarrow> (string \<times> json) list \<Rightarrow> json" where
  "member k ms = (case map_of ms k of Some v \<Rightarrow> v | None \<Rightarrow> JNull)"

fun json_string :: "json \<Rightarrow> string option" where
  "json_string (JStr s) = Some s"
| "json_string _ = None"

fun string_from_jsonld :: "json \<Rightarrow> string" where
  "string_from_jsonld (JStr s) = trim_space s"
| "string_from_jsonld (JObj ms) = (case member ''@value'' ms of JStr s \<Rightarrow> trim_space s | _ \<Rightarrow> [])"
| "string_from_jsonld (JArr (JStr s # _)) = trim_space s"
| "string_from_jsonld _ = []"

text \<open>The loop over an array of images: empty strings are passed over, and so are objects without a URL.\<close>

fun image_in_array :: "json list \<Rightarrow> string" where
  "image_in_array [] = []"
| "image_in_array (JStr s # vs) = (if s \<noteq> [] then trim_space s else image_in_array vs)"
| "image_in_array (JObj ms # vs) =
     (case (json_string (member ''url'' ms), json_string (member ''contentUrl'' ms)) of
        (Some u, c) \<Rightarrow> if u \<noteq> [] then trim_space u
                      else (case c of Some v \<Rightarrow> if v \<noteq> [] then trim_space v else image_in_array vs | None \<Rightarrow> image_in_array vs)
      | (None, Some v) \<Rightarrow> if v \<noteq> [] then trim_space v else image_in_array vs
      | (None, None) \<Rightarrow> image_in_array vs)"
| "image_in_array (_ # vs) = image_in_array vs"

fun extract_image_url :: "json \<Rightarrow> string" where
  "extract_image_url (JStr s) = trim_space s"
| "extract_image_url (JObj ms) =
     (case json_string (member ''url'' ms) of
        Some u \<Rightarrow> trim_space u
      | None \<Rightarrow> (case json_string (member ''contentUrl'' ms) of Some c \<Rightarrow> trim_space c | None \<Rightarrow> []))"
| "extract_image_url (JArr vs) = image_in_array vs"
| "extract_image_url _ = []"

subsection \<open>Objects\<close>

text \<open>The objects of a block: the graph of a single object, the object itself, or the objects of an array.\<close>

fun json_object :: "json \<Rightarrow> (string \<times> json) list option" where
  "json_object (JObj ms) = Some ms"
| "json_object _ = None"

fun jsonld_objects :: "json \<Rightarrow> (string \<times> json) list list" where
  "jsonld_objects (JObj ms) = (case member ''@graph'' ms of JArr vs \<Rightarrow> List.map_filter json_object vs | _ \<Rightarrow> [ms])"
| "jsonld_objects (JArr vs) = List.map_filter json_object vs"
| "jsonld_objects _ = []"

record schema_data =
  sd_type :: string
  sd_title :: string
  sd_desc :: string
  sd_image :: string
  sd_author :: string
  sd_keywords :: string
  sd_rating :: float64
  sd_published :: gotime

definition no_schema :: schema_data where
  "no_schema = \<lparr>sd_type = [], sd_title = [], sd_desc = [], sd_image = [], sd_author = [], sd_keywords = [], sd_rating = 0,
     sd_published = time_zero\<rparr>"

text \<open>What the extraction is given besides the document.\<close>

record jsonld_env =
  je_std :: stdlib
  je_unmarshal :: "string \<Rightarrow> json option"
  je_parse_float :: "string \<Rightarrow> float64 option"
  je_date :: date_reader

definition skipped_types :: "string list" where
  "skipped_types = [''BreadcrumbList'', ''WebSite'', ''Organization'']"

definition jsonld_title :: "(string \<times> json) list \<Rightarrow> string" where
  "jsonld_title ms =
     (let headline = string_from_jsonld (member ''headline'' ms)
      in if headline = [] then string_from_jsonld (member ''name'' ms) else headline)"

definition resolved_image :: "stdlib \<Rightarrow> url \<Rightarrow> json \<Rightarrow> string" where
  "resolved_image E base v = (let u = extract_image_url v in if u = [] then [] else resolve_url E base u)"

definition jsonld_image :: "stdlib \<Rightarrow> url \<Rightarrow> (string \<times> json) list \<Rightarrow> string" where
  "jsonld_image E base ms =
     (let i = resolved_image E base (member ''image'' ms)
      in if i = [] then resolved_image E base (member ''thumbnailUrl'' ms) else i)"

definition jsonld_author :: "(string \<times> json) list \<Rightarrow> string" where
  "jsonld_author ms =
     (case member ''author'' ms of JObj a \<Rightarrow> string_from_jsonld (member ''name'' a) | JStr s \<Rightarrow> s | _ \<Rightarrow> [])"

definition jsonld_keywords :: "(string \<times> json) list \<Rightarrow> string" where
  "jsonld_keywords ms =
     (let k = string_from_jsonld (member ''keywords'' ms)
      in if k = [] then (case member ''articleSection'' ms of JStr s \<Rightarrow> s | _ \<Rightarrow> []) else k)"

definition jsonld_rating :: "(string \<Rightarrow> float64 option) \<Rightarrow> (string \<times> json) list \<Rightarrow> float64" where
  "jsonld_rating pf ms =
     (case member ''aggregateRating'' ms of
        JObj ar \<Rightarrow> (case member ''ratingValue'' ar of
            JNum x \<Rightarrow> x
          | JStr s \<Rightarrow> (case pf s of Some x \<Rightarrow> x | None \<Rightarrow> 0)
          | _ \<Rightarrow> 0)
      | _ \<Rightarrow> 0)"

definition jsonld_date :: "date_reader \<Rightarrow> (string \<times> json) list \<Rightarrow> gotime" where
  "jsonld_date rd ms =
     first_date (map (\<lambda>k. case member k ms of JStr s \<Rightarrow> if s \<noteq> [] then rd s else time_zero | _ \<Rightarrow> time_zero)
       [''datePublished'', ''dateCreated'', ''dateModified'', ''uploadDate''])"

text \<open>One object: it fills the fields that are still empty, unless its type is skipped.\<close>

definition merge_object :: "jsonld_env \<Rightarrow> url \<Rightarrow> (string \<times> json) list \<Rightarrow> schema_data \<Rightarrow> schema_data" where
  "merge_object J base ms best =
     (let t = string_from_jsonld (member ''@type'' ms)
      in if t \<in> set skipped_types then best
         else \<lparr>sd_type = (if sd_type best = [] then t else sd_type best),
               sd_title = (if sd_title best = [] then jsonld_title ms else sd_title best),
               sd_desc = (if sd_desc best = [] then string_from_jsonld (member ''description'' ms) else sd_desc best),
               sd_image = (if sd_image best = [] then jsonld_image (je_std J) base ms else sd_image best),
               sd_author = (if sd_author best = [] then jsonld_author ms else sd_author best),
               sd_keywords = (if sd_keywords best = [] then jsonld_keywords ms else sd_keywords best),
               sd_rating = (if sd_rating best = 0 then jsonld_rating (je_parse_float J) ms else sd_rating best),
               sd_published = (if sd_published best = time_zero then jsonld_date (je_date J) ms else sd_published best)\<rparr>)"

definition jsonld_block :: "jsonld_env \<Rightarrow> node \<Rightarrow> (string \<times> json) list list" where
  "jsonld_block J n =
     (let text = trim_space (node_text n)
      in if text = [] then [] else (case je_unmarshal J text of None \<Rightarrow> [] | Some raw \<Rightarrow> jsonld_objects raw))"

definition extract_jsonld :: "jsonld_env \<Rightarrow> url \<Rightarrow> node list \<Rightarrow> schema_data" where
  "extract_jsonld J base doc =
     fold (merge_object J base)
       (concat (map (jsonld_block J) (find_nodes [(Some ''script'', [Attr_is ''type'' ''application/ld+json''])] doc)))
       no_schema"

end
