(* ===== verification/Parser.thy ===== *)
theory Parser
  imports JsonLd Pages GoNet
begin

text \<open>
  The HTML parser of the crawler (\<open>internal/crawler/parser.go\<close>): decoding of the body, language, title,
  description, images, links and content of a page. The HTML parser of \<open>golang.org/x/net\<close>, \<open>go-readability\<close>,
  \<open>whatlanggo\<close>, \<open>chardet\<close>, the charset tables and the JSON decoder are fields of \<open>parser_env\<close>; the rest is code.
\<close>

text \<open>What \<open>readability.FromReader\<close> returns when it does not fail.\<close>

record article =
  ar_title :: string
  ar_text :: string
  ar_html :: string

type_synonym decoder = "string \<Rightarrow> string option"

record parser_env =
  px_std :: stdlib
  px_html :: "string \<Rightarrow> node list option"
  px_article :: "string \<Rightarrow> rawurl \<Rightarrow> article option"
  px_detect :: "string \<Rightarrow> string option"
  px_determine :: "string \<Rightarrow> string \<Rightarrow> (decoder option \<times> string)"
  px_charset :: "string \<Rightarrow> string option"
  px_encoding :: "string \<Rightarrow> decoder option"
  px_unmarshal :: "string \<Rightarrow> json option"
  px_parse_float :: "string \<Rightarrow> float64 option"
  px_months :: "(string \<times> string) list"
  px_year :: int

definition px_date :: "parser_env \<Rightarrow> date_reader" where
  "px_date X = parse_date_string (px_std X) (px_months X) (px_year X)"

subsection \<open>Decoding\<close>

text \<open>\<open>utf8.Valid\<close>: no byte decodes to the replacement character on its own.\<close>

definition utf8_valid :: "string \<Rightarrow> bool" where
  "utf8_valid s = list_all (\<lambda>(r, b). \<not> (r = 65533 \<and> length b = 1)) (runes s)"

definition decode_with :: "decoder option \<Rightarrow> string \<Rightarrow> string option" where
  "decode_with e body =
     (case e of
        None \<Rightarrow> None
      | Some d \<Rightarrow> (case d body of Some decoded \<Rightarrow> if utf8_valid decoded then Some decoded else None | None \<Rightarrow> None))"

definition legacy_encodings :: "string list" where
  "legacy_encodings = [''windows-1252'', ''iso-8859-1'', ''iso-8859-15'', ''gbk'', ''euc-jp'', ''shift_jis'']"

definition to_utf8 :: "parser_env \<Rightarrow> string \<Rightarrow> string \<Rightarrow> string" where
  "to_utf8 X body ctype =
     (if body = [] \<or> utf8_valid body then body
      else (let (e, name) = px_determine X body ctype;
                tier2 = (if to_lower (px_std X) name \<noteq> ''utf-8'' then decode_with e body else None);
                tier3 = (case px_charset X body of None \<Rightarrow> None | Some c \<Rightarrow> decode_with (px_encoding X c) body);
                tier4 = map (\<lambda>n. decode_with (px_encoding X n) body) legacy_encodings
            in case filter (\<lambda>d. d \<noteq> None) (tier2 # tier3 # tier4) of Some decoded # _ \<Rightarrow> decoded | _ \<Rightarrow> body))"

subsection \<open>Language\<close>

definition index_any :: "string \<Rightarrow> string \<Rightarrow> nat option" where
  "index_any s cs = (if list_ex (\<lambda>c. c \<in> set cs) s then Some (length (takeWhile (\<lambda>c. c \<notin> set cs) s)) else None)"

definition normalize_language :: "stdlib \<Rightarrow> string \<Rightarrow> string" where
  "normalize_language E raw0 =
     (let raw = trim_space (to_lower E raw0);
          tag = (case index_any raw ''-_'' of Some i \<Rightarrow> if 0 < i then take i raw else raw | None \<Rightarrow> raw)
      in if raw = [] then [] else if length tag < 2 \<or> 3 < length tag then [] else tag)"

definition detect_language_from_url :: "stdlib \<Rightarrow> rawurl \<Rightarrow> string" where
  "detect_language_from_url E raw =
     (case url_parse E raw of
        None \<Rightarrow> []
      | Some u \<Rightarrow>
          let seg = (if u_path u \<noteq> [] then normalize_language E (hd (split_byte (trim_set (u_path u) ''/'') CHR ''/'')) else [])
          in if seg \<noteq> [] then seg
             else (let parts = split_byte (to_lower E (url_hostname u)) CHR ''.''
                   in if 2 \<le> length parts
                      then (let c = normalize_language E (hd parts)
                            in if c \<noteq> [] \<and> c \<noteq> ''www'' \<and> c \<noteq> ''m'' then c else [])
                      else []))"

definition page_language :: "parser_env \<Rightarrow> node list \<Rightarrow> rawurl \<Rightarrow> string" where
  "page_language X doc base_url =
     (let E = px_std X;
          from_meta = (\<lambda>sel l. if l = [] then each_attr ''content'' (normalize_language E) (find_nodes [sel] doc) l else l);
          l0 = (case first_node (find_nodes [tag_selector ''html''] doc) of
                  None \<Rightarrow> []
                | Some n \<Rightarrow> (case node_attr ''lang'' n of Some v \<Rightarrow> normalize_language E v | None \<Rightarrow> []));
          l1 = from_meta (meta_selector ''http-equiv'' ''Content-Language'') l0;
          l2 = from_meta (meta_selector ''name'' ''language'') l1
      in if l2 = [] then detect_language_from_url E base_url else l2)"

subsection \<open>Title, description and canonical URL\<close>

definition page_title :: "node list \<Rightarrow> string" where
  "page_title doc =
     (let title = trim_space (first_text [tag_selector ''title''] doc)
      in if title = [] \<or> has_prefix title ''Reddit -''
         then (let s1 = first_attr_or [tag_selector ''shreddit-title''] ''title'' [] doc;
                   s2 = (if s1 = [] then first_attr_or [tag_selector ''shreddit-post''] ''post-title'' [] doc else s1)
               in if s2 \<noteq> [] then trim_space s2
                  else each_attr ''content'' trim_space (find_nodes [meta_selector ''property'' ''og:title''] doc) title)
         else title)"

definition page_description :: "node list \<Rightarrow> string" where
  "page_description doc =
     (let d = each_attr ''content'' trim_space (find_nodes [meta_selector ''name'' ''description''] doc) []
      in if d = [] then each_attr ''content'' trim_space (find_nodes [meta_selector ''property'' ''og:description''] doc) d else d)"

definition page_canonical :: "stdlib \<Rightarrow> url \<Rightarrow> node list \<Rightarrow> rawurl" where
  "page_canonical E base doc =
     fold (\<lambda>n c. case node_attr ''href'' n of
             None \<Rightarrow> c
           | Some href \<Rightarrow> (let r = resolve_url E base (trim_space href) in if r \<noteq> [] then r else c))
       (find_nodes [(Some ''link'', [Attr_is ''rel'' ''canonical''])] doc) []"

subsection \<open>Images\<close>

definition max_images :: nat where "max_images = 50"
definition max_context :: nat where "max_context = 200"

definition og_image :: "stdlib \<Rightarrow> url \<Rightarrow> node list \<Rightarrow> node \<Rightarrow> image_meta list \<Rightarrow> image_meta list" where
  "og_image E base doc n images =
     (case node_attr ''content'' n of
        None \<Rightarrow> images
      | Some content \<Rightarrow>
          let u = resolve_url E base (trim_space content)
          in if u \<noteq> [] \<and> u \<notin> set (map im_url images)
             then (let title = trim_space (first_text [tag_selector ''title''] doc)
                   in images @ [\<lparr>im_url = u, im_alt = title, im_title = [], im_context = title, im_width = 0, im_height = 0\<rparr>])
             else images)"

text \<open>One \<open>img\<close> element with its parent; \<open>seen\<close> of the code holds exactly the URLs of the images kept so far.\<close>

definition img_image :: "stdlib \<Rightarrow> url \<Rightarrow> node option \<times> node \<Rightarrow> image_meta list \<Rightarrow> image_meta list" where
  "img_image E base pn images =
     (let (parent, n) = pn
      in case node_attr ''src'' n of
           None \<Rightarrow> images
         | Some src0 \<Rightarrow>
             let src = trim_space src0
             in if src = [] \<or> has_prefix src ''data:'' then images
                else (let u = resolve_url E base src
                      in if u = [] \<or> u \<in> set (map im_url images) then images
                         else if \<not> is_image_extension E u then images
                         else (let width = atoi (attr_or ''width'' ''0'' n); height = atoi (attr_or ''height'' ''0'' n)
                               in if (0 < width \<and> width < 50) \<or> (0 < height \<and> height < 50) then images
                                  else images @ [\<lparr>im_url = u, im_alt = trim_space (attr_or ''alt'' [] n),
                                         im_title = trim_space (attr_or ''title'' [] n),
                                         im_context = (case parent of None \<Rightarrow> []
                                            | Some p \<Rightarrow> truncate_string (normalize_whitespace (node_text p)) max_context),
                                         im_width = width, im_height = height\<rparr>])))"

definition extract_images :: "stdlib \<Rightarrow> url \<Rightarrow> node list \<Rightarrow> image_meta list" where
  "extract_images E base doc =
     take max_images
       (fold (img_image E base) (find_with_parent [(Some ''img'', [Has_attr ''src''])] doc)
         (fold (og_image E base doc) (find_nodes [meta_selector ''property'' ''og:image''] doc) []))"

subsection \<open>Links\<close>

definition max_anchor :: nat where "max_anchor = 500"

record link_state =
  ls_seen :: "rawurl set"
  ls_links :: "rawurl list"
  ls_anchors :: "link_anchor list"

definition add_found :: "rawurl \<Rightarrow> string \<Rightarrow> link_state \<Rightarrow> link_state" where
  "add_found u anchor st =
     (if u \<in> ls_seen st then st
      else \<lparr>ls_seen = insert u (ls_seen st), ls_links = ls_links st @ [u],
            ls_anchors = ls_anchors st @ [\<lparr>la_url = u, la_text = anchor\<rparr>]\<rparr>)"

definition path_disallowed :: "stdlib \<Rightarrow> rawurl \<Rightarrow> bool" where
  "path_disallowed E u = (case url_parse E u of Some p \<Rightarrow> is_disallowed_path E (u_path p) | None \<Rightarrow> False)"

definition resource_selectors :: "selector list" where
  "resource_selectors = [(Some ''script'', [Has_attr ''src'']), (Some ''link'', [Has_attr ''href'']), (Some ''iframe'', [Has_attr ''src''])]"

definition resource_href :: "node \<Rightarrow> string option" where
  "resource_href n =
     (if node_name n = ''script'' then node_attr ''src'' n
      else if node_name n = ''link'' then node_attr ''href'' n
      else if node_name n = ''iframe'' then node_attr ''src'' n
      else None)"

definition add_resource :: "stdlib \<Rightarrow> url \<Rightarrow> node \<Rightarrow> link_state \<Rightarrow> link_state" where
  "add_resource E base n st =
     (case resource_href n of
        None \<Rightarrow> st
      | Some href0 \<Rightarrow>
          let href = trim_space href0
          in if href = [] \<or> has_prefix href ''javascript:'' \<or> has_prefix href ''data:'' \<or> has_prefix href ''#'' then st
             else (let u = resolve_url E base href
                   in if u = [] \<or> is_binary_extension E u \<or> path_disallowed E u then st else add_found u [] st))"

text \<open>The guards that the two loops over \<open>a[href]\<close> share: the reference to resolve, if the element has one to follow.\<close>

definition followed_href :: "node \<Rightarrow> string option" where
  "followed_href n =
     (case node_attr ''href'' n of
        None \<Rightarrow> None
      | Some href0 \<Rightarrow>
          let href = trim_space href0
          in if href = [] \<or> list_ex (has_prefix href) [''#'', ''javascript:'', ''mailto:'', ''tel:''] then None
             else if str_contains (attr_or ''rel'' [] n) ''nofollow'' then None
             else Some href)"

definition anchor_text :: "node \<Rightarrow> string" where
  "anchor_text n = truncate_string (trim_space (node_text n)) max_anchor"

text \<open>Links of the article drop a URL that does not parse again; the other links keep it.\<close>

definition add_article_link :: "stdlib \<Rightarrow> url \<Rightarrow> node \<Rightarrow> link_state \<Rightarrow> link_state" where
  "add_article_link E base n st =
     (case followed_href n of
        None \<Rightarrow> st
      | Some href \<Rightarrow>
          let u = resolve_url E base href
          in if u \<noteq> [] \<and> \<not> is_binary_extension E u \<and> url_parse E u \<noteq> None \<and> \<not> path_disallowed E u
             then add_found u (anchor_text n) st else st)"

definition add_page_link :: "stdlib \<Rightarrow> url \<Rightarrow> node \<Rightarrow> link_state \<Rightarrow> link_state" where
  "add_page_link E base n st =
     (case followed_href n of
        None \<Rightarrow> st
      | Some href \<Rightarrow>
          let u = resolve_url E base href
          in if u = [] \<or> is_binary_extension E u \<or> path_disallowed E u then st else add_found u (anchor_text n) st)"

definition link_selector :: selector where
  "link_selector = (Some ''a'', [Has_attr ''href''])"

text \<open>Links of the article are collected on their own and put before the others; they share \<open>seen\<close>.\<close>

definition article_links :: "parser_env \<Rightarrow> url \<Rightarrow> article \<Rightarrow> link_state \<Rightarrow> link_state" where
  "article_links X base a st =
     (if ar_html a = [] then st
      else (case px_html X (ar_html a) of
              None \<Rightarrow> st
            | Some doc \<Rightarrow>
                let found = fold (add_article_link (px_std X) base) (find_nodes [link_selector] doc)
                              \<lparr>ls_seen = ls_seen st, ls_links = [], ls_anchors = []\<rparr>
                in \<lparr>ls_seen = ls_seen found, ls_links = ls_links found @ ls_links st, ls_anchors = ls_anchors found @ ls_anchors st\<rparr>))"

subsection \<open>Content\<close>

definition removed_tags :: "string list" where
  "removed_tags = [''script'', ''style'', ''noscript'', ''nav'', ''footer'', ''header'', ''iframe'', ''svg'', ''aside'', ''form'', ''button'',
     ''input'', ''select'', ''textarea'', ''label'', ''fieldset'', ''legend'', ''dialog'', ''menu'', ''menuitem'', ''template'', ''slot'',
     ''canvas'', ''video'', ''audio'', ''source'', ''track'', ''map'', ''area'', ''object'', ''embed'', ''applet'']"

definition clutter_selectors :: "selector list" where
  "clutter_selectors =
     map class_selector [''ad'', ''ads'', ''advertisement'', ''ad-container'', ''google-ad'', ''sidebar'']
     @ [id_selector ''sidebar'']
     @ map class_selector [''comments'', ''comment-list'', ''comment-section'', ''related-posts'', ''newsletter'', ''cookie-banner'',
         ''popup'', ''modal'', ''social-share'', ''share-buttons'', ''author-bio'', ''toc'', ''table-of-contents'']
     @ map tag_selector [''pre'', ''code'']"

definition reduced_document :: "node list \<Rightarrow> node list" where
  "reduced_document doc = remove_nodes clutter_selectors (remove_nodes (map tag_selector removed_tags) doc)"

definition content_root :: "node list \<Rightarrow> node option" where
  "content_root doc =
     (case first_node (find_nodes [tag_selector ''main'', tag_selector ''article'', (None, [Attr_is ''role'' ''main''])] doc) of
        Some n \<Rightarrow> Some n
      | None \<Rightarrow> first_node (find_nodes [tag_selector ''body''] doc))"

definition fallback_text :: "node list \<Rightarrow> string" where
  "fallback_text doc =
     (case first_node (find_nodes [tag_selector ''shreddit-post''] doc) of
        Some post \<Rightarrow>
          (let body = find_nodes [(None, [Attr_is ''slot'' ''text-body''])] (child_nodes post)
           in if body \<noteq> [] then extract_text body else extract_text [post])
      | None \<Rightarrow> (case content_root doc of Some r \<Rightarrow> extract_text [r] | None \<Rightarrow> []))"

definition fallback_content :: "string \<Rightarrow> string \<Rightarrow> string \<Rightarrow> string \<Rightarrow> string \<Rightarrow> string" where
  "fallback_content content desc schema_desc h1 h2 =
     (if content \<noteq> [] then content
      else if desc \<noteq> [] then desc
      else if schema_desc \<noteq> [] then schema_desc
      else if h1 \<noteq> [] then str_join (h1 # (if h2 \<noteq> [] then [h2] else [])) '' ''
      else [])"

definition max_h1 :: nat where "max_h1 = 1200"
definition max_h2 :: nat where "max_h2 = 2000"
definition max_content :: nat where "max_content = 102400"
definition min_article :: nat where "min_article = 100"

text \<open>
  Headings, content, links and the document that the links are then read from: the article with the whole
  document, or without a long enough article what is left of the document, which the removal changes in place.
\<close>

record page_body =
  pb_h1 :: string
  pb_h2 :: string
  pb_content :: string
  pb_links :: link_state
  pb_doc :: "node list"

definition article_body :: "parser_env \<Rightarrow> url \<Rightarrow> article \<Rightarrow> node list \<Rightarrow> link_state \<Rightarrow> page_body" where
  "article_body X base a doc st =
     \<lparr>pb_h1 = ar_title a, pb_h2 = [], pb_content = normalize_whitespace (ar_text a), pb_links = article_links X base a st, pb_doc = doc\<rparr>"

definition reduced_body :: "string \<Rightarrow> string \<Rightarrow> node list \<Rightarrow> link_state \<Rightarrow> page_body" where
  "reduced_body desc schema_desc doc0 st =
     (let doc = reduced_document doc0;
          h1 = extract_heading_text (content_root doc) ''h1'' max_h1;
          h2 = extract_heading_text (content_root doc) ''h2'' max_h2
      in \<lparr>pb_h1 = h1, pb_h2 = h2,
          pb_content = fallback_content (normalize_whitespace (fallback_text doc)) desc schema_desc h1 h2,
          pb_links = st, pb_doc = doc\<rparr>)"

definition page_body_of :: "parser_env \<Rightarrow> string \<Rightarrow> rawurl \<Rightarrow> url \<Rightarrow> string \<Rightarrow> string \<Rightarrow> node list \<Rightarrow> link_state \<Rightarrow> page_body" where
  "page_body_of X body base_url base desc schema_desc doc st =
     (case px_article X body base_url of
        Some a \<Rightarrow> if min_article < length (trim_space (ar_text a)) then article_body X base a doc st
                  else reduced_body desc schema_desc doc st
      | None \<Rightarrow> reduced_body desc schema_desc doc st)"

definition content_language :: "parser_env \<Rightarrow> string \<Rightarrow> string \<Rightarrow> string" where
  "content_language X lang content =
     (if lang = [] \<and> 50 < length content
      then (case px_detect X (truncate_string content 500) of Some l \<Rightarrow> l | None \<Rightarrow> lang)
      else lang)"

definition no_links :: link_state where
  "no_links = \<lparr>ls_seen = {}, ls_links = [], ls_anchors = []\<rparr>"

definition parse_document :: "parser_env \<Rightarrow> string \<Rightarrow> rawurl \<Rightarrow> url \<Rightarrow> node list \<Rightarrow> parse_result" where
  "parse_document X body base_url base doc =
     (let E = px_std X;
          desc = page_description doc;
          schema = extract_jsonld \<lparr>je_std = E, je_unmarshal = px_unmarshal X, je_parse_float = px_parse_float X, je_date = px_date X\<rparr> base doc;
          published = extract_published_at (px_date X) doc base_url;
          resources = fold (add_resource E base) (find_nodes resource_selectors doc) no_links;
          pb = page_body_of X body base_url base desc (sd_desc schema) doc resources;
          content = truncate_string (pb_content pb) max_content;
          found = fold (add_page_link E base) (find_nodes [link_selector] (pb_doc pb)) (pb_links pb)
      in \<lparr>pr_title = page_title doc, pr_h1 = pb_h1 pb, pr_h2 = pb_h2 pb, pr_desc = desc, pr_content = content,
          pr_links = ls_links found, pr_anchors = ls_anchors found, pr_canonical = page_canonical E base doc,
          pr_lang = content_language X (page_language X doc base_url) content,
          pr_images = extract_images E base doc,
          pr_published = (if published = time_zero then sd_published schema else published),
          pr_schema_type = sd_type schema, pr_schema_title = sd_title schema, pr_schema_desc = sd_desc schema,
          pr_schema_image = sd_image schema, pr_schema_author = sd_author schema, pr_schema_keywords = sd_keywords schema,
          pr_schema_rating = sd_rating schema\<rparr>)"

definition parse_page :: "parser_env \<Rightarrow> string \<Rightarrow> string \<Rightarrow> rawurl \<Rightarrow> parse_result option" where
  "parse_page X raw ctype base_url =
     (let body = to_utf8 X raw ctype
      in case px_html X body of
           None \<Rightarrow> None
         | Some doc \<Rightarrow> map_option (\<lambda>base. parse_document X body base_url base doc) (url_parse (px_std X) base_url))"

end
