(* ===== verification/ParserFacts.thy ===== *)
theory ParserFacts
  imports Parser
begin

text \<open>
  What parsing a page guarantees: its links, its images and the size of what is kept, and pages without an
  article, whose text and links come from the reduced document.
\<close>

subsection \<open>Links\<close>

text \<open>A link that may be followed, and the invariant of the collection.\<close>

definition followable :: "stdlib \<Rightarrow> rawurl \<Rightarrow> bool" where
  "followable E u \<longleftrightarrow> web_link E u \<and> \<not> path_disallowed E u"

definition links_ok :: "stdlib \<Rightarrow> link_state \<Rightarrow> bool" where
  "links_ok E st \<longleftrightarrow> map la_url (ls_anchors st) = ls_links st \<and> distinct (ls_links st) \<and> set (ls_links st) \<subseteq> ls_seen st
     \<and> (\<forall>u \<in> set (ls_links st). followable E u) \<and> (\<forall>a \<in> set (ls_anchors st). length (la_text a) \<le> max_anchor)"

lemma fold_invariant: "P s \<Longrightarrow> (\<And>x s. x \<in> set xs \<Longrightarrow> P s \<Longrightarrow> P (f x s)) \<Longrightarrow> P (fold f xs s)"
  by (induction xs arbitrary: s) simp_all

lemma add_found_ok: "links_ok E st \<Longrightarrow> followable E u \<Longrightarrow> length t \<le> max_anchor \<Longrightarrow> links_ok E (add_found u t st)"
  by (auto simp: add_found_def links_ok_def)

lemma add_found_seen: "ls_seen st \<subseteq> ls_seen (add_found u t st)"
  by (auto simp: add_found_def)

lemma resolved_followable:
  "resolve_url E base href \<noteq> [] \<Longrightarrow> \<not> is_binary_extension E (resolve_url E base href)
    \<Longrightarrow> \<not> path_disallowed E (resolve_url E base href) \<Longrightarrow> followable E (resolve_url E base href)"
  using resolve_url_web [of E base href] by (auto simp: followable_def web_link_def)

lemma anchor_text_bounded: "length (anchor_text n) \<le> max_anchor"
  by (simp add: anchor_text_def)

lemma add_resource_ok: "links_ok E st \<Longrightarrow> links_ok E (add_resource E base n st)"
  by (auto simp: add_resource_def Let_def max_anchor_def split: option.splits intro!: add_found_ok resolved_followable)

lemma add_page_link_ok: "links_ok E st \<Longrightarrow> links_ok E (add_page_link E base n st)"
  by (auto simp: add_page_link_def Let_def anchor_text_bounded split: option.splits intro!: add_found_ok resolved_followable)

lemma add_article_link_ok: "links_ok E st \<Longrightarrow> links_ok E (add_article_link E base n st)"
  by (auto simp: add_article_link_def Let_def anchor_text_bounded split: option.splits intro!: add_found_ok resolved_followable)

lemma links_ok_empty: "links_ok E \<lparr>ls_seen = S, ls_links = [], ls_anchors = []\<rparr>"
  by (simp add: links_ok_def)

lemma add_found_apart:
  "S \<subseteq> ls_seen st \<Longrightarrow> S \<inter> set (ls_links st) = {} \<Longrightarrow> S \<subseteq> ls_seen (add_found u t st) \<and> S \<inter> set (ls_links (add_found u t st)) = {}"
  by (auto simp: add_found_def)

lemma article_links_apart:
  "S \<subseteq> ls_seen st \<and> S \<inter> set (ls_links st) = {}
    \<Longrightarrow> S \<subseteq> ls_seen (add_article_link E base n st) \<and> S \<inter> set (ls_links (add_article_link E base n st)) = {}"
  using add_found_apart [of S st] by (auto simp: add_article_link_def Let_def split: option.splits)

lemma links_ok_prepend:
  "links_ok E found \<Longrightarrow> links_ok E st \<Longrightarrow> ls_seen st \<subseteq> ls_seen found \<Longrightarrow> ls_seen st \<inter> set (ls_links found) = {}
    \<Longrightarrow> links_ok E \<lparr>ls_seen = ls_seen found, ls_links = ls_links found @ ls_links st, ls_anchors = ls_anchors found @ ls_anchors st\<rparr>"
  by (auto simp: links_ok_def)

lemma article_links_ok:
  assumes "links_ok (px_std X) st"
  shows "links_ok (px_std X) (article_links X base a st)"
proof -
  define found where "found doc = fold (add_article_link (px_std X) base) (find_nodes [link_selector] doc)
      \<lparr>ls_seen = ls_seen st, ls_links = [], ls_anchors = []\<rparr>" for doc
  have "links_ok (px_std X) (found doc)" for doc
    unfolding found_def by (rule fold_invariant) (auto intro: links_ok_empty add_article_link_ok)
  moreover have "ls_seen st \<subseteq> ls_seen (found doc) \<and> ls_seen st \<inter> set (ls_links (found doc)) = {}" for doc
    unfolding found_def by (rule fold_invariant) (simp, rule article_links_apart)
  ultimately show ?thesis
    using assms links_ok_prepend by (auto simp: article_links_def found_def [symmetric] Let_def split: option.split)
qed

lemma page_body_links_ok:
  "links_ok (px_std X) st \<Longrightarrow> links_ok (px_std X) (pb_links (page_body_of X body base_url base d sd doc st))"
  by (auto simp: page_body_of_def article_body_def reduced_body_def Let_def article_links_ok split: option.split)

lemma found_links_ok:
  "links_ok (px_std X) st \<Longrightarrow> links_ok (px_std X) (fold (add_page_link (px_std X) base) ns st)"
  by (rule fold_invariant) (auto intro: add_page_link_ok)

lemma resources_ok: "links_ok E (fold (add_resource E base) ns no_links)"
  by (rule fold_invariant) (auto simp: no_links_def intro: links_ok_empty add_resource_ok)

lemma parse_document_links:
  "\<exists>st. pr_links (parse_document X body base_url base doc) = ls_links st
      \<and> pr_anchors (parse_document X body base_url base doc) = ls_anchors st \<and> links_ok (px_std X) st"
  unfolding parse_document_def Let_def parse_result.select_convs
  by (intro exI conjI, rule refl, rule refl) (rule found_links_ok [OF page_body_links_ok [OF resources_ok]])



subsection \<open>A sample page\<close>

text \<open>Libraries that know a single document and no article.\<close>

definition sample_parser :: "node list \<Rightarrow> parser_env" where
  "sample_parser doc = \<lparr>px_std = ascii_stdlib, px_html = (\<lambda>_. Some doc), px_article = (\<lambda>_ _. None), px_detect = (\<lambda>_. None),
     px_determine = (\<lambda>_ _. (None, [])), px_charset = (\<lambda>_. None), px_encoding = (\<lambda>_. None), px_unmarshal = (\<lambda>_. None),
     px_parse_float = (\<lambda>_. None), px_months = spanish_months, px_year = 2026\<rparr>"

definition sample_document :: "node list" where
  "sample_document = [Element ''html'' [(''lang'', ''en'')] [Element ''body'' []
     [Element ''nav'' [] [Element ''a'' [(''href'', ''/a'')] [Text_node ''A'']],
      Element ''p'' [] [Text_node ''Hi'', Element ''a'' [(''href'', ''/b'')] [Text_node ''B'']]]]]"

definition sample_base :: url where
  "sample_base = url0\<lparr>u_scheme := ''http'', u_host := ''x.io'', u_path := ''/''\<rparr>"

lemma sample_url: "url_parse ascii_stdlib ''http://x.io/'' = Some sample_base"
  unfolding sample_base_def by code_simp

lemma sample_parsed:
  "parse_page (sample_parser doc) [] [] ''http://x.io/'' = Some (parse_document (sample_parser doc) [] ''http://x.io/'' sample_base doc)"
  using sample_url by (simp add: parse_page_def to_utf8_def sample_parser_def)

text \<open>Without an article the links are read from what the removal leaves of the document.\<close>

lemma links_without_article:
  "px_article X body base_url = None \<Longrightarrow>
    pr_links (parse_document X body base_url base doc) =
      ls_links (fold (add_page_link (px_std X) base) (find_nodes [link_selector] (reduced_document doc))
        (fold (add_resource (px_std X) base) (find_nodes resource_selectors doc) no_links))"
  by (simp add: parse_document_def page_body_of_def reduced_body_def Let_def)

lemma sample_links: "pr_links (parse_document (sample_parser sample_document) [] ''http://x.io/'' sample_base sample_document) = [''http://x.io/b'']"
proof -
  have "ls_links (fold (add_page_link ascii_stdlib sample_base) (find_nodes [link_selector] (reduced_document sample_document))
      (fold (add_resource ascii_stdlib sample_base) (find_nodes resource_selectors sample_document) no_links)) = [''http://x.io/b'']"
    by code_simp
  then show ?thesis using links_without_article [of "sample_parser sample_document" "[]" "''http://x.io/''"] by (simp add: sample_parser_def)
qed


subsection \<open>Images and bounds\<close>

definition image_size_ok :: "int \<Rightarrow> bool" where
  "image_size_ok n \<longleftrightarrow> n \<le> 0 \<or> 50 \<le> n"

definition web_url :: "stdlib \<Rightarrow> rawurl \<Rightarrow> bool" where
  "web_url E l \<longleftrightarrow> (\<exists>u. l = url_string u \<and> to_lower E (u_scheme u) \<in> {''http'', ''https''} \<and> u_fragment u = [])"

definition images_ok :: "stdlib \<Rightarrow> image_meta list \<Rightarrow> bool" where
  "images_ok E is \<longleftrightarrow> distinct (map im_url is)
     \<and> (\<forall>i \<in> set is. web_url E (im_url i) \<and> image_size_ok (im_width i) \<and> image_size_ok (im_height i))"

lemma resolved_web_url: "resolve_url E base href \<noteq> [] \<Longrightarrow> web_url E (resolve_url E base href)"
  using resolve_url_web [of E base href] by (simp add: web_url_def)

lemma images_ok_append:
  "images_ok E is \<Longrightarrow> im_url i \<notin> set (map im_url is) \<Longrightarrow> web_url E (im_url i) \<Longrightarrow> image_size_ok (im_width i)
    \<Longrightarrow> image_size_ok (im_height i) \<Longrightarrow> images_ok E (is @ [i])"
  by (auto simp: images_ok_def)

lemma og_image_ok: "images_ok E is \<Longrightarrow> images_ok E (og_image E base doc n is)"
  by (auto simp: og_image_def Let_def image_size_ok_def split: option.splits intro!: images_ok_append resolved_web_url)

lemma img_image_ok: "images_ok E is \<Longrightarrow> images_ok E (img_image E base pn is)"
  by (cases pn) (auto simp: img_image_def Let_def image_size_ok_def split: option.split intro!: images_ok_append resolved_web_url)

lemma images_ok_take: "images_ok E is \<Longrightarrow> images_ok E (take n is)"
  by (auto simp: images_ok_def take_map [symmetric] dest: in_set_takeD)

lemma extract_images_ok: "images_ok E (extract_images E base doc)"
proof -
  have "images_ok E (fold (og_image E base doc) ns [])" for ns
    by (rule fold_invariant) (simp add: images_ok_def, rule og_image_ok)
  then have "images_ok E (fold (img_image E base) ms (fold (og_image E base doc) ns []))" for ms ns
    by (rule fold_invariant) (rule img_image_ok)
  then show ?thesis unfolding extract_images_def by (rule images_ok_take)
qed

text \<open>
  What is kept of a page is bounded, whatever the page: at most 100 KiB of content and at most 50 images, with
  distinct http or https URLs, none of which is declared to be between 1 and 49 pixels wide or high.
\<close>

theorem parsed_page_bounded:
  assumes "parse_page X raw ctype base_url = Some r"
  shows "length (pr_content r) \<le> 102400 \<and> length (pr_images r) \<le> 50 \<and> distinct (map im_url (pr_images r))
    \<and> (\<forall>i \<in> set (pr_images r). web_url (px_std X) (im_url i) \<and> im_width i \<notin> {1..49} \<and> im_height i \<notin> {1..49})"
proof -
  obtain body base doc where r: "r = parse_document X body base_url base doc"
    using assms by (auto simp: parse_page_def Let_def split: option.splits)
  have "images_ok (px_std X) (pr_images r)" using extract_images_ok by (simp add: r parse_document_def Let_def)
  moreover have "length (pr_images r) \<le> 50" by (simp add: r parse_document_def Let_def extract_images_def max_images_def)
  moreover have "length (pr_content r) \<le> 102400"
    using length_truncate_string [of _ max_content] by (simp add: r parse_document_def Let_def max_content_def)
  ultimately show ?thesis by (force simp: images_ok_def image_size_ok_def)
qed

theorem parsed_page_bounded_witness:
  "length (pr_content (parse_document (sample_parser sample_document) [] ''http://x.io/'' sample_base sample_document)) \<le> 102400"
  using parsed_page_bounded [OF sample_parsed [of sample_document]] by simp

subsection \<open>Pages without an article\<close>

lemma selected_children: "selected sels (Element t as ns) = selected sels (Element t as ms)"
  by simp

lemma descendants_removed:
  "(p, m) \<in> set (concat (map (descendants q) (remove_in sels n))) \<Longrightarrow>
    \<not> selected sels m \<and> (\<exists>p' m'. (p', m') \<in> set (descendants q' n) \<and> (\<forall>other. selected other m = selected other m'))"
proof (induction n arbitrary: q q')
  case (Element t as ns)
  then have kept: "\<not> selected sels (Element t as ns)" by (auto split: if_splits)
  let ?e = "Element t as (concat (map (remove_in sels) ns))"
  consider "m = ?e" | n where "n \<in> set ns" "(p, m) \<in> set (concat (map (descendants (Some ?e)) (remove_in sels n)))"
    using Element.prems kept by auto
  then show ?case
  proof cases
    case 1
    then show ?thesis using kept selected_children by (intro conjI exI [of _ q'] exI [of _ "Element t as ns"]) auto
  next
    case (2 n)
    from Element.IH [OF this, of "Some (Element t as ns)"] obtain p' m' where
      m: "\<not> selected sels m" "(p', m') \<in> set (descendants (Some (Element t as ns)) n)" "\<forall>other. selected other m = selected other m'"
      by blast
    from m(2) 2(1) have "(p', m') \<in> set (descendants q' (Element t as ns))" by auto
    with m show ?thesis by blast
  qed
qed auto

lemma find_nodes_empty: "find_nodes sels ns = [] \<longleftrightarrow> (\<forall>n \<in> set ns. \<forall>(p, m) \<in> set (descendants None n). \<not> selected sels m)"
  by (auto simp: find_nodes_def find_with_parent_def filter_empty_conv)

lemma removed_descendants:
  assumes "n \<in> set (remove_nodes sels ns)" "(p, m) \<in> set (descendants None n)"
  shows "\<exists>k \<in> set ns. (p, m) \<in> set (concat (map (descendants None) (remove_in sels k)))"
  using assms by (auto simp: remove_nodes_def)

lemma find_removed: "find_nodes sels (remove_nodes sels ns) = []"
  unfolding find_nodes_empty using removed_descendants descendants_removed by fast

lemma find_removed_other:
  assumes "find_nodes others ns = []"
  shows "find_nodes others (remove_nodes sels ns) = []"
proof -
  have "\<not> selected others m" if "n \<in> set (remove_nodes sels ns)" "(p, m) \<in> set (descendants None n)" for n p m
  proof -
    note nm = that
    obtain k where k: "k \<in> set ns" "(p, m) \<in> set (concat (map (descendants None) (remove_in sels k)))"
      using removed_descendants [OF nm] by blast
    obtain p' m' where "(p', m') \<in> set (descendants None k)" "\<forall>other. selected other m = selected other m'"
      using descendants_removed [OF k(2), of None] by blast
    then show ?thesis using assms k(1) by (auto simp: find_nodes_empty)
  qed
  then show ?thesis by (auto simp: find_nodes_empty)
qed

lemma find_nodes_append: "find_nodes (a @ b) ns = [] \<longleftrightarrow> find_nodes a ns = [] \<and> find_nodes b ns = []"
proof -
  have "selected (a @ b) m \<longleftrightarrow> selected a m \<or> selected b m" for m by (cases m) auto
  then show ?thesis by (auto simp: find_nodes_def find_with_parent_def filter_empty_conv)
qed

lemma reduced_document_clean: "find_nodes (map tag_selector removed_tags @ clutter_selectors) (reduced_document doc) = []"
  by (simp add: find_nodes_append reduced_document_def find_removed find_removed_other)

text \<open>Where the links come from.\<close>

lemma filter_inline: "filter (\<lambda>c. c \<noteq> CHR '' '') (child_text n) = filter (\<lambda>c. c \<noteq> CHR '' '') (node_text n)"
proof (induction n)
  case (Element t as ns)
  then have "map (\<lambda>n. filter (\<lambda>c. c \<noteq> CHR '' '') (child_text n)) ns = map (\<lambda>n. filter (\<lambda>c. c \<noteq> CHR '' '') (node_text n)) ns"
    by (intro map_cong) simp_all
  then show ?case by (simp add: Let_def filter_concat comp_def del: map_eq_conv)
qed simp_all

lemma extract_text_letters:
  "filter (\<lambda>c. c \<noteq> CHR '' '') (extract_text ns) = filter (\<lambda>c. c \<noteq> CHR '' '') (concat (map node_text (concat (map child_nodes ns))))"
  by (simp add: extract_text_def filter_concat filter_inline comp_def)

definition resolved_from :: "stdlib \<Rightarrow> url \<Rightarrow> (node \<Rightarrow> string option) \<Rightarrow> node list \<Rightarrow> rawurl set" where
  "resolved_from E base href ns = {resolve_url E base (trim_space h) |h n. n \<in> set ns \<and> href n = Some h}"

lemma add_found_links: "set (ls_links (add_found u t st)) \<subseteq> insert u (set (ls_links st))"
  by (auto simp: add_found_def)

lemma add_resource_links:
  assumes "n \<in> set ns"
  shows "set (ls_links (add_resource E base n st)) \<subseteq> set (ls_links st) \<union> resolved_from E base resource_href ns"
proof (cases "resource_href n")
  case (Some h)
  then have "resolve_url E base (trim_space h) \<in> resolved_from E base resource_href ns"
    using assms by (auto simp: resolved_from_def)
  then show ?thesis using add_found_links [of "resolve_url E base (trim_space h)"] by (auto simp: add_resource_def Some Let_def)
qed (simp add: add_resource_def)

lemma followed_href_attr: "followed_href n = Some h \<Longrightarrow> \<exists>h0. node_attr ''href'' n = Some h0 \<and> h = trim_space h0"
  by (auto simp: followed_href_def Let_def split: option.splits if_splits)

lemma add_page_link_links:
  assumes "n \<in> set ns"
  shows "set (ls_links (add_page_link E base n st)) \<subseteq> set (ls_links st) \<union> resolved_from E base (node_attr ''href'') ns"
proof (cases "followed_href n")
  case (Some h)
  then have "resolve_url E base h \<in> resolved_from E base (node_attr ''href'') ns"
    using followed_href_attr [OF Some] assms by (auto simp: resolved_from_def)
  then show ?thesis using add_found_links [of "resolve_url E base h"] by (auto simp: add_page_link_def Some Let_def)
qed (simp add: add_page_link_def)

lemma fold_collects:
  assumes "\<And>x s. x \<in> set xs \<Longrightarrow> set (ls_links (f x s)) \<subseteq> set (ls_links s) \<union> A"
  shows "set (ls_links (fold f xs s)) \<subseteq> set (ls_links s) \<union> A"
  using assms
proof (induction xs arbitrary: s)
  case (Cons x xs)
  then have "set (ls_links (fold f xs (f x s))) \<subseteq> set (ls_links (f x s)) \<union> A" by simp
  then show ?case using Cons.prems [of x s] by auto
qed simp



subsection \<open>Decoding, headings and languages\<close>

text \<open>The body is only ever replaced by valid UTF-8, and a valid body is left alone.\<close>

lemma decode_with_valid: "decode_with e body = Some decoded \<Longrightarrow> utf8_valid decoded"
  by (auto simp: decode_with_def split: option.splits if_splits)

lemma first_some:
  assumes "\<forall>d \<in> set ds. \<forall>x. d = Some x \<longrightarrow> P x"
  shows "P (case filter (\<lambda>d. d \<noteq> None) ds of Some x # _ \<Rightarrow> x | _ \<Rightarrow> y) \<or> (case filter (\<lambda>d. d \<noteq> None) ds of Some x # _ \<Rightarrow> x | _ \<Rightarrow> y) = y"
  using assms by (induction ds) auto

lemma to_utf8_valid: "utf8_valid (to_utf8 X body ctype) \<or> to_utf8 X body ctype = body"
proof (cases "body = [] \<or> utf8_valid body")
  case False
  obtain e name where p: "px_determine X body ctype = (e, name)" by (cases "px_determine X body ctype")
  define ds where "ds = (if to_lower (px_std X) name \<noteq> ''utf-8'' then decode_with e body else None)
      # (case px_charset X body of None \<Rightarrow> None | Some c \<Rightarrow> decode_with (px_encoding X c) body)
      # map (\<lambda>n. decode_with (px_encoding X n) body) legacy_encodings"
  have "\<forall>d \<in> set ds. \<forall>x. d = Some x \<longrightarrow> utf8_valid x"
    using decode_with_valid by (auto simp: ds_def split: option.splits if_splits)
  from first_some [OF this, of body] show ?thesis
    using False by (simp only: to_utf8_def p Let_def prod.case if_False ds_def [symmetric])
qed (simp add: to_utf8_def)

text \<open>
  With an article the headings of the page are not read: its title stands for the first heading, and there is no second.
\<close>

lemma article_headings:
  assumes "px_article X body base_url = Some a" "min_article < length (trim_space (ar_text a))"
  shows "pr_h1 (parse_document X body base_url base doc) = ar_title a \<and> pr_h2 (parse_document X body base_url base doc) = []"
  using assms by (simp add: parse_document_def page_body_of_def article_body_def Let_def)

text \<open>Any host name that starts with a short label, and any short first segment, passes for a language.\<close>

lemma label_as_language:
  "detect_language_from_url ascii_stdlib ''https://bbc.co.uk/'' = ''bbc''" "detect_language_from_url ascii_stdlib ''https://x.org/faq/1'' = ''faq''"
  by code_simp+

end
