(* ===== verification/QueueDrain.thy ===== *)
theory QueueDrain
  imports Queue
begin

text \<open>
  Draining the queue: a worker that takes jobs while every domain is ready. The loop has no bound of its own; that it
  ends, and what it has taken then, is proved here.
\<close>

text \<open>\<open>ks\<close> is the order in which the map of the domains is iterated, which may differ at each dequeue.\<close>

partial_function (option) drain :: "('b queue \<Rightarrow> domain list) \<Rightarrow> 'b queue \<Rightarrow> (job list \<times> 'b queue) option" where
  "drain ks q =
     (case dequeue_locked (ks q) (\<lambda>_ s. (True, s)) () q of
        (res, _, q') \<Rightarrow> (case res of
            DqJob job \<Rightarrow> Option.bind (drain ks q') (\<lambda>(js, q2). Some (job # js, q2))
          | DqNone \<Rightarrow> Some ([], q')
          | DqPanic \<Rightarrow> None))"

lemma scan_ready_round: "q_round (snd (snd (scan_ready rdy cs off is s q))) = q_round q"
  by (induction "is" arbitrary: s) (auto simp: Let_def pop_job_def split: prod.splits bool.splits list.splits option.splits)

lemma dequeue_round: "dequeue_locked ks rdy s q = (DqJob job, s', q') \<Longrightarrow> q_round q' = q_round q + 1"
  using scan_ready_round [of rdy "candidates ks q" _ _ s "q\<lparr>q_round := q_round q + 1\<rparr>"]
  by (auto simp: dequeue_locked_def Let_def split: if_splits dest: arg_cong [of _ _ "\<lambda>x. q_round (snd (snd x))"])

lemma scan_ready_domains: "dom (q_domains (snd (snd (scan_ready rdy cs off is s q)))) \<subseteq> dom (q_domains q)"
proof (induction "is" arbitrary: s)
  case (Cons i "is")
  have "dom (q_domains q') \<subseteq> dom (q_domains q)" if "pop_job d q = Some (job, q')" for d job q'
    using that by (auto simp: pop_job_def jobs_of_def split: list.splits option.splits if_splits)
  with Cons show ?case by (auto simp: Let_def split: prod.splits bool.splits option.splits)
qed simp

lemma dequeue_domains:
  assumes "dequeue_locked ks rdy s q = (res, s', q')"
  shows "dom (q_domains q') \<subseteq> dom (q_domains q)"
proof -
  have "dom (q_domains (snd (snd (dequeue_locked ks rdy s q)))) \<subseteq> dom (q_domains q)"
    using scan_ready_domains [of rdy "candidates ks q" _ _ s "q\<lparr>q_round := q_round q + 1\<rparr>"] by (simp add: dequeue_locked_def Let_def)
  then show ?thesis by (simp add: assms)
qed

lemma no_domains: "keys_listed [] (q_domains q) \<Longrightarrow> pending q = {#}"
  by (simp add: keys_listed_def pending_def)

lemma refuse_all_ready: "refuse_all (\<lambda>_ s. (True, s)) ds s = Some s' \<Longrightarrow> ds = []"
  by (cases ds) simp_all

text \<open>
  C6. Draining ends: from a consistent queue the loop takes every pending job exactly once, panics nowhere and leaves an empty queue, as
  long as the 64-bit round counter is more than the number of jobs below its maximum.
\<close>

theorem drain_terminates:
  assumes "queue_wf q" and "\<And>q1. dom (q_domains q1) \<subseteq> dom (q_domains q) \<Longrightarrow> keys_listed (ks q1) (q_domains q1)"
    and "0 \<le> sint (q_round q)" and "sint (q_round q) + int (size (pending q)) < 2 ^ 63 - 1"
  shows "\<exists>js q'. drain ks q = Some (js, q') \<and> mset js = pending q \<and> pending q' = {#} \<and> queue_wf q'"
  using assms
proof (induction "size (pending q)" arbitrary: q rule: less_induct)
  case less
  let ?rdy = "\<lambda>_ s. (True, s)"
  obtain res s' q' where d: "dequeue_locked (ks q) ?rdy () q = (res, s', q')" by (metis surj_pair)
  have bound: "sint (q_round q) < 2 ^ 63 - 1" using less.prems(4) by simp
  from dequeue_locked_cases [OF less.prems(1) less.prems(2) [OF subset_refl] less.prems(3) bound d]
  show ?case
  proof (elim disjE exE conjE)
    assume r: "res = DqNone" "pending q' = pending q" "queue_wf q'" and all: "refuse_all ?rdy (ask_order (ks q) q) () = Some s'"
    from refuse_all_ready [OF all] have "ks q = []" by (simp add: ask_order_def)
    with less.prems(2) [OF subset_refl] have "pending q = {#}" by (simp add: no_domains)
    then show ?thesis using r by (subst drain.simps) (simp add: d)
  next
    fix job pre post s1
    assume r: "res = DqJob job" "queue_wf q'" "pending q = add_mset job (pending q')"
    from dequeue_round [OF d [unfolded r(1)]] have round: "sint (q_round q') = sint (q_round q) + 1"
      using less.prems(3) bound by (simp add: sint_word_ariths(1) signed_take_bit_int_eq_self)
    have keys: "keys_listed (ks q1) (q_domains q1)" if "dom (q_domains q1) \<subseteq> dom (q_domains q')" for q1
      using less.prems(2) that dequeue_domains [OF d] by blast
    have "\<exists>js q2. drain ks q' = Some (js, q2) \<and> mset js = pending q' \<and> pending q2 = {#} \<and> queue_wf q2"
      using less.prems(3,4) r(2,3) round by (intro less.hyps keys) auto
    then show ?thesis using r by (subst drain.simps) (auto simp: d)
  qed
qed

theorem drain_terminates_witness:
  "\<exists>js q'. drain (\<lambda>q. filter (\<lambda>d. q_domains q d \<noteq> None) [''a'', ''b'']) sample_queue = Some (js, q') \<and> length js = 2 \<and> pending q' = {#}"
proof -
  let ?ks = "\<lambda>q :: unit queue. filter (\<lambda>d. q_domains q d \<noteq> None) [''a'', ''b'']"
  have keys: "keys_listed (?ks q) (q_domains q)" if sub: "dom (q_domains q) \<subseteq> dom (q_domains sample_queue)" for q
  proof -
    have "dom (q_domains sample_queue) = set [''a'', ''b'']" using sample_queue_keys by (simp add: keys_listed_def)
    with sub have dom: "dom (q_domains q) \<subseteq> set [''a'', ''b'']" by blast
    have "distinct (?ks q)" by (rule distinct_filter) simp
    moreover have "set (?ks q) = dom (q_domains q)" unfolding set_filter using dom by blast
    ultimately show ?thesis unfolding keys_listed_def by blast
  qed
  have two: "int (size (pending sample_queue)) = 2"
    using sample_queue_wf by (simp add: queue_wf_lists) (simp add: sample_queue_def frame_simps new_queue_def)
  have "q_round sample_queue = 0" by (simp add: sample_queue_def frame_simps new_queue_def)
  then have "0 \<le> sint (q_round sample_queue)" "sint (q_round sample_queue) + int (size (pending sample_queue)) < 2 ^ 63 - 1"
    by (simp_all add: two)
  from drain_terminates [OF sample_queue_wf keys this] obtain js q'
    where "drain ?ks sample_queue = Some (js, q')" "mset js = pending sample_queue" "pending q' = {#}" by auto
  moreover from this(2) have "length js = 2" using two by (metis int_ops(3) of_nat_eq_iff size_mset)
  ultimately show ?thesis by blast
qed

end
