(* ===== verification/SearchNavigational.thy ===== *)
theory SearchNavigational
  imports SearchPages PageDb
begin

text \<open>
  The two statements of \<open>internal/storage/sqlite_search.go\<close> that look for pages outside the full-text index:
  \<open>searchNavigationalCandidates\<close> scores the pages of the site a query names, and
  \<open>searchDomainMatchCandidates\<close> finds the domains that hold two of its tokens. A row stands for a page joined with its
  clicks; \<open>age\<close> is its age in days, \<open>None\<close> where SQLite has \<open>NULL\<close> because it has no crawl time.
\<close>

subsection \<open>Expressions\<close>

text \<open>
  The operator \<open>GLOB\<close>: \<open>*\<close>, \<open>?\<close> and a set of characters and ranges, which \<open>^\<close> negates; a \<open>]\<close> that comes first is a member.
\<close>

fun glob_set :: "rune list \<Rightarrow> (rune \<times> rune) list \<Rightarrow> ((rune \<times> rune) list \<times> rune list) option" where
  "glob_set [] acc = None"
| "glob_set [p] acc = (if p = 93 \<and> acc \<noteq> [] then Some (acc, []) else None)"
| "glob_set [p, q] acc =
     (if p = 93 \<and> acc \<noteq> [] then Some (acc, [q]) else glob_set [q] ((p, p) # acc))"
| "glob_set (p # q # r # ps) acc =
     (if p = 93 \<and> acc \<noteq> [] then Some (acc, q # r # ps)
      else if q = 45 \<and> r \<noteq> 93 then glob_set ps ((p, r) # acc)
      else glob_set (q # r # ps) ((p, p) # acc))"

definition in_ranges :: "rune \<Rightarrow> (rune \<times> rune) list \<Rightarrow> bool" where
  "in_ranges c rs \<longleftrightarrow> list_ex (\<lambda>(a, b). a \<le> c \<and> c \<le> b) rs"

lemma glob_set_shorter: "glob_set ps acc = Some (rs, rest) \<Longrightarrow> length rest < length ps"
  by (induction ps acc rule: glob_set.induct) (auto split: if_splits)

function glob_runes :: "rune list \<Rightarrow> rune list \<Rightarrow> bool" where
  "glob_runes [] t = (t = [])"
| "glob_runes (p # ps) t =
     (if p = 42 then glob_runes ps t \<or> (case t of [] \<Rightarrow> False | _ # t' \<Rightarrow> glob_runes (p # ps) t')
      else (case t of
              [] \<Rightarrow> False
            | c # t' \<Rightarrow>
                if p = 63 then glob_runes ps t'
                else if p = 91
                then (let negated = (take 1 ps = [94])
                      in case glob_set (if negated then drop 1 ps else ps) [] of
                           None \<Rightarrow> False
                         | Some (rs, rest) \<Rightarrow> in_ranges c rs \<noteq> negated \<and> glob_runes rest t')
                else p = c \<and> glob_runes ps t'))"
  by pat_completeness auto
termination
  by (relation "measure (\<lambda>(p, t). length p + length t)") (auto dest!: glob_set_shorter split: if_splits)

definition sql_glob :: "string \<Rightarrow> string \<Rightarrow> bool" where
  "sql_glob s pattern = glob_runes (rune_list pattern) (rune_list s)"

text \<open>\<open>LENGTH(s) - LENGTH(REPLACE(s, '/', ''))\<close>.\<close>

definition slashes :: "string \<Rightarrow> nat" where
  "slashes s = count_list s (CHR ''/'')"

text \<open>The verb \<open>%.1f\<close>, as the number it denotes; a tie goes to the even digit.\<close>

definition tenths :: "float64 \<Rightarrow> float64" where
  "tenths x = (let k = \<lfloor>x * 10 + 1/2\<rfloor>
     in of_int (if x * 10 + 1/2 = of_int k \<and> odd k then k - 1 else k) / 10)"

subsection \<open>The pages of a site\<close>

record nav_query =
  nq_term :: string
  nq_exact :: string
  nq_like :: string
  nq_text_like :: string

definition nav_parameters :: "search_env \<Rightarrow> search_query \<Rightarrow> nav_query" where
  "nav_parameters V q =
     (let nav = (if sq_nav q = [] \<and> sq_domain q \<noteq> [] then root_term V (sq_domain q) else sq_nav q);
          like = (if nav = [] then ''%'' @ sq_lowered q @ ''%'' else ''%'' @ nav @ ''%'')
      in \<lparr>nq_term = nav, nq_exact = (if sq_domain q = [] then nav else sq_domain q), nq_like = like,
          nq_text_like = (if sq_lowered q = [] then like else ''%'' @ sq_lowered q @ ''%'')\<rparr>)"

definition in_site :: "nav_query \<Rightarrow> domain \<Rightarrow> bool" where
  "in_site n d \<longleftrightarrow> (nq_exact n \<noteq> [] \<and> sql_lower d = nq_exact n) \<or> (nq_term n \<noteq> [] \<and> sql_like (sql_lower d) (nq_like n))"

definition nav_matches :: "nav_query \<Rightarrow> search_row \<Rightarrow> bool" where
  "nav_matches n r \<longleftrightarrow> in_site n (sr_domain r) \<or> sql_like (sql_lower (sr_url r)) (nq_like n)
     \<or> list_ex (\<lambda>s. sql_like (sql_lower s) (nq_text_like n)) [sr_title r, sr_h1 r, sr_h2 r]"

definition bonus :: "bool \<Rightarrow> float64 \<Rightarrow> float64" where
  "bonus b x = (if b then x else 0)"

definition nav_score :: "search_env \<Rightarrow> nav_query \<Rightarrow> string \<Rightarrow> float64 \<Rightarrow> search_row \<Rightarrow> float64" where
  "nav_score V n lang age r =
     (let d = sql_lower (sr_domain r); u = sql_lower (sr_url r); text_like = (\<lambda>s. sql_like (sql_lower s) (nq_text_like n))
      in bonus (nq_exact n \<noteq> [] \<and> d = nq_exact n) 1500 + bonus (nq_term n \<noteq> [] \<and> sql_like d (nq_like n)) 800
       + bonus (u = ''https://'' @ d @ ''/'') 2000
       + bonus (sql_glob u (sql_lower (''https://'' @ sr_domain r @ ''/[a-z][a-z]''))) 1200
       + bonus (sql_like u (nq_like n)) 220 + bonus (text_like (sr_title r)) 160 + bonus (text_like (sr_h1 r)) 120
       + bonus (text_like (sr_h2 r)) 100 + bonus (slashes (sr_url r) \<le> 3) 500 + max 0 (20 - 0.2 * age)
       + bonus (lang \<noteq> [] \<and> sr_language r = lang) (tenths (se_language_boost V * 0.1)))"

text \<open>
  A page without a crawl time has the score \<open>NULL\<close>, which sorts last and cannot be scanned into a number: the statement
  fails when its limit reaches such a page.
\<close>

definition nav_rows :: "search_env \<Rightarrow> search_query \<Rightarrow> string \<Rightarrow> int \<Rightarrow> (search_row \<Rightarrow> float64 option) \<Rightarrow> search_row list
    \<Rightarrow> search_row list query_outcome" where
  "nav_rows V q lang limit age pages =
     (let n = nav_parameters V q; found = filter (nav_matches n) pages; dated = filter (\<lambda>r. age r \<noteq> None) found
      in if length dated < length found \<and> length dated < nat limit then QueryError False False
         else Rows (map (\<lambda>r. r\<lparr>sr_score := nav_score V n lang (case age r of Some a \<Rightarrow> a | None \<Rightarrow> 0) r\<rparr>) dated))"

subsection \<open>Domains that hold several tokens\<close>

definition domain_tokens :: "search_query \<Rightarrow> string list" where
  "domain_tokens q =
     filter (\<lambda>t. 3 \<le> length t) (sq_tokens q @ (if sq_site q \<noteq> [] \<and> 3 \<le> length (sq_site q) then [sq_site q] else []))"

definition domain_match_count :: "string list \<Rightarrow> search_row \<Rightarrow> nat" where
  "domain_match_count ts r = length (filter (\<lambda>t. sql_like (sql_lower (sr_domain r)) (''%'' @ t @ ''%'')) ts)"

definition search_domain_match_candidates :: "search_query \<Rightarrow> int \<Rightarrow> search_row list \<Rightarrow> search_candidate list" where
  "search_domain_match_candidates q limit pages =
     (let ts = domain_tokens q
      in if limit \<le> 0 \<or> length (sq_tokens q) < 2 \<or> length ts < 2 then []
         else map (\<lambda>r. scan_row RelaxedMode False (r\<lparr>sr_score := 500, sr_clicks := 0\<rparr>))
                (take (nat limit) (sort_key (\<lambda>r. (- int (domain_match_count ts r), case sr_crawled r of Some t \<Rightarrow> - t | None \<Rightarrow> 1))
                   (filter (\<lambda>r. 2 \<le> domain_match_count ts r) pages))))"

subsection \<open>The texts of the results\<close>

text \<open>\<open>loadResultBodies\<close>: the first 4000 characters of the pages it asks for; without an answer no candidate has a text.\<close>

definition result_bodies :: "db_error option \<Rightarrow> int set \<Rightarrow> page_row table \<Rightarrow> int \<Rightarrow> string option" where
  "result_bodies e ids pages i =
     (if e \<noteq> None \<or> i \<notin> ids then None
      else map_option (\<lambda>r. runes_string (take 4000 (rune_list (pc_content (pw_cols r))))) (lookup_row pw_id i pages))"

definition load_result_bodies :: "db_error option \<Rightarrow> page_row table \<Rightarrow> search_candidate list \<Rightarrow> search_candidate list" where
  "load_result_bodies e pages cs = map (with_body (result_bodies e (sc_id ` set cs) pages)) cs"

subsection \<open>The official site comes first\<close>

lemma first_of_sort:
  assumes "x \<in> set xs"
  obtains y ys where "sort_key f xs = y # ys" "y \<in> set xs" "f y \<le> f x"
proof (cases "sort_key f xs")
  case Nil
  then show ?thesis using assms by (metis length_greater_0_conv length_pos_if_in_set length_sort list.size(3) not_less_zero)
next
  case (Cons y ys)
  have "sorted (map f (y # ys))" using sorted_sort_key [of f xs] Cons by simp
  moreover have "x \<in> set (y # ys)" "y \<in> set xs" using assms Cons by (metis set_sort, metis list.set_intros(1) set_sort)
  ultimately show ?thesis using that [OF Cons] by auto
qed

lemma lower_slash: "lower_char c = CHR ''/'' \<longleftrightarrow> c = CHR ''/''"
proof (cases "ascii_upper c")
  case True
  then have "byte (lower_char c) \<noteq> byte (CHR ''/'')" by (auto simp: lower_char_def ascii_upper_def)
  moreover have "c \<noteq> CHR ''/''" using True by (auto simp: ascii_upper_def)
  ultimately show ?thesis by auto
qed (simp add: lower_char_def)

lemma slashes_lower: "slashes (sql_lower s) = slashes s"
  by (induction s) (simp_all add: slashes_def sql_lower_def lower_slash)

lemma tenths_nonneg:
  assumes "0 \<le> x"
  shows "0 \<le> tenths x"
proof -
  have "0 \<le> (if b \<and> odd k then k - 1 else k)" if "0 \<le> k" for k :: int and b using that by (auto elim!: oddE)
  moreover have "0 \<le> \<lfloor>x * 10 + 1/2\<rfloor>" using assms by (simp add: le_floor_iff)
  ultimately show ?thesis unfolding tenths_def Let_def by (intro divide_nonneg_pos) (simp_all only: of_int_0_le_iff zero_less_numeral)
qed

lemma tenths_le: "tenths x \<le> x + 1 / 20"
  unfolding tenths_def Let_def using of_int_floor_le [of "x * 10 + 1/2"] by auto

text \<open>The home page of the site: its host is the domain of the query, and holds the name the query looks for.\<close>

definition official :: "nav_query \<Rightarrow> search_row \<Rightarrow> bool" where
  "official n r \<longleftrightarrow> nq_exact n \<noteq> [] \<and> nq_term n \<noteq> [] \<and> sql_like (nq_exact n) (nq_like n) \<and> CHR ''/'' \<notin> set (nq_exact n)
     \<and> sql_lower (sr_domain r) = nq_exact n \<and> sql_lower (sr_url r) = ''https://'' @ nq_exact n @ ''/''"

lemma official_score:
  assumes "official n r" "0 \<le> se_language_boost V"
  shows "4800 \<le> nav_score V n lang age r"
proof -
  have "slashes (sr_url r) \<le> 3"
    using assms(1) slashes_lower [of "sr_url r"] by (simp add: official_def slashes_def count_list_0_iff)
  moreover have "0 \<le> tenths (se_language_boost V * 0.1)" using assms(2) by (intro tenths_nonneg) simp
  ultimately show ?thesis using assms(1) by (simp add: nav_score_def Let_def bonus_def official_def)
qed

lemma outside_score:
  assumes "\<not> in_site n (sr_domain r)" "0 \<le> age"
  shows "nav_score V n lang age r \<le> 4320 + max 0 (tenths (se_language_boost V * 0.1))"
proof -
  have "nav_score V n lang age r
    \<le> 0 + 0 + 2000 + 1200 + 220 + 160 + 120 + 100 + 500 + 20 + max 0 (tenths (se_language_boost V * 0.1))"
    using assms unfolding nav_score_def Let_def by (intro add_mono) (simp_all add: bonus_def in_site_def)
  then show ?thesis by simp
qed


definition stored_row :: "int \<Rightarrow> rawurl \<Rightarrow> domain \<Rightarrow> search_row" where
  "stored_row i u d = \<lparr>sr_id = i, sr_url = u, sr_title = ''antel'', sr_h1 = ''antel'', sr_h2 = ''antel'', sr_desc = [], sr_snippet = None,
     sr_domain = d, sr_language = ''es'', sr_region = [], sr_crawled = Some 5, sr_published = None, sr_updated = None, sr_score = 0,
     sr_content_len = 10, sr_schema_type = None, sr_schema_image = None, sr_schema_author = None, sr_schema_keywords = None,
     sr_schema_rating = None, sr_refdoms = 0, sr_pagerank = 1, sr_clicks = 2\<rparr>"

definition site_query :: search_query where
  "site_query = \<lparr>sq_raw = ''antel'', sq_lowered = ''antel'', sq_normalized = ''antel'', sq_tokens = [''antel''], sq_fts_tokens = [''antel''],
     sq_phrase_tokens = [''antel''], sq_nav = ''antel'', sq_domain = ''antel.com.uy'', sq_intent = Navigational, sq_idf = Map.empty,
     sq_site = [], sq_platform = [], sq_fresh = False, sq_date = False\<rparr>"


end
