(* ===== verification/Server.thy ===== *)
theory Server
  imports Api
begin

text \<open>
  The routes of the two nodes (\<open>src/internal/api/server.go\<close>) and the multiplexer of \<open>net/http\<close> that
  resolves a request to a handler: the path is cleaned (a path that changes is redirected), its segments are decoded and
  matched, a literal segment before a wildcard, and \<open>GET\<close> serves \<open>HEAD\<close>. Paths are as sent, with their
  escapes; requests of the method \<open>CONNECT\<close>, which no route has, are not considered.
\<close>

subsection \<open>Routes\<close>

datatype server_mode = ModeSearch | ModeCrawler

datatype endpoint = HealthCheck | GetStats | SearchPagesH | SearchImagesH | InteractH | GetPageH | LookupPageH | GetOutlinksH | GetBacklinksH
  | CrawlURLs | GetQueue | ListSeeds | AddSeed | DeleteSeed | StartCrawler | StopCrawler | CrawlerStatus
  | ListInterests | AddInterest | DeleteInterest | IngestPage | IngestBatch | UpdateRankings

datatype segment = Literal string | Wildcard

type_synonym route = "string \<times> segment list \<times> endpoint"

text \<open>\<open>mux.HandleFunc(pattern, h)\<close>: the pattern is a method, a space and a path.\<close>

definition pattern_segment :: "string \<Rightarrow> segment" where
  "pattern_segment s = (if has_prefix s ''{'' then Wildcard else Literal s)"

definition handle_func :: "string \<Rightarrow> endpoint \<Rightarrow> route" where
  "handle_func pattern h =
     (case split_byte pattern CHR '' '' of
        [m, p] \<Rightarrow> (m, map pattern_segment (drop 1 (split_byte p CHR ''/'')), h)
      | _ \<Rightarrow> ([], [], h))"

definition register_search_routes :: "route list" where
  "register_search_routes =
     [handle_func ''GET /api/v1/search'' SearchPagesH, handle_func ''GET /api/v1/images/search'' SearchImagesH,
      handle_func ''POST /api/v1/interact'' InteractH, handle_func ''GET /api/v1/pages/{id}'' GetPageH,
      handle_func ''GET /api/v1/pages/lookup'' LookupPageH, handle_func ''GET /api/v1/pages/{id}/outlinks'' GetOutlinksH,
      handle_func ''GET /api/v1/backlinks'' GetBacklinksH]"

definition register_crawler_routes :: "route list" where
  "register_crawler_routes =
     [handle_func ''POST /api/v1/crawl'' CrawlURLs, handle_func ''GET /api/v1/queue'' GetQueue,
      handle_func ''GET /api/v1/seeds'' ListSeeds, handle_func ''POST /api/v1/seeds'' AddSeed,
      handle_func ''DELETE /api/v1/seeds/{url}'' DeleteSeed, handle_func ''POST /api/v1/crawler/start'' StartCrawler,
      handle_func ''POST /api/v1/crawler/stop'' StopCrawler, handle_func ''GET /api/v1/crawler/status'' CrawlerStatus,
      handle_func ''GET /api/v1/interests'' ListInterests, handle_func ''POST /api/v1/interests'' AddInterest,
      handle_func ''DELETE /api/v1/interests/{term}'' DeleteInterest, handle_func ''POST /api/v1/ingest/page'' IngestPage,
      handle_func ''POST /api/v1/ingest/batch'' IngestBatch, handle_func ''POST /api/v1/maintenance/rank'' UpdateRankings]"

definition routes :: "server_mode \<Rightarrow> route list" where
  "routes mode =
     [handle_func ''GET /api/v1/health'' HealthCheck, handle_func ''GET /api/v1/stats'' GetStats]
     @ (case mode of ModeSearch \<Rightarrow> register_search_routes | ModeCrawler \<Rightarrow> register_crawler_routes)"

subsection \<open>The multiplexer\<close>

text \<open>\<open>path.Clean\<close> of a rooted path, as the list of its segments in reverse.\<close>

definition clean_segment :: "string \<Rightarrow> string list \<Rightarrow> string list" where
  "clean_segment s acc = (if s = [] \<or> s = ''.'' then acc else if s = ''..'' then drop 1 acc else s # acc)"

definition join_segments :: "string list \<Rightarrow> string" where
  "join_segments ss = concat (map (\<lambda>s. CHR ''/'' # s) ss)"

definition clean_url_path :: "string \<Rightarrow> string" where
  "clean_url_path p0 =
     (let p = (if has_prefix p0 ''/'' then p0 else CHR ''/'' # p0);
          ss = rev (fold clean_segment (split_byte p CHR ''/'') [])
      in if ss = [] then ''/'' else join_segments ss @ (if last p = CHR ''/'' then ''/'' else []))"

definition path_unescape :: "string \<Rightarrow> string" where
  "path_unescape s = (case unescape EncPath s of Some t \<Rightarrow> t | None \<Rightarrow> s)"

text \<open>The rest of the patterns that begin with a segment.\<close>

definition after :: "segment \<Rightarrow> (segment list \<times> endpoint) list \<Rightarrow> (segment list \<times> endpoint) list" where
  "after s es = map (\<lambda>(p, h). (tl p, h)) (filter (\<lambda>(p, h). p \<noteq> [] \<and> hd p = s) es)"

fun match_path :: "(segment list \<times> endpoint) list \<Rightarrow> string list \<Rightarrow> (endpoint \<times> string list) option" where
  "match_path es [] = map_option (\<lambda>(p, h). (h, [])) (find (\<lambda>(p, h). p = []) es)"
| "match_path es (s # ss) =
     (let seg = (if s = [] then ''/'' else path_unescape s)
      in case match_path (after (Literal seg) es) ss of
           Some r \<Rightarrow> Some r
         | None \<Rightarrow> if seg = ''/'' then None
                   else map_option (\<lambda>(h, vs). (h, seg # vs)) (match_path (after Wildcard es) ss))"

definition match_method :: "route list \<Rightarrow> string \<Rightarrow> string list \<Rightarrow> (endpoint \<times> string list) option" where
  "match_method rs m ss = match_path (map snd (filter (\<lambda>r. fst r = m) rs)) ss"

datatype dispatched = Redirect string | Routed endpoint "string list" | WrongMethod | NoRoute

definition dispatch :: "server_mode \<Rightarrow> string \<Rightarrow> string \<Rightarrow> dispatched" where
  "dispatch mode m path =
     (let rs = routes mode; p = clean_url_path path; ss = split_byte (drop 1 p) CHR ''/'';
          found = (case match_method rs m ss of Some r \<Rightarrow> Some r | None \<Rightarrow> if m = ''HEAD'' then match_method rs ''GET'' ss else None)
      in if p \<noteq> path then Redirect p
         else (case found of
                 Some (h, vs) \<Rightarrow> Routed h vs
               | None \<Rightarrow> if list_ex (\<lambda>m'. match_method rs m' ss \<noteq> None) [''GET'', ''POST'', ''DELETE''] then WrongMethod else NoRoute))"

subsection \<open>Facts\<close>

lemma match_path_endpoint: "match_path es ss = Some (h, vs) \<Longrightarrow> \<exists>p. (p, h) \<in> set es \<and> length vs \<le> count_list p Wildcard"
proof (induction es ss arbitrary: h vs rule: match_path.induct)
  case (1 es)
  then show ?case by (auto simp: find_Some_iff) (metis nth_mem)
next
  case (2 es s ss)
  let ?seg = "if s = [] then ''/'' else path_unescape s"
  show ?case
  proof (cases "match_path (after (Literal ?seg) es) ss")
    case (Some r)
    then have "match_path (after (Literal ?seg) es) ss = Some (h, vs)" using 2(3) by simp
    from 2(1) [OF refl this] obtain p where "(p, h) \<in> set (after (Literal ?seg) es)" "length vs \<le> count_list p Wildcard" by blast
    then show ?thesis by (auto simp: after_def) (metis count_list.simps(2) list.exhaust_sel trans_le_add1)
  next
    case None
    then obtain vs' where v: "?seg \<noteq> ''/''" "match_path (after Wildcard es) ss = Some (h, vs')" "vs = ?seg # vs'"
      using 2(3) by (auto simp: Let_def split: if_splits)
    from 2(2) [OF refl None v(1,2)] obtain p where p: "(p, h) \<in> set (after Wildcard es)" "length vs' \<le> count_list p Wildcard" by blast
    then obtain q where "(q, h) \<in> set es" "q = Wildcard # p" by (auto simp: after_def) (metis list.collapse)
    then show ?thesis using p(2) v(3) by auto
  qed
qed

lemma dispatch_routed:
  assumes "dispatch mode m path = Routed h vs"
  shows "\<exists>m' p. (m', p, h) \<in> set (routes mode) \<and> length vs \<le> count_list p Wildcard"
proof -
  have "match_method (routes mode) m' ss = Some (h, vs) \<Longrightarrow> ?thesis" for m' ss
    unfolding match_method_def by (drule match_path_endpoint) (clarsimp, blast)
  then show ?thesis using assms by (auto simp: dispatch_def Let_def split: if_splits option.splits)
qed

lemma split_byte_none: "c \<notin> set s \<Longrightarrow> split_byte s c = [s]"
  by (induction s) auto

text \<open>
  A search node routes no request to a handler of the crawler node, whatever its method and path: nothing it serves starts or stops the
  crawler, queues a URL, changes a seed or an interest, stores a page or recomputes the ranks.
\<close>

theorem search_node_reads_only:
  "case dispatch ModeSearch m path of
     Routed h vs \<Rightarrow> h \<in> {HealthCheck, GetStats, SearchPagesH, SearchImagesH, InteractH, GetPageH, LookupPageH, GetOutlinksH, GetBacklinksH}
       \<and> length vs \<le> 1
   | _ \<Rightarrow> True"
proof (cases "dispatch ModeSearch m path")
  case (Routed h vs)
  have "routes ModeSearch = [(''GET'', map Literal [''api'', ''v1'', ''health''], HealthCheck), (''GET'', map Literal [''api'', ''v1'', ''stats''], GetStats),
      (''GET'', map Literal [''api'', ''v1'', ''search''], SearchPagesH), (''GET'', map Literal [''api'', ''v1'', ''images'', ''search''], SearchImagesH),
      (''POST'', map Literal [''api'', ''v1'', ''interact''], InteractH), (''GET'', map Literal [''api'', ''v1'', ''pages''] @ [Wildcard], GetPageH),
      (''GET'', map Literal [''api'', ''v1'', ''pages'', ''lookup''], LookupPageH),
      (''GET'', map Literal [''api'', ''v1'', ''pages''] @ [Wildcard, Literal ''outlinks''], GetOutlinksH),
      (''GET'', map Literal [''api'', ''v1'', ''backlinks''], GetBacklinksH)]" by code_simp
  with dispatch_routed [OF Routed] show ?thesis by (auto simp: Routed)
qed simp_all

text \<open>A client escapes every byte of a URL but letters, digits and \<open>-_.~\<close>.\<close>

definition uri_component :: "string \<Rightarrow> string" where
  "uri_component s =
     concat (map (\<lambda>c. if ascii_alnum c \<or> c \<in> set ''-_.~'' then [c] else [CHR ''%'', upper_hex (byte c div 16), upper_hex (byte c mod 16)]) s)"

lemma unescape_component: "unescape EncPath (uri_component s) = Some s"
proof (induction s)
  case (Cons c s)
  have h: "hex_digit (upper_hex (byte c div 16))" "hex_digit (upper_hex (byte c mod 16))"
    "unhex (upper_hex (byte c div 16)) = byte c div 16" "unhex (upper_hex (byte c mod 16)) = byte c mod 16"
    using hex_round_trip [of "byte c div 16"] hex_round_trip [of "byte c mod 16"]
      less_mult_imp_div_less [of "byte c" 16 16] byte_lt [of c] by auto
  have "\<not> ascii_alnum CHR ''%''" by (simp add: ascii_alnum_def ascii_upper_def ascii_lower_def ascii_digit_def)
  then show ?case using Cons h by (auto simp: uri_component_def char_of_hex Let_def)
qed (simp add: uri_component_def)

lemma component_no_slash: "CHR ''/'' \<notin> set (uri_component s)"
proof -
  have "upper_hex n \<noteq> CHR ''/''" if "n < 16" for n
    using hex_round_trip [OF that] by (auto simp: hex_digit_def ascii_digit_def)
  moreover have "byte c div 16 < 16" for c using byte_lt [of c] by (simp add: less_mult_imp_div_less)
  ultimately have "upper_hex (byte c div 16) \<noteq> CHR ''/''" "upper_hex (byte c mod 16) \<noteq> CHR ''/''" for c by simp_all
  moreover have "\<not> ascii_alnum CHR ''/''" by (simp add: ascii_alnum_def ascii_upper_def ascii_lower_def ascii_digit_def)
  ultimately show ?thesis by (fastforce simp: uri_component_def split: if_splits)
qed

lemma component_plain: "uri_component s = t \<Longrightarrow> unescape EncPath t = Some s"
  using unescape_component by blast

lemma dispatch_delete_seed:
  assumes "u \<notin> {[], ''.'', ''..'', ''/''}"
  shows "dispatch ModeCrawler ''DELETE'' (''/api/v1/seeds/'' @ uri_component u) = Routed DeleteSeed [u]"
proof -
  let ?x = "uri_component u"
  have x: "?x \<noteq> []" "?x \<noteq> ''.''" "?x \<noteq> ''..''" "CHR ''/'' \<notin> set ?x"
    using assms component_plain [of u] component_no_slash by auto
  have split: "split_byte (''/api/v1/seeds/'' @ ?x) CHR ''/'' = [[], ''api'', ''v1'', ''seeds'', ?x]"
    using split_byte_none [OF x(4)] by simp
  have clean: "clean_url_path (''/api/v1/seeds/'' @ ?x) = ''/api/v1/seeds/'' @ ?x"
    unfolding clean_url_path_def has_prefix_def using x split by (auto simp: clean_segment_def join_segments_def dest: last_in_set)
  have seg: "path_unescape ?x = u" by (simp add: path_unescape_def unescape_component)
  have plain: "path_unescape ''api'' = ''api''" "path_unescape ''v1'' = ''v1''" "path_unescape ''seeds'' = ''seeds''" by code_simp+
  have deletes: "map snd (filter (\<lambda>r. fst r = ''DELETE'') (routes ModeCrawler))
      = [([Literal ''api'', Literal ''v1'', Literal ''seeds'', Wildcard], DeleteSeed), ([Literal ''api'', Literal ''v1'', Literal ''interests'', Wildcard], DeleteInterest)]"
    by code_simp
  have "match_method (routes ModeCrawler) ''DELETE'' [''api'', ''v1'', ''seeds'', ?x] = Some (DeleteSeed, [u])"
    unfolding match_method_def deletes using x assms by (simp add: Let_def after_def seg plain)
  then show ?thesis unfolding dispatch_def Let_def clean using split by simp
qed

text \<open>
  C39. A seed can be deleted by its address: \<open>DELETE /api/v1/seeds/\<close> followed by the escaped URL reaches the handler of seeds with that URL, which
  answers 200 and leaves exactly the other seeds. A URL has more than dots and a slash.
\<close>

theorem seed_deleted_by_url:
  assumes "u \<notin> {[], ''.'', ''..'', ''/''}"
  shows "case dispatch ModeCrawler ''DELETE'' (''/api/v1/seeds/'' @ uri_component u) of
      Routed DeleteSeed [v] \<Rightarrow> (case delete_seed_handler None v seeds of
        (a, seeds') \<Rightarrow> a = Answered 200 u \<and> tb_rows seeds' = filter (\<lambda>r. se_url r \<noteq> u) (tb_rows seeds))
    | _ \<Rightarrow> False"
  unfolding dispatch_delete_seed [OF assms] using assms by (simp add: delete_seed_handler_def delete_seed_url_def delete_where_def)

theorem seed_deleted_by_url_witness:
  "case dispatch ModeCrawler ''DELETE'' ''/api/v1/seeds/https%3A%2F%2Flobste.rs%2F'' of
      Routed DeleteSeed [v] \<Rightarrow> (case delete_seed_handler None v empty_table of
        (a, seeds') \<Rightarrow> a = Answered 200 ''https://lobste.rs/'' \<and> tb_rows seeds' = filter (\<lambda>r. se_url r \<noteq> ''https://lobste.rs/'') (tb_rows empty_table))
    | _ \<Rightarrow> False"
proof -
  have u: "''/api/v1/seeds/'' @ uri_component ''https://lobste.rs/'' = ''/api/v1/seeds/https%3A%2F%2Flobste.rs%2F''" by code_simp
  have "''https://lobste.rs/'' \<notin> {[], ''.'', ''..'', ''/''}" by simp
  from seed_deleted_by_url [OF this, of empty_table] show ?thesis unfolding u .
qed

text \<open>
  The documented call with a domain reaches the same handler, answers 200 and deletes nothing.
\<close>

lemma delete_by_domain_keeps_seed:
  assumes "tb_rows seeds = [s]" "se_url s = ''https://lobste.rs/''"
  shows "dispatch ModeCrawler ''DELETE'' ''/api/v1/seeds/lobste.rs'' = Routed DeleteSeed [''lobste.rs'']
    \<and> delete_seed_handler None ''lobste.rs'' seeds = (Answered 200 ''lobste.rs'', seeds)"
proof -
  have "''/api/v1/seeds/'' @ uri_component ''lobste.rs'' = ''/api/v1/seeds/lobste.rs''" by code_simp
  then show ?thesis using dispatch_delete_seed [of "''lobste.rs''"] assms
    by (simp add: delete_seed_handler_def delete_seed_url_def delete_where_def)
qed

end
