(* ===== verification/Lifecycle.thy ===== *)
theory Lifecycle
  imports Api
begin

text \<open>
  Starting and stopping the crawl engine (\<open>Start\<close> and \<open>Stop\<close> of \<open>internal/crawler/engine.go\<close>) with the
  goroutines that the API handlers start for them. Each call of \<open>Start\<close> that passes its check starts a generation
  of workers with a context of its own; \<open>e.cancel\<close> is the cancel function of one generation. Other goroutines may run
  between the check of the status and the rest of the call, and while \<open>Stop\<close> waits for the workers.
\<close>

record lifecycle =
  lf_status :: engine_status
  lf_cancel :: "nat option"
  lf_next :: nat
  lf_live :: "nat \<Rightarrow> nat"
  lf_cancelled :: "nat set"
  lf_starting :: nat
  lf_stopping :: nat
  lf_waiting :: nat
  lf_renderer_open :: bool

definition new_lifecycle :: lifecycle where
  "new_lifecycle = \<lparr>lf_status = Idle, lf_cancel = None, lf_next = 0, lf_live = (\<lambda>_. 0), lf_cancelled = {}, lf_starting = 0,
     lf_stopping = 0, lf_waiting = 0, lf_renderer_open = True\<rparr>"

text \<open>\<open>Start\<close> after its check: the new context replaces the cancel function, and the workers are launched.\<close>

definition launch :: "nat \<Rightarrow> lifecycle \<Rightarrow> lifecycle" where
  "launch workers s = s\<lparr>lf_cancel := Some (lf_next s), lf_status := Running, lf_next := lf_next s + 1,
     lf_live := (lf_live s)(lf_next s := workers)\<rparr>"

text \<open>\<open>Stop\<close> after its check, up to waiting for the workers, and what it does once none is left.\<close>

definition cancel_workers :: "lifecycle \<Rightarrow> lifecycle" where
  "cancel_workers s = s\<lparr>lf_status := Stopping,
     lf_cancelled := (case lf_cancel s of Some g \<Rightarrow> insert g (lf_cancelled s) | None \<Rightarrow> lf_cancelled s)\<rparr>"

definition engine_stopped :: "lifecycle \<Rightarrow> lifecycle" where
  "engine_stopped s = s\<lparr>lf_renderer_open := False, lf_status := Idle\<rparr>"

inductive life_step :: "nat \<Rightarrow> lifecycle \<Rightarrow> lifecycle \<Rightarrow> bool" for workers where
  start_checked: "lf_status s \<noteq> Running \<Longrightarrow> life_step workers s (s\<lparr>lf_starting := lf_starting s + 1\<rparr>)"
| start_launched: "0 < lf_starting s \<Longrightarrow> life_step workers s (launch workers (s\<lparr>lf_starting := lf_starting s - 1\<rparr>))"
| stop_checked: "lf_status s = Running \<Longrightarrow> life_step workers s (s\<lparr>lf_stopping := lf_stopping s + 1\<rparr>)"
| stop_cancelled: "0 < lf_stopping s \<Longrightarrow>
    life_step workers s (cancel_workers (s\<lparr>lf_stopping := lf_stopping s - 1, lf_waiting := lf_waiting s + 1\<rparr>))"
| worker_exits: "0 < lf_live s g \<Longrightarrow> g \<in> lf_cancelled s \<Longrightarrow>
    life_step workers s (s\<lparr>lf_live := (lf_live s)(g := lf_live s g - 1)\<rparr>)"
| stop_finished: "0 < lf_waiting s \<Longrightarrow> \<forall>g. lf_live s g = 0 \<Longrightarrow>
    life_step workers s (engine_stopped (s\<lparr>lf_waiting := lf_waiting s - 1\<rparr>))"

abbreviation life_steps :: "nat \<Rightarrow> lifecycle \<Rightarrow> lifecycle \<Rightarrow> bool" where
  "life_steps workers \<equiv> (life_step workers)\<^sup>*\<^sup>*"

inductive_cases life_stepE: "life_step workers s t"

subsection \<open>Overlapping starts\<close>

text \<open>A generation that runs, is not cancelled and whose cancel function is lost.\<close>

definition orphaned :: "nat \<Rightarrow> lifecycle \<Rightarrow> bool" where
  "orphaned g s \<longleftrightarrow> 0 < lf_live s g \<and> g \<notin> lf_cancelled s \<and> lf_cancel s \<noteq> Some g \<and> g < lf_next s"

lemma orphaned_step: "life_step workers s t \<Longrightarrow> orphaned g s \<Longrightarrow> orphaned g t"
  by (erule life_stepE) (auto simp: orphaned_def launch_def cancel_workers_def engine_stopped_def split: option.splits)

lemma orphaned_forever: "life_steps workers s t \<Longrightarrow> orphaned g s \<Longrightarrow> orphaned g t"
  by (induction rule: rtranclp_induct) (auto intro: orphaned_step)

lemma orphaned_waits: "orphaned g s \<Longrightarrow> life_step workers s t \<Longrightarrow> lf_waiting s \<le> lf_waiting t"
  by (erule life_stepE) (auto simp: orphaned_def launch_def cancel_workers_def engine_stopped_def)

lemma orphaned_waits_forever: "life_steps workers s t \<Longrightarrow> orphaned g s \<Longrightarrow> lf_waiting s \<le> lf_waiting t"
proof (induction rule: rtranclp_induct)
  case (step u v)
  then show ?case using orphaned_waits [OF orphaned_forever [OF step.hyps(1)] step.hyps(2)] by fastforce
qed simp

lemma two_starts:
  assumes "0 < workers"
  shows "\<exists>s. life_steps workers new_lifecycle s \<and> orphaned 0 s \<and> lf_status s = Running \<and> lf_waiting s = 0"
proof -
  let ?a = "new_lifecycle\<lparr>lf_starting := 1\<rparr>" and ?b = "new_lifecycle\<lparr>lf_starting := 2\<rparr>"
  let ?c = "launch workers (?b\<lparr>lf_starting := 1\<rparr>)"
  let ?d = "launch workers (?c\<lparr>lf_starting := 0\<rparr>)"
  have a: "life_step workers new_lifecycle ?a" using start_checked [of new_lifecycle workers] by (simp add: new_lifecycle_def)
  have b: "life_step workers ?a ?b" using start_checked [of ?a workers] by (simp add: new_lifecycle_def numeral_2_eq_2)
  have c: "life_step workers ?b ?c" using start_launched [of ?b workers] by simp
  have d: "life_step workers ?c ?d" using start_launched [of ?c workers] by (simp add: launch_def)
  from a have "life_steps workers new_lifecycle ?a" by (rule r_into_rtranclp)
  from this b have "life_steps workers new_lifecycle ?b" by (rule rtranclp.rtrancl_into_rtrancl)
  from this c have "life_steps workers new_lifecycle ?c" by (rule rtranclp.rtrancl_into_rtrancl)
  from this d have "life_steps workers new_lifecycle ?d" by (rule rtranclp.rtrancl_into_rtrancl)
  moreover have "orphaned 0 ?d \<and> lf_status ?d = Running \<and> lf_waiting ?d = 0"
    using assms by (simp add: orphaned_def launch_def new_lifecycle_def)
  ultimately show ?thesis by blast
qed

text \<open>
  Two start requests that overlap leave the engine in a state from which no call of \<open>Stop\<close> ever returns: both pass
  the check of the status, the second overwrites the cancel function of the first, and the workers of the first can
  no longer be cancelled, whatever is called afterwards.
\<close>

theorem overlapping_starts_never_stop:
  assumes "0 < workers"
  shows "\<exists>s. life_steps workers new_lifecycle s \<and> lf_status s = Running
    \<and> (\<forall>t. life_steps workers s t \<longrightarrow> 0 < lf_live t 0 \<and> (\<forall>u. life_step workers t u \<longrightarrow> lf_waiting t \<le> lf_waiting u))"
proof -
  obtain s where s: "life_steps workers new_lifecycle s" "orphaned 0 s" "lf_status s = Running" using two_starts [OF assms] by blast
  have "0 < lf_live t 0 \<and> (\<forall>u. life_step workers t u \<longrightarrow> lf_waiting t \<le> lf_waiting u)" if "life_steps workers s t" for t
    using orphaned_forever [OF that s(2)] orphaned_waits by (auto simp: orphaned_def)
  then show ?thesis using s(1,3) by blast
qed

theorem overlapping_starts_never_stop_witness:
  "\<exists>s. life_steps 10 new_lifecycle s \<and> lf_status s = Running
    \<and> (\<forall>t. life_steps 10 s t \<longrightarrow> 0 < lf_live t 0 \<and> (\<forall>u. life_step 10 t u \<longrightarrow> lf_waiting t \<le> lf_waiting u))"
  by (rule overlapping_starts_never_stop) simp

subsection \<open>One call at a time\<close>

text \<open>
  Runs in which \<open>Start\<close> is only called when the engine is idle and no other call is under way, and in one step.
\<close>

inductive calm_step :: "nat \<Rightarrow> lifecycle \<Rightarrow> lifecycle \<Rightarrow> bool" for workers where
  calm_start: "lf_status s = Idle \<Longrightarrow> lf_starting s = 0 \<Longrightarrow> lf_stopping s = 0 \<Longrightarrow> lf_waiting s = 0 \<Longrightarrow> calm_step workers s (launch workers s)"
| calm_other: "life_step workers s t \<Longrightarrow> lf_starting s = 0 \<Longrightarrow> lf_starting t = 0 \<Longrightarrow> calm_step workers s t"

definition stoppable :: "lifecycle \<Rightarrow> bool" where
  "stoppable s \<longleftrightarrow> lf_starting s = 0 \<and> (\<forall>g. 0 < lf_live s g \<longrightarrow> lf_cancel s = Some g)
     \<and> (lf_status s = Idle \<longrightarrow> (\<forall>g. lf_live s g = 0))
     \<and> (0 < lf_waiting s \<longrightarrow> (\<forall>g. 0 < lf_live s g \<longrightarrow> g \<in> lf_cancelled s))
     \<and> (\<forall>g. 0 < lf_live s g \<longrightarrow> g < lf_next s) \<and> (\<forall>g \<in> lf_cancelled s. g < lf_next s)
     \<and> (\<forall>g. lf_cancel s = Some g \<longrightarrow> g < lf_next s)"

inductive_cases calm_stepE: "calm_step workers s t"

lemma stoppable_new: "stoppable new_lifecycle"
  by (simp add: stoppable_def new_lifecycle_def)

lemma live_unique: "stoppable s \<Longrightarrow> 0 < lf_live s g \<Longrightarrow> lf_cancel s = Some g"
  by (simp add: stoppable_def)

lemma stoppable_step: "calm_step workers s t \<Longrightarrow> stoppable s \<Longrightarrow> stoppable t"
proof (erule calm_stepE)
  assume "lf_status s = Idle" "lf_waiting s = 0" "t = launch workers s" "stoppable s"
  then show "stoppable t" by (auto simp: stoppable_def launch_def)
next
  assume step: "life_step workers s t" and calm: "lf_starting s = 0" "lf_starting t = 0" and s: "stoppable s"
  show "stoppable t"
    using step
  proof (cases rule: life_step.cases)
    case stop_cancelled
    then show ?thesis using s calm by (auto simp: stoppable_def cancel_workers_def split: option.split)
  next
    case (worker_exits g)
    then have "lf_live s h = 0" if "h \<noteq> g" for h using live_unique [OF s, of g] live_unique [OF s, of h] that by (cases "lf_live s h") auto
    with worker_exits s show ?thesis by (auto simp: stoppable_def)
  qed (use s calm in \<open>auto simp: stoppable_def engine_stopped_def\<close>)
qed

lemma stoppable_run: "(calm_step workers)\<^sup>*\<^sup>* new_lifecycle s \<Longrightarrow> stoppable s"
  by (induction rule: rtranclp_induct) (auto intro: stoppable_new stoppable_step)

lemma workers_leave:
  assumes "\<forall>h. 0 < lf_live s h \<longrightarrow> h = g" "g \<in> lf_cancelled s"
  shows "life_steps workers s (s\<lparr>lf_live := (\<lambda>_. 0)\<rparr>)"
  using assms
proof (induction "lf_live s g" arbitrary: s)
  case 0
  then have "lf_live s = (\<lambda>_. 0)" by (intro ext) (metis gr0I)
  then have "s\<lparr>lf_live := (\<lambda>_. 0)\<rparr> = s" by simp
  then show ?case by simp
next
  case (Suc n)
  let ?t = "s\<lparr>lf_live := (lf_live s)(g := lf_live s g - 1)\<rparr>"
  have "life_step workers s ?t" using Suc.hyps(2) Suc.prems(2) by (intro worker_exits) simp_all
  moreover have "life_steps workers ?t (?t\<lparr>lf_live := (\<lambda>_. 0)\<rparr>)"
    using Suc.hyps(2) Suc.prems by (intro Suc.hyps(1)) auto
  ultimately show ?case by (simp add: converse_rtranclp_into_rtranclp)
qed

text \<open>
  C36. As long as \<open>Start\<close> is only called on an idle engine, one call at a time, no worker ever runs that \<open>Stop\<close> does
  not cancel, and a call of \<open>Stop\<close> that waits can always return: the workers leave, and the engine is idle again.
\<close>

theorem calm_engine_stops:
  assumes "(calm_step workers)\<^sup>*\<^sup>* new_lifecycle s" "0 < lf_waiting s"
  shows "(\<forall>g. 0 < lf_live s g \<longrightarrow> g \<in> lf_cancelled s)
    \<and> (\<exists>t. life_steps workers s t \<and> lf_status t = Idle \<and> lf_live t = (\<lambda>_. 0) \<and> lf_waiting t < lf_waiting s)"
proof -
  have s: "stoppable s" by (rule stoppable_run [OF assms(1)])
  then have gone: "\<forall>g. 0 < lf_live s g \<longrightarrow> g \<in> lf_cancelled s" using assms(2) by (simp add: stoppable_def)
  have "life_steps workers s (s\<lparr>lf_live := (\<lambda>_. 0)\<rparr>)"
  proof (cases "\<exists>g. 0 < lf_live s g")
    case True
    then obtain g where g: "0 < lf_live s g" by blast
    have "h = g" if "0 < lf_live s h" for h using live_unique [OF s that] live_unique [OF s g] by simp
    then show ?thesis using gone g by (intro workers_leave) auto
  next
    case False
    then have "lf_live s = (\<lambda>_. 0)" by (intro ext) simp
    then have "s\<lparr>lf_live := (\<lambda>_. 0)\<rparr> = s" by simp
    then show ?thesis by simp
  qed
  moreover have "life_step workers (s\<lparr>lf_live := (\<lambda>_. 0)\<rparr>) (engine_stopped (s\<lparr>lf_live := (\<lambda>_. 0), lf_waiting := lf_waiting s - 1\<rparr>))"
    using stop_finished [of "s\<lparr>lf_live := (\<lambda>_. 0)\<rparr>" workers] assms(2) by simp
  ultimately have "life_steps workers s (engine_stopped (s\<lparr>lf_live := (\<lambda>_. 0), lf_waiting := lf_waiting s - 1\<rparr>))"
    by (rule rtranclp.rtrancl_into_rtrancl)
  then show ?thesis using gone assms(2) by (intro conjI exI [of _ "engine_stopped (s\<lparr>lf_live := (\<lambda>_. 0), lf_waiting := lf_waiting s - 1\<rparr>)"]) (simp_all add: engine_stopped_def)
qed

definition stopping_sample :: lifecycle where
  "stopping_sample = cancel_workers ((launch 4 new_lifecycle)\<lparr>lf_waiting := 1\<rparr>)"

lemma stopping_sample_calm: "(calm_step 4)\<^sup>*\<^sup>* new_lifecycle stopping_sample"
proof -
  let ?a = "launch 4 new_lifecycle" and ?b = "(launch 4 new_lifecycle)\<lparr>lf_stopping := 1\<rparr>"
  have a: "calm_step 4 new_lifecycle ?a" by (rule calm_start) (simp_all add: new_lifecycle_def)
  have b: "calm_step 4 ?a ?b"
    using stop_checked [of ?a 4] by (intro calm_other) (simp_all add: launch_def new_lifecycle_def)
  have c: "calm_step 4 ?b stopping_sample"
    using stop_cancelled [of ?b 4] by (intro calm_other) (simp_all add: stopping_sample_def cancel_workers_def launch_def new_lifecycle_def)
  from a have "(calm_step 4)\<^sup>*\<^sup>* new_lifecycle ?a" by (rule r_into_rtranclp)
  from this b have "(calm_step 4)\<^sup>*\<^sup>* new_lifecycle ?b" by (rule rtranclp.rtrancl_into_rtrancl)
  from this c show ?thesis by (rule rtranclp.rtrancl_into_rtrancl)
qed

theorem calm_engine_stops_witness:
  "\<exists>t. life_steps 4 stopping_sample t \<and> lf_status t = Idle \<and> lf_live t = (\<lambda>_. 0) \<and> lf_waiting t < lf_waiting stopping_sample"
  using calm_engine_stops [OF stopping_sample_calm] by (simp add: stopping_sample_def cancel_workers_def)

text \<open>\<open>Stop\<close> closes the renderer and nothing opens it again: after a restart every page that needs the browser fails.\<close>

lemma renderer_stays_closed: "life_step workers s t \<Longrightarrow> \<not> lf_renderer_open s \<Longrightarrow> \<not> lf_renderer_open t"
  by (erule life_stepE) (auto simp: launch_def cancel_workers_def engine_stopped_def)

end
