(* ===== verification/Background.thy ===== *)
theory Background
  imports BatchWriter DomainStats Scheduler DnsCache Proxy SpellCheck RateLimit
begin

text \<open>
  The goroutines that repeat an operation until they are told to stop: the flush of the batch writer and of the domain
  statistics, the scheduler, the pruning of the DNS cache and of the rate limiter, the health check of the proxies and the
  reload of the spell checker. \<open>work\<close> is the operation, with the clock, the faults and the orders of the maps it
  meets at that time; other goroutines change the same state between two rounds.
\<close>

subsection \<open>A loop around a ticker\<close>

datatype phase = Starting | Looping | Exited

record 's background =
  bg_phase :: phase
  bg_done :: bool
  bg_cancelled :: bool
  bg_state :: 's

definition launched :: "phase \<Rightarrow> 's \<Rightarrow> 's background" where
  "launched ph s = \<lparr>bg_phase = ph, bg_done = False, bg_cancelled = False, bg_state = s\<rparr>"

text \<open>
  A loop that begins \<open>Starting\<close> works once before the ticker, unless it may give up when its context ends. When a tick
  and the end are both ready, either may be taken.
\<close>

inductive loop_step :: "bool \<Rightarrow> ('s \<Rightarrow> 's \<Rightarrow> bool) \<Rightarrow> ('s \<Rightarrow> 's \<Rightarrow> bool) \<Rightarrow> 's background \<Rightarrow> 's background \<Rightarrow> bool"
  for gives_up work client where
  first: "bg_phase b = Starting \<Longrightarrow> work (bg_state b) s \<Longrightarrow> loop_step gives_up work client b (b\<lparr>bg_phase := Looping, bg_state := s\<rparr>)"
| give_up: "gives_up \<Longrightarrow> bg_phase b = Starting \<Longrightarrow> bg_cancelled b \<Longrightarrow> loop_step gives_up work client b (b\<lparr>bg_phase := Exited\<rparr>)"
| round: "bg_phase b = Looping \<Longrightarrow> work (bg_state b) s \<Longrightarrow> loop_step gives_up work client b (b\<lparr>bg_state := s\<rparr>)"
| exit: "bg_phase b = Looping \<Longrightarrow> bg_done b \<or> bg_cancelled b \<Longrightarrow> loop_step gives_up work client b (b\<lparr>bg_phase := Exited\<rparr>)"
| other: "client (bg_state b) s \<Longrightarrow> loop_step gives_up work client b (b\<lparr>bg_state := s\<rparr>)"
| close: "loop_step gives_up work client b (b\<lparr>bg_done := True\<rparr>)"
| cancel: "loop_step gives_up work client b (b\<lparr>bg_cancelled := True\<rparr>)"

inductive_cases loop_stepE: "loop_step gives_up work client b b'"

subsection \<open>The loops of the program\<close>

definition batch_writer_loop :: "flush_faults set \<Rightarrow> batch_writer \<times> batch_db \<Rightarrow> batch_writer \<times> batch_db \<Rightarrow> bool" where
  "batch_writer_loop Fs st st' \<longleftrightarrow> (\<exists>now F ks. F \<in> Fs \<and> st' = flush_batch now F ks st)"

definition domain_stats_loop :: "stats_collector \<times> domain_row table \<Rightarrow> stats_collector \<times> domain_row table \<Rightarrow> bool" where
  "domain_stats_loop st st' \<longleftrightarrow> (\<exists>now F ks. set ks = dom (fst st) \<and> distinct ks \<and> st' = flush_stats now F ks st)"

definition scheduler_loop :: "stdlib \<Rightarrow> (job \<Rightarrow> float64) \<Rightarrow> scheduler_config \<Rightarrow> 'b sched_state \<Rightarrow> 'b sched_state \<Rightarrow> bool" where
  "scheduler_loop E score cfg st st' \<longleftrightarrow> (\<exists>now F. st' = tick E score now F cfg st)"

definition dns_janitor :: "dns_cache \<Rightarrow> dns_cache \<Rightarrow> bool" where
  "dns_janitor c c' \<longleftrightarrow> (\<exists>now. c' = dns_prune now c)"

definition cleanup_loop :: "limiter \<Rightarrow> limiter \<Rightarrow> bool" where
  "cleanup_loop l l' \<longleftrightarrow> l' = limiter_cleanup l"

definition periodic_reload :: "spell_checker \<Rightarrow> spell_checker \<Rightarrow> bool" where
  "periodic_reload sc sc' \<longleftrightarrow> (\<exists>rows. sc' = load_vocabulary rows sc)"

definition proxy_monitor :: "proxy_client list \<Rightarrow> proxy_client list \<Rightarrow> bool" where
  "proxy_monitor pm pm' \<longleftrightarrow> (\<exists>resps. length resps = length pm \<and> pm' = check_all_proxies resps pm)"

text \<open>\<open>StartMonitor\<close> launches nothing for a single client.\<close>

definition start_monitor :: "proxy_client list \<Rightarrow> proxy_client list background option" where
  "start_monitor pm = (if monitored pm then Some (launched Looping pm) else None)"

definition start_scheduler :: "'b sched_state \<Rightarrow> 'b sched_state background" where
  "start_scheduler st = launched Starting st"

text \<open>
  \<open>close(ch)\<close> panics on a closed channel (\<open>None\<close>), so the batch writer and the statistics can be stopped once;
  the scheduler looks first.
\<close>

definition close_done :: "'s background \<Rightarrow> 's background option" where
  "close_done b = (if bg_done b then None else Some (b\<lparr>bg_done := True\<rparr>))"

definition stop_scheduler :: "'s background \<Rightarrow> 's background" where
  "stop_scheduler b = (case close_done b of None \<Rightarrow> b | Some b' \<Rightarrow> b')"

text \<open>The last part of \<open>Stop\<close>, after the loop has exited: a final flush, whose error is logged.\<close>

definition stop_batch_writer :: "gotime \<Rightarrow> flush_faults \<Rightarrow> rawurl list \<Rightarrow> (batch_writer \<times> batch_db) background \<Rightarrow> (batch_writer \<times> batch_db) option" where
  "stop_batch_writer now F ks b = (if bg_phase b = Exited then Some (flush_batch now F ks (bg_state b)) else None)"

definition stop_domain_stats :: "gotime \<Rightarrow> stats_faults \<Rightarrow> domain list \<Rightarrow> (stats_collector \<times> domain_row table) background
    \<Rightarrow> (stats_collector \<times> domain_row table) option" where
  "stop_domain_stats now F ks b = (if bg_phase b = Exited then Some (flush_stats now F ks (bg_state b)) else None)"

subsection \<open>What every loop keeps\<close>

locale periodic =
  fixes work client :: "'s \<Rightarrow> 's \<Rightarrow> bool" and inv :: "'s \<Rightarrow> bool"
  assumes work_inv: "work s s' \<Longrightarrow> inv s \<Longrightarrow> inv s'"
    and client_inv: "client s s' \<Longrightarrow> inv s \<Longrightarrow> inv s'"
begin

lemma step_inv: "loop_step g work client b b' \<Longrightarrow> inv (bg_state b) \<Longrightarrow> inv (bg_state b')"
  by (erule loop_stepE) (auto intro: work_inv client_inv)

lemma run_inv:
  assumes "(loop_step g work client)\<^sup>*\<^sup>* (launched ph s) b" "inv s"
  shows "inv (bg_state b)"
  using assms by (induction rule: rtranclp_induct) (auto simp: launched_def intro: step_inv)

lemma exited_for_good: "loop_step g work client b b' \<Longrightarrow> bg_phase b = Exited \<Longrightarrow> bg_phase b' = Exited \<and> (bg_state b' = bg_state b \<or> client (bg_state b) (bg_state b'))"
  by (erule loop_stepE) auto

end

subsection \<open>No page is lost\<close>

text \<open>The URLs of the buffered and of the stored pages.\<close>

definition saved :: "batch_writer \<times> batch_db \<Rightarrow> rawurl set" where
  "saved st = pg_url ` set (bw_pages (fst st)) \<union> pw_url ` set (tb_rows (bd_pages (snd st)))"

lemma merged_url: "pw_url (if c then merge_batch now p r else r) = pw_url r"
  by (simp add: merge_batch_def)

lemma write_row_urls:
  assumes "\<And>p. ff_page F p = None"
  shows "pw_url ` set (tb_rows (write_row now F p t)) = insert (pg_url p) (pw_url ` set (tb_rows t))"
proof -
  have w: "write_row now F p t = upsert pw_url (batch_row_of now) (merge_batch now) pg_url (default_mode p) t"
    by (simp add: write_row_def assms)
  show ?thesis
  proof (cases "pg_url p \<in> pw_url ` set (tb_rows t)")
    case True
    have "pw_url ` set (map (\<lambda>r. if pw_url r = pg_url p then merge_batch now (default_mode p) r else r) (tb_rows t)) = pw_url ` set (tb_rows t)"
      unfolding set_map image_image merged_url by (rule refl)
    then show ?thesis unfolding w using True by (simp add: upsert_def insert_absorb del: set_map)
  next
    case False
    then show ?thesis unfolding w by (simp add: upsert_def batch_row_of_def)
  qed
qed

lemma write_rows_urls:
  "(\<And>p. ff_page F p = None) \<Longrightarrow> pw_url ` set (tb_rows (fold (write_row now F) ps t)) = pg_url ` set ps \<union> pw_url ` set (tb_rows t)"
  by (induction ps arbitrary: t) (simp_all add: write_row_urls)

lemma flush_saves:
  assumes "\<And>p. ff_page F p = None"
  shows "saved (snd (flush_locked now F ks bw db)) = saved (bw, db)"
  using write_rows_urls [OF assms, of now "bw_pages bw" "bd_pages db"]
  by (auto simp: saved_def flush_locked_def finish_flush_def new_batch_writer_def Let_def split: option.splits if_splits)

lemma flush_when_saves: "(\<And>p. ff_page F p = None) \<Longrightarrow> saved (flush_when full now F ks st) = saved st"
  using flush_saves [of F now ks "fst st" "snd st"] by (simp add: flush_when_def)

text \<open>The calls of the workers, together with the set of the URLs written so far.\<close>

inductive batch_client :: "flush_faults set \<Rightarrow> rawurl set \<times> batch_writer \<times> batch_db \<Rightarrow> rawurl set \<times> batch_writer \<times> batch_db \<Rightarrow> bool"
  for Fs where
  page: "F \<in> Fs \<Longrightarrow> batch_client Fs (W, st) (insert (pg_url p) W, write_page now F ks p st)"
| links: "F \<in> Fs \<Longrightarrow> batch_client Fs (W, st) (W, write_links now F ks u ls st)"
| images: "F \<in> Fs \<Longrightarrow> batch_client Fs (W, st) (W, write_images now F ks ms st)"

definition batch_work :: "flush_faults set \<Rightarrow> rawurl set \<times> batch_writer \<times> batch_db \<Rightarrow> rawurl set \<times> batch_writer \<times> batch_db \<Rightarrow> bool" where
  "batch_work Fs x y \<longleftrightarrow> fst y = fst x \<and> batch_writer_loop Fs (snd x) (snd y)"

text \<open>Faults that concern a whole flush: no single row fails.\<close>

definition flush_level :: "flush_faults set" where
  "flush_level = {F. \<forall>p. ff_page F p = None}"

interpretation batches: periodic "batch_work flush_level" "batch_client flush_level" "\<lambda>x. fst x \<subseteq> saved (snd x)"
proof unfold_locales
  show "fst y \<subseteq> saved (snd y)" if "batch_work flush_level x y" "fst x \<subseteq> saved (snd x)" for x y
    using that by (auto simp: batch_work_def batch_writer_loop_def flush_batch_def flush_level_def flush_when_saves)
  show "fst y \<subseteq> saved (snd y)" if "batch_client flush_level x y" "fst x \<subseteq> saved (snd x)" for x y
    using that
  proof (cases rule: batch_client.cases)
    case (page F W st p now ks)
    then show ?thesis using that(2)
      by (auto simp: write_page_def flush_level_def flush_when_saves Let_def) (auto simp: saved_def)
  next
    case (links F W st now ks u ls)
    then show ?thesis using that(2)
      by (auto simp: write_links_def flush_level_def flush_when_saves Let_def) (auto simp: saved_def)
  next
    case (images F W st now ks ms)
    then show ?thesis using that(2)
      by (auto simp: write_images_def flush_level_def flush_when_saves Let_def) (auto simp: saved_def)
  qed
qed

text \<open>
  C27. Whatever the workers write while the batch writer flushes now and then, and however many of those flushes fail as a whole, once \<open>Stop\<close>
  has made its final flush without an error the buffer is empty and every page ever handed to the writer is stored.
\<close>

theorem written_pages_stored:
  assumes "(loop_step False (batch_work flush_level) (batch_client flush_level))\<^sup>*\<^sup>* (launched Looping ({}, new_batch_writer, db0)) b"
    and "stop_batch_writer now no_flush_faults ks (launched (bg_phase b) (snd (bg_state b))) = Some (bw, db)"
  shows "bw_pages bw = [] \<and> fst (bg_state b) \<subseteq> pw_url ` set (tb_rows (bd_pages db))"
proof -
  have kept: "fst (bg_state b) \<subseteq> saved (snd (bg_state b))" by (rule batches.run_inv [OF assms(1)]) simp
  have final: "(bw, db) = flush_batch now no_flush_faults ks (snd (bg_state b))"
    using assms(2) by (simp add: stop_batch_writer_def launched_def split: if_splits)
  have "saved (bw, db) = saved (snd (bg_state b))" unfolding final by (simp add: flush_batch_def flush_when_saves)
  moreover have "bw_pages bw = []"
    using arg_cong [OF final, of "\<lambda>x. bw_pages (fst x)"]
    by (simp add: flush_batch_def flush_when_def flush_locked_def finish_flush_def new_batch_writer_def Let_def split: if_splits)
  ultimately show ?thesis using kept by (simp add: saved_def [of "(bw, db)"])
qed

theorem written_pages_stored_witness:
  "\<exists>(b :: (rawurl set \<times> batch_writer \<times> batch_db) background) bw db. stop_batch_writer 9 no_flush_faults [] (launched (bg_phase b) (snd (bg_state b))) = Some (bw, db)
     \<and> ''u'' \<in> fst (bg_state b) \<and> fst (bg_state b) \<subseteq> pw_url ` set (tb_rows (bd_pages db))"
proof -
  let ?step = "loop_step False (batch_work flush_level) (batch_client flush_level)"
  let ?b0 = "launched Looping ({}, new_batch_writer, empty_batch_db)"
  let ?s = "({''u''}, write_page 5 no_flush_faults [] (page0\<lparr>pg_url := ''u''\<rparr>) (new_batch_writer, empty_batch_db))"
  let ?b1 = "?b0\<lparr>bg_state := ?s\<rparr>"
  let ?b2 = "?b1\<lparr>bg_done := True\<rparr>"
  let ?b3 = "?b2\<lparr>bg_phase := Exited\<rparr>"
  have "no_flush_faults \<in> flush_level" by (simp add: flush_level_def)
  from batch_client.page [OF this, of "{}" "(new_batch_writer, empty_batch_db)" "page0\<lparr>pg_url := ''u''\<rparr>" 5 "[]"]
  have "batch_client flush_level ({}, new_batch_writer, empty_batch_db) ?s" by simp
  then have "?step ?b0 ?b1" by (intro loop_step.other) (simp add: launched_def)
  moreover have "?step ?b1 ?b2" by (rule loop_step.close)
  moreover have "?step ?b2 ?b3" by (rule loop_step.exit) (simp_all add: launched_def)
  ultimately have run: "?step\<^sup>*\<^sup>* ?b0 ?b3" by (meson converse_rtranclp_into_rtranclp rtranclp.rtrancl_refl)
  obtain bw db where stop: "stop_batch_writer 9 no_flush_faults [] (launched (bg_phase ?b3) (snd (bg_state ?b3))) = Some (bw, db)"
    by (cases "flush_batch 9 no_flush_faults [] (snd ?s)") (simp add: stop_batch_writer_def launched_def)
  have w: "''u'' \<in> fst (bg_state ?b3)" by simp
  from conjI [OF stop conjI [OF w conjunct2 [OF written_pages_stored [OF run stop]]]] show ?thesis
    by (intro exI [of _ ?b3]) (rule exI, rule exI)
qed

text \<open>A configuration that \<open>validate\<close> accepts can make the loop of the statistics panic at its ticker.\<close>

lemma stats_interval_panics:
  "\<exists>c. validate c = None \<and> new_ticker (cr_stats_flush (c_crawler c)) = TickerPanic"
proof -
  let ?cr = "c_crawler default_config"
  let ?c = "default_config\<lparr>c_crawler := ?cr\<lparr>cr_stats_flush := 0\<rparr>\<rparr>"
  have "config_in_range ?c" using default_in_range by (simp add: config_in_range_def crawler_in_range_def)
  then have "validate ?c = None" by (simp add: validate_None_iff)
  then show ?thesis by (intro exI [of _ ?c]) (simp add: new_ticker_def)
qed

end
