(* ===== verification/StoreOpen.thy ===== *)
theory StoreOpen
  imports StoreAdmin
begin

text \<open>
  Opening and closing the databases (\<open>NewSQLiteStorage\<close>, \<open>Close\<close> and \<open>Vacuum\<close> of
  \<open>internal/storage/sqlite.go\<close>). The state is the set of open connection pools; whether a pool can be opened, a
  pragma executed, a database migrated, a pool closed or the result cache created is an argument. The directory is made
  before any pool is open.
\<close>

datatype storage_mode = MonolithMode | SearchApiMode | CrawlerMode | OtherMode int

datatype db_pool = WriteContent | ReadContent | SearchContent | CrawlerPool | GraphPool

datatype open_failure = DirectoryFailed | OpenFailed db_pool | ConfigureFailed db_pool string | MigrateFailed db_pool string | CacheFailed

subsection \<open>Configuring a pool\<close>

definition write_pragmas :: "string list" where
  "write_pragmas = [''PRAGMA journal_mode = WAL'', ''PRAGMA synchronous = NORMAL'', ''PRAGMA foreign_keys = ON'', ''PRAGMA busy_timeout = 30000'',
     ''PRAGMA cache_size = -200000'', ''PRAGMA mmap_size = 30000000000'', ''PRAGMA temp_store = MEMORY'']"

definition read_pragmas :: "string list" where
  "read_pragmas = [''PRAGMA busy_timeout = 5000'', ''PRAGMA cache_size = -200000'', ''PRAGMA mmap_size = 30000000000'',
     ''PRAGMA temp_store = MEMORY'', ''PRAGMA query_only = ON'']"

text \<open>The pragmas are executed in order; the first that fails is the error. \<open>configure_pool\<close> gives it and those that took effect.\<close>

fun configure_pool :: "(string \<Rightarrow> bool) \<Rightarrow> string list \<Rightarrow> string option \<times> string list" where
  "configure_pool fails [] = (None, [])"
| "configure_pool fails (p # ps) =
     (if fails p then (Some p, []) else (case configure_pool fails ps of (r, done) \<Rightarrow> (r, p # done)))"

text \<open>The value a setting has after pragmas of the form \<open>PRAGMA name = value\<close>.\<close>

definition setting :: "string \<Rightarrow> string list \<Rightarrow> string option" where
  "setting name ps =
     map_option (\<lambda>p. drop (length name + 10) p) (find (\<lambda>p. has_prefix p (''PRAGMA '' @ name @ '' = '')) (rev ps))"

subsection \<open>Opening\<close>

record open_faults =
  op_directory :: bool
  op_open :: "db_pool \<Rightarrow> bool"
  op_pragma :: "db_pool \<Rightarrow> string \<Rightarrow> bool"
  op_migrate :: "db_pool \<Rightarrow> string option"
  op_cache :: bool

text \<open>
  One pool: it is opened, configured and perhaps migrated. A pool that cannot be opened closes the pools in
  \<open>others\<close>; after a later error it is closed with them.
\<close>

definition open_stage :: "open_faults \<Rightarrow> db_pool \<Rightarrow> string list \<Rightarrow> bool \<Rightarrow> db_pool list \<Rightarrow> db_pool set \<Rightarrow> (open_failure + unit) \<times> db_pool set" where
  "open_stage F p pragmas migrate others opened =
     (if op_open F p then (Inl (OpenFailed p), opened - set others)
      else (let opened1 = insert p opened
            in case fst (configure_pool (op_pragma F p) pragmas) of
                 Some x \<Rightarrow> (Inl (ConfigureFailed p x), opened1 - set (p # others))
               | None \<Rightarrow>
                   (case (if migrate then op_migrate F p else None) of
                      Some x \<Rightarrow> (Inl (MigrateFailed p x), opened1 - set (p # others))
                    | None \<Rightarrow> (Inr (), opened1))))"

definition writes_all :: "storage_mode \<Rightarrow> bool" where
  "writes_all mode \<longleftrightarrow> mode = MonolithMode \<or> mode = CrawlerMode"

definition and_then :: "(open_failure + unit) \<times> db_pool set \<Rightarrow> (db_pool set \<Rightarrow> (open_failure + unit) \<times> db_pool set) \<Rightarrow> (open_failure + unit) \<times> db_pool set" where
  "and_then r f = (case r of (Inl x, opened) \<Rightarrow> (Inl x, opened) | (Inr _, opened) \<Rightarrow> f opened)"

definition new_sqlite_storage :: "storage_mode \<Rightarrow> open_faults \<Rightarrow> (open_failure + unit) \<times> db_pool set" where
  "new_sqlite_storage mode F =
     (if op_directory F then (Inl DirectoryFailed, {})
      else
      and_then (if writes_all mode \<or> mode = SearchApiMode
                then open_stage F WriteContent write_pragmas (writes_all mode) [] {} else (Inr (), {})) (\<lambda>o1.
      and_then (open_stage F ReadContent read_pragmas False [WriteContent] o1) (\<lambda>o2.
      and_then (open_stage F SearchContent read_pragmas False [ReadContent, WriteContent] o2) (\<lambda>o3.
      and_then (open_stage F CrawlerPool write_pragmas (writes_all mode) [SearchContent, ReadContent, WriteContent] o3) (\<lambda>o4.
      and_then (if writes_all mode
                then open_stage F GraphPool write_pragmas True [CrawlerPool, SearchContent, ReadContent, WriteContent] o4
                else open_stage F GraphPool read_pragmas False [CrawlerPool, SearchContent, ReadContent, WriteContent] o4) (\<lambda>o5.
      if op_cache F then (Inl CacheFailed, o5) else (Inr (), o5)))))))"

subsection \<open>Closing and compacting\<close>

text \<open>Every pool is closed, also after an error of another; the errors are reported together.\<close>

definition close_storage :: "(db_pool \<Rightarrow> string option) \<Rightarrow> db_pool set \<Rightarrow> (db_pool \<times> string) list \<times> db_pool set" where
  "close_storage e opened =
     (List.map_filter (\<lambda>p. if p \<in> opened then map_option (Pair p) (e p) else None)
        [WriteContent, ReadContent, SearchContent, CrawlerPool, GraphPool], {})"

definition vacuum :: "(db_pool \<Rightarrow> string option) \<Rightarrow> (db_pool \<times> string) option" where
  "vacuum e = (case List.map_filter (\<lambda>p. map_option (Pair p) (e p)) [WriteContent, CrawlerPool, GraphPool] of [] \<Rightarrow> None | x # _ \<Rightarrow> Some x)"

subsection \<open>Facts\<close>

definition mode_pools :: "storage_mode \<Rightarrow> db_pool set" where
  "mode_pools mode = {ReadContent, SearchContent, CrawlerPool, GraphPool} \<union> (if \<exists>n. mode = OtherMode n then {} else {WriteContent})"

text \<open>A stage leaves nothing open or has just its own pool added.\<close>

definition all_or_none :: "(open_failure + unit) \<times> db_pool set \<Rightarrow> db_pool set \<Rightarrow> bool" where
  "all_or_none r opened \<longleftrightarrow> (\<exists>x. x \<noteq> CacheFailed \<and> r = (Inl x, {})) \<or> r = (Inr (), opened)"

definition pools_accounted :: "storage_mode \<Rightarrow> (open_failure + unit) \<times> db_pool set \<Rightarrow> bool" where
  "pools_accounted mode r \<longleftrightarrow> (case r of (Inl x, opened) \<Rightarrow> opened = (if x = CacheFailed then mode_pools mode else {}) | (Inr _, opened) \<Rightarrow> opened = mode_pools mode)"

lemma stage_all_or_none:
  "opened \<subseteq> set others \<Longrightarrow> p \<notin> set others \<Longrightarrow> all_or_none (open_stage F p pragmas migrate others opened) (insert p opened)"
  by (auto simp: all_or_none_def open_stage_def Let_def split: option.splits)

lemma pools_accounted_and_then: "all_or_none r opened \<Longrightarrow> pools_accounted mode (f opened) \<Longrightarrow> pools_accounted mode (and_then r f)"
  by (auto simp: all_or_none_def pools_accounted_def and_then_def split: sum.splits)

text \<open>
  C40. When the storage cannot be opened no pool stays open, unless it is the result cache that cannot be created, in which case all pools of the mode
  stay open with no handle left to close them; when it is opened, exactly the pools of the mode are open and \<open>Close\<close> closes them all.
\<close>

theorem failed_open_leaks_only_at_cache:
  "case new_sqlite_storage mode F of
     (Inl x, opened) \<Rightarrow> opened = (if x = CacheFailed then mode_pools mode else {})
   | (Inr _, opened) \<Rightarrow> opened = mode_pools mode \<and> snd (close_storage e opened) = {}"
proof -
  define W where "W = (if writes_all mode \<or> mode = SearchApiMode then {WriteContent} else {})"
  have W: "W \<subseteq> {WriteContent}" by (simp add: W_def)
  have pools: "insert GraphPool (insert CrawlerPool (insert SearchContent (insert ReadContent W))) = mode_pools mode"
    by (cases mode) (auto simp: W_def mode_pools_def writes_all_def)
  have graph: "all_or_none (open_stage F GraphPool ps migrate [CrawlerPool, SearchContent, ReadContent, WriteContent]
      (insert CrawlerPool (insert SearchContent (insert ReadContent W)))) (mode_pools mode)" for ps migrate
    unfolding pools [symmetric] using W by (intro stage_all_or_none) auto
  have "pools_accounted mode (new_sqlite_storage mode F)"
  proof (cases "op_directory F")
    case False
    show ?thesis unfolding new_sqlite_storage_def if_not_P [OF False]
    proof (rule pools_accounted_and_then [of _ W], goal_cases)
      case 1
      show ?case by (auto simp: W_def all_or_none_def [of "(Inr (), {})"] intro: stage_all_or_none [of "{}" "[]", simplified])
    next
      case 2
      show ?case
        by (intro pools_accounted_and_then [OF stage_all_or_none]
            pools_accounted_and_then [where opened = "insert GraphPool (insert CrawlerPool (insert SearchContent (insert ReadContent W)))"])
          (use W in \<open>auto simp: pools_accounted_def graph pools intro!: stage_all_or_none\<close>)
    qed
  qed (simp add: new_sqlite_storage_def pools_accounted_def)
  then show ?thesis by (auto simp: pools_accounted_def close_storage_def split: prod.splits sum.splits)
qed

text \<open>The links are meant to be written without synchronisation, but the pragmas that follow set it back.\<close>

lemma graph_synchronous_normal: "setting ''synchronous'' write_pragmas = Some ''NORMAL''"
  by code_simp

end
