(* ===== verification/Startup.thy ===== *)
theory Startup
  imports Api
begin

text \<open>
  What the crawler node does with its databases before it crawls (\<open>src/cmd/crawler/main.go\<close>): the blacklist of the
  configuration in lower case, the Bloom filter filled from the stored pages and resources, and the seeds of the
  configuration stored and queued. The errors of the statements are arguments.
\<close>

text \<open>A pair of parallel slices is marked key by key, the fingerprint before the URL.\<close>

definition mark_stored :: "('b \<Rightarrow> string \<Rightarrow> 'b) \<Rightarrow> rawurl list \<times> string list \<Rightarrow> 'b frontier \<Rightarrow> 'b frontier" where
  "mark_stored ba keys f =
     (case keys of (urls, fps) \<Rightarrow>
        f\<lparr>fr_queue := fold (\<lambda>(u, fp) q. mark_seen ba u (mark_seen ba fp q)) (zip urls fps) (fr_queue f)\<rparr>)"

definition seed_bloom_filter :: "('b \<Rightarrow> string \<Rightarrow> 'b) \<Rightarrow> db_error option \<Rightarrow> db_error option \<Rightarrow> page_row table \<Rightarrow> discovered_resource table
    \<Rightarrow> 'b frontier \<Rightarrow> (db_error + unit) \<times> 'b frontier" where
  "seed_bloom_filter ba e_pages e_resources pages resources f =
     (case get_all_page_urls e_pages pages of
        Inl x \<Rightarrow> (Inl x, f)
      | Inr keys \<Rightarrow>
          let f1 = seed_fingerprint_counts (snd keys) (mark_stored ba keys f)
          in (case get_all_discovered_urls e_resources resources of
                Inl _ \<Rightarrow> (Inr (), f1)
              | Inr found \<Rightarrow> (Inr (), seed_fingerprint_counts (snd found) (mark_stored ba found f1))))"

text \<open>One seed of the configuration; \<open>default\<close> is the interval of the scheduler in seconds.\<close>

definition config_seed :: "stdlib \<Rightarrow> int \<Rightarrow> seed_url_config \<Rightarrow> seed_url" where
  "config_seed E default_interval c =
     (let interval = su_recrawl c sdiv second
      in \<lparr>sd_id = 0, sd_url = su_url c, sd_domain = extract_domain E (su_url c),
          sd_interval = (if interval \<le> 0 then default_interval else interval), sd_last = time_zero, sd_created = time_zero\<rparr>)"

record start_faults =
  sf_seed :: "rawurl \<Rightarrow> db_error option"
  sf_page :: "rawurl \<Rightarrow> db_error option"

definition known_page :: "db_error option \<Rightarrow> page_row table \<Rightarrow> rawurl \<Rightarrow> bool option" where
  "known_page e pages u = (case get_page_by_url e u pages of Inl _ \<Rightarrow> None | Inr p \<Rightarrow> Some (p \<noteq> None))"

definition add_config_seed :: "stdlib \<Rightarrow> ('b \<Rightarrow> string \<Rightarrow> bool) \<Rightarrow> ('b \<Rightarrow> string \<Rightarrow> 'b) \<Rightarrow> (job \<Rightarrow> float64) \<Rightarrow> gotime \<Rightarrow> start_faults \<Rightarrow> int
    \<Rightarrow> page_row table \<Rightarrow> seed_url_config \<Rightarrow> seed_row table \<times> 'b frontier \<Rightarrow> seed_row table \<times> 'b frontier" where
  "add_config_seed E bt ba score now faults default_interval pages c st =
     (case st of (seeds, f) \<Rightarrow>
        if extract_domain E (su_url c) = [] then (seeds, f)
        else (case upsert_seed_url now (sf_seed faults (su_url c)) (config_seed E default_interval c) seeds of
                (Inl _, seeds1) \<Rightarrow> (seeds1, f)
              | (Inr _, seeds1) \<Rightarrow>
                  (seeds1, snd (add E bt ba (known_page (sf_page faults (su_url c)) pages) score (su_url c) 0 priority_seed f))))"

definition default_seed_interval :: "scheduler_config \<Rightarrow> int" where
  "default_seed_interval sc = (let d = sch_seed_recrawl sc sdiv second in if d \<le> 0 then 86400 else d)"

definition seed_urls_from_config :: "stdlib \<Rightarrow> ('b \<Rightarrow> string \<Rightarrow> bool) \<Rightarrow> ('b \<Rightarrow> string \<Rightarrow> 'b) \<Rightarrow> (job \<Rightarrow> float64) \<Rightarrow> gotime \<Rightarrow> start_faults \<Rightarrow> config
    \<Rightarrow> page_row table \<Rightarrow> seed_row table \<times> 'b frontier \<Rightarrow> seed_row table \<times> 'b frontier" where
  "seed_urls_from_config E bt ba score now faults cfg pages st =
     fold (add_config_seed E bt ba score now faults (default_seed_interval (cr_scheduler (c_crawler cfg))) pages) (c_seeds cfg) st"

text \<open>From an empty queue to the first pending jobs; a failure to read the stored pages is only logged.\<close>

definition start_frontier :: "stdlib \<Rightarrow> ('b \<Rightarrow> string \<Rightarrow> bool) \<Rightarrow> ('b \<Rightarrow> string \<Rightarrow> 'b) \<Rightarrow> (job \<Rightarrow> float64) \<Rightarrow> gotime \<Rightarrow> db_error option \<Rightarrow> db_error option
    \<Rightarrow> start_faults \<Rightarrow> config \<Rightarrow> page_row table \<Rightarrow> discovered_resource table \<Rightarrow> 'b \<Rightarrow> seed_row table \<Rightarrow> seed_row table \<times> 'b frontier" where
  "start_frontier E bt ba score now e_pages e_resources faults cfg pages resources bloom seeds =
     (let bl = map (to_lower E) (cr_blacklist (c_crawler cfg));
          f = new_frontier (new_queue bloom) bl (cr_max_per_fp (c_crawler cfg));
          f1 = snd (seed_bloom_filter ba e_pages e_resources pages resources f)
      in seed_urls_from_config E bt ba score now faults cfg pages (seeds, f1))"

subsection \<open>Nothing stored is queued again\<close>

text \<open>The queue is well formed, holds the keys \<open>K\<close> as seen, and has no pending job with such a fingerprint.\<close>

definition apart :: "('b \<Rightarrow> string \<Rightarrow> bool) \<Rightarrow> string set \<Rightarrow> 'b frontier \<Rightarrow> bool" where
  "apart bt K f \<longleftrightarrow> queue_wf (fr_queue f) \<and> (\<forall>k \<in> K. bt (q_bloom (fr_queue f)) k) \<and> (\<forall>j. j \<in># pending (fr_queue f) \<longrightarrow> j_fp j \<notin> K)"

lemma apart_counts: "fr_queue f' = fr_queue f \<Longrightarrow> apart bt K f' = apart bt K f"
  by (simp add: apart_def)

lemma seed_counts_queue: "fr_queue (seed_fingerprint_counts fps f) = fr_queue f"
proof -
  have "fr_queue (fold bump fps f) = fr_queue f" by (induction fps arbitrary: f) (simp_all add: bump_def)
  then show ?thesis by (simp add: seed_fingerprint_counts_def)
qed

lemma mark_seen_pending: "pending (mark_seen ba k q) = pending q"
  by (simp add: mark_seen_def frame_simps)

definition fresh_queue :: "('b \<Rightarrow> string \<Rightarrow> bool) \<Rightarrow> string set \<Rightarrow> 'b queue \<Rightarrow> bool" where
  "fresh_queue bt K q \<longleftrightarrow> queue_wf q \<and> pending q = {#} \<and> (\<forall>k \<in> K. bt (q_bloom q) k)"

lemma fresh_queue_marks:
  assumes "seen_filter bt ba" "fresh_queue bt K q" "length urls = length fps"
  shows "fresh_queue bt (K \<union> set urls \<union> set fps) (fold (\<lambda>(u, fp) q. mark_seen ba u (mark_seen ba fp q)) (zip urls fps) q)"
  using assms(3,2)
proof (induction urls fps arbitrary: K q rule: list_induct2)
  case (Cons u us fp fps)
  let ?q = "mark_seen ba u (mark_seen ba fp q)"
  have "fresh_queue bt (insert u (insert fp K)) ?q"
    using Cons.prems seen_filter.added [OF assms(1)] seen_filter.kept [OF assms(1)]
    by (auto simp: fresh_queue_def wf_mark_seen mark_seen_pending) (auto simp: mark_seen_def)
  from Cons.IH [OF this] show ?case by (simp add: insert_commute)
qed simp

lemma mark_stored_fresh:
  assumes "seen_filter bt ba" "fresh_queue bt K (fr_queue f)" "length urls = length fps"
  shows "fresh_queue bt (K \<union> set fps) (fr_queue (mark_stored ba (urls, fps) f))"
  using fresh_queue_marks [OF assms] by (auto simp: mark_stored_def fresh_queue_def)

lemma add_apart:
  assumes "seen_filter bt ba" "apart bt K f"
  shows "apart bt K (snd (add E bt ba known score raw depth base f))"
proof (cases "admit E (fr_black f) raw")
  case None
  then show ?thesis using assms(2) by (simp add: add_def)
next
  case (Some c)
  obtain n d fp where c: "c = (n, d, fp)" by (metis surj_pair)
  show ?thesis
  proof (cases "reserve_fp fp f")
    case None
    then show ?thesis using assms(2) Some c by (simp add: add_def)
  next
    case f1: (Some f1)
    note frame = reserve_fp_frame [OF f1]
    have ok: "apart bt K f1" using assms(2) frame by (simp add: apart_def)
    let ?job = "make_job score (n, d, fp) depth base (no_context raw)"
    have marked: "apart bt K (f1\<lparr>fr_queue := mark_seen ba fp (fr_queue f1)\<rparr>)"
      using ok seen_filter.kept [OF assms(1)] by (simp add: apart_def wf_mark_seen mark_seen_pending) (simp add: mark_seen_def)
    have queued: "apart bt K (f1\<lparr>fr_queue := snd (enqueue bt ba ?job (fr_queue f1))\<rparr>)" if "\<not> has_seen bt fp (fr_queue f1)"
    proof -
      have new: "fp \<notin> K" using ok that by (auto simp: apart_def has_seen_def)
      have bloom: "bt (q_bloom (snd (enqueue bt ba ?job (fr_queue f1)))) k" if "k \<in> K" for k
        using ok that seen_filter.kept [OF assms(1)] by (auto simp: apart_def enqueue_def Let_def frame_simps)
      have "j_fp j \<notin> K" if "j \<in># pending (snd (enqueue bt ba ?job (fr_queue f1)))" for j
      proof -
        have "pending_from [?job] (fr_queue f1) (snd (enqueue bt ba ?job (fr_queue f1)))"
          using ok by (intro enqueue_from) (simp add: apart_def)
        then have "j \<in># pending (fr_queue f1) \<or> (\<exists>i. j = ?job\<lparr>j_id := i\<rparr>)" using that by (auto simp: pending_from_def)
        then show ?thesis using ok new by (auto simp: apart_def make_job_def Let_def)
      qed
      then show ?thesis using ok bloom by (simp add: apart_def wf_enqueue)
    qed
    from Some c f1 ok marked queued show ?thesis by (auto simp: add_def split: option.splits bool.splits)
  qed
qed

lemma add_config_seed_apart:
  assumes "seen_filter bt ba" "apart bt K (snd st)"
  shows "apart bt K (snd (add_config_seed E bt ba score now faults d pages c st))"
  using add_apart [OF assms(1)] assms(2) by (auto simp: add_config_seed_def split: prod.splits sum.splits)

lemma seed_urls_apart:
  assumes "seen_filter bt ba" "apart bt K (snd st)"
  shows "apart bt K (snd (seed_urls_from_config E bt ba score now faults cfg pages st))"
proof -
  have "apart bt K (snd (fold (add_config_seed E bt ba score now faults d pages) cs st))" for cs d
    using assms(2) by (induction cs arbitrary: st) (simp_all add: add_config_seed_apart [OF assms(1)])
  then show ?thesis by (simp add: seed_urls_from_config_def)
qed

text \<open>The fingerprints that the start has read: those of the pages, and those of the resources unless they cannot be read.\<close>

definition stored_keys :: "db_error option \<Rightarrow> page_row table \<Rightarrow> discovered_resource table \<Rightarrow> string set" where
  "stored_keys e_resources pages resources =
     (\<lambda>r. pc_fp (pw_cols r)) ` set (tb_rows pages) \<union> (if e_resources = None then dr_fp ` set (tb_rows resources) else {})"

lemma seed_bloom_fresh:
  assumes "seen_filter bt ba"
  shows "fresh_queue bt (stored_keys e_resources pages resources)
    (fr_queue (snd (seed_bloom_filter ba None e_resources pages resources (new_frontier (new_queue b) bl mx))))"
proof -
  let ?f = "new_frontier (new_queue b) bl mx" and ?p = "(map pw_url (tb_rows pages), map (\<lambda>r. pc_fp (pw_cols r)) (tb_rows pages))"
  let ?f1 = "seed_fingerprint_counts (snd ?p) (mark_stored ba ?p ?f)"
  have "fresh_queue bt {} (fr_queue ?f)"
    using wf_new_queue [of b] by (simp add: fresh_queue_def new_frontier_def) (simp add: new_queue_def pending_def)
  from mark_stored_fresh [OF assms this, of "fst ?p" "snd ?p"] have one: "fresh_queue bt (set (snd ?p)) (fr_queue ?f1)"
    by (simp add: seed_counts_queue)
  from mark_stored_fresh [OF assms one, of "map dr_url (tb_rows resources)" "map dr_fp (tb_rows resources)"] one
  show ?thesis
    by (cases e_resources)
      (simp_all add: seed_bloom_filter_def get_all_page_urls_def get_all_discovered_urls_def seed_counts_queue stored_keys_def image_comp comp_def)
qed

text \<open>
  When the node has started, no pending job has the fingerprint of a stored page, nor, if the resources could be
  read, that of a stored resource: whatever the configured seeds and the errors of the other statements, a restart queues
  nothing that was crawled before.
\<close>

theorem start_queues_nothing_stored:
  assumes "seen_filter bt ba"
    and "j \<in># pending (fr_queue (snd (start_frontier E bt ba score now None e_resources faults cfg pages resources b seeds)))"
  shows "j_fp j \<notin> stored_keys e_resources pages resources"
proof -
  have "apart bt K f" if "fresh_queue bt K (fr_queue f)" for K and f using that by (simp add: apart_def fresh_queue_def)
  from this [OF seed_bloom_fresh [OF assms(1)]]
  have "apart bt (stored_keys e_resources pages resources)
      (snd (start_frontier E bt ba score now None e_resources faults cfg pages resources b seeds))"
    unfolding start_frontier_def Let_def by (intro seed_urls_apart [OF assms(1)]) simp
  then show ?thesis using assms(2) by (simp add: apart_def)
qed

text \<open>A store with the page \<open>http://a.org/item/1\<close>, and two seeds of which the first has its fingerprint.\<close>

definition sample_start :: "seed_row table \<times> string set frontier" where
  "sample_start = start_frontier ascii_stdlib (\<lambda>b k. k \<in> b) (\<lambda>b k. insert k b) (\<lambda>_. 1) 5 None None
     \<lparr>sf_seed = \<lambda>_. None, sf_page = \<lambda>_. None\<rparr>
     (default_config\<lparr>c_seeds := [\<lparr>su_url = ''http://a.org/item/2'', su_recrawl = 0\<rparr>, \<lparr>su_url = ''http://b.org/x'', su_recrawl = 0\<rparr>]\<rparr>)
     \<lparr>tb_rows = [\<lparr>pw_id = 1, pw_url = ''http://a.org/item/1'', pw_hash = 1,
        pw_cols = page_columns (page0\<lparr>pg_fp := ''http://a.org/item/{num}''\<rparr>), pw_published = None, pw_created = 0, pw_updated = 0,
        pw_refs = 0, pw_rank = 0, pw_hits = 0, pw_last_seen = None\<rparr>], tb_next = 2\<rparr>
     empty_table {} empty_table"

theorem start_queues_nothing_stored_witness:
  "\<exists>j. j \<in># pending (fr_queue (snd sample_start)) \<and> j_fp j = ''http://b.org/x'' \<and> j_fp j \<noteq> ''http://a.org/item/{num}''"
proof -
  let ?bt = "\<lambda>b k. k \<in> b" and ?ba = "\<lambda>b k. insert k b"
  have filter: "seen_filter ?bt ?ba" by unfold_locales auto
  let ?q = "mark_seen ?ba ''http://a.org/item/1'' (mark_seen ?ba ''http://a.org/item/{num}'' (new_queue {}))"
  have q: "lists_wf ?q"
    using wf_mark_seen [OF wf_mark_seen [OF wf_new_queue [of "{}"]]] unfolding queue_wf_lists by blast
  have bloom: "q_bloom ?q = {''http://a.org/item/1'', ''http://a.org/item/{num}''}" by (simp add: mark_seen_def new_queue_def)
  have adm: "admit ascii_stdlib [] ''http://a.org/item/2'' = Some (''http://a.org/item/2'', ''a.org'', ''http://a.org/item/{num}'')"
    "admit ascii_stdlib [] ''http://b.org/x'' = Some (''http://b.org/x'', ''b.org'', ''http://b.org/x'')"
    "extract_domain ascii_stdlib ''http://a.org/item/2'' = ''a.org''" "extract_domain ascii_stdlib ''http://b.org/x'' = ''b.org''"
    by code_simp+
  have "\<exists>j. j \<in># pending (fr_queue (snd sample_start)) \<and> j_fp j = ''http://b.org/x''"
    using adm q
    by (simp add: conj_disj_distribR ex_disj_distrib bloom dedup_key_def make_job_def stamped_def no_context_def Let_def get_page_def enqueue_def frame_simps pending_push sample_start_def start_frontier_def default_config_def default_crawler_def new_frontier_def seed_bloom_filter_def
      get_all_page_urls_def get_all_discovered_urls_def mark_stored_def empty_table_def seed_urls_from_config_def seed_fingerprint_counts_def
      add_config_seed_def add_def bump_def reserve_fp_def upsert_seed_url_def page_columns_def page0_def has_seen_def to_lower_def known_page_def get_page_by_url_def lookup_row_def)
  then obtain j where j: "j \<in># pending (fr_queue (snd sample_start))" "j_fp j = ''http://b.org/x''" by blast
  from start_queues_nothing_stored [OF filter j(1) [unfolded sample_start_def]] j show ?thesis
    by (auto simp: stored_keys_def page_columns_def)
qed

end
