(* ===== verification/Renderer.thy ===== *)
theory Renderer
  imports Engine GoNet
begin

text \<open>
  The browser renderer (\<open>internal/render/renderer.go\<close>): how Chromium is launched, the semaphore of its tabs with the
  time a call waits for one, the actions of a tab, and the document it gives back. What the browser does in a tab (the
  responses it reports, the final address and the HTML, or a failure) is a parameter. The engine sees
  \<open>ErrRendererBusy\<close> as \<open>RendererBusy\<close> and every other error as \<open>RenderFailed\<close>.
\<close>

subsection \<open>Launching the browser\<close>

definition sanitize_proxy_url :: "string \<Rightarrow> string" where
  "sanitize_proxy_url p = (if has_prefix p ''socks5h://'' then ''socks5://'' @ trim_prefix p ''socks5h://'' else p)"

text \<open>Standard base64 with padding.\<close>

definition base64_digit :: "nat \<Rightarrow> char" where
  "base64_digit n =
     char_of (if n < 26 then n + 65 else if n < 52 then n + 71 else if n < 62 then n - 4 else if n = 62 then 43 else 47 :: nat)"

fun base64 :: "string \<Rightarrow> string" where
  "base64 [] = []"
| "base64 [a] = [base64_digit (byte a div 4), base64_digit (byte a mod 4 * 16), CHR ''='', CHR ''='']"
| "base64 [a, b] =
     [base64_digit (byte a div 4), base64_digit (byte a mod 4 * 16 + byte b div 16), base64_digit (byte b mod 16 * 4), CHR ''='']"
| "base64 (a # b # c # s) =
     [base64_digit (byte a div 4), base64_digit (byte a mod 4 * 16 + byte b div 16),
      base64_digit (byte b mod 16 * 4 + byte c div 64), base64_digit (byte c mod 64)] @ base64 s"

text \<open>
  A string in JSON as \<open>json.Marshal\<close> writes it: quotes, backslashes, control characters, the characters of HTML and
  the line separators are escaped, and a byte that is no part of a character becomes U+FFFD.
\<close>

definition hex_nibble :: "nat \<Rightarrow> char" where
  "hex_nibble n = char_of (if n < 10 then n + 48 else n + 87 :: nat)"

definition json_unicode :: "nat \<Rightarrow> string" where
  "json_unicode r = [CHR 0x5C, CHR ''u''] @ map hex_nibble [r div 4096 mod 16, r div 256 mod 16, r div 16 mod 16, r mod 16]"

definition json_ascii :: "char \<Rightarrow> string" where
  "json_ascii c =
     (if byte c = 34 \<or> byte c = 92 then [CHR 0x5C, c]
      else if byte c = 8 then [CHR 0x5C, CHR ''b''] else if byte c = 12 then [CHR 0x5C, CHR ''f'']
      else if byte c = 10 then [CHR 0x5C, CHR ''n''] else if byte c = 13 then [CHR 0x5C, CHR ''r'']
      else if byte c = 9 then [CHR 0x5C, CHR ''t'']
      else if byte c < 32 \<or> byte c \<in> {38, 60, 62} then json_unicode (byte c)
      else [c])"

function json_chars :: "string \<Rightarrow> string" where
  "json_chars s =
     (case s of
        [] \<Rightarrow> []
      | c # cs \<Rightarrow>
          if byte c < 128 then json_ascii c @ json_chars cs
          else (let (r, n) = decode_rune s
                in (if r = 65533 \<and> n = 1 then json_unicode 65533
                    else if r = 8232 \<or> r = 8233 then json_unicode r
                    else take n s) @ json_chars (drop (max 1 n) s)))"
  by pat_completeness auto
termination by (relation "measure length") auto

definition quote_json :: "string \<Rightarrow> string" where
  "quote_json s = [CHR 0x22] @ json_chars s @ [CHR 0x22]"

definition launch_json :: "string \<Rightarrow> string" where
  "launch_json proxy = ''{'' @ quote_json ''args'' @ '':['' @ quote_json (''--proxy-server='' @ proxy) @ '']}''"

definition remote_address :: "string \<Rightarrow> string \<Rightarrow> string" where
  "remote_address ws proxy = (if proxy \<noteq> [] then ws @ ''?launch='' @ base64 (launch_json proxy) else ws)"

datatype browser_option = Switch string | Setting string string | ExecPath string

datatype browser_launch = Remote string | Local "browser_option list"

text \<open>The options of a local browser after the defaults of \<open>chromedp\<close>.\<close>

definition launch_options :: "rendering_config \<Rightarrow> string \<Rightarrow> browser_option list" where
  "launch_options cfg proxy =
     map Switch [''headless'', ''disable-gpu'', ''disable-dev-shm-usage'', ''no-sandbox'', ''disable-background-networking'',
       ''disable-sync'', ''mute-audio'']
     @ (if proxy \<noteq> [] then [Setting ''proxy-server'' proxy] else [])
     @ (if re_block_images cfg then [Setting ''blink-settings'' ''imagesEnabled=false''] else [])
     @ (if re_exec_path cfg \<noteq> [] then [ExecPath (re_exec_path cfg)] else [])"

text \<open>\<open>NewBrowserRenderer\<close>: the browser to launch and the number of its tabs.\<close>

definition new_browser_renderer :: "rendering_config \<Rightarrow> string \<Rightarrow> browser_launch \<times> int" where
  "new_browser_renderer cfg proxy =
     (let p = sanitize_proxy_url proxy
      in (if re_ws_url cfg \<noteq> [] then Remote (remote_address (re_ws_url cfg) p) else Local (launch_options cfg p),
          if re_max_conc cfg < 1 then 1 else re_max_conc cfg))"

subsection \<open>The tab\<close>

datatype tab_action = EnableNetwork | SetUserAgent string | BlockUrls "string list" | Navigate rawurl | WaitBody | Pause duration
  | ReadLocation | ReadHtml

definition tab_actions :: "string list \<Rightarrow> string list \<Rightarrow> rendering_config \<Rightarrow> string \<Rightarrow> rawurl \<Rightarrow> tab_action list" where
  "tab_actions chrome_order image_order cfg user_agent target =
     (let blocked = browser_blocked_url_patterns chrome_order image_order (re_block_images cfg)
      in [EnableNetwork] @ (if user_agent \<noteq> [] then [SetUserAgent user_agent] else [])
         @ (if blocked \<noteq> [] then [BlockUrls blocked] else []) @ [Navigate target, WaitBody]
         @ (if 0 < re_wait cfg then [Pause (re_wait cfg)] else []) @ [ReadLocation, ReadHtml])"

text \<open>A response the browser reports: its resource type, status and headers, the values of which may be no strings.\<close>

record tab_response =
  tr_type :: string
  tr_status :: int
  tr_headers :: "string \<rightharpoonup> string"

definition header_text :: "tab_response \<Rightarrow> string option" where
  "header_text r =
     (case tr_headers r ''content-type'' of
        Some ct \<Rightarrow> if ct \<noteq> [] then Some ct else (case tr_headers r ''Content-Type'' of Some c2 \<Rightarrow> if c2 \<noteq> [] then Some c2 else None | None \<Rightarrow> None)
      | None \<Rightarrow> (case tr_headers r ''Content-Type'' of Some c2 \<Rightarrow> if c2 \<noteq> [] then Some c2 else None | None \<Rightarrow> None))"

definition on_response :: "tab_response option \<Rightarrow> int \<times> string \<Rightarrow> int \<times> string" where
  "on_response ev meta =
     (case ev of
        Some r \<Rightarrow> if tr_type r \<noteq> ''Document'' then meta
                  else (tr_status r, case header_text r of Some ct \<Rightarrow> ct | None \<Rightarrow> snd meta)
      | None \<Rightarrow> meta)"

text \<open>What a tab did: its events (\<open>None\<close> for one that is no response) and, unless it failed, the address and the HTML.\<close>

record tab_run =
  tn_events :: "tab_response option list"
  tn_outcome :: "(rawurl \<times> string) option"
  tn_duration :: duration

definition rendered_document :: "rendering_config \<Rightarrow> tab_run \<Rightarrow> render_error + fetch_result" where
  "rendered_document cfg run =
     (case tn_outcome run of
        None \<Rightarrow> Inl RenderFailed
      | Some (final, html) \<Rightarrow>
          let (status, ctype) = fold on_response (tn_events run) (0, ''text/html'');
              max_bytes = wrap_int (re_max_html_kb cfg * 1024);
              truncated = (0 < max_bytes \<and> max_bytes < int (length html))
          in Inr \<lparr>rs_status = (if status = 0 then 200 else status), rs_body = (if truncated then take (nat max_bytes) html else html),
               rs_ctype = (if trim_space ctype = [] then ''text/html'' else ctype), rs_final = final, rs_duration = tn_duration run,
               rs_truncated = truncated, rs_mode = [], rs_reason = []\<rparr>)"

subsection \<open>Waiting for a tab\<close>

definition render_timeout :: "rendering_config \<Rightarrow> duration" where
  "render_timeout cfg = (if re_timeout cfg \<le> 0 then 20 * second else re_timeout cfg)"

definition acquire_wait :: "rendering_config \<Rightarrow> duration" where
  "acquire_wait cfg = min (re_acquire_timeout cfg) (render_timeout cfg)"

datatype render_call = WaitingUntil gotime | InTab | Returned "render_error + fetch_result"

record render_state =
  rt_slots :: int
  rt_calls :: "nat \<rightharpoonup> render_call"
  rt_cancelled :: "nat set"
  rt_now :: gotime

definition idle_renderer :: "gotime \<Rightarrow> render_state" where
  "idle_renderer now = \<lparr>rt_slots = 0, rt_calls = Map.empty, rt_cancelled = {}, rt_now = now\<rparr>"

definition set_call :: "nat \<Rightarrow> render_call \<Rightarrow> render_state \<Rightarrow> render_state" where
  "set_call i c s = s\<lparr>rt_calls := (rt_calls s)(i \<mapsto> c)\<rparr>"

text \<open>Whether call \<open>i\<close> stands at its \<open>select\<close>: a new call that does not wait, or one that waits.\<close>

definition selecting :: "rendering_config \<Rightarrow> nat \<Rightarrow> render_state \<Rightarrow> bool" where
  "selecting cfg i s \<longleftrightarrow> (case rt_calls s i of None \<Rightarrow> acquire_wait cfg \<le> 0 | Some (WaitingUntil _) \<Rightarrow> True | Some _ \<Rightarrow> False)"

definition expired :: "nat \<Rightarrow> render_state \<Rightarrow> bool" where
  "expired i s \<longleftrightarrow> (case rt_calls s i of Some (WaitingUntil t) \<Rightarrow> t \<le> rt_now s | _ \<Rightarrow> False)"

text \<open>
  The steps of concurrent calls of \<open>Render\<close> with \<open>n\<close> tabs. Among the ready cases of a \<open>select\<close> any may be taken; the
  default case of a call that does not wait needs a full semaphore and a live context. A call whose waiting time is over
  reports a cancelled context before a busy renderer.
\<close>

inductive render_step :: "rendering_config \<Rightarrow> int \<Rightarrow> render_state \<Rightarrow> render_state \<Rightarrow> bool" for cfg n where
  enter: "rt_calls s i = None \<Longrightarrow> 0 < acquire_wait cfg \<Longrightarrow> render_step cfg n s (set_call i (WaitingUntil (rt_now s + acquire_wait cfg)) s)"
| acquire: "selecting cfg i s \<Longrightarrow> rt_slots s < n \<Longrightarrow> render_step cfg n s (set_call i InTab (s\<lparr>rt_slots := rt_slots s + 1\<rparr>))"
| cancelled: "selecting cfg i s \<Longrightarrow> i \<in> rt_cancelled s \<Longrightarrow> render_step cfg n s (set_call i (Returned (Inl RenderFailed)) s)"
| busy: "rt_calls s i = None \<Longrightarrow> acquire_wait cfg \<le> 0 \<Longrightarrow> \<not> rt_slots s < n \<Longrightarrow> i \<notin> rt_cancelled s
    \<Longrightarrow> render_step cfg n s (set_call i (Returned (Inl RendererBusy)) s)"
| timeout: "expired i s \<Longrightarrow> i \<notin> rt_cancelled s \<Longrightarrow> render_step cfg n s (set_call i (Returned (Inl RendererBusy)) s)"
| rendered: "rt_calls s i = Some InTab
    \<Longrightarrow> render_step cfg n s (set_call i (Returned (rendered_document cfg run)) (s\<lparr>rt_slots := rt_slots s - 1\<rparr>))"
| cancel: "render_step cfg n s (s\<lparr>rt_cancelled := insert i (rt_cancelled s)\<rparr>)"
| tick: "rt_now s \<le> t \<Longrightarrow> render_step cfg n s (s\<lparr>rt_now := t\<rparr>)"

subsection \<open>Facts\<close>

definition in_tabs :: "render_state \<Rightarrow> nat set" where
  "in_tabs s = {i. rt_calls s i = Some InTab}"

definition tabs_ok :: "int \<Rightarrow> render_state \<Rightarrow> bool" where
  "tabs_ok n s \<longleftrightarrow> finite (in_tabs s) \<and> rt_slots s = int (card (in_tabs s)) \<and> rt_slots s \<le> n"

lemma in_tabs_set_call:
  "in_tabs (set_call i c s) = (if c = InTab then insert i (in_tabs s) else in_tabs s - {i})"
  by (auto simp: in_tabs_def set_call_def)

lemma not_in_tab: "selecting cfg i s \<Longrightarrow> i \<notin> in_tabs s" "expired i s \<Longrightarrow> i \<notin> in_tabs s" "rt_calls s i = None \<Longrightarrow> i \<notin> in_tabs s"
  by (auto simp: selecting_def expired_def in_tabs_def)

lemma frame_tabs [simp]:
  "in_tabs (s\<lparr>rt_slots := k\<rparr>) = in_tabs s" "in_tabs (s\<lparr>rt_cancelled := C\<rparr>) = in_tabs s" "in_tabs (s\<lparr>rt_now := t\<rparr>) = in_tabs s"
  "rt_slots (set_call i c s) = rt_slots s"
  by (simp_all add: in_tabs_def set_call_def)

lemma render_step_tabs: "render_step cfg n s s' \<Longrightarrow> tabs_ok n s \<Longrightarrow> tabs_ok n s'"
proof (induction rule: render_step.induct)
  case (rendered s i run)
  then have "i \<in> in_tabs s" by (simp add: in_tabs_def)
  then have "0 < card (in_tabs s)" using rendered.prems card_gt_0_iff by (auto simp: tabs_ok_def)
  with \<open>i \<in> in_tabs s\<close> show ?case using rendered.prems by (auto simp: tabs_ok_def in_tabs_set_call of_nat_diff)
qed (auto simp: tabs_ok_def in_tabs_set_call dest: not_in_tab)

text \<open>
  C37. However the calls interleave, no more tabs are open than the configuration allows, and the semaphore counts exactly
  the calls that have a tab: no slot is lost to a timeout, a cancelled context or a failed page.
\<close>

theorem tabs_bounded:
  assumes "(render_step cfg (snd (new_browser_renderer cfg proxy)))\<^sup>*\<^sup>* (idle_renderer now) s"
  shows "rt_slots s = int (card {i. rt_calls s i = Some InTab}) \<and> rt_slots s \<le> max 1 (re_max_conc cfg)"
proof -
  let ?n = "snd (new_browser_renderer cfg proxy)"
  have "tabs_ok ?n s" using assms
  proof (induction rule: rtranclp_induct)
    case base
    show ?case by (simp add: tabs_ok_def in_tabs_def idle_renderer_def new_browser_renderer_def Let_def)
  qed (rule render_step_tabs)
  then show ?thesis by (simp add: tabs_ok_def in_tabs_def new_browser_renderer_def Let_def split: if_splits)
qed

theorem tabs_bounded_witness:
  "let cfg = default_rendering\<lparr>re_max_conc := 1, re_acquire_timeout := 0\<rparr>;
       s = set_call 8 (Returned (Inl RendererBusy)) (set_call 7 InTab ((idle_renderer 0)\<lparr>rt_slots := 1\<rparr>))
   in rt_slots s = int (card {i. rt_calls s i = Some InTab}) \<and> rt_slots s \<le> max 1 (re_max_conc cfg)"
proof -
  let ?cfg = "default_rendering\<lparr>re_max_conc := 1, re_acquire_timeout := 0\<rparr>"
  let ?s1 = "set_call 7 InTab ((idle_renderer 0)\<lparr>rt_slots := 1\<rparr>)"
  let ?s2 = "set_call 8 (Returned (Inl RendererBusy)) ?s1"
  have n: "snd (new_browser_renderer ?cfg [])= 1" by (simp add: new_browser_renderer_def Let_def)
  have wait: "acquire_wait ?cfg \<le> 0" by (simp add: acquire_wait_def)
  have "render_step ?cfg 1 (idle_renderer 0) ?s1"
    using render_step.acquire [of ?cfg 7 "idle_renderer 0" 1] wait by (simp add: selecting_def idle_renderer_def)
  moreover have "render_step ?cfg 1 ?s1 ?s2"
    using wait by (intro render_step.busy) (simp_all add: set_call_def idle_renderer_def)
  ultimately have "(render_step ?cfg (snd (new_browser_renderer ?cfg [])))\<^sup>*\<^sup>* (idle_renderer 0) ?s2" unfolding n by simp
  from tabs_bounded [OF this] show ?thesis unfolding Let_def .
qed

text \<open>
  A rendered document has a status, a content type that is not blank, and at most the configured size; it is cut exactly
  when the HTML was longer, and then it is a prefix of it.
\<close>

theorem rendered_document_ok:
  assumes "rendered_document cfg run = Inr r" "1 \<le> re_max_html_kb cfg" "re_max_html_kb cfg < 2 ^ 50"
  shows "rs_status r \<noteq> 0 \<and> trim_space (rs_ctype r) \<noteq> [] \<and> int (length (rs_body r)) \<le> re_max_html_kb cfg * 1024
    \<and> (\<exists>html. tn_outcome run = Some (rs_final r, html) \<and> rs_body r = take (length (rs_body r)) html
         \<and> rs_truncated r = (length (rs_body r) < length html))"
proof -
  obtain final html where o: "tn_outcome run = Some (final, html)"
    using assms(1) by (cases "tn_outcome run") (auto simp: rendered_document_def)
  have m: "wrap_int (re_max_html_kb cfg * 1024) = re_max_html_kb cfg * 1024" using assms(2,3) by (intro wrap_int_id) auto
  have h: "trim_space ''text/html'' = ''text/html''" by code_simp
  show ?thesis using assms(1,2) unfolding rendered_document_def o Let_def m
    by (auto simp: h split: prod.splits if_splits)
qed

theorem rendered_document_ok_witness:
  "\<exists>r. rendered_document (default_rendering\<lparr>re_max_html_kb := 1\<rparr>) \<lparr>tn_events = [None], tn_outcome = Some (''http://a.org/'', ''<p>''), tn_duration = 5\<rparr> = Inr r
     \<and> rs_status r \<noteq> 0 \<and> trim_space (rs_ctype r) \<noteq> [] \<and> int (length (rs_body r)) \<le> 1024"
proof -
  let ?cfg = "default_rendering\<lparr>re_max_html_kb := 1\<rparr>"
  let ?run = "\<lparr>tn_events = [None], tn_outcome = Some (''http://a.org/'', ''<p>''), tn_duration = 5\<rparr>"
  obtain r where r: "rendered_document ?cfg ?run = Inr r"
    by (simp add: rendered_document_def Let_def on_response_def)
  from rendered_document_ok [OF this] r show ?thesis by simp
qed

text \<open>
  The last document the browser reports decides the status, whatever the page itself answered: a frame that cannot be found makes the whole
  page a failed one.
\<close>

theorem last_document_decides:
  "\<exists>r. rendered_document cfg \<lparr>tn_events = es @ [Some \<lparr>tr_type = ''Document'', tr_status = 404, tr_headers = h\<rparr>], tn_outcome = Some (u, html), tn_duration = d\<rparr>
    = Inr r \<and> rs_status r = 404"
  by (auto simp: rendered_document_def Let_def on_response_def split: prod.splits)

text \<open>
  The launch parameter of a remote browser is base64 in a query without escaping: for a proxy with a tilde the digit \<open>+\<close> occurs in it, and a server that
  decodes the query reads a space there.
\<close>

theorem launch_parameter_corrupted:
  "let proxy = ''http://u:p~@h:80''
   in base64 (launch_json proxy) = ''eyJhcmdzIjpbIi0tcHJveHktc2VydmVyPWh0dHA6Ly91OnB+QGg6ODAiXX0=''
      \<and> map_of (url_query (drop 7 (remote_address ''ws://b'' proxy))) ''launch'' = Some [''eyJhcmdzIjpbIi0tcHJveHktc2VydmVyPWh0dHA6Ly91OnB QGg6ODAiXX0='']"
proof -
  have encoded: "base64 (launch_json ''http://u:p~@h:80'') = ''eyJhcmdzIjpbIi0tcHJveHktc2VydmVyPWh0dHA6Ly91OnB+QGg6ODAiXX0=''" by code_simp
  have "map_of (url_query ''launch=eyJhcmdzIjpbIi0tcHJveHktc2VydmVyPWh0dHA6Ly91OnB+QGg6ODAiXX0='') ''launch''
      = Some [''eyJhcmdzIjpbIi0tcHJveHktc2VydmVyPWh0dHA6Ly91OnB QGg6ODAiXX0='']" by code_simp
  then show ?thesis unfolding Let_def remote_address_def encoded by simp
qed

end
