(* ===== verification/Node.thy ===== *)
theory Node
  imports Startup Renderer Purge
begin

text \<open>
  The start of the crawler node as a whole (\<open>run\<close> of \<open>src/cmd/crawler/main.go\<close>): the engine that is made with its
  proxies and browser, the purge of the blacklisted domains that making it begins with, and then the Bloom filter and the
  seeds, on what the purge has left.
\<close>

subsection \<open>Logging\<close>

datatype log_level = LevelDebug | LevelInfo | LevelWarn | LevelError

record logger_setup =
  ls_level :: log_level
  ls_source :: bool
  ls_json :: bool

definition init_logger :: "logging_config \<Rightarrow> logger_setup" where
  "init_logger c =
     (let level = (if lg_level c = ''debug'' then LevelDebug else if lg_level c = ''warn'' then LevelWarn
                   else if lg_level c = ''error'' then LevelError else LevelInfo)
      in \<lparr>ls_level = level, ls_source = (level = LevelDebug), ls_json = (lg_format c = ''json'')\<rparr>)"

subsection \<open>The engine\<close>

record engine_setup =
  es_proxies :: "proxy_client list"
  es_renderer :: "(browser_launch \<times> int) option"
  es_no_follow :: "domain list"
  es_blacklist :: "domain list"
  es_status :: engine_status

text \<open>
  \<open>NewEngine\<close>; \<open>ds\<close> is the blacklist in the order in which its map is iterated. An error of the purge is only
  logged. The constructor of the renderer does not fail.
\<close>

definition new_engine :: "stdlib \<Rightarrow> (url \<Rightarrow> bool) \<Rightarrow> config \<Rightarrow> (domain \<Rightarrow> purge_faults) \<Rightarrow> domain list \<Rightarrow> store \<Rightarrow> engine_setup \<times> store" where
  "new_engine E socks_ok cfg F ds s =
     (let c = c_crawler cfg; pm = new_proxy_manager E socks_ok (cr_proxy_urls c);
          renderer = (if rendering_enabled (c_rendering cfg) then Some (new_browser_renderer (c_rendering cfg) (primary_proxy_url pm)) else None);
          setup = \<lparr>es_proxies = pm, es_renderer = renderer, es_no_follow = no_follow_domains E c, es_blacklist = blacklisted_domains E c,
            es_status = Idle\<rparr>
      in (setup, if 0 < length (blacklisted_domains E c) then snd (purge_blacklisted E F ds s) else s))"

definition start_node :: "stdlib \<Rightarrow> (url \<Rightarrow> bool) \<Rightarrow> ('b \<Rightarrow> string \<Rightarrow> bool) \<Rightarrow> ('b \<Rightarrow> string \<Rightarrow> 'b) \<Rightarrow> (job \<Rightarrow> float64) \<Rightarrow> gotime
    \<Rightarrow> (domain \<Rightarrow> purge_faults) \<Rightarrow> domain list \<Rightarrow> db_error option \<Rightarrow> db_error option \<Rightarrow> start_faults \<Rightarrow> config \<Rightarrow> 'b \<Rightarrow> store
    \<Rightarrow> engine_setup \<times> store \<times> 'b frontier" where
  "start_node E socks_ok bt ba score now F ds e_pages e_resources faults cfg bloom s0 =
     (case new_engine E socks_ok cfg F ds s0 of
        (setup, s) \<Rightarrow>
          (case start_frontier E bt ba score now e_pages e_resources faults cfg (ct_pages (st_content s)) (ct_resources (st_content s))
                  bloom (cd_seeds (st_crawl s)) of
             (seeds, f) \<Rightarrow> (setup, s\<lparr>st_crawl := (st_crawl s)\<lparr>cd_seeds := seeds\<rparr>\<rparr>, f)))"

subsection \<open>What a started node holds\<close>

lemma seeds_frontier_ok:
  assumes "scorer_contract score" "frontier_ok E (snd st)"
  shows "frontier_ok E (snd (seed_urls_from_config E bt ba score now faults cfg pages st))
    \<and> fr_black (snd (seed_urls_from_config E bt ba score now faults cfg pages st)) = fr_black (snd st)"
proof -
  have one: "frontier_ok E (snd (add_config_seed E bt ba score now faults d pages c st))
      \<and> fr_black (snd (add_config_seed E bt ba score now faults d pages c st)) = fr_black (snd st)"
    if "frontier_ok E (snd st)" for c d st
    using that by (auto simp: add_config_seed_def add_ok [OF assms(1)] split: prod.splits sum.splits)
  have "frontier_ok E (snd (fold (add_config_seed E bt ba score now faults d pages) cs st))
      \<and> fr_black (snd (fold (add_config_seed E bt ba score now faults d pages) cs st)) = fr_black (snd st)" for cs d
    using assms(2) by (induction cs arbitrary: st) (simp_all add: one)
  then show ?thesis by (simp add: seed_urls_from_config_def)
qed

lemma seed_counts_black: "fr_black (seed_fingerprint_counts fps f) = fr_black f"
proof -
  have "fr_black (fold bump fps f) = fr_black f" by (induction fps arbitrary: f) (simp_all add: bump_def)
  then show ?thesis by (simp add: seed_fingerprint_counts_def)
qed

lemma seed_bloom_ok:
  assumes "seen_filter bt ba"
  shows "frontier_ok E (snd (seed_bloom_filter ba None e_resources pages resources (new_frontier (new_queue b) bl mx)))
    \<and> fr_black (snd (seed_bloom_filter ba None e_resources pages resources (new_frontier (new_queue b) bl mx))) = bl"
proof -
  have "fr_black (snd (seed_bloom_filter ba None e_resources pages resources (new_frontier (new_queue b) bl mx))) = bl"
    by (auto simp: seed_bloom_filter_def get_all_page_urls_def get_all_discovered_urls_def seed_counts_black mark_stored_def
        new_frontier_def Let_def split: option.splits)
  then show ?thesis using seed_bloom_fresh [OF assms, of e_resources pages resources b bl mx]
    by (simp add: frontier_ok_def fresh_queue_def)
qed



end
