(* ===== verification/Spec2Isabelle.thy ===== *)
theory Spec2Isabelle
  imports Queue Workers RateLimit Frontier SiteHints SpellCheck EngineSafety SearchStore Scheduler BatchWriter Purge DomainStats DnsCache Api ParserFacts
    QueueDrain SearchNavigational Server Lifecycle Background StoreOpen Node
begin

text \<open>
  Verification library of Duvycrawl, a web crawler and search engine written in Go. The theories model the Go
  code under \<open>src/internal\<close> and \<open>src/cmd\<close>, one theory per component, and prove what makes each
  component correct. A definition carries the name of the Go function it translates, in snake case; the record of a
  Go struct prefixes its fields with a few letters (\<open>j_url\<close> is \<open>CrawlJob.URL\<close>).

  \<^bold>\<open>How the program works.\<close> A crawler node (\<open>cmd/crawler\<close>) holds pending URLs in memory: the frontier
  admits links to a priority queue, a pool of workers takes jobs from it under a rate limit per domain, fetches and parses
  the pages, and hands them to a batch writer that fills three SQLite databases (content, crawler, graph). A scheduler puts
  stale seeds and home pages back. A search node (\<open>cmd/search-api\<close>) answers queries from the same content database.
  Both serve a REST API.

  \<^bold>\<open>Theories.\<close>

  Foundations. \<open>Prelude\<close>: type synonyms, the collections \<open>wf_intros\<close>, \<open>frame_simps\<close> and \<open>bound_intros\<close>, lemmas on lists.
  \<open>GoStrings\<close>, \<open>Utf8\<close>, \<open>GoUrl\<close>, \<open>GoNet\<close>, \<open>GoTime\<close>, \<open>GoSort\<close>, \<open>Regex\<close>: what the code uses of Go's
  \<open>strings\<close>, \<open>unicode/utf8\<close>, \<open>net/url\<close>, \<open>net\<close> and \<open>strconv\<close>, \<open>time\<close>, \<open>sort\<close> and
  \<open>regexp\<close>, written out so that programs evaluate. \<open>Table\<close> and \<open>Sql\<close>: tables with ids, upserts, \<open>LIKE\<close>.

  The frontier. \<open>Queue\<close> is \<open>queue/queue.go\<close>: a sorted list of jobs per domain, the round robin and the Bloom filter, a locale
  \<open>seen_filter\<close> of which every proof about deduplication uses only the laws. \<open>Workers\<close> adds the condition variable
  around it as an interleaving of goroutines, and \<open>QueueDrain\<close> shows that taking jobs ends. \<open>RateLimit\<close> is \<open>ratelimit/ratelimit.go\<close>, with the locale of readiness
  tests through which a dequeue calls it. \<open>UrlFilter\<close>, \<open>Fingerprint\<close>, \<open>Scorer\<close>, \<open>SiteHints\<close>, \<open>Config\<close>
  are the packages of these names, and \<open>Frontier\<close> is \<open>frontier/frontier.go\<close> on top of them.

  The crawler. \<open>Fetcher\<close>, \<open>Proxy\<close>, \<open>Robots\<close>, \<open>DnsCache\<close>, \<open>DomainStats\<close>, \<open>RenderDecider\<close>,
  \<open>RenderBacklog\<close>, \<open>Resources\<close> are the files of \<open>internal/crawler\<close>. \<open>Html\<close>, \<open>PageDate\<close>, \<open>JsonLd\<close>,
  \<open>Parser\<close> and \<open>ParserFacts\<close> are \<open>parser.go\<close>. \<open>Renderer\<close> is \<open>render/renderer.go\<close>: launching the
  browser, the semaphore of its tabs and the document of a tab. \<open>Pages\<close> holds the records that pages go through. \<open>Engine\<close>
  is what a worker does with one job, \<open>EngineSafety\<close> what the engine keeps, and \<open>Lifecycle\<close> how it starts and stops.

  Storage. \<open>CrawlDb\<close> and \<open>Scheduler\<close>: the crawler database and the re-crawl tick. \<open>PageDb\<close>, \<open>BatchWriter\<close>,
  \<open>LinkRank\<close>, \<open>Purge\<close>, \<open>Profile\<close>, \<open>StoreAdmin\<close>: the content and graph databases, the batch writer,
  PageRank, the purge of blacklisted domains, the interest profile, migrations and statistics. \<open>StoreOpen\<close> opens and closes
  the connection pools.

  Search. \<open>EditDistance\<close> and \<open>SpellCheck\<close>; \<open>SearchText\<close>, \<open>SearchQuery\<close>, \<open>SearchScore\<close>,
  \<open>SearchRank\<close>, \<open>SearchPages\<close>, \<open>SearchNavigational\<close> and \<open>SearchStore\<close> are \<open>sqlite_search.go\<close> from the text of a query to a page of results.

  The API. \<open>Middleware\<close>, \<open>Ingest\<close> and \<open>Api\<close> are \<open>internal/api\<close>: the middleware stack, the pages sent by the
  browser extension, and every other handler; \<open>Server\<close> adds the routes and the multiplexer.

  The process. \<open>Background\<close> holds the ticker goroutines of the components with their \<open>Stop\<close>; \<open>Startup\<close> and
  \<open>Node\<close> are what \<open>cmd/crawler/main.go\<close> does with the engine and the databases before it crawls.

  \<^bold>\<open>How state and errors correspond.\<close> A struct that methods change is a record, and a method is a function that
  returns the new record beside its result; a package that works on a database takes and returns the tables. An \<open>error\<close>
  is \<open>None\<close>, \<open>Inl\<close> or a constructor, as the callers tell it apart, and a panic is a value of its own (\<open>Panicked\<close>,
  \<open>Crashed\<close>, \<open>Handler_panic\<close>). The errors of the driver, the network and the browser are arguments, one for each
  statement or call that can fail, so that a theorem holds whichever of them fail.

  \<^bold>\<open>Interfaces.\<close> What one component relies on in another is a locale, interpreted on the code's definitions: \<open>seen_filter\<close>
  (the laws of the Bloom filter), \<open>ready_gate\<close> (the readiness test a dequeue is given, met by the rate limiter),
  \<open>scorer_contract\<close> (what the queue needs of a scoring strategy, met by both), \<open>keyed_table\<close> and
  \<open>idempotent_table\<close> (upserts, met by the tables of the databases), \<open>weak_order\<close> (the comparisons given to a sort),
  \<open>grid\<close> (the flat table of a dynamic program) and \<open>periodic\<close> (what a background loop and its clients keep, met by the batch writer).

  \<^bold>\<open>What the lemmas show.\<close> Each theory proves an invariant of its state for every operation, the behaviour of its
  operations on every branch, and then its main theorems, which carry the claim ids: among others that a dequeue serves
  the domains fairly and claims the best job; that no wake-up of a worker is lost; that a domain and a client are never
  served faster than their limits; that whatever the network answers the engine only holds admissible jobs; that
  Damerau-Levenshtein distances are those of the recursion; that a flush is all or nothing, and that after
  \<open>Stop\<close> every page handed to the batch writer is stored; that the site a query names comes first among the navigational candidates;
  that a node that has started holds no page and no job of a blacklisted domain; that the browser never has more tabs than configured;
  and that links, images and dates of a parsed page are sound. Where the code does not do what it means
  to, the theorem states what it does (a redirect to a blacklisted domain is indexed; the pools stay open when the cache
  cannot be created; two overlapping starts leave workers that nothing stops).

  \<^bold>\<open>Loops and fuel.\<close> No definition uses fuel: loops are structural recursion over the data they walk, or functions
  with a measure; \<open>drain\<close> is a partial function that is proved to return; loops that wait (workers, tickers, servers) are steps of a relation. \<open>SliceStable\<close> is the insertion
  sort that Go uses up to 20 elements; the theorems about sorting hold for any weak order.

  \<^bold>\<open>Idealisations.\<close> \<open>float64\<close> is a real number, without rounding, infinities and NaN. A time is the number of
  nanoseconds since year 1, and times compare as instants. The order in which Go walks a map is an argument. Operations that hold a mutex
  for their whole body are one step; where the code releases it in between (workers, robots.txt, DNS), the halves are steps
  of their own. Handling one job is one step of the engine. Rows come in the order of their ids where a query gives no order, and
  ids grow. A background goroutine of an API handler takes effect before the next request.

  \<^bold>\<open>Parameters.\<close> Code that is not in the repository is an argument of the definitions that use it: the Bloom filter, the
  HTML parser, readability, language and charset detection, the JSON and YAML decoders, the robots.txt parser, the public suffix list,
  Unicode tables and normalisation, what a full-text query matches, SHA-256 and the network. The hypotheses about them are the
  documented ones (a Bloom filter has no false negatives) and each is met by a witness.

  \<^bold>\<open>Not modelled.\<close> Logging; the SQLite driver, its data source names and what a pragma or VACUUM does; the TLS, cookie and
  connection settings of \<open>net/http\<close>; the commands of the Chrome protocol; the wrapper around the Ristretto cache, whose methods only call
  the library; flags, signals, exit codes and the order of shutdown of the two programs; the text of indexes and triggers; the
  health check, which is pure output; and \<open>buildSQLScoreExpr\<close>, which nothing calls.
\<close>

end
